(* ===== verification/Prelude.thy ===== *)
theory Prelude
  imports Main
begin

text \<open>
  Shared ground of the development: the JavaScript values and exceptions that more than one
  component needs, the collections of rewrite rules, and the generic facts on lists and on
  transition systems that the component theories use.
\<close>

text \<open>The definitions of a group of operations, for the proofs that unfold them together.\<close>

named_theorems operation_defs

section \<open>Values and exceptions of the language\<close>

text \<open>A property that may be absent (\<open>undefined\<close>), \<open>null\<close>, or a value.\<close>

datatype 'a jsv = Undefined | Null | Val 'a

text \<open>The exceptions the modelled code can raise.\<close>

datatype js_error =
    TypeError        \<comment> \<open>property access on \<open>null\<close> or \<open>undefined\<close>\<close>
  | NotATeamList     \<comment> \<open>a stored text that is not a JSON array of strings and nulls\<close>

type_synonym 'a outcome = "js_error + 'a"

definition bind_outcome :: "'a outcome \<Rightarrow> ('a \<Rightarrow> 'b outcome) \<Rightarrow> 'b outcome" where
  "bind_outcome r f = (case r of Inl e \<Rightarrow> Inl e | Inr x \<Rightarrow> f x)"

lemma bind_outcome_simps [simp]:
  "bind_outcome (Inl e) f = Inl e"
  "bind_outcome (Inr x) f = f x"
  by (simp_all add: bind_outcome_def)

lemma bind_outcome_Inr_iff:
  "bind_outcome r f = Inr y \<longleftrightarrow> (\<exists>x. r = Inr x \<and> f x = Inr y)"
  by (cases r) simp_all

text \<open>Reading an array by index: out of range is \<open>undefined\<close>.\<close>

definition nth_opt :: "'a list \<Rightarrow> nat \<Rightarrow> 'a option" where
  "nth_opt xs i = (if i < length xs then Some (xs ! i) else None)"

lemma nth_opt_simps [simp]:
  "nth_opt [] i = None"
  "nth_opt (x # xs) 0 = Some x"
  "nth_opt (x # xs) (Suc i) = nth_opt xs i"
  by (simp_all add: nth_opt_def)

lemma nth_opt_Some_iff: "nth_opt xs i = Some x \<longleftrightarrow> i < length xs \<and> xs ! i = x"
  by (simp add: nth_opt_def)

lemma nth_opt_append: "nth_opt (xs @ ys) i =
    (if i < length xs then nth_opt xs i else nth_opt ys (i - length xs))"
  by (auto simp: nth_opt_def nth_append)

lemma nth_opt_map: "nth_opt (map f xs) i = map_option f (nth_opt xs i)"
  by (simp add: nth_opt_def)

section \<open>Lists\<close>

lemma takeWhile_all: "(\<And>x. x \<in> set xs \<Longrightarrow> P x) \<Longrightarrow> takeWhile P xs = xs"
  by (induction xs) auto

lemma dropWhile_none: "(\<And>x. x \<in> set xs \<Longrightarrow> P x) \<Longrightarrow> dropWhile P xs = []"
  by (induction xs) auto

lemma takeWhile_append_stop: "(\<And>x. x \<in> set xs \<Longrightarrow> P x) \<Longrightarrow> \<not> P y \<Longrightarrow>
    takeWhile P (xs @ y # ys) = xs"
  by (induction xs) auto

lemma dropWhile_append_stop: "(\<And>x. x \<in> set xs \<Longrightarrow> P x) \<Longrightarrow> \<not> P y \<Longrightarrow>
    dropWhile P (xs @ y # ys) = y # ys"
  by (induction xs) auto

lemma dropWhile_head: "xs \<noteq> [] \<Longrightarrow> \<not> P (hd xs) \<Longrightarrow> dropWhile P xs = xs"
  by (cases xs) auto

lemma length_filter_mem_distinct:
  assumes "distinct xs" "distinct ys"
  shows "length (filter (\<lambda>x. x \<in> set ys) xs) = length (filter (\<lambda>y. y \<in> set xs) ys)"
proof -
  have "set (filter (\<lambda>x. x \<in> set ys) xs) = set (filter (\<lambda>y. y \<in> set xs) ys)" by auto
  moreover have "distinct (filter (\<lambda>x. x \<in> set ys) xs)" "distinct (filter (\<lambda>y. y \<in> set xs) ys)"
    using assms by simp_all
  ultimately show ?thesis by (metis distinct_card)
qed

lemma fold_invariant_list:
  assumes "P s" "\<And>x s. x \<in> set xs \<Longrightarrow> P s \<Longrightarrow> P (f x s)"
  shows "P (fold f xs s)"
  using assms by (induction xs arbitrary: s) auto

text \<open>The values present in a list of options.\<close>

fun somes :: "'a option list \<Rightarrow> 'a list" where
  "somes [] = []"
| "somes (None # xs) = somes xs"
| "somes (Some x # xs) = x # somes xs"

lemma somes_append [simp]: "somes (xs @ ys) = somes xs @ somes ys"
  by (induction xs rule: somes.induct) auto

lemma set_somes: "x \<in> set (somes xs) \<longleftrightarrow> Some x \<in> set xs"
  by (induction xs rule: somes.induct) auto

lemma somes_map_Some [simp]: "somes (map Some xs) = xs"
  by (induction xs) auto

lemma somes_take_Suc: "i < length xs \<Longrightarrow> somes (take (Suc i) xs) =
    somes (take i xs) @ (case xs ! i of None \<Rightarrow> [] | Some x \<Rightarrow> [x])"
  by (simp add: take_Suc_conv_app_nth split: option.split)

lemma somes_nth_take:
  "i < length xs \<Longrightarrow> xs ! i = Some x \<Longrightarrow>
   length (somes (take i xs)) < length (somes xs) \<and> somes xs ! length (somes (take i xs)) = x"
proof -
  assume i: "i < length xs" "xs ! i = Some x"
  have "xs = take i xs @ Some x # drop (Suc i) xs" using id_take_nth_drop [OF i(1)] i(2) by simp
  then have "somes xs = somes (take i xs) @ x # somes (drop (Suc i) xs)"
    by (metis somes.simps(3) somes_append)
  then show ?thesis by simp
qed

section \<open>Transition systems\<close>

text \<open>
  The interactive parts of the page (the refresh timer, the keyboard shortcuts) are driven by
  events in any order. \<open>event_system\<close> is the interface such a part offers: the states it may
  start in, its steps, and an invariant that holds at the start and that every step keeps.
  What a client learns is that the invariant holds after every run.
\<close>

inductive reachable_from :: "('s \<Rightarrow> bool) \<Rightarrow> ('s \<Rightarrow> 'e \<Rightarrow> 's \<Rightarrow> bool) \<Rightarrow> 's \<Rightarrow> bool"
  for start :: "'s \<Rightarrow> bool" and step :: "'s \<Rightarrow> 'e \<Rightarrow> 's \<Rightarrow> bool" where
  reach_start: "start s \<Longrightarrow> reachable_from start step s"
| reach_step: "reachable_from start step s \<Longrightarrow> step s e t \<Longrightarrow> reachable_from start step t"

locale event_system =
  fixes start :: "'s \<Rightarrow> bool"
    and step :: "'s \<Rightarrow> 'e \<Rightarrow> 's \<Rightarrow> bool"
    and inv :: "'s \<Rightarrow> bool"
  assumes start_inv: "start s \<Longrightarrow> inv s"
    and step_inv: "inv s \<Longrightarrow> step s e t \<Longrightarrow> inv t"
begin

lemma reachable_inv: "reachable_from start step s \<Longrightarrow> inv s"
  by (induction rule: reachable_from.induct) (auto intro: start_inv step_inv)

end

text \<open>
  \<open>simulation\<close>: such a part that moreover implements an abstract machine. Each of its steps, taken
  where the invariant holds, is a step of the machine; so every run follows one of the machine's.
\<close>

locale simulation = event_system start step inv
  for start :: "'s \<Rightarrow> bool" and step :: "'s \<Rightarrow> 'e \<Rightarrow> 's \<Rightarrow> bool" and inv :: "'s \<Rightarrow> bool" +
  fixes abs :: "'s \<Rightarrow> 'a"
    and abs_start :: 'a
    and abs_step :: "'a \<Rightarrow> 'a \<Rightarrow> bool"
  assumes start_abs: "start s \<Longrightarrow> abs s = abs_start"
    and step_abs: "inv s \<Longrightarrow> step s e t \<Longrightarrow> abs_step (abs s) (abs t)"
begin

lemma reachable_step: "reachable_from start step s \<Longrightarrow> step s e t \<Longrightarrow> abs_step (abs s) (abs t)"
  by (rule step_abs [OF reachable_inv])

lemma reachable_abs: "reachable_from start step s \<Longrightarrow> abs_step\<^sup>*\<^sup>* abs_start (abs s)"
proof (induction rule: reachable_from.induct)
  case (reach_step s e t)
  then show ?case using reachable_step by (meson rtranclp.rtrancl_into_rtrancl)
qed (simp add: start_abs)

end

end
