(* ===== verification/JsString.thy ===== *)
theory JsString
  imports Prelude "HOL-Library.Char_ord"
begin

text \<open>
  The part of the JavaScript standard library that the modelled code calls on strings:
  \<open>split\<close> and \<open>join\<close> on a one-character separator, \<open>trim\<close>, \<open>substr\<close>, \<open>indexOf\<close>,
  \<open>lastIndexOf\<close>, \<open>toLowerCase\<close>, decimal printing, \<open>parseInt\<close>, \<open>escape\<close>, \<open>unescape\<close>,
  \<open>encodeURIComponent\<close>, and \<open>JSON\<close> on arrays of strings. A string is a list of characters with
  codes below 256; code units above that are outside the model.
\<close>

section \<open>Splitting and joining\<close>

fun split_on :: "'a \<Rightarrow> 'a list \<Rightarrow> 'a list list" where
  "split_on c [] = [[]]"
| "split_on c (x # xs) =
     (if x = c then [] # split_on c xs
      else (case split_on c xs of y # ys \<Rightarrow> (x # y) # ys | [] \<Rightarrow> [[x]]))"

fun join_with :: "'a list \<Rightarrow> 'a list list \<Rightarrow> 'a list" where
  "join_with sep [] = []"
| "join_with sep [x] = x"
| "join_with sep (x # y # ys) = x @ sep @ join_with sep (y # ys)"

lemma split_on_not_Nil [simp]: "split_on c xs \<noteq> []"
  by (induction xs) (auto split: list.splits)

lemma split_on_no_sep: "c \<notin> set xs \<Longrightarrow> split_on c xs = [xs]"
  by (induction xs) auto

lemma split_on_append_sep: "c \<notin> set xs \<Longrightarrow> split_on c (xs @ c # ys) = xs # split_on c ys"
  by (induction xs) auto

lemma join_with_Cons: "ys \<noteq> [] \<Longrightarrow> join_with sep (x # ys) = x @ sep @ join_with sep ys"
  by (cases ys) auto

lemma join_split [simp]: "join_with [c] (split_on c xs) = xs"
proof (induction xs)
  case (Cons x xs)
  obtain y ys where s: "split_on c xs = y # ys" by (cases "split_on c xs") auto
  with Cons show ?case by (cases ys) auto
qed simp

lemma split_join:
  "xs \<noteq> [] \<Longrightarrow> (\<And>x. x \<in> set xs \<Longrightarrow> c \<notin> set x) \<Longrightarrow> split_on c (join_with [c] xs) = xs"
proof (induction "[c]" xs rule: join_with.induct)
  case (3 x y ys)
  then show ?case by (simp add: split_on_append_sep)
qed (auto simp: split_on_no_sep)

lemma join_with_snoc: "xs \<noteq> [] \<Longrightarrow> join_with sep (xs @ [y]) = join_with sep xs @ sep @ y"
  by (induction sep xs rule: join_with.induct) auto

lemma split_on_part_no_sep: "x \<in> set (split_on c xs) \<Longrightarrow> c \<notin> set x"
  by (induction xs arbitrary: x) (auto split: if_splits list.splits)

lemma split_on_last_decomp:
  "xs = join_with [c] (butlast (split_on c xs) @ [last (split_on c xs)])"
  by simp

section \<open>White space, search, sub-strings\<close>

lemma split_on_snoc: "c \<notin> set ys \<Longrightarrow> split_on c (xs @ c # ys) = split_on c xs @ [ys]"
proof (induction xs)
  case (Cons x xs)
  then show ?case by (cases "split_on c xs") auto
qed (simp add: split_on_no_sep)


definition is_ws :: "char \<Rightarrow> bool" where
  "is_ws c = (of_char c \<in> {9, 10, 11, 12, 13, 32, 160 :: nat})"

definition trim :: "string \<Rightarrow> string" where
  "trim s = rev (dropWhile is_ws (rev (dropWhile is_ws s)))"

lemma dropWhile_no_ws: "(\<And>c. c \<in> set s \<Longrightarrow> \<not> is_ws c) \<Longrightarrow> dropWhile is_ws s = s"
  by (cases s) auto

lemma trim_no_ws: "(\<And>c. c \<in> set s \<Longrightarrow> \<not> is_ws c) \<Longrightarrow> trim s = s"
  using dropWhile_no_ws [of s] dropWhile_no_ws [of "rev s"] by (simp add: trim_def)

lemma trim_lead: "is_ws c \<Longrightarrow> trim (c # s) = trim s"
  by (simp add: trim_def)

text \<open>\<open>indexOf\<close> and \<open>lastIndexOf\<close> of one character; \<open>None\<close> is -1.\<close>

fun index_of :: "'a \<Rightarrow> 'a list \<Rightarrow> nat option" where
  "index_of c [] = None"
| "index_of c (x # xs) = (if x = c then Some 0 else map_option Suc (index_of c xs))"

fun last_index_of :: "'a \<Rightarrow> 'a list \<Rightarrow> nat option" where
  "last_index_of c [] = None"
| "last_index_of c (x # xs) =
     (case last_index_of c xs of
        Some i \<Rightarrow> Some (Suc i)
      | None \<Rightarrow> if x = c then Some 0 else None)"

lemma index_of_None [simp]: "index_of c xs = None \<longleftrightarrow> c \<notin> set xs"
  by (induction xs) auto

lemma index_of_absent [simp]: "c \<notin> set xs \<Longrightarrow> index_of c xs = None"
  by simp

lemma index_of_append: "c \<notin> set xs \<Longrightarrow> index_of c (xs @ c # ys) = Some (length xs)"
  by (induction xs) auto

lemma last_index_of_None [simp]: "last_index_of c xs = None \<longleftrightarrow> c \<notin> set xs"
  by (induction xs) (auto split: option.splits)

lemma last_index_of_append: "c \<notin> set ys \<Longrightarrow> last_index_of c (xs @ c # ys) = Some (length xs)"
  by (induction xs) (auto split: option.splits)

definition to_lower_char :: "char \<Rightarrow> char" where
  "to_lower_char c = (let n = of_char c :: nat in
     if 65 \<le> n \<and> n \<le> 90 \<or> 192 \<le> n \<and> n \<le> 222 \<and> n \<noteq> 215 then char_of (n + 32) else c)"

definition to_lower :: "string \<Rightarrow> string" where
  "to_lower s = map to_lower_char s"

section \<open>Decimal numbers\<close>

definition digit_char :: "nat \<Rightarrow> char" where
  "digit_char d = char_of (48 + d)"

definition is_digit :: "char \<Rightarrow> bool" where
  "is_digit c = (48 \<le> (of_char c :: nat) \<and> (of_char c :: nat) \<le> 57)"

definition digit_val :: "char \<Rightarrow> nat" where
  "digit_val c = of_char c - 48"

fun show_nat :: "nat \<Rightarrow> string" where
  "show_nat n = (if n < 10 then [digit_char n] else show_nat (n div 10) @ [digit_char (n mod 10)])"

declare show_nat.simps [simp del]

definition read_nat :: "string \<Rightarrow> nat" where
  "read_nat s = foldl (\<lambda>a c. 10 * a + digit_val c) 0 s"

definition show_int :: "int \<Rightarrow> string" where
  "show_int i = (if i < 0 then ''-'' @ show_nat (nat (- i)) else show_nat (nat i))"

lemma digit_chars [simp]:
  "digit_char 0 = CHR ''0''" "digit_char (Suc 0) = CHR ''1''" "digit_char 1 = CHR ''1''"
  "digit_char 2 = CHR ''2''" "digit_char 3 = CHR ''3''" "digit_char 4 = CHR ''4''"
  "digit_char 5 = CHR ''5''" "digit_char 6 = CHR ''6''" "digit_char 7 = CHR ''7''"
  "digit_char 8 = CHR ''8''" "digit_char 9 = CHR ''9''"
  by (simp_all add: digit_char_def char_of_eq_iff)

lemma of_char_digit_char: "d < 10 \<Longrightarrow> of_char (digit_char d) = 48 + d"
  by (simp add: digit_char_def)

lemma is_digit_digit_char [simp]: "d < 10 \<Longrightarrow> is_digit (digit_char d)"
  by (simp add: is_digit_def of_char_digit_char)

lemma digit_val_digit_char [simp]: "d < 10 \<Longrightarrow> digit_val (digit_char d) = d"
  by (simp add: digit_val_def of_char_digit_char)

lemma show_nat_not_Nil [simp]: "show_nat n \<noteq> []"
  by (subst show_nat.simps) simp

lemma show_nat_digits: "c \<in> set (show_nat n) \<Longrightarrow> is_digit c"
proof (induction n rule: show_nat.induct)
  case (1 n)
  then show ?case by (cases "n < 10") (auto simp: show_nat.simps [of n])
qed

lemma read_show_nat [simp]: "read_nat (show_nat n) = n"
proof (induction n rule: show_nat.induct)
  case (1 n)
  then show ?case by (cases "n < 10") (auto simp: show_nat.simps [of n] read_nat_def)
qed

lemma show_nat_inj: "show_nat m = show_nat n \<longleftrightarrow> m = n"
  by (metis read_show_nat)

lemma show_nat_length: "n < 10 \<Longrightarrow> length (show_nat n) = 1"
  by (simp add: show_nat.simps)

lemma show_nat_small: "n < 10 \<Longrightarrow> show_nat n = [digit_char n]"
  by (simp add: show_nat.simps)

lemma is_digit_neq:
  "is_digit c \<Longrightarrow> c \<noteq> CHR ''-''" "is_digit c \<Longrightarrow> c \<noteq> CHR ''+''" "is_digit c \<Longrightarrow> c \<noteq> CHR ''/''"
  "is_digit c \<Longrightarrow> c \<noteq> CHR ''?''" "is_digit c \<Longrightarrow> c \<noteq> CHR '',''" "is_digit c \<Longrightarrow> c \<noteq> CHR '':''"
  "is_digit c \<Longrightarrow> c \<noteq> CHR '';''" "is_digit c \<Longrightarrow> c \<noteq> CHR ''d''" "is_digit c \<Longrightarrow> c \<noteq> CHR '' ''"
  "is_digit c \<Longrightarrow> c \<noteq> CHR ''x''" "is_digit c \<Longrightarrow> c \<noteq> CHR ''X''"
  by (auto simp: is_digit_def)

lemma is_digit_not_ws: "is_digit c \<Longrightarrow> \<not> is_ws c"
  by (auto simp: is_digit_def is_ws_def)

lemma show_int_not_in:
  "\<not> is_digit c \<Longrightarrow> c \<noteq> CHR ''-'' \<Longrightarrow> c \<notin> set (show_int i)"
  by (auto simp: show_int_def dest: show_nat_digits)

text \<open>
  \<open>parseInt\<close> with no radix: leading white space, an optional sign, then base 16 after \<open>0x\<close>,
  base 10 otherwise, up to the first character that is no digit; \<open>None\<close> is \<open>NaN\<close>. Results are
  exact integers; a double is exact below 2 to the 53rd.
\<close>

definition hex_val :: "char \<Rightarrow> nat option" where
  "hex_val c = (let n = of_char c :: nat in
     if 48 \<le> n \<and> n \<le> 57 then Some (n - 48)
     else if 65 \<le> n \<and> n \<le> 70 then Some (n - 55)
     else if 97 \<le> n \<and> n \<le> 102 then Some (n - 87) else None)"

definition read_hex :: "string \<Rightarrow> nat" where
  "read_hex s = foldl (\<lambda>a c. 16 * a + (case hex_val c of Some d \<Rightarrow> d | None \<Rightarrow> 0)) 0 s"

definition parse_unsigned :: "string \<Rightarrow> nat option" where
  "parse_unsigned s =
     (if length s \<ge> 2 \<and> s ! 0 = CHR ''0'' \<and> (s ! 1 = CHR ''x'' \<or> s ! 1 = CHR ''X'')
      then (let ds = takeWhile (\<lambda>c. hex_val c \<noteq> None) (drop 2 s)
            in if ds = [] then None else Some (read_hex ds))
      else (let ds = takeWhile is_digit s in if ds = [] then None else Some (read_nat ds)))"

definition parseInt :: "string \<Rightarrow> int option" where
  "parseInt s = (case dropWhile is_ws s of
       [] \<Rightarrow> None
     | c # cs \<Rightarrow>
         if c = CHR ''-'' then map_option (\<lambda>n. - int n) (parse_unsigned cs)
         else if c = CHR ''+'' then map_option int (parse_unsigned cs)
         else map_option int (parse_unsigned (c # cs)))"

lemma parse_unsigned_digits:
  assumes "ds \<noteq> []" "\<And>c. c \<in> set ds \<Longrightarrow> is_digit c" "rest = [] \<or> \<not> is_digit (hd rest)"
    and "length ds = 1 \<longrightarrow> rest = [] \<or> hd rest \<notin> {CHR ''x'', CHR ''X''}"
  shows "parse_unsigned (ds @ rest) = Some (read_nat ds)"
proof -
  have tw: "takeWhile is_digit (ds @ rest) = ds"
    using assms(2,3) by (cases rest) (auto simp: takeWhile_all takeWhile_append_stop)
  have "(ds @ rest) ! 1 \<notin> {CHR ''x'', CHR ''X''}" if "length (ds @ rest) \<ge> 2"
  proof (cases "length ds = 1")
    case True
    with that assms(4) show ?thesis by (cases rest) (auto simp: nth_append)
  next
    case False
    with assms(1) have "1 < length ds" by (cases ds) auto
    with assms(2) show ?thesis by (auto simp: nth_append is_digit_neq dest!: nth_mem)
  qed
  with tw assms(1) show ?thesis by (auto simp: parse_unsigned_def Let_def)
qed

lemma parseInt_show_int:
  assumes "rest = [] \<or> \<not> is_digit (hd rest) \<and> hd rest \<notin> {CHR ''x'', CHR ''X''}"
  shows "parseInt (show_int i @ rest) = Some i"
proof -
  have pu: "parse_unsigned (show_nat n @ rest) = Some n" for n
    using parse_unsigned_digits [of "show_nat n" rest] assms by (auto simp: show_nat_digits)
  have hd: "is_digit (hd (show_nat n))" for n
    using show_nat_digits [of "hd (show_nat n)" n] by simp
  show ?thesis
  proof (cases "i < 0")
    case True
    have "is_ws (CHR ''-'') = False" by (simp add: is_ws_def)
    with True pu show ?thesis by (simp add: parseInt_def show_int_def)
  next
    case False
    obtain c cs where s: "show_nat (nat i) = c # cs" by (cases "show_nat (nat i)") auto
    with hd [of "nat i"] have "is_digit c" by simp
    with False s pu [of "nat i"] show ?thesis
      by (simp add: parseInt_def show_int_def is_digit_not_ws is_digit_neq)
  qed
qed

lemma show_int_inj: "show_int i = show_int j \<longleftrightarrow> i = j"
  by (metis parseInt_show_int option.inject)

section \<open>Percent encodings\<close>

definition hex_char :: "nat \<Rightarrow> char" where
  "hex_char d = char_of (if d < 10 then 48 + d else 55 + d)"

lemma hex_val_hex_char [simp]: "d < 16 \<Longrightarrow> hex_val (hex_char d) = Some d"
  by (auto simp: hex_val_def hex_char_def Let_def)

definition pct :: "nat \<Rightarrow> string" where
  "pct n = [CHR ''%'', hex_char (n div 16), hex_char (n mod 16)]"

definition is_alnum :: "char \<Rightarrow> bool" where
  "is_alnum c = (let n = of_char c :: nat in
     48 \<le> n \<and> n \<le> 57 \<or> 65 \<le> n \<and> n \<le> 90 \<or> 97 \<le> n \<and> n \<le> 122)"

definition escape_safe :: "char \<Rightarrow> bool" where
  "escape_safe c = (is_alnum c \<or> c \<in> set ''@*_+-./'')"

definition escape :: "string \<Rightarrow> string" where
  "escape s = concat (map (\<lambda>c. if escape_safe c then [c] else pct (of_char c)) s)"

definition uri_safe :: "char \<Rightarrow> bool" where
  "uri_safe c = (is_alnum c \<or> c \<in> set ''-_.!~*()'' \<or> (of_char c :: nat) = 39)"

definition encodeURIComponent :: "string \<Rightarrow> string" where
  "encodeURIComponent s = concat (map (\<lambda>c. if uri_safe c then [c]
     else (let n = of_char c in if n < 128 then pct n
           else pct (192 + n div 64) @ pct (128 + n mod 64))) s)"

definition hex2 :: "string \<Rightarrow> nat option" where
  "hex2 s = (case s of
       a # b # _ \<Rightarrow> (case (hex_val a, hex_val b) of
           (Some x, Some y) \<Rightarrow> Some (16 * x + y) | _ \<Rightarrow> None)
     | _ \<Rightarrow> None)"

text \<open>
  \<open>unescape\<close>: a \<open>%uXXXX\<close> whose value is 256 or more stands for a code unit outside the
  model and is left as it is.
\<close>

fun unescape :: "string \<Rightarrow> string" where
  "unescape [] = []"
| "unescape (c # s) =
     (if c \<noteq> CHR ''%'' then c # unescape s
      else if take 3 s = ''u00'' \<and> hex2 (drop 3 s) \<noteq> None
      then char_of (the (hex2 (drop 3 s))) # unescape (drop 5 s)
      else (case hex2 s of
          Some n \<Rightarrow> char_of n # unescape (drop 2 s)
        | None \<Rightarrow> c # unescape s))"

lemma of_char_less [simp]: "(of_char (c :: char) :: nat) < 256"
  by (metis of_char_of nat_of_char_less_256)

lemma escape_Nil [simp]: "escape [] = []"
  and escape_Cons: "escape (c # s) = (if escape_safe c then [c] else pct (of_char c)) @ escape s"
  by (simp_all add: escape_def)

lemma hex_char_not_u: "d < 16 \<Longrightarrow> hex_char d \<noteq> CHR ''u''"
proof
  assume "d < 16" "hex_char d = CHR ''u''"
  moreover have "hex_val (CHR ''u'') = None" by (simp add: hex_val_def)
  ultimately show False using hex_val_hex_char [of d] by simp
qed

lemma unescape_pct: "n < 256 \<Longrightarrow> unescape (pct n @ s) = char_of n # unescape s"
  using hex_char_not_u [of "n div 16"] by (simp add: pct_def hex2_def)

lemma unescape_escape [simp]: "unescape (escape s) = s"
proof (induction s)
  case (Cons c s)
  show ?case
  proof (cases "escape_safe c")
    case True
    then have "c \<noteq> CHR ''%''" by (auto simp: escape_safe_def is_alnum_def)
    with True Cons show ?thesis by (simp add: escape_Cons)
  next
    case False
    with Cons show ?thesis by (simp add: escape_Cons unescape_pct)
  qed
qed simp

lemma hex_char_is_alnum: "d < 16 \<Longrightarrow> is_alnum (hex_char d)"
  by (auto simp: is_alnum_def hex_char_def Let_def)

lemma escape_chars: "c \<in> set (escape s) \<Longrightarrow> escape_safe c \<or> c = CHR ''%''"
proof (induction s)
  case (Cons a s)
  have "(of_char a :: nat) div 16 < 16" using of_char_less [of a] by linarith
  with Cons show ?case
    by (auto simp: escape_Cons pct_def escape_safe_def hex_char_is_alnum split: if_splits)
qed simp

lemma escape_no_special:
  "CHR '';'' \<notin> set (escape s)" "CHR ''='' \<notin> set (escape s)" "CHR '' '' \<notin> set (escape s)"
  using escape_chars [of _ s] by (force simp: escape_safe_def is_alnum_def)+

lemma escape_no_ws: "c \<in> set (escape s) \<Longrightarrow> \<not> is_ws c"
  using escape_chars [of c s] by (auto simp: escape_safe_def is_alnum_def is_ws_def Let_def)

section \<open>JSON texts of arrays of strings\<close>

text \<open>
  \<open>JSON.stringify\<close> and \<open>JSON.parse\<close> on arrays whose elements are strings or \<open>null\<close>
  (\<open>None\<close>), the only values the program stores. \<open>json_parse\<close> gives \<open>None\<close> on every other text.
\<close>

definition json_char :: "char \<Rightarrow> string" where
  "json_char c = (let n = of_char c :: nat in
     if n = 34 \<or> n = 92 then [CHR 0x5C, c]
     else if n = 8 then [CHR 0x5C, CHR ''b'']
     else if n = 9 then [CHR 0x5C, CHR ''t'']
     else if n = 10 then [CHR 0x5C, CHR ''n'']
     else if n = 12 then [CHR 0x5C, CHR ''f'']
     else if n = 13 then [CHR 0x5C, CHR ''r'']
     else if n < 32 then CHR 0x5C # ''u00'' @
       [hex_char (n div 16), to_lower_char (hex_char (n mod 16))]
     else [c])"

definition json_string :: "string \<Rightarrow> string" where
  "json_string s = CHR 0x22 # concat (map json_char s) @ [CHR 0x22]"

definition json_value :: "string option \<Rightarrow> string" where
  "json_value v = (case v of None \<Rightarrow> ''null'' | Some s \<Rightarrow> json_string s)"

definition json_stringify :: "string option list \<Rightarrow> string" where
  "json_stringify vs = ''['' @ join_with '','' (map json_value vs) @ '']''"

definition json_unescape :: "char \<Rightarrow> nat option" where
  "json_unescape e = (let n = of_char e :: nat in
     if n \<in> {34, 92, 47} then Some n
     else if e = CHR ''b'' then Some 8 else if e = CHR ''t'' then Some 9
     else if e = CHR ''n'' then Some 10 else if e = CHR ''f'' then Some 12
     else if e = CHR ''r'' then Some 13 else None)"

definition is_json_ws :: "char \<Rightarrow> bool" where
  "is_json_ws c = (of_char c \<in> {9, 10, 13, 32 :: nat})"

fun json_body :: "string \<Rightarrow> (string \<times> string) option" where
  "json_body [] = None"
| "json_body (c # s) =
     (let n = of_char c :: nat in
      if n = 34 then Some ([], s)
      else if n = 92 then
        (if take 3 s = ''u00'' then
           (case hex2 (drop 3 s) of
              None \<Rightarrow> None
            | Some m \<Rightarrow> map_option (\<lambda>(b, r). (char_of m # b, r)) (json_body (drop 5 s)))
         else (case s of
             [] \<Rightarrow> None
           | e # s' \<Rightarrow> (case json_unescape e of
               None \<Rightarrow> None
             | Some m \<Rightarrow> map_option (\<lambda>(b, r). (char_of m # b, r)) (json_body s'))))
      else if n < 32 then None
      else map_option (\<lambda>(b, r). (c # b, r)) (json_body s))"

definition json_skip :: "string \<Rightarrow> string" where
  "json_skip s = dropWhile is_json_ws s"

definition json_read_value :: "string \<Rightarrow> (string option \<times> string) option" where
  "json_read_value s = (case s of
       [] \<Rightarrow> None
     | c # r \<Rightarrow> if (of_char c :: nat) = 34 then map_option (\<lambda>(b, t). (Some b, t)) (json_body r)
         else if take 4 s = ''null'' then Some (None, drop 4 s) else None)"

fun json_elems :: "string \<Rightarrow> (string option list \<times> string) option" where
  "json_elems s = (case json_read_value (json_skip s) of
       None \<Rightarrow> None
     | Some (v, r) \<Rightarrow>
         (case json_skip r of
            [] \<Rightarrow> None
          | c # t \<Rightarrow>
              if c = CHR '']'' then Some ([v], t)
              else if c = CHR '','' \<and> length t < length s
              then map_option (\<lambda>(vs, u). (v # vs, u)) (json_elems t) else None))"

declare json_elems.simps [simp del]

definition json_parse :: "string \<Rightarrow> string option list option" where
  "json_parse s = (case json_skip s of
       [] \<Rightarrow> None
     | c # r \<Rightarrow>
         if c \<noteq> CHR ''['' then None
         else if json_skip r \<noteq> [] \<and> hd (json_skip r) = CHR '']''
         then (if json_skip (tl (json_skip r)) = [] then Some [] else None)
         else (case json_elems r of
             Some (vs, t) \<Rightarrow> if json_skip t = [] then Some vs else None
           | None \<Rightarrow> None))"

lemma hex_val_lower: "d < 16 \<Longrightarrow> hex_val (to_lower_char (hex_char d)) = Some d"
  by (auto simp: hex_val_def hex_char_def to_lower_char_def Let_def)

lemma json_body_char: "json_body (json_char c @ s) = map_option (\<lambda>(b, r). (c # b, r)) (json_body s)"
proof -
  define n where "n = (of_char c :: nat)"
  have c: "c = char_of n" by (simp add: n_def)
  have n: "n < 256" by (simp add: n_def)
  have u: "n < 32 \<Longrightarrow> n div 16 < 16" "n mod 16 < 16" by auto
  consider "n = 34" | "n = 92" | "n = 8" | "n = 9" | "n = 10" | "n = 12" | "n = 13"
    | "n < 32" "n \<notin> {8, 9, 10, 12, 13}" | "32 \<le> n" "n \<noteq> 34" "n \<noteq> 92" by fastforce
  then show ?thesis
  proof cases
    case 8
    then have "json_char c = CHR 0x5C # ''u00'' @
       [hex_char (n div 16), to_lower_char (hex_char (n mod 16))]"
      by (auto simp: json_char_def Let_def n_def [symmetric])
    with 8 u c n show ?thesis by (simp add: hex2_def hex_val_lower)
  qed (use c n in \<open>simp_all add: json_char_def json_unescape_def n_def [symmetric]
         char_of_eq_iff\<close>)
qed

lemma json_body_string:
  "json_body (concat (map json_char s) @ CHR 0x22 # r) = Some (s, r)"
  by (induction s) (simp_all add: json_body_char)

lemma json_read_value [simp]: "json_read_value (json_value v @ r) = Some (v, r)"
  using json_body_string
  by (cases v) (simp_all add: json_value_def json_read_value_def json_string_def)

lemma json_skip_value [simp]: "json_skip (json_value v @ r) = json_value v @ r"
  by (cases v) (simp_all add: json_skip_def json_value_def json_string_def is_json_ws_def)

lemma json_skip_punct [simp]:
  "json_skip (CHR '','' # r) = CHR '','' # r" "json_skip (CHR '']'' # r) = CHR '']'' # r"
  "json_skip (CHR ''['' # r) = CHR ''['' # r" "json_skip [] = []"
  by (simp_all add: json_skip_def is_json_ws_def)

lemma json_elems_join:
  "vs \<noteq> [] \<Longrightarrow> json_elems (join_with '','' (map json_value vs) @ '']'' @ r) = Some (vs, r)"
proof (induction vs)
  case (Cons v vs)
  show ?case
  proof (cases "vs = []")
    case True
    then show ?thesis by (simp add: json_elems.simps)
  next
    case False
    then have "join_with '','' (map json_value (v # vs)) @ '']'' @ r
        = json_value v @ CHR '','' # join_with '','' (map json_value vs) @ '']'' @ r"
      by (simp add: join_with_Cons)
    with False Cons.IH show ?thesis by (simp add: json_elems.simps [of "json_value v @ _"])
  qed
qed simp

lemma json_value_head: "json_value v \<noteq> []" "hd (json_value v) \<noteq> CHR '']''"
  by (simp_all add: json_value_def json_string_def split: option.split)

lemma json_parse_stringify [simp]: "json_parse (json_stringify vs) = Some vs"
proof (cases "vs = []")
  case False
  then obtain v ws where vs: "vs = v # ws" by (cases vs) auto
  define j where "j = join_with '','' (map json_value vs) @ '']''"
  have "\<exists>r. j = json_value v @ r" unfolding j_def vs by (cases ws) auto
  then have "json_skip j \<noteq> [] \<and> hd (json_skip j) \<noteq> CHR '']''"
    using json_value_head [of v] by auto
  moreover have "json_elems j = Some (vs, [])"
    using json_elems_join [OF False, of "[]"] by (simp add: j_def)
  ultimately show ?thesis by (simp add: json_stringify_def json_parse_def j_def [symmetric])
qed (simp add: json_stringify_def json_parse_def)

end
