(* ===== verification/Browser.thy ===== *)
theory Browser
  imports JsString
begin

text \<open>
  The platform the page scripts run on: the browser state they read and write (local storage, the
  cookie jar, the notification permission), and the log of the calls they make to the outside
  (jQuery, notifications, dialogs, navigation). jQuery is not part of the repository: the model
  records the calls, and what a call does to the page is the interface \<open>jquery_page\<close>.
\<close>

section \<open>Outgoing calls\<close>

text \<open>
  The options object of a notification after \<open>sendNotification\<close> is done with it, and the link its
  click handler follows (\<open>None\<close>: no handler is installed).
\<close>

record shown_notification =
  sn_title :: string
  sn_tag :: "string jsv"
  sn_body :: "string jsv"
  sn_icon :: string
  sn_onclick :: "string option"

datatype effect =
    Alert string
  | ShowNotification shown_notification
  | RequestPermission
  | Reload
  | Navigate string
  | AjaxGet string
  | JqShow string
  | JqHide string
  | JqHtml string string
  | JqAddClass string string
  | JqRemoveClass string string
  | JqText string string
  | JqVal string string
  | JqCall string string               \<comment> \<open>any other method, here of the element a selector names\<close>
  | ScrollTo "string option"           \<comment> \<open>\<open>scrollTo(0, y)\<close>, \<open>None\<close> for \<open>null\<close>\<close>
  | CallHook string                    \<comment> \<open>a global function called by name\<close>

record browser =
  storage :: "string \<Rightarrow> string option"
  cookies :: "(string \<times> string) list"
  notification_api :: bool
  storage_api :: bool
  permission :: "string option"        \<comment> \<open>\<open>None\<close>: no static \<open>permission\<close> property\<close>
  href :: string                       \<comment> \<open>\<open>window.location.href\<close>\<close>
  base_url :: string                   \<comment> \<open>\<open>domjudge_base_url\<close>\<close>
  expiry :: string                     \<comment> \<open>now plus three days, by \<open>toUTCString\<close>\<close>
  effects :: "effect list"             \<comment> \<open>oldest first\<close>

definition emit :: "effect \<Rightarrow> browser \<Rightarrow> browser" where
  "emit e b = b\<lparr>effects := effects b @ [e]\<rparr>"

lemma emit_fields [simp]:
  "storage (emit e b) = storage b" "cookies (emit e b) = cookies b"
  "notification_api (emit e b) = notification_api b" "storage_api (emit e b) = storage_api b"
  "permission (emit e b) = permission b" "href (emit e b) = href b" "base_url (emit e b) = base_url b"
  "expiry (emit e b) = expiry b" "effects (emit e b) = effects b @ [e]"
  by (simp_all add: emit_def)

text \<open>A browser on a page served from the root, with nothing stored.\<close>

definition blank_browser :: browser where
  "blank_browser = \<lparr>storage = (\<lambda>_. None), cookies = [], notification_api = True,
     storage_api = True, permission = Some ''granted'', href = [], base_url = [], expiry = [], effects = []\<rparr>"

text \<open>The calls made between two states of the log.\<close>

definition new_effects :: "browser \<Rightarrow> browser \<Rightarrow> effect list" where
  "new_effects b b' = drop (length (effects b)) (effects b')"

lemma new_effects_append: "effects b' = effects b @ es \<Longrightarrow> new_effects b b' = es"
  by (simp add: new_effects_def)

section \<open>Local storage\<close>

definition getItem :: "string \<Rightarrow> browser \<Rightarrow> string option" where
  "getItem k b = storage b k"

definition setItem :: "string \<Rightarrow> string \<Rightarrow> browser \<Rightarrow> browser" where
  "setItem k v b = b\<lparr>storage := (storage b)(k \<mapsto> v)\<rparr>"

lemma getItem_setItem [simp]: "getItem k (setItem k' v b) = (if k = k' then Some v else getItem k b)"
  by (simp add: getItem_def setItem_def)

lemma getItem_emit [simp]: "getItem k (emit e b) = getItem k b"
  by (simp add: getItem_def)

lemma setItem_fields [simp]:
  "cookies (setItem k v b) = cookies b" "effects (setItem k v b) = effects b"
  "notification_api (setItem k v b) = notification_api b" "storage_api (setItem k v b) = storage_api b"
  "permission (setItem k v b) = permission b" "href (setItem k v b) = href b" "base_url (setItem k v b) = base_url b"
  "expiry (setItem k v b) = expiry b" "storage (setItem k v b) = (storage b)(k \<mapsto> v)"
  by (simp_all add: setItem_def)

section \<open>The cookie jar behind \<open>document.cookie\<close>\<close>

text \<open>
  Assigning to \<open>document.cookie\<close> stores one cookie: the text up to the first semicolon is the
  name and the value, cut at the first equals sign and trimmed; the attributes after it set no
  other name. A cookie of the same name keeps its place. Reading gives all cookies, separated by
  a semicolon and a space. A cookie is read back before its expiry; the clock is not modelled.
\<close>

definition cookie_pair :: "string \<Rightarrow> string \<times> string" where
  "cookie_pair text = (let nv = takeWhile (\<lambda>c. c \<noteq> CHR '';'') text in
     case index_of (CHR ''='') nv of
       None \<Rightarrow> ([], trim nv)
     | Some i \<Rightarrow> (trim (take i nv), trim (drop (Suc i) nv)))"

fun jar_put :: "string \<Rightarrow> string \<Rightarrow> (string \<times> string) list \<Rightarrow> (string \<times> string) list" where
  "jar_put n v [] = [(n, v)]"
| "jar_put n v ((m, w) # ps) = (if m = n then (n, v) # ps else (m, w) # jar_put n v ps)"

definition write_cookie :: "string \<Rightarrow> (string \<times> string) list \<Rightarrow> (string \<times> string) list" where
  "write_cookie text jar = (case cookie_pair text of (n, v) \<Rightarrow> jar_put n v jar)"

definition cookie_text :: "string \<times> string \<Rightarrow> string" where
  "cookie_text p = (if fst p = [] then snd p else fst p @ ''='' @ snd p)"

definition read_cookies :: "(string \<times> string) list \<Rightarrow> string" where
  "read_cookies jar = join_with ''; '' (map cookie_text jar)"

text \<open>What a name and a value must avoid to be stored as they are.\<close>

definition cookie_name :: "string \<Rightarrow> bool" where
  "cookie_name n = (n \<noteq> [] \<and> (\<forall>c \<in> set n. c \<noteq> CHR '';'' \<and> c \<noteq> CHR ''='' \<and> \<not> is_ws c))"

definition cookie_value :: "string \<Rightarrow> bool" where
  "cookie_value v = (\<forall>c \<in> set v. c \<noteq> CHR '';'' \<and> \<not> is_ws c)"

definition cookie_pairs :: "(string \<times> string) list \<Rightarrow> bool" where
  "cookie_pairs ps = (distinct (map fst ps) \<and> (\<forall>p \<in> set ps. cookie_name (fst p) \<and> cookie_value (snd p)))"

section \<open>The interfaces\<close>

text \<open>
  \<open>cookie_host\<close>: a place where cookies are written as texts and read back as one text. Its
  promise: a written pair is what its name maps to, no other name changes, and the text read is
  the list of the stored pairs.
\<close>

locale cookie_host =
  fixes put :: "string \<Rightarrow> 'j \<Rightarrow> 'j"
    and fetch :: "'j \<Rightarrow> string"
    and stored :: "'j \<Rightarrow> string \<Rightarrow> string option"
    and ok :: "'j \<Rightarrow> bool"
  assumes put_stored:
      "ok j \<Longrightarrow> cookie_name n \<Longrightarrow> cookie_value v \<Longrightarrow>
       stored (put (n @ ''='' @ v @ ''; '' @ attrs) j) = (stored j)(n \<mapsto> v)"
    and put_keeps:
      "ok j \<Longrightarrow> cookie_name n \<Longrightarrow> cookie_value v \<Longrightarrow> ok (put (n @ ''='' @ v @ ''; '' @ attrs) j)"
    and fetch_pairs:
      "ok j \<Longrightarrow> \<exists>ps. cookie_pairs ps \<and> fetch j = join_with ''; '' (map cookie_text ps)
                    \<and> map_of ps = stored j"

text \<open>
  \<open>jquery_page\<close>: what the page looks like after a jQuery call, by the documented behaviour of
  \<open>show\<close>, \<open>hide\<close>, \<open>html\<close>, \<open>text\<close>, \<open>addClass\<close> and \<open>removeClass\<close> on the element a selector names.
  Selectors are taken to name different elements. The other calls are silent on what is hidden, on
  contents and on classes.
\<close>

text \<open>The markup of a text: what \<open>html\<close> reads after \<open>text\<close>.\<close>

definition html_char :: "char \<Rightarrow> string" where
  "html_char c = (if c = CHR ''&'' then ''&amp;'' else if c = CHR ''<'' then ''&lt;''
     else if c = CHR ''>'' then ''&gt;'' else [c])"

definition html_text :: "string \<Rightarrow> string" where
  "html_text s = concat (map html_char s)"

definition page_call :: "effect \<Rightarrow> bool" where
  "page_call e = (case e of JqShow _ \<Rightarrow> True | JqHide _ \<Rightarrow> True | JqHtml _ _ \<Rightarrow> True | JqText _ _ \<Rightarrow> True
     | JqAddClass _ _ \<Rightarrow> True | JqRemoveClass _ _ \<Rightarrow> True | _ \<Rightarrow> False)"

text \<open>The element a page call is about.\<close>

definition call_target :: "effect \<Rightarrow> string" where
  "call_target e = (case e of JqShow s \<Rightarrow> s | JqHide s \<Rightarrow> s | JqHtml s _ \<Rightarrow> s | JqText s _ \<Rightarrow> s
     | JqAddClass s _ \<Rightarrow> s | JqRemoveClass s _ \<Rightarrow> s | _ \<Rightarrow> [])"

locale jquery_page =
  fixes exec :: "effect \<Rightarrow> 'd \<Rightarrow> 'd"
    and hidden :: "'d \<Rightarrow> string \<Rightarrow> bool"
    and content :: "'d \<Rightarrow> string \<Rightarrow> string"
    and has_class :: "'d \<Rightarrow> string \<Rightarrow> string \<Rightarrow> bool"
  assumes hidden_exec: "hidden (exec e d) s =
      (if e = JqShow s then False else if e = JqHide s then True else hidden d s)"
    and content_exec: "content (exec e d) s =
      (case e of JqHtml s' h \<Rightarrow> if s' = s then h else content d s
       | JqText s' t \<Rightarrow> if s' = s then html_text t else content d s | _ \<Rightarrow> content d s)"
    and has_class_exec: "has_class (exec e d) s c =
      (if e = JqAddClass s c then True else if e = JqRemoveClass s c then False
       else has_class d s c)"
begin

lemmas page_laws = hidden_exec content_exec has_class_exec

lemma exec_other:
  assumes "\<not> page_call e"
  shows "hidden (exec e d) s = hidden d s" "content (exec e d) s = content d s"
    "has_class (exec e d) s c = has_class d s c"
  using assms by (auto simp: page_laws page_call_def split: effect.splits)

lemma fold_page_calls:
  assumes "\<And>s. hidden d s = hidden d' s" "\<And>s. content d s = content d' s"
    "\<And>s c. has_class d s c = has_class d' s c"
  shows "hidden (fold exec es d) s = hidden (fold exec (filter page_call es) d') s"
    "content (fold exec es d) s = content (fold exec (filter page_call es) d') s"
    "has_class (fold exec es d) s c = has_class (fold exec (filter page_call es) d') s c"
proof -
  have "(\<forall>s. hidden (fold exec es d) s = hidden (fold exec (filter page_call es) d') s) \<and>
      (\<forall>s. content (fold exec es d) s = content (fold exec (filter page_call es) d') s) \<and>
      (\<forall>s c. has_class (fold exec es d) s c = has_class (fold exec (filter page_call es) d') s c)"
    using assms
  proof (induction es arbitrary: d d')
    case (Cons e es)
    show ?case
    proof (cases "page_call e")
      case True
      have "hidden (exec e d) s = hidden (exec e d') s" "content (exec e d) s = content (exec e d') s"
        "has_class (exec e d) s c = has_class (exec e d') s c" for s c
        using Cons.prems by (simp_all add: page_laws split: effect.split)
      with True Cons.IH [of "exec e d" "exec e d'"] show ?thesis by simp
    next
      case False
      with Cons.prems Cons.IH [of "exec e d" d'] show ?thesis by (simp add: exec_other)
    qed
  qed simp
  then show "hidden (fold exec es d) s = hidden (fold exec (filter page_call es) d') s"
    "content (fold exec es d) s = content (fold exec (filter page_call es) d') s"
    "has_class (fold exec es d) s c = has_class (fold exec (filter page_call es) d') s c"
    by blast+
qed

text \<open>Calls on other elements change nothing of an element.\<close>

lemma fold_elsewhere:
  assumes "s \<notin> call_target ` set es"
  shows "hidden (fold exec es d) s = hidden d s" "content (fold exec es d) s = content d s"
    "has_class (fold exec es d) s c = has_class d s c"
proof -
  have "hidden (fold exec es d) s = hidden d s \<and> content (fold exec es d) s = content d s \<and>
      has_class (fold exec es d) s c = has_class d s c"
    using assms
  proof (induction es arbitrary: d)
    case (Cons e es)
    have "call_target e \<noteq> s" using Cons.prems by auto
    then have "hidden (exec e d) s = hidden d s" "content (exec e d) s = content d s"
      "has_class (exec e d) s c = has_class d s c"
      by (auto simp: page_laws call_target_def split: effect.split)
    with Cons.IH [of "exec e d"] Cons.prems show ?case by simp
  qed simp
  then show "hidden (fold exec es d) s = hidden d s" "content (fold exec es d) s = content d s"
    "has_class (fold exec es d) s c = has_class d s c" by blast+
qed

end

section \<open>The platform's own instances\<close>

lemma map_of_jar_put: "map_of (jar_put n v ps) = (map_of ps)(n \<mapsto> v)"
  by (induction n v ps rule: jar_put.induct) (auto simp: fun_eq_iff)

lemma fst_jar_put: "set (map fst (jar_put n v ps)) = insert n (set (map fst ps))"
  by (induction n v ps rule: jar_put.induct) auto

lemma distinct_jar_put: "distinct (map fst ps) \<Longrightarrow> distinct (map fst (jar_put n v ps))"
proof (induction n v ps rule: jar_put.induct)
  case (2 n v m w ps)
  then show ?case using fst_jar_put [of n v ps] by auto
qed simp

lemma set_jar_put: "p \<in> set (jar_put n v ps) \<Longrightarrow> p = (n, v) \<or> p \<in> set ps"
  by (induction n v ps rule: jar_put.induct) (auto split: if_splits)

lemma cookie_pair_text:
  assumes "cookie_name n" "cookie_value v"
  shows "cookie_pair (n @ ''='' @ v @ ''; '' @ attrs) = (n, v)"
proof -
  have nv: "takeWhile (\<lambda>c. c \<noteq> CHR '';'') (n @ ''='' @ v @ ''; '' @ attrs) = n @ ''='' @ v"
    using takeWhile_append_stop [of "n @ ''='' @ v" "\<lambda>c. c \<noteq> CHR '';''" "CHR '';''" "'' '' @ attrs"]
      assms by (auto simp: cookie_name_def cookie_value_def)
  have i: "index_of (CHR ''='') (n @ ''='' @ v) = Some (length n)"
    using assms index_of_append [of "CHR ''=''" n v] by (auto simp: cookie_name_def)
  have "trim n = n" "trim v = v"
    using assms by (auto simp: cookie_name_def cookie_value_def intro: trim_no_ws)
  with nv i show ?thesis by (simp add: cookie_pair_def)
qed

interpretation jar: cookie_host write_cookie read_cookies map_of cookie_pairs
proof unfold_locales
  fix j :: "(string \<times> string) list" and n v attrs :: string
  assume ok: "cookie_pairs j" and nv: "cookie_name n" "cookie_value v"
  have w: "write_cookie (n @ ''='' @ v @ ''; '' @ attrs) j = jar_put n v j"
    using cookie_pair_text [OF nv] by (simp add: write_cookie_def)
  show "map_of (write_cookie (n @ ''='' @ v @ ''; '' @ attrs) j) = (map_of j)(n \<mapsto> v)"
    by (simp only: w map_of_jar_put)
  show "cookie_pairs (write_cookie (n @ ''='' @ v @ ''; '' @ attrs) j)"
    unfolding w using ok nv by (auto simp: cookie_pairs_def distinct_jar_put dest: set_jar_put)
qed (auto simp: read_cookies_def)

text \<open>
  A page as a map from selectors to elements, the instance of \<open>jquery_page\<close> that the witnesses
  and the concrete runs use.
\<close>

record element =
  el_hidden :: bool
  el_html :: string
  el_classes :: "string list"

type_synonym page = "string \<Rightarrow> element"

fun page_exec :: "effect \<Rightarrow> page \<Rightarrow> page" where
  "page_exec (JqShow s) d = d(s := (d s)\<lparr>el_hidden := False\<rparr>)"
| "page_exec (JqHide s) d = d(s := (d s)\<lparr>el_hidden := True\<rparr>)"
| "page_exec (JqHtml s h) d = d(s := (d s)\<lparr>el_html := h\<rparr>)"
| "page_exec (JqText s t) d = d(s := (d s)\<lparr>el_html := html_text t\<rparr>)"
| "page_exec (JqAddClass s c) d =
     d(s := (d s)\<lparr>el_classes := (if c \<in> set (el_classes (d s)) then el_classes (d s)
                                 else el_classes (d s) @ [c])\<rparr>)"
| "page_exec (JqRemoveClass s c) d =
     d(s := (d s)\<lparr>el_classes := filter (\<lambda>x. x \<noteq> c) (el_classes (d s))\<rparr>)"
| "page_exec _ d = d"

definition page_hidden :: "page \<Rightarrow> string \<Rightarrow> bool" where
  "page_hidden d s = el_hidden (d s)"

definition page_content :: "page \<Rightarrow> string \<Rightarrow> string" where
  "page_content d s = el_html (d s)"

definition page_has_class :: "page \<Rightarrow> string \<Rightarrow> string \<Rightarrow> bool" where
  "page_has_class d s c = (c \<in> set (el_classes (d s)))"

interpretation plain: jquery_page page_exec page_hidden page_content page_has_class
proof unfold_locales
  fix e d s c
  show "page_hidden (page_exec e d) s =
      (if e = JqShow s then False else if e = JqHide s then True else page_hidden d s)"
    by (cases e) (auto simp: page_hidden_def)
  show "page_content (page_exec e d) s =
      (case e of JqHtml s' h \<Rightarrow> if s' = s then h else page_content d s
       | JqText s' t \<Rightarrow> if s' = s then html_text t else page_content d s | _ \<Rightarrow> page_content d s)"
    by (cases e) (auto simp: page_content_def)
  show "page_has_class (page_exec e d) s c =
      (if e = JqAddClass s c then True else if e = JqRemoveClass s c then False
       else page_has_class d s c)"
    by (cases e) (auto simp: page_has_class_def)
qed

end
