(* ===== verification/Cookies.thy ===== *)
theory Cookies
  imports Browser
begin

text \<open>
  \<open>setCookie\<close> and \<open>getCookie\<close> of \<open>webapp/public/js/domjudge.js\<close>. The client lemmas are proved for
  any cookie host and used at the jar of the platform.
\<close>

definition setCookie :: "string \<Rightarrow> string \<Rightarrow> browser \<Rightarrow> browser" where
  "setCookie name value b = b\<lparr>cookies :=
     write_cookie (name @ ''='' @ escape value @ ''; expires='' @ expiry b) (cookies b)\<rparr>"

fun getCookie_loop :: "string \<Rightarrow> string list \<Rightarrow> string" where
  "getCookie_loop name [] = []"
| "getCookie_loop name (p # ps) =
     (let (key, value) = (case index_of (CHR ''='') p of
            None \<Rightarrow> ([], p)
          | Some idx \<Rightarrow> (take idx p, drop (Suc idx) p))
      in if trim key = name then unescape value else getCookie_loop name ps)"

definition getCookie :: "string \<Rightarrow> browser \<Rightarrow> string" where
  "getCookie name b = getCookie_loop name (split_on (CHR '';'') (read_cookies (cookies b)))"

declare getCookie_loop.simps(2) [simp del]

section \<open>The client's view of a cookie host\<close>

lemma split_join_two:
  "c \<noteq> d \<Longrightarrow> \<forall>x \<in> set (y # ys). c \<notin> set x \<Longrightarrow>
   split_on c (join_with [c, d] (y # ys)) = y # map (\<lambda>x. d # x) ys"
proof (induction ys arbitrary: y)
  case (Cons z zs)
  have "split_on c (join_with [c, d] (y # z # zs))
      = y # split_on c (d # join_with [c, d] (z # zs))"
    using Cons.prems by (simp add: split_on_append_sep)
  also have "\<dots> = y # (d # z) # map (\<lambda>x. d # x) zs"
    using Cons by simp
  finally show ?case by simp
qed (simp add: split_on_no_sep)

lemma cookie_text_split:
  assumes "cookie_name (fst p)"
  shows "cookie_text p = fst p @ CHR ''='' # snd p"
    and "index_of (CHR ''='') (cookie_text p) = Some (length (fst p))"
proof -
  have n: "fst p \<noteq> []" "CHR ''='' \<notin> set (fst p)" using assms by (auto simp: cookie_name_def)
  show t: "cookie_text p = fst p @ CHR ''='' # snd p"
    using n(1) by (simp add: cookie_text_def)
  show "index_of (CHR ''='') (cookie_text p) = Some (length (fst p))"
    unfolding t by (rule index_of_append [OF n(2)])
qed

lemma cookie_text_no_semicolon:
  "cookie_name (fst p) \<Longrightarrow> cookie_value (snd p) \<Longrightarrow> CHR '';'' \<notin> set (cookie_text p)"
  by (auto simp: cookie_name_def cookie_value_def cookie_text_def)

lemma cookie_name_trim:
  assumes "cookie_name n"
  shows "trim n = n" "trim (CHR '' '' # n) = n"
proof -
  show t: "trim n = n" using assms by (auto simp: cookie_name_def intro: trim_no_ws)
  have "is_ws (CHR '' '')" by (simp add: is_ws_def)
  with t show "trim (CHR '' '' # n) = n" by (simp add: trim_lead)
qed

text \<open>One stored pair, as the loop sees it, with or without the space after a semicolon.\<close>

lemma getCookie_loop_pair:
  assumes "cookie_name (fst p)"
  shows "getCookie_loop n (cookie_text p # ps) =
      (if fst p = n then unescape (snd p) else getCookie_loop n ps)"
    and "getCookie_loop n ((CHR '' '' # cookie_text p) # ps) =
      (if fst p = n then unescape (snd p) else getCookie_loop n ps)"
  using assms cookie_text_split [OF assms] cookie_name_trim [OF assms]
  by (simp_all add: getCookie_loop.simps(2) split_beta)

lemma getCookie_loop_spaced:
  "\<forall>p \<in> set ps. cookie_name (fst p) \<Longrightarrow>
   getCookie_loop n (map (\<lambda>x. CHR '' '' # x) (map cookie_text ps)) =
    (case map_of ps n of Some v \<Rightarrow> unescape v | None \<Rightarrow> [])"
  by (induction ps) (auto simp: getCookie_loop_pair)

context cookie_host
begin

lemma scan_fetch:
  assumes "ok j" "cookie_name n"
  shows "getCookie_loop n (split_on (CHR '';'') (fetch j)) =
    (case stored j n of Some v \<Rightarrow> unescape v | None \<Rightarrow> [])"
proof -
  obtain ps where ps: "cookie_pairs ps" "fetch j = join_with ''; '' (map cookie_text ps)"
      "map_of ps = stored j"
    using fetch_pairs [OF assms(1)] by blast
  have each: "\<forall>p \<in> set ps. cookie_name (fst p)" "\<forall>x \<in> set (map cookie_text ps). CHR '';'' \<notin> set x"
    using ps(1) cookie_text_no_semicolon by (auto simp: cookie_pairs_def)
  show ?thesis
  proof (cases ps)
    case Nil
    with ps(2,3) assms(2) show ?thesis
      by (auto simp: cookie_name_def trim_def fun_eq_iff getCookie_loop.simps(2))
  next
    case (Cons p qs)
    have "split_on (CHR '';'') (fetch j) = cookie_text p # map (\<lambda>x. CHR '' '' # x) (map cookie_text qs)"
      using split_join_two [of "CHR '';''" "CHR '' ''" "cookie_text p" "map cookie_text qs"] ps(2) each Cons
      by simp
    moreover have "getCookie_loop n (cookie_text p # map (\<lambda>x. CHR '' '' # x) (map cookie_text qs)) =
        (case map_of ps n of Some v \<Rightarrow> unescape v | None \<Rightarrow> [])"
      using each Cons getCookie_loop_pair(1) [of p n] getCookie_loop_spaced [of qs n] by auto
    ultimately show ?thesis using ps(3) by simp
  qed
qed

lemma scan_put:
  assumes "ok j" "cookie_name n" "cookie_name m" "cookie_value v"
  shows "getCookie_loop n (split_on (CHR '';'') (fetch (put (m @ ''='' @ v @ ''; '' @ attrs) j))) =
    (if n = m then unescape v else getCookie_loop n (split_on (CHR '';'') (fetch j)))"
  by (simp only: scan_fetch [OF put_keeps [OF assms(1,3,4)] assms(2)] scan_fetch [OF assms(1,2)]
      put_stored [OF assms(1,3,4)]) simp

end

section \<open>The two operations\<close>

definition jar_ok :: "browser \<Rightarrow> bool" where
  "jar_ok b = cookie_pairs (cookies b)"

lemma cookie_value_escape [simp]: "cookie_value (escape v)"
  using escape_no_special(1) [of v] escape_no_ws [of _ v] by (auto simp: cookie_value_def)

lemma setCookie_fields [simp]:
  "storage (setCookie n v b) = storage b" "effects (setCookie n v b) = effects b"
  "notification_api (setCookie n v b) = notification_api b"
  "storage_api (setCookie n v b) = storage_api b" "permission (setCookie n v b) = permission b"
  "base_url (setCookie n v b) = base_url b" "href (setCookie n v b) = href b" "expiry (setCookie n v b) = expiry b"
  "getItem k (setCookie n v b) = getItem k b"
  by (simp_all add: setCookie_def getItem_def)

lemma jar_ok_setCookie [simp]: "jar_ok b \<Longrightarrow> cookie_name n \<Longrightarrow> jar_ok (setCookie n v b)"
  using jar.put_keeps [of "cookies b" n "escape v" "''expires='' @ expiry b"]
  by (simp add: jar_ok_def setCookie_def)

lemma jar_ok_frame [simp]: "jar_ok (emit e b) = jar_ok b" "jar_ok (setItem k v b) = jar_ok b"
  by (simp_all add: jar_ok_def)

lemma getCookie_frame [simp]:
  "getCookie n (emit e b) = getCookie n b" "getCookie n (setItem k v b) = getCookie n b"
  by (simp_all add: getCookie_def)

lemma getCookie_after_setCookie [simp]:
  assumes "jar_ok b" "cookie_name n" "cookie_name m"
  shows "getCookie n (setCookie m v b) = (if n = m then v else getCookie n b)"
  using jar.scan_put [of "cookies b" n m "escape v" "''expires='' @ expiry b"] assms
  by (simp add: getCookie_def setCookie_def jar_ok_def)

lemma cookie_names [simp]:
  "cookie_name ''domjudge_notify''" "cookie_name ''domjudge_keys''" "cookie_name ''domjudge_refresh''"
  by (simp_all add: cookie_name_def is_ws_def)

text \<open>
  C11. What \<open>setCookie\<close> stores under a name is what \<open>getCookie\<close> reads under that name, for all names that are
  names of cookies (without separators, as those of the code) and every value whatever characters it holds (semicolons, spaces and equals signs included), and every
  other cookie reads as before.
\<close>

theorem cookie_roundtrip:
  assumes "jar_ok b" "cookie_name n" "cookie_name m"
  shows "getCookie m (setCookie n v b) = (if m = n then v else getCookie m b)"
  using assms by (simp add: getCookie_after_setCookie)


theorem cookie_roundtrip_witness:
  "getCookie ''n'' (setCookie ''n'' ''a; b=c %'' blank_browser) = ''a; b=c %''"
  using cookie_roundtrip [of blank_browser "''n''" "''n''" "''a; b=c %''"]
  by (simp add: jar_ok_def blank_browser_def cookie_pairs_def cookie_name_def is_ws_def)

end
