(* ===== verification/Notifications.thy ===== *)
theory Notifications
  imports Cookies
begin

text \<open>
  Desktop notifications of \<open>webapp/public/js/domjudge.js\<close>: \<open>sendNotification\<close> with its list of tags
  already sent, \<open>enableNotifications\<close>, \<open>disableNotifications\<close>, and the switches \<open>enableKeys\<close> and
  \<open>disableKeys\<close> of the keyboard shortcuts, which have the same shape. The interface \<open>ledger\<close> is
  what the menu relies on when it reports lists of events again and again.
\<close>

record note_options =
  opt_tag :: "string jsv"
  opt_link :: "string jsv"
  opt_body :: "string jsv"

definition no_options :: note_options where
  "no_options = \<lparr>opt_tag = Undefined, opt_link = Undefined, opt_body = Undefined\<rparr>"

text \<open>
  Comparing a cookie with the number 1 by \<open>==\<close>: the cookie read as a decimal numeral. Other
  spellings of the number (\<open>1.0\<close>, \<open>0x1\<close>) are never stored.
\<close>

definition loosely_one :: "string \<Rightarrow> bool" where
  "loosely_one s = (let t = trim s in t \<noteq> [] \<and> list_all is_digit t \<and> read_nat t = 1)"

definition sent_tags :: "browser \<Rightarrow> string list" where
  "sent_tags b = (case getItem ''domjudge_notifications_sent'' b of
       None \<Rightarrow> []
     | Some s \<Rightarrow> if s = [] then [] else split_on (CHR '','') s)"

definition notify_enabled :: "browser \<Rightarrow> bool" where
  "notify_enabled b = loosely_one (getCookie ''domjudge_notify'' b)"

definition sendNotification :: "string \<Rightarrow> note_options \<Rightarrow> browser \<Rightarrow> browser" where
  "sendNotification title opts b =
     (let senttags = sent_tags b in
      if (case opt_tag opts of Val t \<Rightarrow> t \<in> set senttags | _ \<Rightarrow> False) then b
      else
        let link = (case opt_link opts of Val l \<Rightarrow> Some l | _ \<Rightarrow> None);
            note = \<lparr>sn_title = title, sn_tag = opt_tag opts, sn_body = opt_body opts,
                    sn_icon = base_url b @ ''/apple-touch-icon.png'', sn_onclick = link\<rparr>;
            b1 = (if notify_enabled b then emit (ShowNotification note) b else b)
        in case opt_tag opts of
             Val t \<Rightarrow> if t \<noteq> []
               then setItem ''domjudge_notifications_sent'' (join_with '','' (senttags @ [t])) b1
               else b1
           | _ \<Rightarrow> b1)"

definition show_disable_button :: "browser \<Rightarrow> browser" where
  "show_disable_button b =
     emit (JqHide ''#notify_enable'')
       (emit (JqShow ''#notify_disable'') (emit (JqRemoveClass ''#notify_disable'' ''d-none'') b))"

definition notifications_granted :: "browser \<Rightarrow> browser" where
  "notifications_granted b = show_disable_button
     (sendNotification ''DOMjudge notifications enabled.'' no_options
        (setCookie ''domjudge_notify'' ''1'' b))"

definition enableNotifications :: "browser \<Rightarrow> browser \<times> bool jsv" where
  "enableNotifications b =
     (if \<not> notification_api b then
        (emit (Alert ''Your browser does not support desktop notifications.'') b, Val False)
      else if \<not> storage_api b then
        (emit (Alert (''Your browser does not support local storage;'' @ [CHR 0x0A] @
           ''this is required to keep track of sent notifications.'')) b, Val False)
      else if permission b = Some ''denied'' then
        (emit (Alert (''Browser denied permission to send desktop notifications.'' @ [CHR 0x0A] @
           ''Re-enable notification permission in the browser and retry.'')) b, Val False)
      else if permission b = Some ''granted'' then (notifications_granted b, Val True)
      else (emit RequestPermission b, Undefined))"

text \<open>
  The callback of \<open>requestPermission\<close>. A browser with a static \<open>permission\<close> property has updated
  it before the call; one without gets the property from the callback.
\<close>

definition permission_answered :: "string \<Rightarrow> browser \<Rightarrow> browser" where
  "permission_answered p b = (if permission b \<noteq> None then b\<lparr>permission := Some p\<rparr> else b)"

definition permission_callback :: "string \<Rightarrow> browser \<Rightarrow> browser \<times> bool jsv" where
  "permission_callback p b =
     (let b = (if permission b = None then b\<lparr>permission := Some p\<rparr> else b) in
      if permission b \<noteq> Some ''granted'' then
        (emit (Alert ''Browser denied permission to send desktop notifications.'') b, Val False)
      else (notifications_granted b, Val True))"

definition disableNotifications :: "browser \<Rightarrow> browser \<times> bool" where
  "disableNotifications b =
     (emit (JqHide ''#notify_disable'') (emit (JqShow ''#notify_enable'')
        (emit (JqRemoveClass ''#notify_enable'' ''d-none'')
          (setCookie ''domjudge_notify'' ''0'' b))), True)"

definition enableKeys :: "browser \<Rightarrow> browser" where
  "enableKeys b =
     emit (JqHide ''#keys_enable'') (emit (JqShow ''#keys_disable'')
       (emit (JqRemoveClass ''#keys_disable'' ''d-none'') (setCookie ''domjudge_keys'' ''1'' b)))"

definition disableKeys :: "browser \<Rightarrow> browser" where
  "disableKeys b =
     emit (JqHide ''#keys_disable'') (emit (JqShow ''#keys_enable'')
       (emit (JqRemoveClass ''#keys_enable'' ''d-none'') (setCookie ''domjudge_keys'' ''0'' b)))"

section \<open>The ledger of sent notifications\<close>

text \<open>The elements of a list not seen before, each at its first occurrence.\<close>

fun fresh :: "'t set \<Rightarrow> 't list \<Rightarrow> 't list" where
  "fresh S [] = []"
| "fresh S (t # ts) = (if t \<in> S then fresh S ts else t # fresh (insert t S) ts)"

lemma set_fresh: "set (fresh S ts) = set ts - S"
  by (induction S ts rule: fresh.induct) auto

lemma distinct_fresh: "distinct (fresh S ts)"
  by (induction S ts rule: fresh.induct) (auto simp: set_fresh)

lemma remdups_snoc: "remdups (xs @ [t]) = filter (\<lambda>x. x \<noteq> t) (remdups xs) @ [t]"
  by (induction xs) auto

text \<open>The first occurrences of the tags that are not there yet.\<close>

lemma fresh_remdups: "fresh S ts = rev (remdups (rev (filter (\<lambda>t. t \<notin> S) ts)))"
proof (induction S ts rule: fresh.induct)
  case (2 S t ts)
  have "filter (\<lambda>x. x \<notin> insert t S) ts = filter (\<lambda>x. x \<noteq> t) (filter (\<lambda>x. x \<notin> S) ts)" by (simp add: conj_commute)
  then show ?case using 2 by (auto simp: remdups_snoc remdups_filter [symmetric] rev_filter simp del: filter_filter)
qed simp

lemma fresh_none: "set ts \<subseteq> S \<Longrightarrow> fresh S ts = []"
  by (induction S ts rule: fresh.induct) auto

lemma fresh_append: "fresh S (xs @ ys) = fresh S xs @ fresh (set xs \<union> S) ys"
proof (induction S xs rule: fresh.induct)
  case (2 S t ts)
  then show ?case by (simp add: insert_absorb Un_insert_right [symmetric] del: Un_insert_right)
    (simp add: insert_absorb)?
qed simp

text \<open>
  A ledger posts messages that carry a tag. A good message is shown when the ledger is on and its
  tag has not been seen; either way the tag has been seen afterwards.
\<close>

locale ledger =
  fixes post :: "'m \<Rightarrow> 's \<Rightarrow> 's"
    and tag :: "'m \<Rightarrow> 't"
    and good :: "'m \<Rightarrow> bool"
    and seen :: "'s \<Rightarrow> 't set"
    and shown_tags :: "'s \<Rightarrow> 't list"
    and is_on :: "'s \<Rightarrow> bool"
  assumes seen_post: "good m \<Longrightarrow> seen (post m s) = insert (tag m) (seen s)"
    and shown_post: "good m \<Longrightarrow> shown_tags (post m s) =
      shown_tags s @ (if is_on s \<and> tag m \<notin> seen s then [tag m] else [])"
    and on_post: "is_on (post m s) = is_on s"
begin

lemma seen_fold: "\<forall>m \<in> set ms. good m \<Longrightarrow> seen (fold post ms s) = tag ` set ms \<union> seen s"
  by (induction ms arbitrary: s) (auto simp: seen_post)

lemma on_fold: "is_on (fold post ms s) = is_on s"
  by (induction ms arbitrary: s) (auto simp: on_post)

lemma shown_fold: "\<forall>m \<in> set ms. good m \<Longrightarrow> shown_tags (fold post ms s) =
    shown_tags s @ (if is_on s then fresh (seen s) (map tag ms) else [])"
  by (induction ms arbitrary: s) (auto simp: seen_post shown_post on_post insert_absorb)

lemma shown_again: "\<forall>m \<in> set ms. good m \<Longrightarrow> \<forall>m \<in> set ns. good m \<Longrightarrow> set ns \<subseteq> set ms \<Longrightarrow>
    shown_tags (fold post ns (fold post ms s)) = shown_tags (fold post ms s)"
  by (simp add: shown_fold [of ns] seen_fold fresh_none image_mono le_supI1)

end

definition send :: "string \<times> note_options \<Rightarrow> browser \<Rightarrow> browser" where
  "send m = sendNotification (fst m) (snd m)"

definition note_tag :: "string \<times> note_options \<Rightarrow> string" where
  "note_tag m = (case opt_tag (snd m) of Val t \<Rightarrow> t | _ \<Rightarrow> [])"

text \<open>A message the tag list can keep: its tag is a non-empty string with no comma.\<close>

definition listable :: "string \<times> note_options \<Rightarrow> bool" where
  "listable m = (case opt_tag (snd m) of Val t \<Rightarrow> t \<noteq> [] \<and> CHR '','' \<notin> set t | _ \<Rightarrow> False)"

definition effect_tags :: "effect \<Rightarrow> string list" where
  "effect_tags e = (case e of
       ShowNotification n \<Rightarrow> (case sn_tag n of Val t \<Rightarrow> [t] | _ \<Rightarrow> []) | _ \<Rightarrow> [])"

definition notified :: "browser \<Rightarrow> string list" where
  "notified b = concat (map effect_tags (effects b))"

lemma notified_emit [simp]: "notified (emit e b) = notified b @ effect_tags e"
  by (simp add: notified_def)

lemma notified_setItem [simp]: "notified (setItem k v b) = notified b"
  by (simp add: notified_def)

lemma notify_enabled_frame [simp]:
  "notify_enabled (emit e b) = notify_enabled b" "notify_enabled (setItem k v b) = notify_enabled b"
  by (simp_all add: notify_enabled_def)

lemma sent_tags_no_comma: "x \<in> set (sent_tags b) \<Longrightarrow> CHR '','' \<notin> set x"
  by (auto simp: sent_tags_def dest: split_on_part_no_sep split: option.splits if_splits)

lemma sent_tags_recorded:
  assumes "t \<noteq> []" "CHR '','' \<notin> set t"
  shows "sent_tags (setItem ''domjudge_notifications_sent'' (join_with '','' (sent_tags b @ [t])) c)
    = sent_tags b @ [t]"
proof -
  have "join_with '','' (sent_tags b @ [t]) \<noteq> []"
    using assms(1) join_with_snoc [of "sent_tags b" "'',''" t] by (cases "sent_tags b = []") auto
  moreover have "split_on (CHR '','') (join_with '','' (sent_tags b @ [t])) = sent_tags b @ [t]"
    using assms(2) sent_tags_no_comma by (intro split_join) auto
  ultimately show ?thesis by (simp add: sent_tags_def)
qed

lemma sendNotification_enabled: "notify_enabled (sendNotification ti op b) = notify_enabled b"
  by (simp add: sendNotification_def Let_def split: jsv.split)

interpretation sent_ledger: ledger send note_tag listable "\<lambda>b. set (sent_tags b)" notified notify_enabled
proof unfold_locales
  fix m b
  assume g: "listable m"
  then obtain t where t: "opt_tag (snd m) = Val t" "t \<noteq> []" "CHR '','' \<notin> set t"
    by (auto simp: listable_def split: jsv.splits)
  show "set (sent_tags (send m b)) = insert (note_tag m) (set (sent_tags b))"
    using t sent_tags_recorded [OF t(2,3)]
    by (auto simp: send_def sendNotification_def Let_def note_tag_def)
  show "notified (send m b) =
      notified b @ (if notify_enabled b \<and> note_tag m \<notin> set (sent_tags b) then [note_tag m] else [])"
    using t by (auto simp: send_def sendNotification_def Let_def note_tag_def effect_tags_def)
qed (simp add: send_def sendNotification_enabled)

text \<open>
  C3. Sending a list of tagged notifications, in any order and with repetitions, their tags not empty and
  without commas, shows exactly the tags that were not on the stored list, each once and in the order in
  which they first came, when notifications are enabled and nothing otherwise; in both cases all the tags
  are on the stored list afterwards.
\<close>

theorem notification_once:
  assumes "\<forall>m \<in> set ms. listable m"
  shows "\<exists>new. notified (fold send ms b) = notified b @ new \<and> distinct new \<and>
      new = (if notify_enabled b
        then rev (remdups (rev (filter (\<lambda>t. t \<notin> set (sent_tags b)) (map note_tag ms)))) else []) \<and>
      set new = (if notify_enabled b then note_tag ` set ms - set (sent_tags b) else {}) \<and>
      set (sent_tags (fold send ms b)) = note_tag ` set ms \<union> set (sent_tags b)"
  using sent_ledger.shown_fold [OF assms, of b] sent_ledger.seen_fold [OF assms, of b]
    distinct_fresh [of "set (sent_tags b)" "map note_tag ms"]
    set_fresh [of "set (sent_tags b)" "map note_tag ms"]
  unfolding fresh_remdups [symmetric]
  by (intro exI [of _ "if notify_enabled b then fresh (set (sent_tags b)) (map note_tag ms) else []"])
    auto

theorem notification_once_witness:
  defines "m \<equiv> (''New clarification'', no_options\<lparr>opt_tag := Val ''clar_7''\<rparr>)"
  shows "\<exists>new. notified (fold send [m, m] blank_browser) = notified blank_browser @ new \<and> distinct new \<and>
      new = (if notify_enabled blank_browser
        then rev (remdups (rev (filter (\<lambda>t. t \<notin> set (sent_tags blank_browser)) (map note_tag [m, m])))) else []) \<and>
      set new = (if notify_enabled blank_browser
        then note_tag ` set [m, m] - set (sent_tags blank_browser) else {}) \<and>
      set (sent_tags (fold send [m, m] blank_browser))
        = note_tag ` set [m, m] \<union> set (sent_tags blank_browser)"
  by (rule notification_once) (simp add: m_def listable_def)

section \<open>The switches\<close>

lemma loosely_one_literals [simp]:
  "loosely_one ''1''" "\<not> loosely_one ''0''" "\<not> loosely_one []"
  by (simp_all add: loosely_one_def trim_def is_ws_def is_digit_def read_nat_def digit_val_def)

lemma sendNotification_plain: "sendNotification ti no_options b =
  (if notify_enabled b then emit (ShowNotification \<lparr>sn_title = ti, sn_tag = Undefined,
     sn_body = Undefined, sn_icon = base_url b @ ''/apple-touch-icon.png'', sn_onclick = None\<rparr>) b
   else b)"
  by (simp add: sendNotification_def no_options_def)

lemma notifications_granted_effects:
  assumes "jar_ok b"
  shows "effects (notifications_granted b) = effects b @
    [ShowNotification \<lparr>sn_title = ''DOMjudge notifications enabled.'', sn_tag = Undefined,
       sn_body = Undefined, sn_icon = base_url b @ ''/apple-touch-icon.png'', sn_onclick = None\<rparr>,
     JqRemoveClass ''#notify_disable'' ''d-none'', JqShow ''#notify_disable'', JqHide ''#notify_enable'']"
    "notify_enabled (notifications_granted b)"
  using assms
  by (simp_all add: notifications_granted_def sendNotification_plain show_disable_button_def
      notify_enabled_def)

text \<open>
  Once permission is granted, \<open>enableNotifications\<close> returns true, notifications count as
  enabled, and the page shows the button that disables them and hides the one that enables them;
  \<open>disableNotifications\<close> undoes exactly that, on every page that follows jQuery's laws.
\<close>

theorem notification_switch:
  assumes "jquery_page exec hidden content has_class" "jar_ok b"
    "notification_api b" "storage_api b" "permission b = Some ''granted''"
  shows "case enableNotifications b of (b1, r) \<Rightarrow> case disableNotifications b1 of (b2, r2) \<Rightarrow>
     (let d1 = fold exec (new_effects b b1) d; d2 = fold exec (new_effects b1 b2) d1 in
      r = Val True \<and> notify_enabled b1 \<and> \<not> hidden d1 ''#notify_disable'' \<and>
      \<not> has_class d1 ''#notify_disable'' ''d-none'' \<and> hidden d1 ''#notify_enable'' \<and>
      r2 \<and> \<not> notify_enabled b2 \<and> hidden d2 ''#notify_disable'' \<and>
      \<not> hidden d2 ''#notify_enable'' \<and> \<not> has_class d2 ''#notify_enable'' ''d-none'')"
proof -
  note laws = jquery_page.page_laws [OF assms(1)]
  have on: "enableNotifications b = (notifications_granted b, Val True)"
    using assms(3-) by (simp add: enableNotifications_def)
  define b1 where "b1 = notifications_granted b"
  have ok: "jar_ok b1"
    using assms(2) by (simp add: b1_def notifications_granted_def show_disable_button_def
        sendNotification_plain)
  note fx = notifications_granted_effects [OF assms(2), folded b1_def]
  have off: "\<not> notify_enabled (fst (disableNotifications b1))"
    using ok by (simp add: disableNotifications_def notify_enabled_def)
  show ?thesis
    using fx off unfolding on b1_def [symmetric]
    by (simp add: new_effects_append [OF fx(1)] disableNotifications_def new_effects_def laws Let_def)
qed

theorem notification_switch_witness:
  "case enableNotifications blank_browser of (b1, r) \<Rightarrow> case disableNotifications b1 of (b2, r2) \<Rightarrow>
     (let d1 = fold page_exec (new_effects blank_browser b1) (\<lambda>_. \<lparr>el_hidden = False, el_html = [], el_classes = [''d-none'']\<rparr>);
          d2 = fold page_exec (new_effects b1 b2) d1 in
      r = Val True \<and> notify_enabled b1 \<and> \<not> page_hidden d1 ''#notify_disable'' \<and>
      \<not> page_has_class d1 ''#notify_disable'' ''d-none'' \<and> page_hidden d1 ''#notify_enable'' \<and>
      r2 \<and> \<not> notify_enabled b2 \<and> page_hidden d2 ''#notify_disable'' \<and>
      \<not> page_hidden d2 ''#notify_enable'' \<and> \<not> page_has_class d2 ''#notify_enable'' ''d-none'')"
  by (rule notification_switch [OF plain.jquery_page_axioms])
    (simp_all add: blank_browser_def jar_ok_def cookie_pairs_def)

text \<open>
  Without permission nothing is stored: \<open>enableNotifications\<close> either reports the reason in one
  dialog and returns false, or asks for permission and returns \<open>undefined\<close>; a refusal in the
  callback again ends in one dialog, and no cookie, tag or page element changes.
\<close>

theorem notification_refused:
  assumes "permission b \<noteq> Some ''granted'' \<or> \<not> notification_api b \<or> \<not> storage_api b"
  shows "case enableNotifications b of (b1, r) \<Rightarrow>
     (\<exists>e. b1 = emit e b \<and> \<not> page_call e \<and>
        (r = Val False \<and> (\<exists>t. e = Alert t) \<or> r = Undefined \<and> e = RequestPermission)) \<and>
     (p \<noteq> ''granted'' \<longrightarrow> (case permission_callback p (permission_answered p b) of (b2, r2) \<Rightarrow>
        r2 = Val False \<and> cookies b2 = cookies b \<and> storage b2 = storage b \<and>
        (\<exists>t. effects b2 = effects b @ [Alert t])))"
proof -
  have "\<exists>e r. enableNotifications b = (emit e b, r) \<and> \<not> page_call e \<and>
      (r = Val False \<and> (\<exists>t. e = Alert t) \<or> r = Undefined \<and> e = RequestPermission)"
  proof (cases "notification_api b \<and> storage_api b \<and> permission b \<noteq> Some ''denied''")
    case True
    with assms show ?thesis by (simp add: enableNotifications_def page_call_def)
  next
    case False
    then obtain t where "enableNotifications b = (emit (Alert t) b, Val False)"
      unfolding enableNotifications_def by (simp only: if_False if_True de_Morgan_conj not_not) metis
    then show ?thesis by (intro exI [of _ "Alert t"] exI [of _ "Val False"]) (simp add: page_call_def)
  qed
  moreover have "permission_callback p (permission_answered p b) =
      (emit (Alert ''Browser denied permission to send desktop notifications.'')
        (b\<lparr>permission := Some p\<rparr>), Val False)" if "p \<noteq> ''granted''"
    using that by (cases "permission b")
      (simp_all add: permission_callback_def permission_answered_def)
  ultimately show ?thesis by fastforce
qed

theorem notification_refused_witness:
  defines "b \<equiv> blank_browser\<lparr>permission := Some ''default''\<rparr>"
  shows "case enableNotifications b of (b1, r) \<Rightarrow>
     (\<exists>e. b1 = emit e b \<and> \<not> page_call e \<and>
        (r = Val False \<and> (\<exists>t. e = Alert t) \<or> r = Undefined \<and> e = RequestPermission)) \<and>
     (''denied'' \<noteq> ''granted'' \<longrightarrow>
      (case permission_callback ''denied'' (permission_answered ''denied'' b) of (b2, r2) \<Rightarrow>
        r2 = Val False \<and> cookies b2 = cookies b \<and> storage b2 = storage b \<and>
        (\<exists>t. effects b2 = effects b @ [Alert t])))"
  by (rule notification_refused) (simp add: b_def blank_browser_def)

text \<open>
  The keyboard switches: after \<open>enableKeys\<close> the cookie reads as on and only the disabling
  button is shown, after \<open>disableKeys\<close> it reads as off and only the enabling button is shown.
\<close>

theorem keys_switch:
  assumes "jquery_page exec hidden content has_class" "jar_ok b"
  shows "getCookie ''domjudge_keys'' (enableKeys b) = ''1'' \<and>
     getCookie ''domjudge_keys'' (disableKeys b) = ''0'' \<and>
     (let d1 = fold exec (new_effects b (enableKeys b)) d;
          d2 = fold exec (new_effects b (disableKeys b)) d in
      hidden d1 ''#keys_enable'' \<and> \<not> hidden d1 ''#keys_disable'' \<and>
      \<not> has_class d1 ''#keys_disable'' ''d-none'' \<and>
      hidden d2 ''#keys_disable'' \<and> \<not> hidden d2 ''#keys_enable'' \<and>
      \<not> has_class d2 ''#keys_enable'' ''d-none'')"
  using assms(2) jquery_page.page_laws [OF assms(1)]
  by (simp add: enableKeys_def disableKeys_def new_effects_def)

theorem keys_switch_witness:
  defines "d \<equiv> (\<lambda>_. \<lparr>el_hidden = False, el_html = [], el_classes = [''d-none'']\<rparr>)"
  shows "getCookie ''domjudge_keys'' (enableKeys blank_browser) = ''1'' \<and>
     getCookie ''domjudge_keys'' (disableKeys blank_browser) = ''0'' \<and>
     (let d1 = fold page_exec (new_effects blank_browser (enableKeys blank_browser)) d;
          d2 = fold page_exec (new_effects blank_browser (disableKeys blank_browser)) d in
      page_hidden d1 ''#keys_enable'' \<and> \<not> page_hidden d1 ''#keys_disable'' \<and>
      \<not> page_has_class d1 ''#keys_disable'' ''d-none'' \<and>
      page_hidden d2 ''#keys_disable'' \<and> \<not> page_hidden d2 ''#keys_enable'' \<and>
      \<not> page_has_class d2 ''#keys_enable'' ''d-none'')"
  by (rule keys_switch [OF plain.jquery_page_axioms])
    (simp add: blank_browser_def jar_ok_def cookie_pairs_def)

end
