(* ===== verification/Clock.thy ===== *)
theory Clock
  imports JsString
begin

text \<open>
  The countdown of the menu bar, \<open>updateClock\<close> of \<open>webapp/public/js/domjudge.js\<close>. The contest times
  are whole seconds (the page prints them so), the browser's clock is in milliseconds. The state
  is the text of the countdown element.
\<close>

record contest_times =
  activatetime :: int
  starttime :: int
  endtime :: int
  clientOffset :: int          \<comment> \<open>milliseconds the browser is ahead of the server\<close>

text \<open>\<open>Math.round\<close> of \<open>a / n\<close>: halves go up.\<close>

definition round_div :: "int \<Rightarrow> int \<Rightarrow> int" where
  "round_div a n = (2 * a + n) div (2 * n)"

definition clock_time :: "contest_times \<Rightarrow> int \<Rightarrow> int" where
  "clock_time c now = round_div (now - clientOffset c) 1000"

definition clock_fmt :: "int \<Rightarrow> string" where
  "clock_fmt left =
     (let (fmt, left) =
            (if left > 24 * 60 * 60
             then (let d = left div (24 * 60 * 60) in
                   (show_int d @ ''d '', left - d * (24 * 60 * 60)))
             else ([], left));
          (fmt, left) =
            (if left > 60 * 60
             then (let h = left div (60 * 60) in (fmt @ show_int h @ '':'', left - h * (60 * 60)))
             else (fmt, left));
          m = left div 60;
          fmt = (if m < 10 then fmt @ ''0'' else fmt) @ show_int m @ '':'';
          left = left - m * 60;
          fmt = (if left < 10 then fmt @ ''0'' else fmt) @ show_int left
      in fmt)"

definition updateClock :: "contest_times \<Rightarrow> int \<Rightarrow> string \<Rightarrow> string" where
  "updateClock c now html =
     (let curtime = clock_time c now;
          (left, what) =
            (if html = ''start delayed'' \<or> html = ''no contest'' then (0, html)
             else if curtime \<ge> starttime c \<and> curtime < endtime c then (endtime c - curtime, '''')
             else if curtime \<ge> activatetime c \<and> curtime < starttime c
             then (starttime c - curtime, ''time to start: '')
             else (0, ''contest over''));
          fmt = (if left \<noteq> 0 then clock_fmt left else '''')
      in what @ fmt)"

section \<open>Reading a countdown back\<close>

text \<open>
  The specification of the format: days before a \<open>d\<close>, then fields separated by colons, each worth
  sixty of the next.
\<close>

definition read_clock :: "string \<Rightarrow> nat" where
  "read_clock s =
     (let (days, rest) = (case index_of (CHR ''d'') s of
            None \<Rightarrow> (0, s)
          | Some i \<Rightarrow> (read_nat (take i s), drop (i + 2) s))
      in days * 86400 + fold (\<lambda>p acc. 60 * acc + read_nat p) (split_on (CHR '':'') rest) 0)"

definition two_digits :: "nat \<Rightarrow> string" where
  "two_digits n = (if n < 10 then ''0'' else []) @ show_nat n"

lemma read_nat_zero: "read_nat (CHR ''0'' # s) = read_nat s"
  by (simp add: read_nat_def digit_val_def)

lemma read_two_digits [simp]: "read_nat (two_digits n) = n"
  by (simp add: two_digits_def read_nat_zero)

lemma two_digits_digits: "c \<in> set (two_digits n) \<Longrightarrow> is_digit c"
  by (auto simp: two_digits_def is_digit_def dest: show_nat_digits split: if_splits)

lemma show_digits_not_in [simp]:
  "CHR '':'' \<notin> set (two_digits n)" "CHR ''d'' \<notin> set (two_digits n)"
  "CHR '':'' \<notin> set (show_nat n)" "CHR ''d'' \<notin> set (show_nat n)"
  using two_digits_digits [of _ n] show_nat_digits [of _ n] is_digit_neq by blast+

text \<open>The shape of a printed countdown in terms of its fields.\<close>

definition day_field :: "nat \<Rightarrow> string" where
  "day_field n = (if n > 86400 then show_nat (n div 86400) @ ''d '' else [])"

definition hour_field :: "nat \<Rightarrow> string" where
  "hour_field n = (if n > 3600 then show_nat (n div 3600) @ '':'' else [])"

definition day_rest :: "nat \<Rightarrow> nat" where
  "day_rest n = (if n > 86400 then n mod 86400 else n)"

definition hour_rest :: "nat \<Rightarrow> nat" where
  "hour_rest n = (if n > 3600 then n mod 3600 else n)"

lemma int_rest: "int k - int k div int m * int m = int (k mod m)"
  by (simp add: minus_div_mult_eq_mod zmod_int)

lemmas int_rests = int_rest [of _ 86400, simplified] int_rest [of _ 3600, simplified]
  int_rest [of _ 60, simplified]

lemmas int_quots = zdiv_int [of _ 86400, simplified, symmetric] zdiv_int [of _ 3600, simplified, symmetric]
  zdiv_int [of _ 60, simplified, symmetric]

lemma show_int_of_nat [simp]: "show_int (int k) = show_nat k"
  by (simp add: show_int_def)

lemma clock_fmt_fields: "clock_fmt (int n) = day_field n @ hour_field (day_rest n) @
    two_digits (hour_rest (day_rest n) div 60) @ '':'' @ two_digits (hour_rest (day_rest n) mod 60)"
proof -
  have days: "(if int n > 24 * 60 * 60
         then (show_int (int n div (24 * 60 * 60)) @ ''d '',
               int n - int n div (24 * 60 * 60) * (24 * 60 * 60))
         else ([], int n)) = (day_field n, int (day_rest n))"
    using int_rests(1) [of n] int_quots(1) [of n] by (simp add: day_field_def day_rest_def Let_def)
  have hours: "(if int k > 60 * 60
         then (fmt @ show_int (int k div (60 * 60)) @ '':'', int k - int k div (60 * 60) * (60 * 60))
         else (fmt, int k)) = (fmt @ hour_field k, int (hour_rest k))" for k fmt
    using int_rests(2) [of k] int_quots(2) [of k] by (simp add: hour_field_def hour_rest_def Let_def)
  have minutes: "int k div 60 = int (k div 60)" "int k - int (k div 60) * 60 = int (k mod 60)" for k
    using int_rests(3) [of k] int_quots(3) [of k] by simp_all
  show ?thesis
    unfolding clock_fmt_def Let_def days prod.case hours
    unfolding minutes by (simp add: two_digits_def)
qed

lemma split_fields:
  "split_on (CHR '':'') (hour_field n @ two_digits a @ '':'' @ two_digits b) =
    (if n > 3600 then [show_nat (n div 3600)] else []) @ [two_digits a, two_digits b]"
  by (simp add: hour_field_def split_on_append_sep split_on_no_sep)

lemma read_clock_fmt: "read_clock (clock_fmt (int n)) = n"
proof -
  define k where "k = day_rest n"
  define t where "t = hour_field k @ two_digits (hour_rest k div 60) @ '':'' @ two_digits (hour_rest k mod 60)"
  have val: "fold (\<lambda>p acc. 60 * acc + read_nat p) (split_on (CHR '':'') t) 0 = k"
    unfolding t_def split_fields by (simp add: hour_rest_def)
  have nd: "CHR ''d'' \<notin> set t"
    by (simp add: t_def hour_field_def)
  show ?thesis
  proof (cases "n > 86400")
    case True
    have "index_of (CHR ''d'') (show_nat (n div 86400) @ CHR ''d'' # '' '' @ t)
        = Some (length (show_nat (n div 86400)))"
      by (rule index_of_append) simp
    with True val show ?thesis
      by (simp add: clock_fmt_fields read_clock_def day_field_def t_def k_def day_rest_def)
  next
    case False
    have "clock_fmt (int n) = t" "k = n"
      using False by (simp_all add: clock_fmt_fields day_field_def t_def k_def day_rest_def)
    moreover have "index_of (CHR ''d'') t = None" using nd by simp
    ultimately show ?thesis using val by (simp add: read_clock_def)
  qed
qed

text \<open>
  C14. The countdown shows the truth: between start and end of the contest the text reads back as the
  seconds until the end, between activation and start it is \<open>time to start: \<close> followed by the
  seconds until the start, at any other time it is \<open>contest over\<close>, and a page whose countdown
  says \<open>start delayed\<close> or \<open>no contest\<close> keeps saying so.
\<close>

theorem countdown_phases:
  "(let t = clock_time c now; text = updateClock c now html in
     if html = ''start delayed'' \<or> html = ''no contest'' then text = html
     else if starttime c \<le> t \<and> t < endtime c then int (read_clock text) = endtime c - t
     else if activatetime c \<le> t \<and> t < starttime c
     then \<exists>r. text = ''time to start: '' @ r \<and> int (read_clock r) = starttime c - t
     else text = ''contest over'')"
proof -
  have "int (read_clock (clock_fmt n)) = n" if "0 < n" for n
    using read_clock_fmt [of "nat n"] that by simp
  then show ?thesis by (simp add: updateClock_def Let_def)
qed

text \<open>
  The fields of a countdown: for every number of seconds the text is made of days, hours,
  minutes and seconds that add up to it, with leading zeros on the last two only; seconds stay
  below 60, minutes below 60 unless exactly one hour is left over, hours below 24 unless exactly
  one day is left.
\<close>

theorem countdown_fields:
  "\<exists>d h m s. n = 86400 * d + 3600 * h + 60 * m + s \<and> s < 60 \<and>
     (m < 60 \<or> m = 60 \<and> s = 0 \<and> h = 0) \<and> (h < 24 \<or> h = 24 \<and> n = 86400) \<and>
     clock_fmt (int n) = (if d = 0 then [] else show_nat d @ ''d '') @
       (if h = 0 then [] else show_nat h @ '':'') @ two_digits m @ '':'' @ two_digits s"
proof -
  define d where "d = (if n > 86400 then n div 86400 else 0)"
  define k where "k = day_rest n"
  define h where "h = (if k > 3600 then k div 3600 else 0)"
  define r where "r = hour_rest k"
  have n: "n = 86400 * d + k" by (simp add: d_def k_def day_rest_def)
  have k: "k = 3600 * h + r" by (simp add: h_def r_def hour_rest_def)
  have r: "r = 60 * (r div 60) + r mod 60" by simp
  have rb: "r \<le> 3600" "r = 3600 \<longrightarrow> h = 0" by (auto simp: r_def h_def hour_rest_def)
  have kb: "k \<le> 86400" "k = 86400 \<longrightarrow> n = 86400" by (auto simp: k_def day_rest_def)
  have dz: "day_field n = (if d = 0 then [] else show_nat d @ ''d '')"
    by (auto simp: day_field_def d_def div_greater_zero_iff)
  have hz: "hour_field k = (if h = 0 then [] else show_nat h @ '':'')"
    by (auto simp: hour_field_def h_def div_greater_zero_iff)
  have "h < 24 \<or> h = 24 \<and> n = 86400" using kb k by auto
  moreover have "r div 60 < 60 \<or> r div 60 = 60 \<and> r mod 60 = 0 \<and> h = 0"
  proof (cases "r = 3600")
    case False
    with rb have "r < 60 * 60" by simp
    then show ?thesis by (simp add: less_mult_imp_div_less)
  qed (use rb in simp)
  moreover have "clock_fmt (int n) = (if d = 0 then [] else show_nat d @ ''d '') @
      (if h = 0 then [] else show_nat h @ '':'') @ two_digits (r div 60) @ '':'' @ two_digits (r mod 60)"
    by (simp only: clock_fmt_fields dz [symmetric] hz [symmetric] k_def r_def)
  ultimately show ?thesis
    using n k r by (intro exI [of _ d] exI [of _ h] exI [of _ "r div 60"] exI [of _ "r mod 60"]) simp
qed

text \<open>
  The two boundary values: the comparisons with one day and one hour are strict, so exactly one
  hour is shown as sixty minutes and exactly one day as twenty-four hours.
\<close>

lemma countdown_boundaries: "clock_fmt 3600 = ''60:00''" "clock_fmt 86400 = ''24:00:00''"
  "clock_fmt 3601 = ''1:00:01''" "clock_fmt 86401 = ''1d 00:01''"
  by (simp_all add: clock_fmt_def show_int_def show_nat.simps)

end
