(* ===== verification/HumanReadable.thy ===== *)
theory HumanReadable
  imports Complex_Main JsString
begin

text \<open>
  \<open>humanReadableTimeDiff\<close> and \<open>humanReadableBytes\<close> of \<open>webapp/public/js/domjudge.js\<close>. Both walk a
  table of units from the largest down and take the first of which the value holds at least two.
  Values are rationals: the time difference is a number of milliseconds over 1000.
\<close>

text \<open>The loop: the first unit with a quotient of at least two, and the rounded quotient.\<close>

fun pick_unit :: "(string \<times> nat) list \<Rightarrow> rat \<Rightarrow> (string \<times> int) option" where
  "pick_unit [] x = None"
| "pick_unit ((name, len) # us) x =
     (if x / of_nat len \<ge> 2 then Some (name, \<lfloor>x / of_nat len\<rfloor>) else pick_unit us x)"

definition intervals :: "(string \<times> nat) list" where
  "intervals =
     [(''years'', 365 * 24 * 60 * 60), (''months'', 30 * 24 * 60 * 60), (''days'', 24 * 60 * 60),
      (''hours'', 60 * 60), (''minutes'', 60)]"

definition sizes :: "(string \<times> nat) list" where
  "sizes = [(''GB'', 1024 * 1024 * 1024), (''MB'', 1024 * 1024), (''KB'', 1024)]"

definition humanReadableTimeDiff :: "rat \<Rightarrow> string" where
  "humanReadableTimeDiff seconds = (case pick_unit intervals seconds of
       Some (name, k) \<Rightarrow> show_int k @ '' '' @ name
     | None \<Rightarrow> show_int \<lfloor>seconds\<rfloor> @ '' seconds'')"

definition humanReadableBytes :: "rat \<Rightarrow> string" where
  "humanReadableBytes bytes = (case pick_unit sizes bytes of
       Some (name, k) \<Rightarrow> show_int k @ name
     | None \<Rightarrow> show_int \<lfloor>bytes\<rfloor> @ ''B'')"

section \<open>What a table of units promises\<close>

text \<open>
  A unit table lists positive units from the largest down. Then the unit picked is the largest one
  that fits twice, and rounding down loses less than one unit.
\<close>

locale unit_table =
  fixes units :: "(string \<times> nat) list"
  assumes units_pos: "(n, l) \<in> set units \<Longrightarrow> 0 < l"
    and units_desc: "sorted_wrt (\<lambda>u v. snd v < snd u) units"
begin

lemma pick_from:
  assumes "set us \<subseteq> set units" "sorted_wrt (\<lambda>u v. snd v < snd u) us"
  shows "case pick_unit us x of
      None \<Rightarrow> \<forall>(m, l) \<in> set us. x < 2 * of_nat l
    | Some (n, k) \<Rightarrow> \<exists>l. (n, l) \<in> set us \<and> 2 \<le> k \<and> of_int k * of_nat l \<le> x \<and>
        x < (of_int k + 1) * of_nat l \<and> (\<forall>(m, l') \<in> set us. l < l' \<longrightarrow> x < 2 * of_nat l')"
  using assms
proof (induction us)
  case (Cons u us)
  obtain m l where u: "u = (m, l)" by (cases u)
  have l: "(0 :: rat) < of_nat l" using Cons.prems(1) units_pos [of m l] u by auto
  show ?case
  proof (cases "x / of_nat l \<ge> 2")
    case True
    define k where "k = \<lfloor>x / of_nat l\<rfloor>"
    have "of_int k \<le> x / of_nat l" "x / of_nat l < of_int k + 1"
      unfolding k_def by linarith+
    then have "of_int k * of_nat l \<le> x" "x < (of_int k + 1) * of_nat l"
      using l by (simp_all add: pos_le_divide_eq pos_divide_less_eq)
    moreover have "2 \<le> k" using True by (simp add: k_def le_floor_iff)
    moreover have "\<forall>(m, l') \<in> set (u # us). \<not> l < l'" using Cons.prems(2) u by force
    ultimately show ?thesis using True u by (auto simp: k_def)
  next
    case False
    then have "x / of_nat l < 2" by simp
    with l have x: "x < 2 * of_nat l" by (simp only: pos_divide_less_eq)
    have IH: "case pick_unit us x of
        None \<Rightarrow> \<forall>(m, l) \<in> set us. x < 2 * of_nat l
      | Some (n, k) \<Rightarrow> \<exists>l. (n, l) \<in> set us \<and> 2 \<le> k \<and> of_int k * of_nat l \<le> x \<and>
          x < (of_int k + 1) * of_nat l \<and> (\<forall>(m, l') \<in> set us. l < l' \<longrightarrow> x < 2 * of_nat l')"
      using Cons by simp
    show ?thesis
    proof (cases "pick_unit us x")
      case None
      with IH x False u show ?thesis by auto
    next
      case (Some nk)
      with IH x False u show ?thesis by (cases nk) fastforce
    qed
  qed
qed simp

lemmas pick_spec = pick_from [OF subset_refl units_desc]

text \<open>What a reader of the display knows, with \<open>base\<close> the name of the unit of one.\<close>

lemma display_spec:
  "\<exists>name l k. (case pick_unit units x of Some (n, q) \<Rightarrow> n = name \<and> q = k
        | None \<Rightarrow> name = base \<and> l = 1 \<and> k = \<lfloor>x\<rfloor>) \<and>
     ((name, l) \<in> set units \<and> 2 \<le> k \<or> (name, l) = (base, 1)) \<and>
     of_int k * of_nat l \<le> x \<and> x < (of_int k + 1) * of_nat l \<and>
     (\<forall>(m, l') \<in> set units. l < l' \<longrightarrow> x < 2 * of_nat l')"
proof (cases "pick_unit units x")
  case None
  with pick_spec [of x] show ?thesis
    by (intro exI [of _ base] exI [of _ 1] exI [of _ "\<lfloor>x\<rfloor>"]) (auto, linarith)
next
  case (Some nk)
  with pick_spec [of x] show ?thesis by (cases nk) auto
qed

end

interpretation intervals: unit_table intervals
  by unfold_locales (auto simp: intervals_def)

interpretation sizes: unit_table sizes
  by unfold_locales (auto simp: sizes_def)

text \<open>
  \<open>humanReadableTimeDiff\<close> prints the number of whole units that fit in the time, in the largest
  unit that fits at least twice (seconds when none does): the printed amount is never more than the
  time, less than one unit is lost, and every larger unit fits less than twice.
\<close>

theorem time_diff_largest_unit:
  "\<exists>name l k. humanReadableTimeDiff s = show_int k @ '' '' @ name \<and>
     ((name, l) \<in> set intervals \<and> 2 \<le> k \<or> (name, l) = (''seconds'', 1)) \<and>
     of_int k * of_nat l \<le> s \<and> s < (of_int k + 1) * of_nat l \<and>
     list_all (\<lambda>(m, l'). l' \<le> l \<or> s < 2 * of_nat l') intervals"
proof -
  obtain name l k where d: "case pick_unit intervals s of Some (n, q) \<Rightarrow> n = name \<and> q = k
        | None \<Rightarrow> name = ''seconds'' \<and> l = 1 \<and> k = \<lfloor>s\<rfloor>"
      and r: "(name, l) \<in> set intervals \<and> 2 \<le> k \<or> (name, l) = (''seconds'', 1)"
        "of_int k * of_nat l \<le> s" "s < (of_int k + 1) * of_nat l"
        "\<forall>(m, l') \<in> set intervals. l < l' \<longrightarrow> s < 2 * of_nat l'"
    using intervals.display_spec [where x = s and base = "''seconds''"] by blast
  have "humanReadableTimeDiff s = show_int k @ '' '' @ name"
    using d by (auto simp: humanReadableTimeDiff_def split: option.splits)
  with r show ?thesis by (intro exI [of _ name] exI [of _ l] exI [of _ k]) (force simp: list_all_iff)
qed

text \<open>
  \<open>humanReadableBytes\<close> keeps the same promise for sizes in bytes, KB, MB and GB.
\<close>

theorem bytes_largest_unit:
  "\<exists>name l k. humanReadableBytes s = show_int k @ name \<and>
     ((name, l) \<in> set sizes \<and> 2 \<le> k \<or> (name, l) = (''B'', 1)) \<and>
     of_int k * of_nat l \<le> s \<and> s < (of_int k + 1) * of_nat l \<and>
     list_all (\<lambda>(m, l'). l' \<le> l \<or> s < 2 * of_nat l') sizes"
proof -
  obtain name l k where d: "case pick_unit sizes s of Some (n, q) \<Rightarrow> n = name \<and> q = k
        | None \<Rightarrow> name = ''B'' \<and> l = 1 \<and> k = \<lfloor>s\<rfloor>"
      and r: "(name, l) \<in> set sizes \<and> 2 \<le> k \<or> (name, l) = (''B'', 1)"
        "of_int k * of_nat l \<le> s" "s < (of_int k + 1) * of_nat l"
        "\<forall>(m, l') \<in> set sizes. l < l' \<longrightarrow> s < 2 * of_nat l'"
    using sizes.display_spec [where x = s and base = "''B''"] by blast
  have "humanReadableBytes s = show_int k @ name"
    using d by (auto simp: humanReadableBytes_def split: option.splits)
  with r show ?thesis by (intro exI [of _ name] exI [of _ l] exI [of _ k]) (force simp: list_all_iff)
qed

end
