(* ===== verification/Scoreboard.thy ===== *)
theory Scoreboard
  imports Browser
begin

text \<open>
  The favourite teams of the scoreboard in \<open>webapp/public/js/domjudge.js\<close>: the tables as lists of
  rows, \<open>getSelectedTeams\<close>, \<open>getScoreboards\<close>, \<open>getRank\<close>, \<open>getHeartCol\<close>, \<open>getHeart\<close>,
  \<open>initFavouriteTeams\<close>, which puts copies of the favourites on top and a heart in every team's row,
  and \<open>toggle\<close>, which a click on a heart calls with the number that \<open>initFavouriteTeams\<close> wrote there.
\<close>

section \<open>Tables\<close>

text \<open>
  A row keeps what the code reads and writes: its team identifier, its classes, its \<open>td\<close> cells, the
  content of its first element of class \<open>rank\<close>, its \<open>style\<close> attribute and its background.
\<close>

record cell =
  cell_classes :: "string list"
  cell_html :: string

record row =
  team_id :: "string option"          \<comment> \<open>attribute \<open>data-team-id\<close>\<close>
  row_classes :: "string list"
  cells :: "cell list"
  rank :: "string option"             \<comment> \<open>\<open>innerHTML\<close> of \<open>.rank\<close>, if there is one\<close>
  style_attr :: string
  background :: "string option"       \<comment> \<open>set after the \<open>style\<close> attribute\<close>

record board =
  board_classes :: "string list"
  rows :: "row list"

datatype board_key = Mobile | Desktop

text \<open>The keys are finitely many, so a page has at most two tables.\<close>

lemma UNIV_board_key: "(UNIV :: board_key set) = {Mobile, Desktop}"
  by (auto intro: board_key.exhaust)

lemma card_board_key: "card (UNIV :: board_key set) = 2"
  by (simp add: UNIV_board_key)

instantiation board_key :: enum
begin

definition enum_board_key :: "board_key list" where
  "enum_board_key = [Mobile, Desktop]"

definition enum_all_board_key :: "(board_key \<Rightarrow> bool) \<Rightarrow> bool" where
  "enum_all_board_key P = (P Mobile \<and> P Desktop)"

definition enum_ex_board_key :: "(board_key \<Rightarrow> bool) \<Rightarrow> bool" where
  "enum_ex_board_key P = (P Mobile \<or> P Desktop)"

instance
  by standard (auto simp: enum_board_key_def enum_all_board_key_def enum_ex_board_key_def UNIV_board_key)

end

text \<open>
  The object \<open>scoreboardRows\<close>: the live row collections of the tables, by index in the document,
  in the order in which the properties were first set.
\<close>

definition put_key :: "board_key \<Rightarrow> nat \<Rightarrow> (board_key \<times> nat) list \<Rightarrow> (board_key \<times> nat) list" where
  "put_key k i m = (if k \<in> set (map fst m) then map (\<lambda>(k', j). (k', if k' = k then i else j)) m
                    else m @ [(k, i)])"

fun getScoreboards_loop ::
  "nat \<Rightarrow> board list \<Rightarrow> (board_key \<times> nat) list \<Rightarrow> (board_key \<times> nat) list" where
  "getScoreboards_loop i [] m = m"
| "getScoreboards_loop i (b # bs) m =
     getScoreboards_loop (Suc i) bs
       (if ''mobile-scoreboard'' \<in> set (board_classes b) then put_key Mobile i m
        else if ''desktop-scoreboard'' \<in> set (board_classes b) then put_key Desktop i m else m)"

definition getScoreboards :: "board list \<Rightarrow> (board_key \<times> nat) list option" where
  "getScoreboards doc = (if doc = [] then None else Some (getScoreboards_loop 0 doc []))"

definition getRank :: "row \<Rightarrow> string option" where
  "getRank r = rank r"

definition getTeamname :: "row \<Rightarrow> string option" where
  "getTeamname r = team_id r"

definition getHeartCol :: "row \<Rightarrow> nat option" where
  "getHeartCol r = List.find (\<lambda>i. case nth_opt (cells r) i of
       Some td \<Rightarrow> ''heart'' \<in> set (cell_classes td) | None \<Rightarrow> False) [1, 2, 3, 4]"

definition show_bool :: "bool \<Rightarrow> string" where
  "show_bool b = (if b then ''true'' else ''false'')"

definition getHeart :: "nat \<Rightarrow> bool \<Rightarrow> bool \<Rightarrow> string" where
  "getHeart i isFav mobile =
     (let iconClass = (if isFav then ''fas fa-heart'' else ''far fa-heart'') in
      ''<span class='' @ [CHR 0x22] @ ''heart '' @ iconClass @ [CHR 0x22] @ '' onclick='' @ [CHR 0x22]
      @ ''toggle('' @ show_nat i @ '','' @ (if isFav then ''false'' else ''true'') @ '',''
      @ show_bool mobile @ '')'' @ [CHR 0x22] @ ''></span>'')"

section \<open>The stored selection\<close>

definition getSelectedTeams :: "browser \<Rightarrow> string option list outcome" where
  "getSelectedTeams b = (case getItem ''domjudge_teamselection'' b of
       None \<Rightarrow> Inr []
     | Some v \<Rightarrow> if v = [] then Inr []
         else (case json_parse v of None \<Rightarrow> Inl NotATeamList | Some ts \<Rightarrow> Inr ts))"

section \<open>\<open>toggle\<close>\<close>

definition has_team_attr :: "row \<Rightarrow> bool" where
  "has_team_attr r = (case team_id r of Some t \<Rightarrow> t \<noteq> [] | None \<Rightarrow> False)"

definition toggle_rows :: "row list \<Rightarrow> row list" where
  "toggle_rows rs = filter (\<lambda>r. has_team_attr r \<or> ''scoreheader'' \<in> set (row_classes r)) rs"

text \<open>The inner loop: is this favourite in the (filtered) table?\<close>

definition fav_visible :: "row list \<Rightarrow> string option \<Rightarrow> bool" where
  "fav_visible rs f = list_ex (\<lambda>r. has_team_attr r \<and> getTeamname r = f) rs"

definition toggle_teamname :: "row list \<Rightarrow> string option list \<Rightarrow> nat \<Rightarrow> string option outcome" where
  "toggle_teamname scoreboard favTeams i =
     (let rs = toggle_rows scoreboard;
          visCnt = length (filter (fav_visible rs) favTeams)
      in case nth_opt rs (i + visCnt) of
           None \<Rightarrow> Inl TypeError
         | Some r \<Rightarrow> Inr (getTeamname r))"

definition toggle_favs :: "bool \<Rightarrow> string option \<Rightarrow> string option list \<Rightarrow> string option list" where
  "toggle_favs sh teamname favTeams =
     (if sh then favTeams @ [teamname] else filter (\<lambda>f. f \<noteq> teamname) favTeams)"

definition toggle ::
  "string \<Rightarrow> nat \<Rightarrow> bool \<Rightarrow> bool \<Rightarrow> board list \<Rightarrow> browser \<Rightarrow> browser outcome" where
  "toggle scoreboardUrl i sh mobile doc b =
     (case getScoreboards doc of
        None \<Rightarrow> Inr b
      | Some m \<Rightarrow>
          (case map_of m (if mobile then Mobile else Desktop) of
             None \<Rightarrow> Inl TypeError
           | Some k \<Rightarrow>
               bind_outcome (getSelectedTeams b) (\<lambda>favTeams.
               bind_outcome (toggle_teamname (rows (doc ! k)) favTeams i) (\<lambda>teamname.
                 let cookieVal = json_stringify (toggle_favs sh teamname favTeams);
                     b = setItem ''domjudge_teamselection'' cookieVal b;
                     b = emit (JqAddClass ''.loading-indicator'' ''ajax-loader'') b
                 in Inr (if take 5 (href b) = ''file:'' then emit Reload b
                         else emit (AjaxGet scoreboardUrl) b)))))"

section \<open>\<open>initFavouriteTeams\<close>\<close>

record init_state =
  st_rows :: "row list"
  toAdd :: "row list"
  toAddMobile :: "row list"
  lastRank :: string
  teamIndex :: nat

definition set_heart :: "nat \<Rightarrow> string \<Rightarrow> row \<Rightarrow> row" where
  "set_heart i h r = r\<lparr>cells := (cells r)[i := (cells r ! i)\<lparr>cell_html := h\<rparr>]\<rparr>"

definition add_class :: "string \<Rightarrow> string list \<Rightarrow> string list" where
  "add_class c cs = (if c \<in> set cs then cs else cs @ [c])"

definition recolour_cell :: "cell \<Rightarrow> cell" where
  "recolour_cell c = (if ''cl_FFFFFF'' \<in> set (cell_classes c)
     then c\<lparr>cell_classes := add_class ''cl_FFFFE0'' (filter (\<lambda>x. x \<noteq> ''cl_FFFFFF'') (cell_classes c))\<rparr>
     else c)"

definition light_up :: "row \<Rightarrow> row" where
  "light_up r = r\<lparr>background := Some ''lightyellow''\<rparr>"

definition recolour :: "row \<Rightarrow> row" where
  "recolour r = r\<lparr>cells := map recolour_cell (cells r)\<rparr>"

definition append_rank :: "string \<Rightarrow> row \<Rightarrow> row" where
  "append_rank s r = r\<lparr>rank := map_option (\<lambda>h. h @ s) (rank r)\<rparr>"

text \<open>
  One round of the loop over the rows. \<open>getRank\<close> of a missing row, and reading the content of a
  missing rank element, are exceptions.
\<close>

definition init_step ::
  "bool \<Rightarrow> string option list \<Rightarrow> nat \<Rightarrow> init_state \<Rightarrow> init_state outcome" where
  "init_step mobile favTeams j s =
     (let row = st_rows s ! j in
      case getTeamname row of
        None \<Rightarrow> Inr s
      | Some teamname \<Rightarrow>
          (case (if mobile then nth_opt (st_rows s) (j + 1) else Some row) of
             None \<Rightarrow> Inl TypeError
           | Some rankRow \<Rightarrow>
               (case getHeartCol row of
                  None \<Rightarrow> Inr s
                | Some heartCol \<Rightarrow>
                    (case getRank rankRow of
                       None \<Rightarrow> Inl TypeError
                     | Some html \<Rightarrow>
                         let r = trim html;
                             found = Some teamname \<in> set favTeams;
                             row1 = set_heart heartCol (getHeart (teamIndex s) found mobile) row;
                             explicit = (\<lambda>x. if r = [] then append_rank (lastRank s) x else x);
                             s1 = (if found
                               then s\<lparr>st_rows :=
                                       (let rs = (st_rows s)[j := recolour (light_up row1)] in
                                        if mobile then rs[j + 1 := light_up (rs ! (j + 1))] else rs),
                                      toAdd := toAdd s @ [if mobile then row1 else explicit row1],
                                      toAddMobile := (if mobile then toAddMobile s @ [explicit rankRow]
                                                      else toAddMobile s)\<rparr>
                               else s\<lparr>st_rows := (st_rows s)[j := row1]\<rparr>)
                         in Inr (s1\<lparr>lastRank := (if r \<noteq> [] then r else lastRank s),
                                    teamIndex := Suc (teamIndex s)\<rparr>)))))"

fun init_loop ::
  "bool \<Rightarrow> string option list \<Rightarrow> nat list \<Rightarrow> init_state \<Rightarrow> init_state outcome" where
  "init_loop mobile favTeams [] s = Inr s"
| "init_loop mobile favTeams (j # js) s =
     bind_outcome (init_step mobile favTeams j s) (init_loop mobile favTeams js)"

text \<open>
  \<open>copyRow\<close>: the style of a copy, and its insertion before row \<open>addCounter\<close> of the live table. The
  rows from 1 on are taken to be children of one table body.
\<close>

definition copy_style :: "nat \<Rightarrow> nat \<Rightarrow> bool \<Rightarrow> bool \<Rightarrow> bool \<Rightarrow> string" where
  "copy_style cntFound i addTopBorder addBottomBorder noMiddleBorder =
     (if noMiddleBorder then ''border-bottom-width: 0;'' else [])
     @ (if addTopBorder \<and> i = 0 then ''border-top: 2px solid black;'' else [])
     @ (if addBottomBorder \<and> i = cntFound - 1 then ''border-bottom: thick solid black;'' else [])"

definition copyRow :: "row \<Rightarrow> string \<Rightarrow> row list \<times> nat \<Rightarrow> (row list \<times> nat) outcome" where
  "copyRow copy style acc = (case acc of (rs, addCounter) \<Rightarrow>
     if length rs \<le> 1 then Inl TypeError
     else Inr (take addCounter rs @ copy\<lparr>style_attr := style, background := None\<rparr> # drop addCounter rs,
               Suc addCounter))"

fun copy_loop ::
  "bool \<Rightarrow> init_state \<Rightarrow> nat list \<Rightarrow> row list \<times> nat \<Rightarrow> (row list \<times> nat) outcome" where
  "copy_loop mobile s [] acc = Inr acc"
| "copy_loop mobile s (i # is) acc =
     bind_outcome (copyRow (toAdd s ! i)
        (copy_style (length (toAdd s)) i True (\<not> mobile) mobile) acc) (\<lambda>acc1.
     bind_outcome (if mobile
        then copyRow (toAddMobile s ! i) (copy_style (length (toAdd s)) i False True False) acc1
        else Inr acc1)
     (copy_loop mobile s is))"

definition init_board :: "bool \<Rightarrow> string option list \<Rightarrow> row list \<Rightarrow> row list outcome" where
  "init_board mobile favTeams rs =
     bind_outcome (init_loop mobile favTeams [0..<length rs]
        \<lparr>st_rows = rs, toAdd = [], toAddMobile = [], lastRank = ''0'', teamIndex = 1\<rparr>) (\<lambda>s.
     bind_outcome (copy_loop mobile s [0..<length (toAdd s)] (st_rows s, 1)) (\<lambda>acc.
     Inr (fst acc)))"

fun init_boards ::
  "string option list \<Rightarrow> (board_key \<times> nat) list \<Rightarrow> board list \<Rightarrow> board list outcome" where
  "init_boards favTeams [] doc = Inr doc"
| "init_boards favTeams ((key, k) # m) doc =
     bind_outcome (init_board (key = Mobile) favTeams (rows (doc ! k))) (\<lambda>rs.
     init_boards favTeams m (doc[k := (doc ! k)\<lparr>rows := rs\<rparr>]))"

definition initFavouriteTeams :: "browser \<Rightarrow> board list \<Rightarrow> board list outcome" where
  "initFavouriteTeams b doc = (case getScoreboards doc of
       None \<Rightarrow> Inr doc
     | Some m \<Rightarrow> bind_outcome (getSelectedTeams b) (\<lambda>favTeams. init_boards favTeams m doc))"

section \<open>Hearts survive the decorations\<close>

definition heart_shows :: "row \<Rightarrow> string \<Rightarrow> bool" where
  "heart_shows r h = (\<exists>i. getHeartCol r = Some i \<and> cell_html (cells r ! i) = h)"

lemma getHeartCol_congr:
  assumes "map (\<lambda>c. ''heart'' \<in> set (cell_classes c)) (cells r) =
           map (\<lambda>c. ''heart'' \<in> set (cell_classes c)) (cells r')"
  shows "getHeartCol r = getHeartCol r'"
proof -
  have "(case nth_opt (cells r) i of Some td \<Rightarrow> ''heart'' \<in> set (cell_classes td) | None \<Rightarrow> False)
      = (case nth_opt (cells r') i of Some td \<Rightarrow> ''heart'' \<in> set (cell_classes td) | None \<Rightarrow> False)" for i
  proof -
    have "length (cells r) = length (cells r')" using assms by (rule map_eq_imp_length_eq)
    moreover have "i < length (cells r) \<Longrightarrow>
        (''heart'' \<in> set (cell_classes (cells r ! i))) = (''heart'' \<in> set (cell_classes (cells r' ! i)))"
      using arg_cong [OF assms, of "\<lambda>l. l ! i"] calculation by simp
    ultimately show ?thesis by (simp add: nth_opt_def)
  qed
  then show ?thesis by (simp add: getHeartCol_def)
qed

lemma getHeartCol_less: "getHeartCol r = Some i \<Longrightarrow> i < length (cells r)"
  by (auto simp: getHeartCol_def find_Some_iff nth_opt_def split: option.splits if_splits)

lemma set_heart_fields [simp]:
  "team_id (set_heart i h r) = team_id r" "row_classes (set_heart i h r) = row_classes r"
  "rank (set_heart i h r) = rank r"
  by (simp_all add: set_heart_def)

lemma heart_shows_set_heart:
  assumes "getHeartCol r = Some i"
  shows "heart_shows (set_heart i h r) h"
proof -
  have i: "i < length (cells r)" using assms by (rule getHeartCol_less)
  have "getHeartCol (set_heart i h r) = getHeartCol r"
    by (rule getHeartCol_congr) (simp add: set_heart_def map_update list_update_same_conv i)
  with assms i show ?thesis by (simp add: heart_shows_def set_heart_def)
qed

lemma decorations [simp]:
  "team_id (light_up r) = team_id r" "team_id (recolour r) = team_id r"
  "team_id (append_rank s r) = team_id r"
  "row_classes (light_up r) = row_classes r" "row_classes (recolour r) = row_classes r"
  "row_classes (append_rank s r) = row_classes r"
  "rank (light_up r) = rank r" "rank (recolour r) = rank r" "cells (light_up r) = cells r"
  by (simp_all add: light_up_def recolour_def append_rank_def)

lemma recolour_cell_heart:
  "(''heart'' \<in> set (cell_classes (recolour_cell c))) = (''heart'' \<in> set (cell_classes c))"
  by (simp add: recolour_cell_def add_class_def)

lemma recolour_cell_html [simp]: "cell_html (recolour_cell c) = cell_html c"
  by (simp add: recolour_cell_def)

lemma heart_shows_recolour [simp]: "heart_shows (recolour r) h = heart_shows r h"
proof -
  have "getHeartCol (recolour r) = getHeartCol r"
    by (rule getHeartCol_congr) (simp add: recolour_def recolour_cell_heart o_def)
  moreover have "cell_html (cells (recolour r) ! i) = cell_html (cells r ! i)"
    if "getHeartCol r = Some i" for i
    using getHeartCol_less [OF that] by (simp add: recolour_def)
  ultimately show ?thesis by (auto simp: heart_shows_def)
qed

lemma heart_shows_frame [simp]:
  "heart_shows (light_up r) h = heart_shows r h"
  "heart_shows (append_rank s r) h = heart_shows r h"
  "heart_shows (r\<lparr>style_attr := st, background := bg\<rparr>) h = heart_shows r h"
  by (simp_all add: heart_shows_def getHeartCol_def light_up_def append_rank_def)

section \<open>Well-formed tables\<close>

text \<open>
  The tables on which the loop runs to its end: a header row, then rows of teams, each with its own
  identifier, a heart cell and a place for the rank, and rows without a team; on the mobile table the
  rank is in the row after the team's. \<open>ScoreboardTable\<close> has the tables that the server renders, and
  which of them are of this form.
\<close>

definition team_row :: "bool \<Rightarrow> row \<Rightarrow> bool" where
  "team_row mobile r = ((\<exists>t. team_id r = Some t \<and> t \<noteq> []) \<and> getHeartCol r \<noteq> None \<and>
     (mobile \<or> rank r \<noteq> None))"

definition filler :: "row \<Rightarrow> bool" where
  "filler r = (team_id r = None \<and> ''scoreheader'' \<notin> set (row_classes r))"

definition header :: "row \<Rightarrow> bool" where
  "header r = (team_id r = None \<and> ''scoreheader'' \<in> set (row_classes r))"

definition teams :: "row list \<Rightarrow> string list" where
  "teams rs = somes (map team_id rs)"

definition wf_board :: "bool \<Rightarrow> row list \<Rightarrow> bool" where
  "wf_board mobile rs = (rs \<noteq> [] \<and> header (hd rs) \<and> list_all (\<lambda>r. filler r \<or> team_row mobile r) (tl rs) \<and>
     distinct (teams rs) \<and>
     (mobile \<longrightarrow> list_all (\<lambda>i. team_id (rs ! i) = None \<or>
        Suc i < length rs \<and> filler (rs ! Suc i) \<and> rank (rs ! Suc i) \<noteq> None) [0..<length rs]))"

lemma teams_append [simp]: "teams (xs @ ys) = teams xs @ teams ys"
  by (simp add: teams_def)

lemma teams_Cons: "teams (r # rs) = (case team_id r of None \<Rightarrow> [] | Some t \<Rightarrow> [t]) @ teams rs"
  by (simp add: teams_def split: option.split)

lemma teams_Nil [simp]: "teams [] = []"
  by (simp add: teams_def)

lemma set_teams: "t \<in> set (teams rs) \<longleftrightarrow> (\<exists>r \<in> set rs. team_id r = Some t)"
  by (auto simp: teams_def set_somes image_iff) (metis+)

lemma teams_take_Suc: "i < length rs \<Longrightarrow> teams (take (Suc i) rs) =
    teams (take i rs) @ (case team_id (rs ! i) of None \<Rightarrow> [] | Some t \<Rightarrow> [t])"
  by (simp add: teams_def take_map [symmetric] somes_take_Suc)

lemma teams_nth_take:
  "i < length rs \<Longrightarrow> team_id (rs ! i) = Some t \<Longrightarrow>
   length (teams (take i rs)) < length (teams rs) \<and> teams rs ! length (teams (take i rs)) = t"
  using somes_nth_take [of i "map team_id rs" t] by (simp add: teams_def take_map)

lemma wf_board_nth:
  assumes "wf_board mobile rs" "i < length rs" "team_id (rs ! i) = Some t"
  shows "team_row mobile (rs ! i)" "t \<noteq> []"
    and "mobile \<Longrightarrow> Suc i < length rs \<and> filler (rs ! Suc i) \<and> rank (rs ! Suc i) \<noteq> None"
proof -
  obtain h rest where rs: "rs = h # rest" using assms(1) by (cases rs) (auto simp: wf_board_def)
  have "i \<noteq> 0"
  proof
    assume "i = 0"
    with assms rs show False by (simp add: wf_board_def header_def)
  qed
  then obtain k where "i = Suc k" by (cases i) auto
  with assms rs have "filler (rs ! i) \<or> team_row mobile (rs ! i)"
    by (auto simp: wf_board_def list_all_length)
  with assms(3) show "team_row mobile (rs ! i)" "t \<noteq> []" by (auto simp: filler_def team_row_def)
  assume mobile
  with assms(1) have "\<forall>i \<in> {0..<length rs}. team_id (rs ! i) = None \<or>
      Suc i < length rs \<and> filler (rs ! Suc i) \<and> rank (rs ! Suc i) \<noteq> None"
    by (simp add: wf_board_def list_all_iff)
  from bspec [OF this, of i] assms(2,3)
  show "Suc i < length rs \<and> filler (rs ! Suc i) \<and> rank (rs ! Suc i) \<noteq> None" by auto
qed

lemma wf_board_teams:
  assumes "wf_board mobile rs"
  shows "distinct (teams rs)" "[] \<notin> set (teams rs)"
proof -
  show "distinct (teams rs)" using assms by (simp add: wf_board_def)
  show "[] \<notin> set (teams rs)"
  proof
    assume "[] \<in> set (teams rs)"
    then obtain r where "r \<in> set rs" "team_id r = Some []" by (auto simp: set_teams)
    then obtain i where "i < length rs" "team_id (rs ! i) = Some []" by (auto simp: in_set_conv_nth)
    then show False using wf_board_nth(2) [OF assms] by blast
  qed
qed

section \<open>What the loop over the rows achieves\<close>

text \<open>The heart that belongs to row \<open>i\<close> of the table: its number counts the teams down to it.\<close>

definition heart_of :: "bool \<Rightarrow> string option list \<Rightarrow> row list \<Rightarrow> nat \<Rightarrow> string" where
  "heart_of mobile favTeams rs i =
     getHeart (Suc (length (teams (take i rs)))) (team_id (rs ! i) \<in> set favTeams) mobile"

definition favs_on :: "string option list \<Rightarrow> row list \<Rightarrow> string list" where
  "favs_on favTeams rs = filter (\<lambda>t. Some t \<in> set favTeams) (teams rs)"

definition init_inv ::
  "bool \<Rightarrow> string option list \<Rightarrow> row list \<Rightarrow> nat \<Rightarrow> init_state \<Rightarrow> bool" where
  "init_inv mobile favTeams rs n s =
     (map team_id (st_rows s) = map team_id rs \<and> map row_classes (st_rows s) = map row_classes rs \<and>
      map rank (st_rows s) = map rank rs \<and>
      (\<forall>i. n \<le> i \<and> i < length rs \<longrightarrow> cells (st_rows s ! i) = cells (rs ! i)) \<and>
      (\<forall>i < n. team_id (rs ! i) \<noteq> None \<longrightarrow>
         heart_shows (st_rows s ! i) (heart_of mobile favTeams rs i)) \<and>
      teamIndex s = Suc (length (teams (take n rs))) \<and>
      map team_id (toAdd s) = map Some (favs_on favTeams (take n rs)) \<and>
      length (toAddMobile s) = (if mobile then length (toAdd s) else 0) \<and>
      (\<forall>r \<in> set (toAddMobile s). filler r) \<and>
      (\<forall>c \<in> set (toAdd s). \<exists>i < n. team_id c = team_id (rs ! i) \<and>
         heart_shows c (heart_of mobile favTeams rs i)))"

lemma init_inv_row:
  assumes "init_inv mobile favTeams rs n s" "i < length rs"
  shows "length (st_rows s) = length rs" "team_id (st_rows s ! i) = team_id (rs ! i)"
    "row_classes (st_rows s ! i) = row_classes (rs ! i)" "rank (st_rows s ! i) = rank (rs ! i)"
    "n \<le> i \<Longrightarrow> cells (st_rows s ! i) = cells (rs ! i)"
proof -
  have m: "map team_id (st_rows s) = map team_id rs" "map row_classes (st_rows s) = map row_classes rs"
      "map rank (st_rows s) = map rank rs"
    using assms(1) by (simp_all add: init_inv_def)
  show l: "length (st_rows s) = length rs" using m(1) by (rule map_eq_imp_length_eq)
  show "team_id (st_rows s ! i) = team_id (rs ! i)" "row_classes (st_rows s ! i) = row_classes (rs ! i)"
    "rank (st_rows s ! i) = rank (rs ! i)"
    using m [THEN arg_cong [where f = "\<lambda>l. l ! i"]] assms(2) l by simp_all
  show "n \<le> i \<Longrightarrow> cells (st_rows s ! i) = cells (rs ! i)"
    using assms by (simp add: init_inv_def)
qed

lemma init_inv_start:
  "init_inv mobile favTeams rs 0
     \<lparr>st_rows = rs, toAdd = [], toAddMobile = [], lastRank = r, teamIndex = 1\<rparr>"
  by (simp add: init_inv_def favs_on_def)

lemma getHeartCol_cells: "cells r = cells r' \<Longrightarrow> getHeartCol r = getHeartCol r'"
  by (simp add: getHeartCol_def)

text \<open>A row without a team is passed over.\<close>

lemma init_step_no_team:
  assumes "init_inv mobile favTeams rs n s" "n < length rs" "team_id (rs ! n) = None"
  shows "init_step mobile favTeams n s = Inr s" "init_inv mobile favTeams rs (Suc n) s"
proof -
  show "init_step mobile favTeams n s = Inr s"
    using init_inv_row(2) [OF assms(1,2)] assms(3) by (simp add: init_step_def getTeamname_def)
  show "init_inv mobile favTeams rs (Suc n) s"
    using assms by (auto simp: init_inv_def favs_on_def teams_take_Suc less_Suc_eq)
qed

text \<open>A row with a team gets its heart, and a favourite is copied with it.\<close>

lemma init_step_team:
  assumes inv: "init_inv mobile favTeams rs n s" and n: "n < length rs" and wf: "wf_board mobile rs"
    and t: "team_id (rs ! n) = Some t"
  shows "\<exists>s'. init_step mobile favTeams n s = Inr s' \<and> init_inv mobile favTeams rs (Suc n) s'"
proof -
  note row = init_inv_row [OF inv n]
  note wfn = wf_board_nth [OF wf n t]
  have len: "length (st_rows s) = length rs" by (rule row(1))
  obtain hc where hc: "getHeartCol (st_rows s ! n) = Some hc"
    using wfn(1) getHeartCol_cells [OF row(5)] by (auto simp: team_row_def)
  define k where "k = (if mobile then Suc n else n)"
  have k: "k < length rs" using wfn(3) n by (auto simp: k_def)
  obtain html where html: "rank (st_rows s ! k) = Some html"
    using wfn(1,3) init_inv_row(4) [OF inv k] by (cases mobile) (auto simp: k_def team_row_def)
  have rr: "(if mobile then nth_opt (st_rows s) (n + 1) else Some (st_rows s ! n)) = Some (st_rows s ! k)"
    using k len by (cases mobile) (simp_all add: k_def nth_opt_def)
  define found where "found = (Some t \<in> set favTeams)"
  define h where "h = heart_of mobile favTeams rs n"
  define row1 where "row1 = set_heart hc h (st_rows s ! n)"
  define expl where "expl = (\<lambda>x. if trim html = [] then append_rank (lastRank s) x else x)"
  define rows1 where "rows1 = (if found
      then (let q = (st_rows s)[n := recolour (light_up row1)] in
            if mobile then q[Suc n := light_up (q ! Suc n)] else q)
      else (st_rows s)[n := row1])"
  define s' where "s' = s\<lparr>st_rows := rows1,
      toAdd := (if found then toAdd s @ [if mobile then row1 else expl row1] else toAdd s),
      toAddMobile := (if found \<and> mobile then toAddMobile s @ [expl (st_rows s ! k)] else toAddMobile s),
      lastRank := (if trim html \<noteq> [] then trim html else lastRank s),
      teamIndex := Suc (teamIndex s)\<rparr>"
  have ti: "getHeart (teamIndex s) (Some t \<in> set favTeams) mobile = h"
    using inv t by (simp add: init_inv_def h_def heart_of_def)
  have step: "init_step mobile favTeams n s = Inr s'"
    using row(2) t hc html rr
    by (simp add: ti [symmetric] init_step_def getTeamname_def getRank_def s'_def rows1_def row1_def found_def
        expl_def Let_def cong: if_cong)
  have r1: "team_id row1 = Some t" "row_classes row1 = row_classes (rs ! n)" "rank row1 = rank (rs ! n)"
      "heart_shows row1 h"
    using row(2-4) t hc by (simp_all add: row1_def heart_shows_set_heart)
  have nth: "rows1 ! i = (if i = n then (if found then recolour (light_up row1) else row1)
      else if found \<and> mobile \<and> i = Suc n then light_up (st_rows s ! i) else st_rows s ! i)"
    if "i < length rs" for i
    using that len n by (auto simp: rows1_def Let_def nth_list_update)
  have len1: "length rows1 = length rs" by (simp add: rows1_def Let_def len)
  have "map team_id rows1 = map team_id rs" "map row_classes rows1 = map row_classes rs"
    "map rank rows1 = map rank rs"
    using len1 nth init_inv_row(2-4) [OF inv] r1 t by (auto intro!: nth_equalityI)
  moreover have "cells (rows1 ! i) = cells (rs ! i)" if "Suc n \<le> i" "i < length rs" for i
    using nth [OF that(2)] init_inv_row(5) [OF inv that(2)] that by auto
  moreover have "heart_shows (rows1 ! i) (heart_of mobile favTeams rs i)"
    if "i < Suc n" "team_id (rs ! i) \<noteq> None" for i
    using that nth [of i] n r1(4) inv by (auto simp: init_inv_def h_def less_Suc_eq)
  moreover have "filler (expl (st_rows s ! k))" if mobile
    using wfn(3) [OF that] init_inv_row(2,3) [OF inv k] that
    by (simp add: filler_def expl_def k_def)
  moreover have "team_id (expl row1) = Some t" "heart_shows (expl row1) h"
    using r1 by (simp_all add: expl_def)
  moreover have "\<forall>c \<in> set (toAdd s'). \<exists>i < Suc n. team_id c = team_id (rs ! i) \<and>
      heart_shows c (heart_of mobile favTeams rs i)"
  proof
    fix c
    assume "c \<in> set (toAdd s')"
    then consider "c \<in> set (toAdd s)" | "c = row1 \<or> c = expl row1"
      by (auto simp: s'_def split: if_splits)
    then show "\<exists>i < Suc n. team_id c = team_id (rs ! i) \<and> heart_shows c (heart_of mobile favTeams rs i)"
    proof cases
      case 1
      with inv have "\<exists>i < n. team_id c = team_id (rs ! i) \<and> heart_shows c (heart_of mobile favTeams rs i)"
        by (simp add: init_inv_def)
      then show ?thesis by (meson less_SucI)
    next
      case 2
      have "team_id c = Some t" "heart_shows c h"
        using 2 r1(1,4) by (auto simp: expl_def)
      then show ?thesis using t by (auto simp: h_def)
    qed
  qed
  ultimately have "init_inv mobile favTeams rs (Suc n) s'"
    using inv n t r1
    by (auto simp: init_inv_def s'_def favs_on_def teams_take_Suc found_def h_def [symmetric]
        less_Suc_eq)
  with step show ?thesis by blast
qed

lemma init_loop_append: "init_loop mobile favTeams (js @ ks) s =
    bind_outcome (init_loop mobile favTeams js s) (init_loop mobile favTeams ks)"
proof (induction js arbitrary: s)
  case (Cons j js)
  then show ?case by (cases "init_step mobile favTeams j s") simp_all
qed simp

lemma init_loop_inv:
  assumes wf: "wf_board mobile rs" and n: "n \<le> length rs"
    and s0: "init_inv mobile favTeams rs 0 s0"
  shows "\<exists>s. init_loop mobile favTeams [0..<n] s0 = Inr s \<and> init_inv mobile favTeams rs n s"
  using n
proof (induction n)
  case 0
  with s0 show ?case by simp
next
  case (Suc n)
  then obtain s where s: "init_loop mobile favTeams [0..<n] s0 = Inr s" "init_inv mobile favTeams rs n s"
    by auto
  from Suc.prems have n: "n < length rs" by simp
  obtain s' where s': "init_step mobile favTeams n s = Inr s'" "init_inv mobile favTeams rs (Suc n) s'"
  proof (cases "team_id (rs ! n)")
    case None
    with init_step_no_team [OF s(2) n] show ?thesis by (auto intro: that)
  next
    case (Some t)
    with init_step_team [OF s(2) n wf] show ?thesis by (auto intro: that)
  qed
  from s(1) s' show ?case by (auto simp: init_loop_append)
qed

section \<open>Copies on top\<close>

definition styled :: "string \<Rightarrow> row \<Rightarrow> row" where
  "styled style r = r\<lparr>style_attr := style, background := None\<rparr>"

lemma styled_fields [simp]: "team_id (styled st r) = team_id r"
  "row_classes (styled st r) = row_classes r" "heart_shows (styled st r) h = heart_shows r h"
  by (simp_all add: styled_def)

lemma has_team_attr_frame [simp]: "has_team_attr (styled st r) = has_team_attr r"
  by (simp add: has_team_attr_def)

definition copies :: "bool \<Rightarrow> init_state \<Rightarrow> nat list \<Rightarrow> row list" where
  "copies mobile s is = concat (map (\<lambda>i.
     styled (copy_style (length (toAdd s)) i True (\<not> mobile) mobile) (toAdd s ! i) #
     (if mobile then [styled (copy_style (length (toAdd s)) i False True False) (toAddMobile s ! i)]
      else [])) is)"

lemma copyRow_at: "1 < length (pre @ rest) \<Longrightarrow>
    copyRow c st (pre @ rest, length pre) = Inr ((pre @ [styled st c]) @ rest, length (pre @ [styled st c]))"
  by (simp add: copyRow_def styled_def)

lemma copy_loop_eq:
  "1 < length (pre @ rest) \<Longrightarrow> copy_loop mobile s is (pre @ rest, length pre) =
    Inr (pre @ copies mobile s is @ rest, length pre + length (copies mobile s is))"
proof (induction "is" arbitrary: pre)
  case Nil
  then show ?case by (simp add: copies_def)
next
  case (Cons i js)
  define x where "x = styled (copy_style (length (toAdd s)) i True (\<not> mobile) mobile) (toAdd s ! i)"
  define y where "y = styled (copy_style (length (toAdd s)) i False True False) (toAddMobile s ! i)"
  have len1: "1 < length ((pre @ [x]) @ rest)" "1 < length ((pre @ [x, y]) @ rest)"
    using Cons.prems by (auto simp only: length_append list.size)
  have 1: "copyRow (toAdd s ! i) (copy_style (length (toAdd s)) i True (\<not> mobile) mobile)
      (pre @ rest, length pre) = Inr ((pre @ [x]) @ rest, length (pre @ [x]))"
    unfolding x_def using Cons.prems by (rule copyRow_at)
  have 2: "copyRow (toAddMobile s ! i) (copy_style (length (toAdd s)) i False True False)
      ((pre @ [x]) @ rest, length (pre @ [x]))
      = Inr (((pre @ [x]) @ [y]) @ rest, length ((pre @ [x]) @ [y]))"
    unfolding y_def by (rule copyRow_at [OF len1(1)])
  have c: "copies mobile s (i # js) = x # (if mobile then [y] else []) @ copies mobile s js"
    by (simp add: copies_def x_def y_def)
  have IH: "copy_loop mobile s js (q @ rest, length q) =
      Inr (q @ copies mobile s js @ rest, length q + length (copies mobile s js))"
    if "1 < length (q @ rest)" for q
    using Cons.IH that by blast
  have step: "copy_loop mobile s (i # js) (pre @ rest, length pre) =
      (if mobile then copy_loop mobile s js ((pre @ [x, y]) @ rest, length (pre @ [x, y]))
       else copy_loop mobile s js ((pre @ [x]) @ rest, length (pre @ [x])))"
    using 2 by (simp only: copy_loop.simps 1 bind_outcome_simps) simp
  show ?case
    using len1 unfolding step by (simp only: IH c if_distrib split: if_split) simp
qed

lemma set_copies:
  assumes "r \<in> set (copies mobile s [0..<length (toAdd s)])"
    "length (toAddMobile s) = (if mobile then length (toAdd s) else 0)"
  shows "(\<exists>c st. c \<in> set (toAdd s) \<and> r = styled st c) \<or> (\<exists>c st. c \<in> set (toAddMobile s) \<and> r = styled st c)"
proof -
  obtain i where i: "i < length (toAdd s)" "r = styled (copy_style (length (toAdd s)) i True (\<not> mobile) mobile) (toAdd s ! i)
      \<or> mobile \<and> r = styled (copy_style (length (toAdd s)) i False True False) (toAddMobile s ! i)"
    using assms(1) by (auto simp: copies_def split: if_splits)
  then have "toAdd s ! i \<in> set (toAdd s)" "mobile \<Longrightarrow> toAddMobile s ! i \<in> set (toAddMobile s)"
    using assms(2) by simp_all
  with i show ?thesis by blast
qed

lemma toggle_rows_copies:
  assumes "\<forall>r \<in> set (toAdd s). has_team_attr r" "\<forall>r \<in> set (toAddMobile s). filler r"
    "length (toAddMobile s) = (if mobile then length (toAdd s) else 0)" "n \<le> length (toAdd s)"
  shows "map team_id (toggle_rows (copies mobile s [0..<n])) = map team_id (take n (toAdd s))"
  using assms(4)
proof (induction n)
  case 0
  then show ?case by (simp add: copies_def toggle_rows_def)
next
  case (Suc n)
  have "has_team_attr (toAdd s ! n)" using assms(1) Suc.prems by simp
  moreover have "mobile \<Longrightarrow> filler (toAddMobile s ! n)" using assms(2,3) Suc.prems by simp
  ultimately show ?case
    using Suc by (auto simp: copies_def toggle_rows_def take_Suc_conv_app_nth filler_def has_team_attr_def)
qed

section \<open>The table after \<open>initFavouriteTeams\<close>\<close>

text \<open>The visible part of a table without copies: its header and its teams.\<close>

lemma toggle_rows_plain:
  assumes "\<forall>r \<in> set rs. filler r \<or> has_team_attr r"
  shows "map team_id (toggle_rows rs) = map Some (teams rs)"
  using assms
  by (induction rs) (auto simp: toggle_rows_def filler_def has_team_attr_def teams_Cons split: option.splits)

lemma toggle_rows_append [simp]: "toggle_rows (xs @ ys) = toggle_rows xs @ toggle_rows ys"
  by (simp add: toggle_rows_def)

lemma map_eq_nth: "map f xs = map f ys \<Longrightarrow> i < length xs \<Longrightarrow> f (xs ! i) = f (ys ! i)"
  by (metis map_eq_imp_length_eq nth_map)

text \<open>The copies are rows of teams, the other rows keep their kind.\<close>

lemma init_inv_copies:
  assumes "wf_board mobile rs" "init_inv mobile favTeams rs (length rs) s" "r \<in> set (toAdd s)"
  shows "has_team_attr r"
proof -
  have "map team_id (toAdd s) = map Some (favs_on favTeams rs)" using assms(2) by (simp add: init_inv_def)
  then have "set (map team_id (toAdd s)) = set (map Some (favs_on favTeams rs))" by (simp only:)
  then have "team_id r \<in> set (map Some (favs_on favTeams rs))" using assms(3) by auto
  then show ?thesis
    using wf_board_teams(2) [OF assms(1)] by (auto simp: favs_on_def has_team_attr_def)
qed

lemma init_inv_rest:
  assumes "wf_board mobile rs" "init_inv mobile favTeams rs (length rs) s" "i < length rs" "i \<noteq> 0"
  shows "filler (st_rows s ! i) \<or> has_team_attr (st_rows s ! i)"
proof -
  have "filler (rs ! i) \<or> team_row mobile (rs ! i)"
    using assms(1,3,4) by (cases rs; cases i) (auto simp: wf_board_def list_all_length)
  with init_inv_row(2,3) [OF assms(2,3)] show ?thesis
    by (auto simp: filler_def team_row_def has_team_attr_def)
qed

text \<open>Every row of the result that has a team carries the heart of its place in the table.\<close>

lemma init_inv_hearts:
  assumes inv: "init_inv mobile favTeams rs (length rs) s" and ne: "rs \<noteq> []"
    and r: "r \<in> set (copies mobile s [0..<length (toAdd s)]) \<or> r \<in> set (st_rows s)"
  shows "team_id r = None \<or> (\<exists>i < length rs. team_id r = team_id (rs ! i) \<and>
      heart_shows r (heart_of mobile favTeams rs i))"
proof -
  have len: "length (st_rows s) = length rs" using init_inv_row(1) [OF inv] ne by auto
  have add: "length (toAddMobile s) = (if mobile then length (toAdd s) else 0)"
    "\<forall>r \<in> set (toAddMobile s). filler r"
    using inv by (simp_all add: init_inv_def)
  consider c st where "c \<in> set (toAdd s)" "r = styled st c"
    | c st where "c \<in> set (toAddMobile s)" "r = styled st c" | i where "i < length rs" "r = st_rows s ! i"
    using r
  proof
    assume "r \<in> set (copies mobile s [0..<length (toAdd s)])"
    from set_copies [OF this add(1)] show thesis using that(1,2) by blast
  next
    assume "r \<in> set (st_rows s)"
    then show thesis using len that(3) by (auto simp: in_set_conv_nth)
  qed
  then show ?thesis
  proof cases
    case 1
    with inv show ?thesis by (auto simp: init_inv_def)
  next
    case 2
    with add(2) show ?thesis by (auto simp: filler_def)
  next
    case 3
    with inv init_inv_row(2) [OF inv] show ?thesis by (auto simp: init_inv_def)
  qed
qed

text \<open>
  The result in full: the header, the copies, the rest; what \<open>toggle\<close> sees of it; and the heart of
  every row with a team.
\<close>

lemma init_board_result:
  assumes wf: "wf_board mobile rs"
  shows "\<exists>rs'. init_board mobile favTeams rs = Inr rs' \<and>
     map team_id (toggle_rows rs') = None # map Some (favs_on favTeams rs) @ map Some (teams rs) \<and>
     (\<forall>r \<in> set rs'. team_id r = None \<or> (\<exists>i < length rs. team_id r = team_id (rs ! i) \<and>
        heart_shows r (heart_of mobile favTeams rs i)))"
proof -
  obtain s where loop: "init_loop mobile favTeams [0..<length rs]
      \<lparr>st_rows = rs, toAdd = [], toAddMobile = [], lastRank = ''0'', teamIndex = 1\<rparr> = Inr s"
    and inv: "init_inv mobile favTeams rs (length rs) s"
    using init_loop_inv [OF wf order_refl init_inv_start] by blast
  have ne: "rs \<noteq> []" "0 < length rs" using wf by (auto simp: wf_board_def)
  have len: "length (st_rows s) = length rs" by (rule init_inv_row(1) [OF inv ne(2)])
  obtain h rest where st: "st_rows s = h # rest" using len ne by (cases "st_rows s") auto
  have h: "team_id h = None" "''scoreheader'' \<in> set (row_classes h)"
    using wf init_inv_row(2,3) [OF inv ne(2)] ne st by (auto simp: wf_board_def header_def hd_conv_nth)
  have "teams (h # rest) = teams rs" using inv by (simp add: init_inv_def st teams_def)
  then have teams: "teams rest = teams rs" using h by (simp add: teams_Cons)
  have add: "map team_id (toAdd s) = map Some (favs_on favTeams rs)"
    "length (toAddMobile s) = (if mobile then length (toAdd s) else 0)"
    "\<forall>r \<in> set (toAddMobile s). filler r"
    using inv by (simp_all add: init_inv_def)
  define cs where "cs = copies mobile s [0..<length (toAdd s)]"
  have size: "1 < length ([h] @ rest)" if "toAdd s \<noteq> []"
    using that add(1) teams by (cases rest) (auto simp: favs_on_def)
  have "copy_loop mobile s [0..<length (toAdd s)] ([h] @ rest, length [h]) =
      Inr ([h] @ cs @ rest, length [h] + length cs)"
    using copy_loop_eq [OF size] by (cases "toAdd s = []") (simp_all add: cs_def copies_def)
  then have res: "init_board mobile favTeams rs = Inr (h # cs @ rest)"
    using loop by (simp add: init_board_def st)
  have "filler (rest ! i) \<or> has_team_attr (rest ! i)" if "i < length rest" for i
    using init_inv_rest [OF wf inv, of "Suc i"] len st that by simp
  then have "\<forall>r \<in> set rest. filler r \<or> has_team_attr r" by (metis in_set_conv_nth)
  moreover have "map team_id (toggle_rows cs) = map Some (favs_on favTeams rs)"
    using toggle_rows_copies [of s mobile "length (toAdd s)"] init_inv_copies [OF wf inv] add
    by (simp add: cs_def)
  ultimately have vis: "map team_id (toggle_rows (h # cs @ rest))
      = None # map Some (favs_on favTeams rs) @ map Some (teams rs)"
    using toggle_rows_plain [of rest] h teams by (simp add: toggle_rows_def)
  have "\<forall>r \<in> set (h # cs @ rest). team_id r = None \<or> (\<exists>i < length rs. team_id r = team_id (rs ! i) \<and>
      heart_shows r (heart_of mobile favTeams rs i))"
    using init_inv_hearts [OF inv ne(1)] st cs_def by auto
  with res vis show ?thesis by (intro exI [of _ "h # cs @ rest"] conjI)
qed

section \<open>Hearts and clicks agree\<close>

lemma fav_visible_iff: "fav_visible (toggle_rows rs) f \<longleftrightarrow>
    f \<in> set (map team_id (toggle_rows rs)) \<and> (\<exists>t. t \<noteq> [] \<and> f = Some t)"
proof -
  have "has_team_attr r \<and> team_id r = f \<longleftrightarrow> team_id r = f \<and> (\<exists>t. t \<noteq> [] \<and> f = Some t)" for r
    by (auto simp: has_team_attr_def split: option.splits)
  then have "fav_visible (toggle_rows rs) f \<longleftrightarrow>
      (\<exists>r \<in> set (toggle_rows rs). team_id r = f) \<and> (\<exists>t. t \<noteq> [] \<and> f = Some t)"
    by (auto simp: fav_visible_def list_ex_iff getTeamname_def)
  moreover have "(\<exists>r \<in> set (toggle_rows rs). team_id r = f) \<longleftrightarrow> f \<in> set (map team_id (toggle_rows rs))"
    by (auto simp: image_iff)
  ultimately show ?thesis by (simp only:)
qed

text \<open>Which team a click addresses, on any table whose visible part is known.\<close>

lemma toggle_teamname_nth:
  assumes vis: "map team_id (toggle_rows rs') = None # map Some (favs_on favTeams rs) @ map Some (teams rs)"
    and d: "distinct favTeams" "distinct (teams rs)" and ne: "[] \<notin> set (teams rs)"
    and k: "k < length (teams rs)"
  shows "toggle_teamname rs' favTeams (Suc k) = Inr (Some (teams rs ! k))"
proof -
  have "fav_visible (toggle_rows rs') f \<longleftrightarrow> f \<in> set (map Some (teams rs))" for f
    using ne unfolding fav_visible_iff vis by (auto simp: favs_on_def)
  then have "length (filter (fav_visible (toggle_rows rs')) favTeams)
      = length (filter (\<lambda>f. f \<in> set (map Some (teams rs))) favTeams)"
    by (metis (mono_tags, lifting) filter_cong)
  also have "\<dots> = length (filter (\<lambda>f. f \<in> set favTeams) (map Some (teams rs)))"
    using d by (intro length_filter_mem_distinct) (auto simp: distinct_map)
  also have "\<dots> = length (favs_on favTeams rs)"
    by (simp add: favs_on_def filter_map o_def)
  finally have cnt: "length (filter (fav_visible (toggle_rows rs')) favTeams) = length (favs_on favTeams rs)" .
  have len: "length (toggle_rows rs') = Suc (length (favs_on favTeams rs) + length (teams rs))"
    using arg_cong [OF vis, of length] by simp
  then have "nth_opt (toggle_rows rs') (Suc k + length (favs_on favTeams rs))
      = Some (toggle_rows rs' ! (Suc k + length (favs_on favTeams rs)))"
    using k by (simp add: nth_opt_def)
  moreover have "team_id (toggle_rows rs' ! (Suc k + length (favs_on favTeams rs))) = Some (teams rs ! k)"
    using arg_cong [OF vis, of "\<lambda>l. l ! (Suc k + length (favs_on favTeams rs))"] len k
    by (simp add: nth_append)
  ultimately show ?thesis by (simp add: toggle_teamname_def Let_def cnt getTeamname_def)
qed

lemma hearts_and_clicks:
  assumes "wf_board mobile rs" "distinct favTeams"
  shows "\<exists>rs'. init_board mobile favTeams rs = Inr rs' \<and>
     (\<forall>r \<in> set rs'. \<forall>t. team_id r = Some t \<longrightarrow>
       (\<exists>n. heart_shows r (getHeart n (Some t \<in> set favTeams) mobile) \<and>
            toggle_teamname rs' favTeams n = Inr (Some t)))"
proof -
  obtain rs' where res: "init_board mobile favTeams rs = Inr rs'"
    and vis: "map team_id (toggle_rows rs') = None # map Some (favs_on favTeams rs) @ map Some (teams rs)"
    and hearts: "\<forall>r \<in> set rs'. team_id r = None \<or> (\<exists>i < length rs. team_id r = team_id (rs ! i) \<and>
        heart_shows r (heart_of mobile favTeams rs i))"
    using init_board_result [OF assms(1), of favTeams] by (elim exE conjE) (rule that)
  have "\<exists>n. heart_shows r (getHeart n (Some t \<in> set favTeams) mobile) \<and>
      toggle_teamname rs' favTeams n = Inr (Some t)" if rt: "r \<in> set rs'" "team_id r = Some t" for r t
  proof -
    obtain i where i: "i < length rs" "team_id (rs ! i) = Some t"
        "heart_shows r (heart_of mobile favTeams rs i)"
      using bspec [OF hearts rt(1)] rt(2) by auto
    define k where "k = length (teams (take i rs))"
    have "k < length (teams rs)" "teams rs ! k = t"
      using teams_nth_take [OF i(1,2)] by (simp_all add: k_def)
    with toggle_teamname_nth [OF vis assms(2) wf_board_teams [OF assms(1)]] i
    show ?thesis by (intro exI [of _ "Suc k"]) (simp add: heart_of_def k_def)
  qed
  with res show ?thesis by blast
qed

text \<open>A small desktop table: a header and two teams.\<close>

definition example_row :: "string \<Rightarrow> string \<Rightarrow> row" where
  "example_row t rk = \<lparr>team_id = Some t, row_classes = [],
     cells = [\<lparr>cell_classes = [], cell_html = rk\<rparr>, \<lparr>cell_classes = [''heart''], cell_html = []\<rparr>],
     rank = Some rk, style_attr = [], background = None\<rparr>"

definition example_table :: "row list" where
  "example_table =
     [\<lparr>team_id = None, row_classes = [''scoreheader''], cells = [], rank = None, style_attr = [],
       background = None\<rparr>, example_row ''7'' ''1'', example_row ''9'' []]"

lemma example_table_wf: "wf_board False example_table"
  by (simp add: wf_board_def example_table_def example_row_def header_def filler_def team_row_def
      teams_def getHeartCol_def nth_opt_def)

end
