(* ===== verification/HeartClicks.thy ===== *)
theory HeartClicks
  imports Scoreboard
begin

text \<open>
  The two halves of the favourite teams put together: the document that \<open>initFavouriteTeams\<close> leaves,
  with its mobile and its desktop table, and what a click on one of its hearts, a call of \<open>toggle\<close>,
  stores and asks the server for.
\<close>

section \<open>A click, from the page to the stored selection\<close>

definition boards_ok :: "(board_key \<times> nat) list \<Rightarrow> nat \<Rightarrow> bool" where
  "boards_ok m n = (distinct (map fst m) \<and> distinct (map snd m) \<and> (\<forall>p \<in> set m. snd p < n))"

lemma boards_ok_put:
  assumes "boards_ok m i"
  shows "boards_ok (put_key k i m) (Suc i)"
proof (cases "k \<in> set (map fst m)")
  case True
  define f where "f = (\<lambda>(k', j). (k', if k' = k then i else j))"
  have "map fst (map f m) = map fst m" by (simp add: f_def case_prod_beta)
  moreover have "distinct (map snd (map f m))"
  proof -
    have "inj_on (\<lambda>p. snd (f p)) (set m)"
    proof (rule inj_onI)
      fix p q assume p: "p \<in> set m" "q \<in> set m" and eq: "snd (f p) = snd (f q)"
      have "snd p \<noteq> i" "snd q \<noteq> i" using assms p by (auto simp: boards_ok_def)
      then consider "fst p = fst q" | "snd p = snd q"
        using eq by (auto simp: f_def case_prod_beta split: if_splits)
      then show "p = q"
        using assms p by cases (auto simp: boards_ok_def distinct_map dest: inj_onD)
    qed
    with assms show ?thesis by (simp add: boards_ok_def distinct_map o_def)
  qed
  moreover have "\<forall>p \<in> set (map f m). snd p < Suc i"
    using assms by (auto simp: boards_ok_def f_def less_SucI split: if_splits)
  moreover have "put_key k i m = map f m" using True by (simp add: put_key_def f_def)
  ultimately show ?thesis
    using assms by (simp only: boards_ok_def)
next
  case False
  with assms show ?thesis by (auto simp: boards_ok_def put_key_def less_SucI)
qed

lemma boards_ok_Suc: "boards_ok m i \<Longrightarrow> boards_ok m (Suc i)"
  by (auto simp: boards_ok_def less_SucI)

lemma getScoreboards_loop_ok: "boards_ok m i \<Longrightarrow> boards_ok (getScoreboards_loop i bs m) (i + length bs)"
proof (induction i bs m rule: getScoreboards_loop.induct)
  case (2 i b bs m)
  show ?case using 2(1) [of ] 2(2) by (simp add: boards_ok_put boards_ok_Suc)
qed simp

lemma getScoreboards_ok: "getScoreboards doc = Some m \<Longrightarrow> boards_ok m (length doc)"
  using getScoreboards_loop_ok [of "[]" 0 doc] by (auto simp: getScoreboards_def boards_ok_def split: if_splits)

text \<open>Which tables there are depends on the classes only.\<close>

lemma getScoreboards_loop_cong:
  "map board_classes bs = map board_classes bs' \<Longrightarrow>
   getScoreboards_loop i bs m = getScoreboards_loop i bs' m"
proof (induction bs arbitrary: i m bs')
  case (Cons b bs)
  then obtain c cs where bs': "bs' = c # cs" "board_classes c = board_classes b"
      "map board_classes bs = map board_classes cs"
    by (cases bs') auto
  show ?case unfolding bs'(1) getScoreboards_loop.simps bs'(2) by (rule Cons.IH [OF bs'(3)])
qed simp

lemma getScoreboards_cong:
  assumes "map board_classes doc = map board_classes doc'"
  shows "getScoreboards doc = getScoreboards doc'"
proof -
  have "(doc = []) = (doc' = [])" using map_eq_imp_length_eq [OF assms] by auto
  then show ?thesis by (simp add: getScoreboards_def getScoreboards_loop_cong [OF assms])
qed

lemma init_boards_result:
  assumes "boards_ok m (length doc)" "\<forall>p \<in> set m. wf_board (fst p = Mobile) (rows (doc ! snd p))"
  shows "\<exists>doc'. init_boards favTeams m doc = Inr doc' \<and> map board_classes doc' = map board_classes doc \<and>
     (\<forall>k. k \<notin> snd ` set m \<longrightarrow> doc' ! k = doc ! k) \<and>
     (\<forall>p \<in> set m. init_board (fst p = Mobile) favTeams (rows (doc ! snd p)) = Inr (rows (doc' ! snd p)))"
  using assms
proof (induction m arbitrary: doc)
  case Nil
  show ?case by (rule exI [of _ doc]) simp
next
  case (Cons p m)
  obtain key k where p: "p = (key, k)" by (cases p)
  have k: "k < length doc" "k \<notin> snd ` set m" and ok: "boards_ok m (length doc)"
    using Cons.prems(1) by (auto simp: p boards_ok_def)
  have wf: "wf_board (key = Mobile) (rows (doc ! k))"
    "\<forall>q \<in> set m. wf_board (fst q = Mobile) (rows (doc ! snd q))"
    using Cons.prems(2) by (simp_all add: p)
  obtain rs where rs: "init_board (key = Mobile) favTeams (rows (doc ! k)) = Inr rs"
    using init_board_result [OF wf(1), of favTeams] by (elim exE conjE) (rule that)
  define doc1 where "doc1 = doc[k := (doc ! k)\<lparr>rows := rs\<rparr>]"
  have same: "doc1 ! j = doc ! j" if "j \<noteq> k" for j using that by (simp add: doc1_def)
  have ne: "snd q \<noteq> k" if "q \<in> set m" for q using that k(2) by force
  have cls: "map board_classes doc1 = map board_classes doc" "length doc1 = length doc"
    by (simp_all add: doc1_def map_update list_update_same_conv k)
  have "\<forall>q \<in> set m. wf_board (fst q = Mobile) (rows (doc1 ! snd q))"
    using wf(2) same ne by simp
  with Cons.IH [of doc1] ok cls(2) obtain doc' where doc': "init_boards favTeams m doc1 = Inr doc'"
      "map board_classes doc' = map board_classes doc1" "\<forall>j. j \<notin> snd ` set m \<longrightarrow> doc' ! j = doc1 ! j"
      "\<forall>q \<in> set m. init_board (fst q = Mobile) favTeams (rows (doc1 ! snd q)) = Inr (rows (doc' ! snd q))"
    by (elim meta_impE exE conjE) simp_all
  have "init_boards favTeams (p # m) doc = Inr doc'" using doc'(1) rs by (simp add: p doc1_def)
  moreover have "map board_classes doc' = map board_classes doc" using doc'(2) cls(1) by (rule trans)
  moreover have "\<forall>j. j \<notin> snd ` set (p # m) \<longrightarrow> doc' ! j = doc ! j"
    using doc'(3) same by (simp add: p)
  moreover have "rows (doc' ! k) = rs" using doc'(3) k by (simp add: doc1_def)
  then have "\<forall>q \<in> set (p # m). init_board (fst q = Mobile) favTeams (rows (doc ! snd q))
      = Inr (rows (doc' ! snd q))"
    using doc'(4) same ne rs by (simp add: p)
  ultimately show ?case by (intro exI [of _ doc'] conjI)
qed


section \<open>Clicks\<close>

text \<open>What \<open>toggle\<close> does once it has found its team.\<close>

lemma toggle_found:
  assumes "getScoreboards doc = Some m" "map_of m (if mobile then Mobile else Desktop) = Some k"
    "getSelectedTeams b = Inr favs" "toggle_teamname (rows (doc ! k)) favs i = Inr tm"
  shows "toggle url i sh mobile doc b = Inr (emit
      (if take 5 (href b) = ''file:'' then Reload else AjaxGet url)
      (emit (JqAddClass ''.loading-indicator'' ''ajax-loader'')
        (setItem ''domjudge_teamselection'' (json_stringify (toggle_favs sh tm favs)) b)))"
  using assms by (simp add: toggle_def Let_def)

lemma getSelectedTeams_emit [simp]: "getSelectedTeams (emit e b) = getSelectedTeams b"
  by (simp add: getSelectedTeams_def)

lemma getSelectedTeams_setItem [simp]:
  "getSelectedTeams (setItem ''domjudge_teamselection'' (json_stringify ts) b) = Inr ts"
proof -
  have "json_stringify ts \<noteq> []" by (simp add: json_stringify_def)
  then show ?thesis by (simp add: getSelectedTeams_def)
qed

lemma filter_neq_distinct: "distinct xs \<Longrightarrow> filter (\<lambda>y. y \<noteq> x) xs = remove1 x xs"
  by (simp add: distinct_remove1_removeAll removeAll_filter_not_eq) (metis (full_types))

lemma toggle_favs_switch:
  "distinct favs \<Longrightarrow> toggle_favs (t \<notin> set favs) t favs = (if t \<in> set favs then remove1 t favs else favs @ [t])"
  by (simp add: toggle_favs_def filter_neq_distinct)

definition switch_team :: "string option \<Rightarrow> string option list \<Rightarrow> string option list" where
  "switch_team t favs = (if t \<in> set favs then remove1 t favs else favs @ [t])"

lemma switch_team_distinct: "distinct favs \<Longrightarrow> distinct (switch_team t favs)"
  by (simp add: switch_team_def)

lemma initFavouriteTeams_result:
  assumes "getScoreboards doc = Some m" "\<forall>p \<in> set m. wf_board (fst p = Mobile) (rows (doc ! snd p))"
    "getSelectedTeams b = Inr favs"
  shows "\<exists>doc'. initFavouriteTeams b doc = Inr doc' \<and> getScoreboards doc' = Some m \<and>
     (\<forall>p \<in> set m. init_board (fst p = Mobile) favs (rows (doc ! snd p)) = Inr (rows (doc' ! snd p)))"
proof -
  obtain doc' where d: "init_boards favs m doc = Inr doc'" "map board_classes doc' = map board_classes doc"
      "\<forall>p \<in> set m. init_board (fst p = Mobile) favs (rows (doc ! snd p)) = Inr (rows (doc' ! snd p))"
    using init_boards_result [OF getScoreboards_ok [OF assms(1)] assms(2), of favs]
    by (elim exE conjE) (rule that)
  moreover have "initFavouriteTeams b doc = Inr doc'"
    using assms(1,3) d(1) by (simp add: initFavouriteTeams_def)
  moreover have "getScoreboards doc' = Some m" using getScoreboards_cong [OF d(2)] assms(1) by simp
  ultimately show ?thesis by blast
qed


text \<open>
  After \<open>initFavouriteTeams\<close> on tables of that form, every row of a team carries a heart whose click
  switches this team.
\<close>

lemma hearts_switch_teams:
  assumes page: "getScoreboards doc = Some m"
      "\<forall>p \<in> set m. wf_board (fst p = Mobile) (rows (doc ! snd p))"
    and sel: "getSelectedTeams b = Inr favs" "distinct favs"
  shows "\<exists>doc'. initFavouriteTeams b doc = Inr doc' \<and>
     (\<forall>(key, k) \<in> set m. \<forall>r \<in> set (rows (doc' ! k)). \<forall>t. team_id r = Some t \<longrightarrow>
        (\<exists>n b'. heart_shows r (getHeart n (Some t \<in> set favs) (key = Mobile)) \<and>
           toggle url n (Some t \<notin> set favs) (key = Mobile) doc' b = Inr b' \<and>
           getSelectedTeams b' = Inr (switch_team (Some t) favs)))"
proof -
  obtain doc' where doc': "initFavouriteTeams b doc = Inr doc'" "getScoreboards doc' = Some m"
      "\<forall>p \<in> set m. init_board (fst p = Mobile) favs (rows (doc ! snd p)) = Inr (rows (doc' ! snd p))"
    using initFavouriteTeams_result [OF page sel(1)] by (elim exE conjE) (rule that)
  have "\<exists>n b'. heart_shows r (getHeart n (Some t \<in> set favs) (key = Mobile)) \<and>
      toggle url n (Some t \<notin> set favs) (key = Mobile) doc' b = Inr b' \<and>
      getSelectedTeams b' = Inr (switch_team (Some t) favs)"
    if p: "(key, k) \<in> set m" and r: "r \<in> set (rows (doc' ! k))" "team_id r = Some t" for key k r t
  proof -
    have "map_of m key = Some k"
      using p getScoreboards_ok [OF page(1)] by (simp add: boards_ok_def)
    then have mk: "map_of m (if key = Mobile then Mobile else Desktop) = Some k" by (cases key) simp_all
    have wf: "wf_board (key = Mobile) (rows (doc ! k))"
      and ib: "init_board (key = Mobile) favs (rows (doc ! k)) = Inr (rows (doc' ! k))"
      using bspec [OF page(2) p] bspec [OF doc'(3) p] by simp_all
    obtain n where n: "heart_shows r (getHeart n (Some t \<in> set favs) (key = Mobile))"
        "toggle_teamname (rows (doc' ! k)) favs n = Inr (Some t)"
      using hearts_and_clicks [OF wf sel(2)] ib r by (elim exE conjE) auto
    with toggle_found [OF doc'(2) mk sel(1) n(2), of url "Some t \<notin> set favs"] show ?thesis
      by (auto simp: toggle_favs_switch [OF sel(2)] switch_team_def)
  qed
  with doc'(1) show ?thesis by (intro exI [of _ doc']) auto
qed

definition example_page :: "board list" where
  "example_page = [\<lparr>board_classes = [''scoreboard'', ''desktop-scoreboard''], rows = example_table\<rparr>]"

section \<open>Pages without a rank column, and clicks that find no row\<close>

lemma init_step_desktop:
  assumes "init_step False favs j s = Inr s'" "i \<noteq> j"
  shows "st_rows s' ! i = st_rows s ! i \<and> length (st_rows s') = length (st_rows s)"
  using assms by (auto simp: init_step_def Let_def split: option.splits if_splits)

lemma init_step_error: "init_step mobile favs j s = Inl e \<Longrightarrow> e = TypeError"
  by (auto simp: init_step_def Let_def split: option.splits if_splits)

lemma init_loop_desktop_rankless:
  assumes "j \<in> set js" "distinct js" "team_id (st_rows s ! j) = Some t"
    "getHeartCol (st_rows s ! j) \<noteq> None" "rank (st_rows s ! j) = None"
  shows "init_loop False favs js s = Inl TypeError"
  using assms
proof (induction js arbitrary: s)
  case (Cons k ks)
  show ?case
  proof (cases "init_step False favs k s")
    case (Inl e)
    then show ?thesis using init_step_error by simp
  next
    case (Inr s')
    have "k \<noteq> j"
      using Inr Cons.prems by (auto simp: init_step_def getTeamname_def getRank_def)
    with Cons.prems init_step_desktop [OF Inr, of j] have "init_loop False favs ks s' = Inl TypeError"
      by (intro Cons.IH) auto
    with Inr show ?thesis by simp
  qed
qed simp

text \<open>
  When ranking is switched off the server renders no \<open>rank\<close> cell, but still the heart cells: the
  first team row then makes \<open>initFavouriteTeams\<close> end with a \<open>TypeError\<close>, whatever is selected.
\<close>

theorem no_rank_column_raises:
  assumes "r \<in> set rs" "team_id r = Some t" "getHeartCol r \<noteq> None" "getRank r = None"
  shows "init_board False favs rs = Inl TypeError"
proof -
  obtain j where "j < length rs" "rs ! j = r" using assms(1) by (auto simp: in_set_conv_nth)
  with assms(2-4) show ?thesis
    by (simp add: init_board_def init_loop_desktop_rankless [of j _ _ t] getRank_def)
qed

theorem no_rank_column_raises_witness:
  "init_board False [] [(example_row ''7'' [])\<lparr>rank := None\<rparr>] = Inl TypeError"
  by (rule no_rank_column_raises [of "(example_row ''7'' [])\<lparr>rank := None\<rparr>" _ "''7''"])
    (simp_all add: example_row_def getHeartCol_def nth_opt_def getRank_def)

text \<open>
  The error branches of \<open>toggle\<close>: without a scoreboard on the page nothing happens; if the page
  lacks the table asked for, or the number is past the rows (counting the copies on top), it ends
  with a \<open>TypeError\<close>; in no such case is the selection written.
\<close>

theorem toggle_error_branches:
  "toggle url i sh mobile [] b = Inr b \<and>
   (getScoreboards doc = Some m \<and> map_of m (if mobile then Mobile else Desktop) = None \<longrightarrow>
     toggle url i sh mobile doc b = Inl TypeError) \<and>
   (getScoreboards doc = Some m \<and> map_of m (if mobile then Mobile else Desktop) = Some k \<and>
     getSelectedTeams b = Inr favs \<and> length (toggle_rows (rows (doc ! k))) \<le> i \<longrightarrow>
     toggle url i sh mobile doc b = Inl TypeError) \<and>
   (getScoreboards doc = Some m \<and> map_of m (if mobile then Mobile else Desktop) \<noteq> None \<and>
     getSelectedTeams b = Inl e \<longrightarrow> toggle url i sh mobile doc b = Inl e)"
  by (auto simp: toggle_def toggle_teamname_def nth_opt_def Let_def getScoreboards_def)

theorem toggle_error_branches_witness:
  "toggle ''/public'' 1 True True example_page blank_browser = Inl TypeError \<and>
   toggle ''/public'' 3 True False example_page blank_browser = Inl TypeError"
proof
  have m: "getScoreboards example_page = Some [(Desktop, 0)]"
    by (simp add: getScoreboards_def example_page_def put_key_def)
  show "toggle ''/public'' 1 True True example_page blank_browser = Inl TypeError"
    using toggle_error_branches [of _ _ _ True _ example_page "[(Desktop, 0)]"] m by auto
  have "getSelectedTeams blank_browser = Inr []"
    by (simp add: getSelectedTeams_def getItem_def blank_browser_def)
  moreover have "length (toggle_rows (rows (example_page ! 0))) \<le> 3"
    by (simp add: example_page_def example_table_def example_row_def toggle_rows_def has_team_attr_def)
  ultimately show "toggle ''/public'' 3 True False example_page blank_browser = Inl TypeError"
    using toggle_error_branches [of _ 3 _ False _ example_page "[(Desktop, 0)]" 0 "[]"] m by auto
qed

text \<open>A page has at most one table of each kind.\<close>

lemma at_most_two_tables: "getScoreboards doc = Some m \<Longrightarrow> length m \<le> 2"
proof -
  assume "getScoreboards doc = Some m"
  then have "distinct (map fst m)" using getScoreboards_ok by (simp add: boards_ok_def)
  then have "length m = card (set (map fst m))" using distinct_card by fastforce
  also have "\<dots> \<le> card (UNIV :: board_key set)" by (rule card_mono) simp_all
  finally show ?thesis by (simp add: card_board_key)
qed

end
