(* ===== verification/ScoreboardTable.thy ===== *)
theory ScoreboardTable
  imports HeartClicks
begin

text \<open>
  The two tables of teams that the server writes into the public scoreboard
  (\<open>templates/partials/scoreboard_table.html.twig\<close>, with \<open>scoreboard_summary.html.twig\<close>), as rows of
  \<open>Scoreboard\<close>, and what \<open>initFavouriteTeams\<close> and the clicks of \<open>HeartClicks\<close> make of them, with and
  without ranking.
\<close>

section \<open>The tables of the server\<close>

text \<open>
  What the template reads of a team and its score. The contents of the cells that no script reads are
  given: logos, names, points, times and problems.
\<close>

record team_score =
  teamid :: nat
  sortorder :: nat
  score_rank :: nat
  category_color :: "string option"
  this_is_me :: bool
  medal :: string
  flag :: string
  logo :: string
  team_link :: string
  result_cells :: "cell list"      \<comment> \<open>the cells behind the name on the desktop table\<close>
  total :: string                  \<comment> \<open>points and time on the mobile table\<close>
  badges :: string                 \<comment> \<open>the problems on the mobile table\<close>

record table_options =
  enable_ranking :: bool
  medalsEnabled :: bool
  showAffiliationLogos :: bool
  summaries :: bool                \<comment> \<open>the summary has rows: all teams, with their submissions\<close>
  summary_cells :: "nat option \<Rightarrow> cell list"   \<comment> \<open>its cells behind the title, for a sort order\<close>

definition td :: "string list \<Rightarrow> string \<Rightarrow> cell" where
  "td cs h = \<lparr>cell_classes = cs, cell_html = h\<rparr>"

definition colorClass :: "team_score \<Rightarrow> string" where
  "colorClass s = ''cl'' @ (case if this_is_me s then Some ''#FFFF99'' else category_color s of
       None \<Rightarrow> ''_FFFFFF''
     | Some c \<Rightarrow> map (\<lambda>x. if x = CHR ''#'' then CHR ''_'' else x) c)"

text \<open>
  The first team of a sort order, and the rank, shown unless it is that of the team before (\<open>displayRank\<close> is
  set on these pages).
\<close>

definition starts_order :: "team_score option \<Rightarrow> team_score \<Rightarrow> bool" where
  "starts_order prev s = (case prev of None \<Rightarrow> True | Some p \<Rightarrow> sortorder p \<noteq> sortorder s)"

definition rank_html :: "team_score option \<Rightarrow> team_score \<Rightarrow> string" where
  "rank_html prev s =
     [CHR 0x0A] @ (if starts_order prev s \<or> (case prev of None \<Rightarrow> True | Some p \<Rightarrow> score_rank p \<noteq> score_rank s)
                   then show_nat (score_rank s) else []) @ [CHR 0x0A]"

definition team_classes :: "team_score option \<Rightarrow> team_score \<Rightarrow> string list" where
  "team_classes prev s = (if starts_order prev s then [''sortorderswitch''] else []) @
     (if this_is_me s then [''scorethisisme''] else [])"

definition header_row :: "string \<Rightarrow> row" where
  "header_row st = \<lparr>team_id = None, row_classes = [''scoreheader''], cells = [], rank = None, style_attr = st,
     background = None\<rparr>"

definition summary_row :: "table_options \<Rightarrow> nat option \<Rightarrow> row" where
  "summary_row o' order = \<lparr>team_id = None, row_classes = [],
     cells = td [''scoresummary''] ''Summary'' # summary_cells o' order, rank = None,
     style_attr = ''border-top: 2px solid black;'', background = None\<rparr>"

text \<open>Flag, logo, heart and name, with \<open>public\<close> set as on the public pages.\<close>

definition name_cells :: "table_options \<Rightarrow> team_score \<Rightarrow> cell list" where
  "name_cells o' s = [td [''scoreaf'', colorClass s] (flag s)] @
     (if showAffiliationLogos o' then [td [''scoreaf'', colorClass s] (logo s)] else []) @
     [td [''scoreaf'', ''heart'', colorClass s] [], td [''scoretn'', colorClass s] (team_link s)]"

definition desktop_row :: "table_options \<Rightarrow> team_score option \<Rightarrow> team_score \<Rightarrow> row" where
  "desktop_row o' prev s = \<lparr>team_id = Some (show_nat (teamid s)), row_classes = team_classes prev s,
     cells = (if enable_ranking o'
         then (if medalsEnabled o' then [td [''no-border''] (medal s)] else []) @
              [td [''scorepl'', ''rank''] (rank_html prev s)] else []) @
       name_cells o' s @ result_cells s,
     rank = (if enable_ranking o' then Some (rank_html prev s) else None), style_attr = [], background = None\<rparr>"

text \<open>\<open>scoreboard_summary.html.twig\<close>, behind the teams of a sort order; without any teams it is written too.\<close>

definition summary_rows :: "table_options \<Rightarrow> team_score option \<Rightarrow> row list" where
  "summary_rows o' prev = (if summaries o' then [summary_row o' (map_option sortorder prev)] else [])"

fun desktop_rows :: "table_options \<Rightarrow> team_score option \<Rightarrow> team_score list \<Rightarrow> row list" where
  "desktop_rows o' prev [] = summary_rows o' prev"
| "desktop_rows o' prev (s # ss) =
     (if prev \<noteq> None \<and> starts_order prev s then summary_rows o' prev else []) @
     desktop_row o' prev s # desktop_rows o' (Some s) ss"

definition desktop_table :: "table_options \<Rightarrow> team_score list \<Rightarrow> row list" where
  "desktop_table o' ss = header_row [] # desktop_rows o' None ss"

text \<open>On the mobile table a team has two rows, and the second always has the rank.\<close>

definition mobile_row :: "table_options \<Rightarrow> team_score option \<Rightarrow> team_score \<Rightarrow> row" where
  "mobile_row o' prev s = \<lparr>team_id = Some (show_nat (teamid s)), row_classes = team_classes prev s,
     cells = (if enable_ranking o' then [td [''scorepl''] (medal s)] else []) @ name_cells o' s @
       (if enable_ranking o' then [td [''scorenc''] (total s)] else []),
     rank = None, style_attr = ''border-bottom-width: 0; height: 28px;'', background = None\<rparr>"

definition mobile_second_row :: "team_score option \<Rightarrow> team_score \<Rightarrow> row" where
  "mobile_second_row prev s = \<lparr>team_id = None, row_classes = [],
     cells = [td [] (''<span class='' @ [CHR 0x22] @ ''d-block me-2 rank'' @ [CHR 0x22] @ ''>'' @ rank_html prev s @
       ''</span>''), td [] (badges s)], rank = Some (rank_html prev s),
     style_attr = ''height: 32px;'', background = None\<rparr>"

fun mobile_rows :: "table_options \<Rightarrow> team_score option \<Rightarrow> team_score list \<Rightarrow> row list" where
  "mobile_rows o' prev [] = []"
| "mobile_rows o' prev (s # ss) =
     mobile_row o' prev s # mobile_second_row prev s # mobile_rows o' (Some s) ss"

definition mobile_table :: "table_options \<Rightarrow> team_score list \<Rightarrow> row list" where
  "mobile_table o' ss = header_row ''font-size: 75%;'' # mobile_rows o' None ss"

text \<open>
  All elements of class \<open>scoreboard\<close>: the two tables, and the legends if there are any, of the categories or
  of the colors of cells, which only the desktop shows.
\<close>

definition scoreboard_page :: "table_options \<Rightarrow> team_score list \<Rightarrow> (bool \<times> row list) list \<Rightarrow> board list" where
  "scoreboard_page o' ss legends =
     [\<lparr>board_classes = [''d-none'', ''d-md-table'', ''scoreboard'', ''desktop-scoreboard'', ''center''],
        rows = desktop_table o' ss\<rparr>,
      \<lparr>board_classes = [''d-md-none'', ''scoreboard'', ''mobile-scoreboard'', ''center''],
        rows = mobile_table o' ss\<rparr>] @
     map (\<lambda>(of_cells, rs). \<lparr>board_classes = (if of_cells then [''d-none'', ''d-md-table''] else []) @
       [''scoreboard'', ''scorelegend''], rows = rs\<rparr>) legends"

abbreviation ids :: "team_score list \<Rightarrow> string list" where
  "ids ss \<equiv> map (\<lambda>s. show_nat (teamid s)) ss"

section \<open>Their rows\<close>

lemma heart_cells:
  "getHeartCol (desktop_row o' prev s) \<noteq> None" "getHeartCol (mobile_row o' prev s) \<noteq> None"
  by (cases "medalsEnabled o'"; cases "showAffiliationLogos o'"; cases "enable_ranking o'";
      simp add: getHeartCol_def desktop_row_def mobile_row_def name_cells_def td_def nth_opt_def)+

lemma row_fields [simp]:
  "team_id (header_row st) = None" "team_id (summary_row o' n) = None" "team_id (mobile_second_row prev s) = None"
  "team_id (desktop_row o' prev s) = Some (show_nat (teamid s))"
  "team_id (mobile_row o' prev s) = Some (show_nat (teamid s))"
  "row_classes (header_row st) = [''scoreheader'']" "row_classes (summary_row o' n) = []"
  "row_classes (mobile_second_row prev s) = []" "rank (mobile_second_row prev s) = Some (rank_html prev s)"
  "rank (desktop_row o' prev s) = (if enable_ranking o' then Some (rank_html prev s) else None)"
  by (simp_all add: header_row_def summary_row_def mobile_second_row_def desktop_row_def mobile_row_def)

lemma row_kinds:
  "filler (summary_row o' n)" "filler (mobile_second_row prev s)" "header (header_row st)"
  "team_row True (mobile_row o' prev s)" "enable_ranking o' \<Longrightarrow> team_row mobile (desktop_row o' prev s)"
  by (simp_all add: filler_def header_def team_row_def heart_cells)

lemma teams_tables:
  "teams (desktop_table o' ss) = ids ss" "teams (mobile_table o' ss) = ids ss"
proof -
  have "teams (desktop_rows o' prev ss) = ids ss" "teams (mobile_rows o' prev ss) = ids ss" for prev
    by (induction ss arbitrary: prev) (simp_all add: teams_Cons summary_rows_def)
  then show "teams (desktop_table o' ss) = ids ss" "teams (mobile_table o' ss) = ids ss"
    by (simp_all add: desktop_table_def mobile_table_def teams_Cons)
qed

lemma distinct_ids: "distinct (map teamid ss) \<Longrightarrow> distinct (ids ss)"
  by (simp add: distinct_map inj_on_def show_nat_inj)

lemma desktop_wf:
  assumes "distinct (map teamid ss)" "enable_ranking o' \<or> ss = []"
  shows "wf_board False (desktop_table o' ss)"
proof -
  have "list_all (\<lambda>r. filler r \<or> team_row False r) (desktop_rows o' prev ss)" for prev
    using assms(2) by (induction ss arbitrary: prev) (auto simp: summary_rows_def row_kinds)
  then show ?thesis
    using distinct_ids [OF assms(1)]
    by (simp add: wf_board_def teams_tables) (simp add: desktop_table_def row_kinds)
qed

lemma mobile_rows_paired:
  "i < length (mobile_rows o' prev ss) \<Longrightarrow> team_id (mobile_rows o' prev ss ! i) = None \<or>
     Suc i < length (mobile_rows o' prev ss) \<and> filler (mobile_rows o' prev ss ! Suc i) \<and>
     rank (mobile_rows o' prev ss ! Suc i) \<noteq> None"
proof (induction ss arbitrary: prev i)
  case (Cons s ss)
  consider "i = 0" | "i = 1" | k where "i = Suc (Suc k)" by (metis One_nat_def not0_implies_Suc)
  then show ?case
  proof cases
    case 3
    then show ?thesis using Cons.IH [of k "Some s"] Cons.prems by simp
  qed (simp_all add: row_kinds)
qed simp

lemma mobile_wf:
  assumes "distinct (map teamid ss)"
  shows "wf_board True (mobile_table o' ss)"
proof -
  have "list_all (\<lambda>r. filler r \<or> team_row True r) (mobile_rows o' prev ss)" for prev
    by (induction ss arbitrary: prev) (auto simp: row_kinds)
  moreover have "list_all (\<lambda>i. team_id (mobile_table o' ss ! i) = None \<or>
      Suc i < length (mobile_table o' ss) \<and> filler (mobile_table o' ss ! Suc i) \<and>
      rank (mobile_table o' ss ! Suc i) \<noteq> None) [0..<length (mobile_table o' ss)]"
    unfolding list_all_iff
  proof
    fix i assume "i \<in> set [0..<length (mobile_table o' ss)]"
    then have "i < Suc (length (mobile_rows o' None ss))" by (auto simp: mobile_table_def)
    then show "team_id (mobile_table o' ss ! i) = None \<or>
      Suc i < length (mobile_table o' ss) \<and> filler (mobile_table o' ss ! Suc i) \<and>
      rank (mobile_table o' ss ! Suc i) \<noteq> None"
      using mobile_rows_paired [of "i - 1" o' None ss] by (cases i rule: nat.exhaust) (simp_all add: mobile_table_def)
  qed
  moreover have "mobile_table o' ss \<noteq> []" "hd (mobile_table o' ss) = header_row ''font-size: 75%;''"
    "tl (mobile_table o' ss) = mobile_rows o' None ss"
    by (simp_all add: mobile_table_def)
  ultimately show ?thesis
    using distinct_ids [OF assms] unfolding wf_board_def by (simp add: teams_tables row_kinds)
qed

lemma desktop_rankless:
  assumes "\<not> enable_ranking o'" "ss \<noteq> []"
  shows "init_board False favs (desktop_table o' ss) = Inl TypeError"
proof -
  obtain s rest where ss: "ss = s # rest" using assms(2) by (cases ss) auto
  show ?thesis
    by (rule no_rank_column_raises [of "desktop_row o' None s" _ "show_nat (teamid s)"])
      (simp_all add: ss desktop_table_def heart_cells getRank_def assms(1))
qed

section \<open>Favourites on top\<close>

text \<open>
  C1. On the tables of the server, whatever the teams and the options: on the mobile table, and on the
  desktop table if ranking is on or there is no team, \<open>initFavouriteTeams\<close> ends without an exception and
  puts the favourites on top: the rows \<open>toggle\<close> looks at are the header, the copies of the favourites in
  table order, and then all teams in table order, none lost or repeated. With ranking off the desktop
  table has no \<open>rank\<close> cells, and its first team ends the code with a \<open>TypeError\<close>.
\<close>

theorem favourites_on_top:
  assumes "distinct (map teamid ss)"
  shows "let rs = (if mobile then mobile_table o' ss else desktop_table o' ss)
    in if mobile \<or> enable_ranking o' \<or> ss = []
       then \<exists>rs'. init_board mobile favTeams rs = Inr rs' \<and>
          map team_id (toggle_rows rs') =
            [None] @ map Some (filter (\<lambda>t. Some t \<in> set favTeams) (ids ss)) @ map Some (ids ss)
       else init_board mobile favTeams rs = Inl TypeError"
proof (cases "mobile \<or> enable_ranking o' \<or> ss = []")
  case True
  then have "wf_board mobile (if mobile then mobile_table o' ss else desktop_table o' ss)"
    using desktop_wf [OF assms] mobile_wf [OF assms] by (cases mobile) auto
  from init_board_result [OF this, of favTeams] True show ?thesis
    by (auto simp: Let_def favs_on_def teams_tables split: if_splits)
next
  case False
  then show ?thesis using desktop_rankless by (simp add: Let_def)
qed

text \<open>Two teams with the same rank.\<close>

definition example_score :: "nat \<Rightarrow> team_score" where
  "example_score t = \<lparr>teamid = t, sortorder = 0, score_rank = 1, category_color = None, this_is_me = False,
     medal = [], flag = [], logo = [], team_link = ''team'', result_cells = [], total = [], badges = []\<rparr>"

definition example_options :: table_options where
  "example_options = \<lparr>enable_ranking = True, medalsEnabled = False, showAffiliationLogos = True,
     summaries = True, summary_cells = (\<lambda>_. [])\<rparr>"

theorem favourites_on_top_witness:
  "(\<exists>rs'. init_board False [Some (show_nat 9)] (desktop_table example_options (map example_score [7, 9])) = Inr rs' \<and>
     map team_id (toggle_rows rs') = [None, Some (show_nat 9), Some (show_nat 7), Some (show_nat 9)])
   \<and> init_board False [] (desktop_table (example_options\<lparr>enable_ranking := False\<rparr>) (map example_score [7, 9]))
      = Inl TypeError"
  using favourites_on_top [of "map example_score [7, 9]" False example_options "[Some (show_nat 9)]"]
    favourites_on_top [of "map example_score [7, 9]" False "example_options\<lparr>enable_ranking := False\<rparr>" "[]"]
  by (simp add: example_score_def example_options_def show_nat_inj)

section \<open>Hearts switch their teams\<close>

lemma page_boards: "getScoreboards (scoreboard_page o' ss legends) = Some [(Desktop, 0), (Mobile, 1)]"
proof -
  have "getScoreboards_loop i (map (\<lambda>(of_cells, rs). \<lparr>board_classes = (if of_cells then [''d-none'', ''d-md-table'']
      else []) @ [''scoreboard'', ''scorelegend''], rows = rs\<rparr>) ls) m = m"
    for i ls m by (induction ls arbitrary: i) auto
  then show ?thesis by (simp add: getScoreboards_def scoreboard_page_def put_key_def)
qed

text \<open>
  C2. From the page to the stored selection, on the page with both tables and any legends, for a stored
  selection in which no team occurs twice: if ranking is on or there is no team, after
  \<open>initFavouriteTeams\<close> every team row of either table, the copies on top included, carries a heart, and the
  call of \<open>toggle\<close> written in that heart stores the selection with exactly that row's team switched: added
  at the end if it was not selected, removed if it was; again no team occurs twice. With ranking off and
  a team on the page \<open>initFavouriteTeams\<close> ends with a \<open>TypeError\<close>.
\<close>

theorem heart_click_switches_team:
  assumes "distinct (map teamid ss)" "getSelectedTeams b = Inr favs" "distinct favs"
  shows "let doc = scoreboard_page o' ss legends
    in if enable_ranking o' \<or> ss = []
       then \<exists>doc'. initFavouriteTeams b doc = Inr doc' \<and>
         (\<forall>(key, k) \<in> {(Desktop, 0), (Mobile, 1)}. \<forall>r \<in> set (rows (doc' ! k)). \<forall>t. team_id r = Some t \<longrightarrow>
           (\<exists>n b'. heart_shows r (getHeart n (Some t \<in> set favs) (key = Mobile)) \<and>
              toggle url n (Some t \<notin> set favs) (key = Mobile) doc' b = Inr b' \<and>
              getSelectedTeams b' = Inr (switch_team (Some t) favs) \<and> distinct (switch_team (Some t) favs)))
       else initFavouriteTeams b doc = Inl TypeError"
proof (cases "enable_ranking o' \<or> ss = []")
  case True
  let ?doc = "scoreboard_page o' ss legends"
  have "\<forall>p \<in> set [(Desktop, 0), (Mobile, 1)]. wf_board (fst p = Mobile) (rows (?doc ! snd p))"
    using desktop_wf [OF assms(1) True] mobile_wf [OF assms(1)] by (simp add: scoreboard_page_def)
  from hearts_switch_teams [OF page_boards this assms(2,3), of url] True switch_team_distinct [OF assms(3)]
  show ?thesis by (simp add: Let_def)
next
  case False
  then have "init_board False favs (rows (scoreboard_page o' ss legends ! 0)) = Inl TypeError"
    using desktop_rankless by (simp add: scoreboard_page_def)
  then show ?thesis using False assms(2) by (simp add: Let_def initFavouriteTeams_def page_boards)
qed

theorem heart_click_switches_team_witness:
  "\<exists>doc'. initFavouriteTeams blank_browser (scoreboard_page example_options (map example_score [7, 9]) []) = Inr doc' \<and>
     (\<forall>r \<in> set (rows (doc' ! 1)). \<forall>t. team_id r = Some t \<longrightarrow>
        (\<exists>n b'. heart_shows r (getHeart n False True) \<and> toggle ''/public'' n True True doc' blank_browser = Inr b' \<and>
           getSelectedTeams b' = Inr [Some t]))"
proof -
  have "getSelectedTeams blank_browser = Inr []"
    by (simp add: getSelectedTeams_def getItem_def blank_browser_def)
  from heart_click_switches_team [of "map example_score [7, 9]", OF _ this, of example_options "[]" "''/public''"]
  show ?thesis by (simp add: example_score_def example_options_def switch_team_def Let_def) blast
qed

end
