(* ===== verification/Refresh.thy ===== *)
theory Refresh
  imports Cookies
begin

text \<open>
  The automatic refresh of \<open>webapp/public/js/domjudge.js\<close>: \<open>processAjaxResponse\<close>, \<open>enableRefresh\<close> with
  its timer, its request and its scroll listener, \<open>disableRefresh\<close> and \<open>toggleRefresh\<close>. The calls and
  the events of the browser (a timer runs out, an answer arrives, a request fails, the window is
  scrolled) are the steps of a transition system; an abstract poller says what one chain of timers
  and requests is meant to be.
\<close>

section \<open>An answer of the server\<close>

text \<open>
  The two headers the code reads, the body, and, if the body is a whole document with a refresh
  target in it, the markup of that target's children (which \<open>find\<close> and \<open>children\<close> of jQuery give).
\<close>

record response =
  login_page :: "string option"
  current_contest :: "string option"
  resp_body :: string
  resp_inner :: "string option"

text \<open>
  What the page has: the data attributes of its elements, and the names of the global functions
  its templates define for the refresh.
\<close>

record refresh_page =
  page_contest :: "string option"      \<comment> \<open>\<open>data-current-contest\<close>\<close>
  refresh_stop :: "string option"      \<comment> \<open>\<open>data-ajax-refresh-stop\<close>\<close>
  refresh_before :: "string option"    \<comment> \<open>\<open>data-ajax-refresh-before\<close> of the target\<close>
  refresh_after :: "string option"     \<comment> \<open>\<open>data-ajax-refresh-after\<close> of the target\<close>
  globals :: "string list"

definition refreshTarget :: string where
  "refreshTarget = ''[data-ajax-refresh-target]''"

text \<open>
  A call that may raise an exception returns the browser as it then is, with what was done before
  the exception, and the exception.
\<close>

type_synonym ran = "browser \<times> js_error option"

definition bind_ran :: "ran \<Rightarrow> (browser \<Rightarrow> ran) \<Rightarrow> ran" where
  "bind_ran r f = (case r of (b, None) \<Rightarrow> f b | (b, Some e) \<Rightarrow> (b, Some e))"

definition run_hook :: "string list \<Rightarrow> string option \<Rightarrow> browser \<Rightarrow> ran" where
  "run_hook gl h b = (case h of
       None \<Rightarrow> (b, None)
     | Some f \<Rightarrow> if f = [] then (b, None)
         else if f \<in> set gl then (emit (CallHook f) b, None) else (b, Some TypeError))"

definition processAjaxResponse :: "refresh_page \<Rightarrow> response \<Rightarrow> browser \<Rightarrow> ran" where
  "processAjaxResponse pg resp b =
     (case login_page resp of
        Some (c # cs) \<Rightarrow> (emit (Navigate (c # cs)) b, None)
      | _ \<Rightarrow>
          if refresh_stop pg = Some ''1'' \<or>
             (case page_contest pg of None \<Rightarrow> False | Some c \<Rightarrow> current_contest resp \<noteq> Some c)
          then (emit Reload b, None)
          else
            let data = (case resp_inner resp of Some inner \<Rightarrow> inner | None \<Rightarrow> resp_body resp) in
            bind_ran (run_hook (globals pg) (refresh_before pg) b) (\<lambda>b.
            run_hook (globals pg) (refresh_after pg) (emit (JqHtml refreshTarget data) b)))"

text \<open>The answer to the request of a click on a heart (\<open>toggle\<close>).\<close>

definition toggle_done :: "refresh_page \<Rightarrow> response \<Rightarrow> browser \<Rightarrow> ran" where
  "toggle_done pg resp b = bind_ran (processAjaxResponse pg resp b) (\<lambda>b.
     (emit (JqRemoveClass ''.loading-indicator'' ''ajax-loader'') b, None))"

section \<open>The refresher\<close>

text \<open>The variables the closure \<open>refresh\<close> captures.\<close>

record closure =
  cl_url :: string
  cl_after :: nat
  cl_ajax :: bool

text \<open>
  \<open>timers\<close> are the timeouts armed and not yet run, oldest first, by the number \<open>setTimeout\<close> gave
  them; \<open>requests\<close> the AJAX calls without an answer yet; \<open>listeners\<close> the scroll listeners installed,
  each with whether its own 100 ms timeout is pending.
\<close>

record refresher =
  refreshEnabled :: bool
  refreshHandler :: "nat option"
  timers :: "(nat \<times> closure) list"
  next_timer :: nat
  requests :: "closure list"
  listeners :: "bool list"
  scroll_pos :: nat
  host :: browser

definition set_timeout :: "closure \<Rightarrow> refresher \<Rightarrow> refresher" where
  "set_timeout c s = s\<lparr>timers := timers s @ [(next_timer s, c)], refreshHandler := Some (next_timer s),
     next_timer := Suc (next_timer s)\<rparr>"

definition clear_timeout :: "refresher \<Rightarrow> refresher" where
  "clear_timeout s = s\<lparr>timers := filter (\<lambda>t. refreshHandler s \<noteq> Some (fst t)) (timers s)\<rparr>"

definition scroll_to_last :: "browser \<Rightarrow> browser" where
  "scroll_to_last b =
     (if getItem ''lastUrl'' b = Some (href b)
      then emit (ScrollTo (getItem ''scrollTop'' b)) b
      else setItem ''scrollTop'' ''42'' (setItem ''lastUrl'' (href b) b))"

definition enableRefresh :: "closure \<Rightarrow> refresher \<Rightarrow> refresher" where
  "enableRefresh c s =
     (if refreshEnabled s then s
      else
        let s = set_timeout c s;
            s = s\<lparr>refreshEnabled := True\<rparr>;
            s = s\<lparr>host := setCookie ''domjudge_refresh'' ''1'' (host s)\<rparr>;
            s = s\<lparr>host := scroll_to_last (host s)\<rparr>
        in s\<lparr>listeners := listeners s @ [False]\<rparr>)"

text \<open>\<open>clearInterval\<close> and \<open>clearTimeout\<close> clear the same table of timers.\<close>

definition disableRefresh :: "bool \<Rightarrow> refresher \<Rightarrow> refresher" where
  "disableRefresh usingAjax s =
     (if \<not> refreshEnabled s then s
      else
        let s = (if usingAjax then clear_timeout s else clear_timeout s);
            s = s\<lparr>refreshEnabled := False\<rparr>
        in s\<lparr>host := setCookie ''domjudge_refresh'' ''0'' (host s)\<rparr>)"

definition toggleRefresh :: "closure \<Rightarrow> refresher \<Rightarrow> refresher" where
  "toggleRefresh c s =
     (let s = (if refreshEnabled s then disableRefresh (cl_ajax c) s else enableRefresh c s);
          text = (if refreshEnabled s then ''Disable refresh'' else ''Enable refresh'')
      in s\<lparr>host := emit (JqText ''#refresh-toggle'' text) (emit (JqVal ''#refresh-toggle'' text) (host s))\<rparr>)"

text \<open>The closure \<open>refresh\<close>, run when its timer \<open>k\<close> (a position in \<open>timers\<close>) has run out.\<close>

definition refresh :: "nat \<Rightarrow> refresher \<Rightarrow> refresher" where
  "refresh k s =
     (let c = snd (timers s ! k);
          s = s\<lparr>timers := take k (timers s) @ drop (Suc k) (timers s)\<rparr>
      in if cl_ajax c
         then s\<lparr>host := emit (AjaxGet (cl_url c))
                          (emit (JqAddClass ''.loading-indicator'' ''ajax-loader'') (host s)),
                requests := requests s @ [c]\<rparr>
         else s\<lparr>host := emit (Navigate (cl_url c)) (host s)\<rparr>)"

definition drop_request :: "nat \<Rightarrow> refresher \<Rightarrow> refresher" where
  "drop_request k s = s\<lparr>requests := take k (requests s) @ drop (Suc k) (requests s)\<rparr>"

text \<open>The \<open>done\<close> callback of request \<open>k\<close>; an exception in it skips the rest.\<close>

definition refresh_done :: "refresh_page \<Rightarrow> nat \<Rightarrow> response \<Rightarrow> refresher \<Rightarrow> refresher" where
  "refresh_done pg k resp s =
     (let c = requests s ! k; s = drop_request k s
      in case processAjaxResponse pg resp (host s) of
           (b, Some e) \<Rightarrow> s\<lparr>host := b\<rparr>
         | (b, None) \<Rightarrow> set_timeout c
             (s\<lparr>host := emit (JqRemoveClass ''.loading-indicator'' ''ajax-loader'') b\<rparr>))"

text \<open>Scrolling restarts every listener's timeout; a timeout that runs out stores the position.\<close>

definition scroll :: "nat \<Rightarrow> refresher \<Rightarrow> refresher" where
  "scroll y s = s\<lparr>scroll_pos := y, listeners := map (\<lambda>_. True) (listeners s)\<rparr>"

definition scroll_rest :: "nat \<Rightarrow> refresher \<Rightarrow> refresher" where
  "scroll_rest k s = s\<lparr>listeners := (listeners s)[k := False],
     host := setItem ''scrollTop'' (show_nat (scroll_pos s)) (host s)\<rparr>"

text \<open>A page just loaded.\<close>

definition refresher_start :: "refresher \<Rightarrow> bool" where
  "refresher_start s = (\<not> refreshEnabled s \<and> refreshHandler s = None \<and> timers s = [] \<and>
     requests s = [] \<and> listeners s = [] \<and> jar_ok (host s))"

datatype refresh_event =
    Enable closure
  | Disable bool
  | Toggle closure
  | Fire nat
  | Respond nat response
  | Fail nat
  | Scroll nat
  | ScrollRest nat

inductive refresh_step :: "refresh_page \<Rightarrow> refresher \<Rightarrow> refresh_event \<Rightarrow> refresher \<Rightarrow> bool"
  for pg :: refresh_page where
  enable: "refresh_step pg s (Enable c) (enableRefresh c s)"
| disable: "refresh_step pg s (Disable a) (disableRefresh a s)"
| toggle: "refresh_step pg s (Toggle c) (toggleRefresh c s)"
| fire: "k < length (timers s) \<Longrightarrow> refresh_step pg s (Fire k) (refresh k s)"
| respond: "k < length (requests s) \<Longrightarrow> refresh_step pg s (Respond k r) (refresh_done pg k r s)"
| fail: "k < length (requests s) \<Longrightarrow> refresh_step pg s (Fail k) (drop_request k s)"
| scroll: "refresh_step pg s (Scroll y) (Refresh.scroll y s)"
| scroll_rest: "k < length (listeners s) \<Longrightarrow> listeners s ! k \<Longrightarrow>
    refresh_step pg s (ScrollRest k) (Refresh.scroll_rest k s)"

inductive_cases refresh_stepE: "refresh_step pg s e t"

inductive_simps refresh_step_Enable: "refresh_step pg s (Enable c) t"
inductive_simps refresh_step_Disable: "refresh_step pg s (Disable a) t"
inductive_simps refresh_step_Fire: "refresh_step pg s (Fire k) t"
inductive_simps refresh_step_Respond: "refresh_step pg s (Respond k r) t"

lemmas refresh_step_simps = refresh_step_Enable refresh_step_Disable refresh_step_Fire refresh_step_Respond


section \<open>What every run keeps\<close>

definition chains :: "refresher \<Rightarrow> nat" where
  "chains s = length (timers s) + length (requests s)"

text \<open>
  The numbers of the timers are their own, there is at most one chain per effective
  \<open>enableRefresh\<close> (each installs one listener), and the cookie the server reads on the next page
  agrees with the switch.
\<close>

definition refresh_inv :: "refresher \<Rightarrow> bool" where
  "refresh_inv s = (distinct (map fst (timers s)) \<and> (\<forall>t \<in> set (timers s). fst t < next_timer s) \<and>
     (\<forall>h. refreshHandler s = Some h \<longrightarrow> h < next_timer s) \<and> chains s \<le> length (listeners s) \<and>
     jar_ok (host s) \<and>
     (listeners s \<noteq> [] \<longrightarrow> getCookie ''domjudge_refresh'' (host s) = (if refreshEnabled s then ''1'' else ''0'')) \<and>
     (refreshEnabled s \<longrightarrow> listeners s \<noteq> []))"

lemma bind_ran_simps [simp]:
  "bind_ran (b, None) f = f b"
  "bind_ran (b, Some e) f = (b, Some e)"
  by (simp_all add: bind_ran_def)

lemma run_hook_cookies: "cookies (fst (run_hook gl h b)) = cookies b"
  by (simp add: run_hook_def split: option.split)

lemma bind_ran_cookies:
  assumes "cookies (fst r) = cookies b" "\<And>b'. cookies (fst (f b')) = cookies b'"
  shows "cookies (fst (bind_ran r f)) = cookies b"
  using assms by (cases r) (simp add: bind_ran_def split: option.split)

lemma processAjaxResponse_cookies: "cookies (fst (processAjaxResponse pg r b)) = cookies b"
proof -
  have "cookies (fst (bind_ran (run_hook gl h b) (\<lambda>b. run_hook gl k (emit e b)))) = cookies b" for gl h k e
    by (intro bind_ran_cookies) (simp_all add: run_hook_cookies)
  then show ?thesis by (simp add: processAjaxResponse_def Let_def split: option.split list.split)
qed

lemma cookies_cong: "cookies b' = cookies b \<Longrightarrow> jar_ok b' = jar_ok b"
  "cookies b' = cookies b \<Longrightarrow> getCookie n b' = getCookie n b"
  by (simp_all add: jar_ok_def getCookie_def)

lemma set_timeout_fields [simp]:
  "host (set_timeout c s) = host s" "requests (set_timeout c s) = requests s"
  "listeners (set_timeout c s) = listeners s" "refreshEnabled (set_timeout c s) = refreshEnabled s"
  "timers (set_timeout c s) = timers s @ [(next_timer s, c)]"
  "next_timer (set_timeout c s) = Suc (next_timer s)"
  "refreshHandler (set_timeout c s) = Some (next_timer s)"
  by (simp_all add: set_timeout_def)

lemma drop_request_fields [simp]:
  "host (drop_request k s) = host s" "timers (drop_request k s) = timers s"
  "listeners (drop_request k s) = listeners s" "refreshEnabled (drop_request k s) = refreshEnabled s"
  "next_timer (drop_request k s) = next_timer s" "refreshHandler (drop_request k s) = refreshHandler s"
  "k < length (requests s) \<Longrightarrow> length (requests (drop_request k s)) = length (requests s) - 1"
  by (simp_all add: drop_request_def)

lemma scroll_to_last_frame [simp]:
  "jar_ok (scroll_to_last b) = jar_ok b" "getCookie n (scroll_to_last b) = getCookie n b"
  by (simp_all add: scroll_to_last_def)

lemma enableRefresh_inv:
  assumes "refresh_inv s"
  shows "refresh_inv (enableRefresh c s)"
proof (cases "refreshEnabled s")
  case False
  with assms show ?thesis
    by (auto simp: refresh_inv_def enableRefresh_def Let_def chains_def less_SucI)
qed (use assms in \<open>simp add: enableRefresh_def\<close>)

lemma disableRefresh_inv:
  assumes "refresh_inv s"
  shows "refresh_inv (disableRefresh a s)"
proof (cases "refreshEnabled s")
  case True
  with assms show ?thesis
    by (auto simp: refresh_inv_def disableRefresh_def clear_timeout_def chains_def Let_def
        distinct_map_filter intro: le_trans [OF add_le_mono1 [OF length_filter_le]])
qed (use assms in \<open>simp add: disableRefresh_def\<close>)

lemma host_emit_inv: "refresh_inv s \<Longrightarrow> refresh_inv (s\<lparr>host := emit e (host s)\<rparr>)"
  by (simp add: refresh_inv_def chains_def)

lemma toggleRefresh_inv: "refresh_inv s \<Longrightarrow> refresh_inv (toggleRefresh c s)"
  using host_emit_inv [OF host_emit_inv] enableRefresh_inv disableRefresh_inv
  by (simp add: toggleRefresh_def Let_def)

lemma refresh_fire_inv:
  assumes "refresh_inv s" "k < length (timers s)"
  shows "refresh_inv (refresh k s)"
proof -
  define ts where "ts = take k (timers s) @ drop (Suc k) (timers s)"
  have split: "timers s = take k (timers s) @ timers s ! k # drop (Suc k) (timers s)"
    using assms(2) by (rule id_take_nth_drop)
  have "set ts \<subseteq> set (timers s)" by (auto simp: ts_def dest: in_set_takeD in_set_dropD)
  moreover have "distinct (map fst ts)"
  proof -
    have "distinct (map fst (take k (timers s) @ timers s ! k # drop (Suc k) (timers s)))"
      using assms(1) split by (simp add: refresh_inv_def)
    then show ?thesis by (simp add: ts_def)
  qed
  moreover have "Suc (length ts) = length (timers s)" using assms(2) by (simp add: ts_def)
  ultimately show ?thesis
    using assms(1) unfolding refresh_inv_def refresh_def Let_def ts_def [symmetric]
    by (auto simp: chains_def)
qed

lemma refresh_done_inv:
  assumes "refresh_inv s" "k < length (requests s)"
  shows "refresh_inv (refresh_done pg k r s)"
proof -
  obtain b x where r: "processAjaxResponse pg r (host s) = (b, x)" by fastforce
  then have "cookies b = cookies (host s)"
    using processAjaxResponse_cookies [of pg r "host s"] by simp
  note same = cookies_cong [OF this]
  from assms r show ?thesis
    by (cases x) (auto simp: refresh_inv_def refresh_done_def Let_def chains_def same less_SucI)
qed

interpretation refresh_system: event_system refresher_start "refresh_step pg" refresh_inv for pg
proof unfold_locales
  show "refresh_inv s" if "refresher_start s" for s
    using that by (simp add: refresher_start_def refresh_inv_def chains_def)
  show "refresh_inv t" if inv: "refresh_inv s" and step: "refresh_step pg s e t" for s e t
    using step
  proof cases
    case (fail k)
    with inv show ?thesis by (auto simp: refresh_inv_def chains_def)
  next
    case (scroll y)
    with inv show ?thesis by (simp add: refresh_inv_def scroll_def chains_def)
  next
    case (scroll_rest k)
    with inv show ?thesis by (auto simp: refresh_inv_def scroll_rest_def chains_def)
  qed (use inv in \<open>simp_all add: enableRefresh_inv disableRefresh_inv toggleRefresh_inv
      refresh_fire_inv refresh_done_inv\<close>)
qed


section \<open>The poller it is meant to be\<close>

text \<open>
  One chain: off, waiting for its timer, loading, or gone to another page. It is what the code
  implements as long as no request fails, no answer raises an exception, and refreshing is not
  switched off while a request is on its way.
\<close>

datatype poller = Off | Waiting | Loading | Leaving

inductive poll :: "poller \<Rightarrow> poller \<Rightarrow> bool" where
  poll_same: "poll p p"
| poll_on: "poll Off Waiting"
| poll_off: "poll Waiting Off"
| poll_load: "poll Waiting Loading"
| poll_leave: "poll Waiting Leaving"
| poll_loaded: "poll Loading Waiting"
| poll_left_off: "poll Leaving Off"

definition abs_poller :: "refresher \<Rightarrow> poller" where
  "abs_poller s = (if requests s \<noteq> [] then Loading else if timers s \<noteq> [] then Waiting
     else if refreshEnabled s then Leaving else Off)"

definition calm :: "refresh_page \<Rightarrow> refresher \<Rightarrow> refresh_event \<Rightarrow> bool" where
  "calm pg s e = (case e of
       Disable _ \<Rightarrow> requests s = []
     | Toggle _ \<Rightarrow> refreshEnabled s \<longrightarrow> requests s = []
     | Respond k r \<Rightarrow> snd (processAjaxResponse pg r (host s)) = None
     | Fail _ \<Rightarrow> False
     | _ \<Rightarrow> True)"

definition calm_step :: "refresh_page \<Rightarrow> refresher \<Rightarrow> refresh_event \<Rightarrow> refresher \<Rightarrow> bool" where
  "calm_step pg s e t = (calm pg s e \<and> refresh_step pg s e t)"

definition one_chain :: "refresher \<Rightarrow> bool" where
  "one_chain s = (chains s \<le> 1 \<and> (\<not> refreshEnabled s \<longrightarrow> chains s = 0) \<and>
     (\<forall>t \<in> set (timers s). refreshHandler s = Some (fst t)) \<and>
     (refreshEnabled s \<and> chains s = 0 \<longrightarrow> (\<exists>u. Navigate u \<in> set (effects (host s)))))"

lemma one_chain_cases:
  assumes "one_chain s"
  obtains (off) "\<not> refreshEnabled s" "timers s = []" "requests s = []"
  | (waiting) t where "refreshEnabled s" "timers s = [t]" "requests s = []" "refreshHandler s = Some (fst t)"
  | (loading) c where "refreshEnabled s" "timers s = []" "requests s = [c]"
  | (leaving) u where "refreshEnabled s" "timers s = []" "requests s = []" "Navigate u \<in> set (effects (host s))"
proof (cases "refreshEnabled s")
  case True
  then show thesis
  proof (cases "timers s")
    case Nil
    then show thesis
      using True assms leaving loading by (cases "requests s") (auto simp: one_chain_def chains_def)
  next
    case (Cons t ts)
    then show thesis using True assms waiting [of t] by (simp add: one_chain_def chains_def)
  qed
next
  case False
  with assms show thesis using off by (simp add: one_chain_def chains_def)
qed

lemma scroll_to_last_effects: "set (effects b) \<subseteq> set (effects (scroll_to_last b))"
  by (auto simp: scroll_to_last_def)

lemma enableRefresh_calm:
  "one_chain s \<Longrightarrow> one_chain (enableRefresh c s) \<and> poll (abs_poller s) (abs_poller (enableRefresh c s))"
proof (cases "refreshEnabled s")
  case True
  then show "one_chain s \<Longrightarrow> ?thesis" by (simp add: enableRefresh_def poll.intros)
next
  case False
  assume "one_chain s"
  then have "timers s = []" "requests s = []" using False by (auto simp: one_chain_def chains_def)
  with False show ?thesis
    by (simp add: one_chain_def chains_def abs_poller_def enableRefresh_def Let_def poll.intros)
qed

lemma disableRefresh_calm:
  assumes "one_chain s" "refreshEnabled s \<Longrightarrow> requests s = []"
  shows "one_chain (disableRefresh a s) \<and> poll (abs_poller s) (abs_poller (disableRefresh a s))"
  using assms(1)
  by (cases rule: one_chain_cases)
    (use assms in \<open>simp_all add: disableRefresh_def clear_timeout_def one_chain_def chains_def
      abs_poller_def Let_def poll.intros\<close>)

lemma one_chain_host:
  "one_chain s \<Longrightarrow> one_chain (s\<lparr>host := emit e (host s)\<rparr>)"
  "abs_poller (s\<lparr>host := b\<rparr>) = abs_poller s"
  by (auto simp: one_chain_def chains_def abs_poller_def)

lemma refresh_calm:
  assumes "one_chain s" "k < length (timers s)"
  shows "one_chain (refresh k s) \<and> poll (abs_poller s) (abs_poller (refresh k s))"
  using assms(1)
  by (cases rule: one_chain_cases)
    (use assms(2) in \<open>auto simp: refresh_def one_chain_def chains_def abs_poller_def Let_def
      intro: poll.intros\<close>)

lemma refresh_done_calm:
  assumes "one_chain s" "k < length (requests s)" "snd (processAjaxResponse pg r (host s)) = None"
  shows "one_chain (refresh_done pg k r s) \<and> poll (abs_poller s) (abs_poller (refresh_done pg k r s))"
proof -
  obtain b where "processAjaxResponse pg r (host s) = (b, None)" using assms(3) by (metis prod.collapse)
  note r = this
  show ?thesis using assms(1)
    by (cases rule: one_chain_cases)
      (use assms(2) r in \<open>simp_all add: refresh_done_def drop_request_def one_chain_def chains_def
        abs_poller_def Let_def poll.intros\<close>)
qed

lemma calm_step_simulates:
  assumes chain: "one_chain s" and step: "calm_step pg s e t"
  shows "one_chain t \<and> poll (abs_poller s) (abs_poller t)"
proof -
  have calm: "calm pg s e" and "refresh_step pg s e t" using step by (simp_all add: calm_step_def)
  from this(2) show ?thesis
  proof cases
    case (toggle c)
    define s' where "s' = (if refreshEnabled s then disableRefresh (cl_ajax c) s else enableRefresh c s)"
    have "one_chain s' \<and> poll (abs_poller s) (abs_poller s')"
      using calm enableRefresh_calm [OF chain] disableRefresh_calm [OF chain]
      by (auto simp: s'_def toggle(1) calm_def)
    then show ?thesis unfolding toggle(2) toggleRefresh_def Let_def s'_def [symmetric]
      using one_chain_host(1) [OF one_chain_host(1)] by (simp add: one_chain_host(2))
  next
    case (scroll y)
    with chain show ?thesis
      by (simp add: scroll_def one_chain_def chains_def abs_poller_def poll.intros)
  next
    case (scroll_rest k)
    with chain show ?thesis
      by (simp add: scroll_rest_def one_chain_def chains_def abs_poller_def poll.intros)
  qed (use chain calm in \<open>auto simp: calm_def enableRefresh_calm disableRefresh_calm refresh_calm
      refresh_done_calm\<close>)
qed

interpretation calm_refresh: simulation refresher_start "calm_step pg" one_chain abs_poller Off poll for pg
proof unfold_locales
  show "one_chain s" "abs_poller s = Off" if "refresher_start s" for s
    using that by (simp_all add: refresher_start_def one_chain_def chains_def abs_poller_def)
qed (use calm_step_simulates in blast)+


section \<open>Properties\<close>

definition quiet_page :: refresh_page where
  "quiet_page = \<lparr>page_contest = None, refresh_stop = None, refresh_before = None,
     refresh_after = None, globals = []\<rparr>"

definition new_refresher :: "browser \<Rightarrow> refresher" where
  "new_refresher b = \<lparr>refreshEnabled = False, refreshHandler = None, timers = [], next_timer = 1,
     requests = [], listeners = [], scroll_pos = 0, host = b\<rparr>"

lemma new_refresher_start: "jar_ok b \<Longrightarrow> refresher_start (new_refresher b)"
  by (simp add: refresher_start_def new_refresher_def)

lemma jar_ok_blank [simp]: "jar_ok blank_browser"
  by (simp add: jar_ok_def blank_browser_def cookie_pairs_def)

definition example_closure :: closure where
  "example_closure = \<lparr>cl_url = ''/public'', cl_after = 30, cl_ajax = True\<rparr>"

text \<open>
  C6. In every run in which no request fails, no answer raises an exception and refreshing is not
  switched off while a request is on its way, the refresher implements the one-chain poller: each
  step is a step of the poller, whose runs begin at \<open>Off\<close>, there is never more than one timer or
  request, and none once it is off.
\<close>

theorem refresh_refines_poller:
  assumes "reachable_from refresher_start (calm_step pg) s" "calm_step pg s e t"
  shows "poll (abs_poller s) (abs_poller t) \<and> poll\<^sup>*\<^sup>* Off (abs_poller t) \<and> chains t \<le> 1 \<and>
    (\<not> refreshEnabled t \<longrightarrow> chains t = 0)"
proof -
  have t: "reachable_from refresher_start (calm_step pg) t" by (rule reach_step [OF assms])
  show ?thesis
    using calm_refresh.reachable_step [OF assms] calm_refresh.reachable_abs [OF t]
      calm_refresh.reachable_inv [OF t] by (simp add: one_chain_def)
qed

theorem refresh_refines_poller_witness:
  "poll (abs_poller (new_refresher blank_browser))
     (abs_poller (enableRefresh example_closure (new_refresher blank_browser)))"
proof -
  have "reachable_from refresher_start (calm_step quiet_page) (new_refresher blank_browser)"
    by (intro reach_start new_refresher_start jar_ok_blank)
  moreover have "calm_step quiet_page (new_refresher blank_browser) (Enable example_closure)
      (enableRefresh example_closure (new_refresher blank_browser))"
    by (simp add: calm_step_def calm_def refresh_step_simps)
  ultimately show ?thesis by (rule refresh_refines_poller [THEN conjunct1])
qed

text \<open>
  C7. In every run whatsoever, once refreshing has been switched on, the cookie
  \<open>domjudge_refresh\<close> tells the server whether it is on; the pending timers have different numbers,
  and there are at most as many chains as there were effective calls of \<open>enableRefresh\<close>.
\<close>

theorem refresh_cookie_agrees:
  assumes "reachable_from refresher_start (refresh_step pg) s"
  shows "(listeners s \<noteq> [] \<longrightarrow>
       getCookie ''domjudge_refresh'' (host s) = (if refreshEnabled s then ''1'' else ''0'')) \<and>
     distinct (map fst (timers s)) \<and> length (timers s) + length (requests s) \<le> length (listeners s)"
  using refresh_system.reachable_inv [OF assms] by (simp add: refresh_inv_def chains_def)

theorem refresh_cookie_agrees_witness:
  "getCookie ''domjudge_refresh'' (host (enableRefresh example_closure (new_refresher blank_browser))) = ''1''"
proof -
  have "refresh_step quiet_page (new_refresher blank_browser) (Enable example_closure)
      (enableRefresh example_closure (new_refresher blank_browser))" by (rule enable)
  with reach_start [of refresher_start, OF new_refresher_start [OF jar_ok_blank]]
  have "reachable_from refresher_start (refresh_step quiet_page)
      (enableRefresh example_closure (new_refresher blank_browser))" by (rule reach_step)
  from refresh_cookie_agrees [OF this] show ?thesis
    by (simp add: enableRefresh_def new_refresher_def Let_def)
qed

text \<open>An answer for a page without attributes.\<close>

definition example_response :: response where
  "example_response = \<lparr>login_page = None, current_contest = None, resp_body = ''<p>'', resp_inner = None\<rparr>"

lemma processAjaxResponse_quiet:
  "login_page r = None \<Longrightarrow> processAjaxResponse quiet_page r b = (emit (JqHtml refreshTarget
     (case resp_inner r of Some h \<Rightarrow> h | None \<Rightarrow> resp_body r)) b, None)"
  by (simp add: processAjaxResponse_def quiet_page_def run_hook_def Let_def)

lemma example_response_login [simp]: "login_page example_response = None"
  by (simp add: example_response_def)

definition all_ajax :: "refresher \<Rightarrow> bool" where
  "all_ajax s = ((\<forall>t \<in> set (timers s). cl_ajax (snd t)) \<and> (\<forall>c \<in> set (requests s). cl_ajax c))"

text \<open>One more chain: switch on, let the timer run out, switch off, and have the answer arrive.\<close>

lemma extra_chain:
  assumes r: "reachable_from refresher_start (refresh_step quiet_page) s" and off: "\<not> refreshEnabled s"
    and none: "requests s = []" and ajax: "all_ajax s"
  shows "\<exists>s'. reachable_from refresher_start (refresh_step quiet_page) s' \<and> \<not> refreshEnabled s' \<and>
     requests s' = [] \<and> length (timers s') = Suc (length (timers s)) \<and> all_ajax s'"
proof -
  let ?R = "reachable_from refresher_start (refresh_step quiet_page)"
  let ?c = example_closure
  define s1 where "s1 = enableRefresh ?c s"
  define s2 where "s2 = refresh (length (timers s)) s1"
  define s3 where "s3 = disableRefresh True s2"
  define s4 where "s4 = refresh_done quiet_page 0 example_response s3"
  have fresh: "\<forall>t \<in> set (timers s). fst t < next_timer s"
    using refresh_system.reachable_inv [OF r] by (simp add: refresh_inv_def)
  have s1: "timers s1 = timers s @ [(next_timer s, ?c)]" "refreshHandler s1 = Some (next_timer s)"
    "refreshEnabled s1" "requests s1 = []"
    using off none by (simp_all add: s1_def enableRefresh_def Let_def)
  have s2: "timers s2 = timers s" "refreshHandler s2 = Some (next_timer s)" "refreshEnabled s2"
    "requests s2 = [?c]"
    using s1 by (simp_all add: s2_def refresh_def Let_def nth_append example_closure_def)
  have s3: "timers s3 = timers s" "\<not> refreshEnabled s3" "requests s3 = [?c]"
    using s2 fresh by (auto simp: s3_def disableRefresh_def clear_timeout_def Let_def intro!: filter_True)
  have s4: "timers s4 = timers s @ [(next_timer s3, ?c)]" "\<not> refreshEnabled s4" "requests s4 = []"
    using s3 by (simp_all add: s4_def refresh_done_def Let_def processAjaxResponse_quiet drop_request_def)
  have "?R s1" unfolding s1_def using r by (rule reach_step) (rule enable)
  then have "?R s2" unfolding s2_def by (rule reach_step) (rule fire, simp add: s1)
  then have "?R s3" unfolding s3_def by (rule reach_step) (rule disable)
  then have "?R s4" unfolding s4_def by (rule reach_step) (rule respond, simp add: s3)
  moreover have "all_ajax s4"
    using ajax s4 by (auto simp: all_ajax_def example_closure_def)
  ultimately show ?thesis using s4 by (intro exI [of _ s4]) simp
qed

text \<open>
  What may happen to a page on which nobody switches refreshing on again: it may be switched off, its
  timers run out, its requests are answered by a page without a login, and the window is scrolled. No
  request fails.
\<close>

definition left_alone :: "refresh_event \<Rightarrow> bool" where
  "left_alone e = (case e of
       Enable _ \<Rightarrow> False
     | Toggle _ \<Rightarrow> False
     | Fail _ \<Rightarrow> False
     | Respond k r \<Rightarrow> login_page r = None
     | _ \<Rightarrow> True)"

definition alone_step :: "refresher \<Rightarrow> refresher \<Rightarrow> bool" where
  "alone_step s t = (\<exists>e. left_alone e \<and> refresh_step quiet_page s e t)"

lemma alone_stepI: "refresh_step quiet_page s e t \<Longrightarrow> left_alone e \<Longrightarrow> alone_step s t"
  by (auto simp: alone_step_def)

definition requests_sent :: "refresher \<Rightarrow> nat" where
  "requests_sent s = length (filter (\<lambda>e. \<exists>u. e = AjaxGet u) (effects (host s)))"

lemma alone_step_keeps:
  assumes "alone_step s t" "\<not> refreshEnabled s" "all_ajax s"
  shows "\<not> refreshEnabled t \<and> all_ajax t \<and> chains t = chains s"
proof -
  obtain e where e: "left_alone e" "refresh_step quiet_page s e t"
    using assms(1) by (auto simp: alone_step_def)
  from e(2) show ?thesis
  proof cases
    case (fire k)
    have "snd (timers s ! k) \<in> snd ` set (timers s)" using fire by simp
    then show ?thesis
      using assms fire by (auto simp: refresh_def Let_def all_ajax_def chains_def dest: in_set_takeD in_set_dropD)
  next
    case (respond k r)
    have "requests s ! k \<in> set (requests s)" using respond by simp
    then show ?thesis
      using assms e respond by (auto simp: refresh_done_def processAjaxResponse_quiet left_alone_def
          all_ajax_def chains_def drop_request_def Let_def dest: in_set_takeD in_set_dropD)
  next
    case (scroll y)
    then show ?thesis using assms by (simp add: scroll_def all_ajax_def chains_def)
  next
    case (scroll_rest k)
    then show ?thesis using assms by (simp add: scroll_rest_def all_ajax_def chains_def)
  qed (use assms e in \<open>simp_all add: left_alone_def disableRefresh_def\<close>)
qed

lemma alone_run_keeps:
  assumes "alone_step\<^sup>*\<^sup>* s t" "\<not> refreshEnabled s" "all_ajax s"
  shows "\<not> refreshEnabled t \<and> all_ajax t \<and> chains t = chains s"
  using assms(1) by induction (use assms(2,3) alone_step_keeps in auto)

lemma timer_polls:
  assumes "timers s \<noteq> []" "all_ajax s"
  shows "\<exists>u. alone_step s u \<and> requests_sent u = Suc (requests_sent s)"
proof -
  have "refresh_step quiet_page s (Fire 0) (refresh 0 s)" using assms(1) by (intro fire) simp
  then have "alone_step s (refresh 0 s)" by (rule alone_stepI) (simp add: left_alone_def)
  moreover have "requests_sent (refresh 0 s) = Suc (requests_sent s)"
    using assms by (cases "timers s") (simp_all add: refresh_def requests_sent_def all_ajax_def emit_def Let_def)
  ultimately show ?thesis by blast
qed

lemma chain_polls:
  assumes "0 < chains s" "\<not> refreshEnabled s" "all_ajax s"
  shows "\<exists>u. alone_step\<^sup>*\<^sup>* s u \<and> requests_sent u = Suc (requests_sent s)"
proof (cases "timers s")
  case Nil
  define s' where "s' = refresh_done quiet_page 0 example_response s"
  have "refresh_step quiet_page s (Respond 0 example_response) s'"
    unfolding s'_def using assms(1) Nil by (intro respond) (simp add: chains_def)
  then have step: "alone_step s s'" by (rule alone_stepI) (simp add: left_alone_def)
  have "timers s' \<noteq> []" "requests_sent s' = requests_sent s"
    by (simp_all add: s'_def refresh_done_def processAjaxResponse_quiet Let_def requests_sent_def emit_def)
  moreover have "all_ajax s'" using alone_step_keeps [OF step assms(2,3)] by blast
  ultimately obtain u where u: "alone_step s' u" "requests_sent u = Suc (requests_sent s)"
    using timer_polls [of s'] by auto
  from step u(1) have "alone_step\<^sup>*\<^sup>* s u" by (rule converse_rtranclp_into_rtranclp [OF _ r_into_rtranclp])
  with u(2) show ?thesis by blast
next
  case (Cons t ts)
  then obtain u where "alone_step s u" "requests_sent u = Suc (requests_sent s)"
    using timer_polls [of s] assms(3) by auto
  then show ?thesis by (intro exI [of _ u]) (simp add: r_into_rtranclp)
qed

lemma chains_while_off:
  "\<exists>s. reachable_from refresher_start (refresh_step quiet_page) s \<and> \<not> refreshEnabled s \<and>
     requests s = [] \<and> length (timers s) = n \<and> all_ajax s"
proof (induction n)
  case 0
  have "reachable_from refresher_start (refresh_step quiet_page) (new_refresher blank_browser)"
    by (intro reach_start new_refresher_start jar_ok_blank)
  then show ?case
    by (intro exI [of _ "new_refresher blank_browser"]) (simp add: new_refresher_def all_ajax_def)
next
  case (Suc n)
  then obtain s where "reachable_from refresher_start (refresh_step quiet_page) s"
    "\<not> refreshEnabled s" "requests s = []" "length (timers s) = n" "all_ajax s" by blast
  then show ?case using extra_chain by blast
qed

text \<open>
  C13. Without that discipline the code keeps polling after it is switched off, in any number of chains:
  by switching on and off again while a request is on its way, a page can get to a state in which
  refreshing is off and \<open>n\<close> timers are running. From there on, however often it is switched off once
  more, whichever timers run out and whichever requests are answered (by a page that does not ask to log
  in), refreshing stays off, the number of chains stays \<open>n\<close>, and a further request is always still
  to come. (Only a request that fails ends a chain; switching on and off again ends the one whose
  timer was armed last.)
\<close>

theorem polling_after_disable:
  "\<exists>s. reachable_from refresher_start (refresh_step quiet_page) s \<and> \<not> refreshEnabled s \<and>
     length (timers s) = n \<and> requests s = [] \<and>
     (\<forall>t. alone_step\<^sup>*\<^sup>* s t \<longrightarrow> \<not> refreshEnabled t \<and> length (timers t) + length (requests t) = n \<and>
       (0 < n \<longrightarrow> (\<exists>u. alone_step\<^sup>*\<^sup>* t u \<and> requests_sent u = Suc (requests_sent t))))"
proof -
  obtain s where s: "reachable_from refresher_start (refresh_step quiet_page) s"
    "\<not> refreshEnabled s" "requests s = []" "length (timers s) = n" "all_ajax s"
    using chains_while_off by blast
  have "\<not> refreshEnabled t \<and> length (timers t) + length (requests t) = n \<and>
      (0 < n \<longrightarrow> (\<exists>u. alone_step\<^sup>*\<^sup>* t u \<and> requests_sent u = Suc (requests_sent t)))"
    if "alone_step\<^sup>*\<^sup>* s t" for t
    using alone_run_keeps [OF that s(2,5)] chain_polls [of t] s(3,4) by (auto simp: chains_def)
  with s show ?thesis by blast
qed

theorem polling_after_disable_witness:
  "\<exists>s. \<not> refreshEnabled s \<and> length (timers s) = 2 \<and>
     (\<exists>u. alone_step\<^sup>*\<^sup>* s u \<and> requests_sent u = Suc (requests_sent s))"
proof -
  obtain s where s: "\<not> refreshEnabled s" "length (timers s) = 2"
    "\<forall>t. alone_step\<^sup>*\<^sup>* s t \<longrightarrow> (\<exists>u. alone_step\<^sup>*\<^sup>* t u \<and> requests_sent u = Suc (requests_sent t))"
    using polling_after_disable [of 2] zero_less_numeral by blast
  then show ?thesis by (meson rtranclp.rtrancl_refl)
qed

definition hook_calls :: "string option \<Rightarrow> effect list" where
  "hook_calls h = (case h of Some f \<Rightarrow> if f = [] then [] else [CallHook f] | None \<Rightarrow> [])"

definition hook_missing :: "string list \<Rightarrow> string option \<Rightarrow> bool" where
  "hook_missing gl h = (case h of Some f \<Rightarrow> f \<noteq> [] \<and> f \<notin> set gl | None \<Rightarrow> False)"

lemma run_hook_cases: "run_hook gl h b = (if hook_missing gl h then (b, Some TypeError)
    else (b\<lparr>effects := effects b @ hook_calls h\<rparr>, None))"
  by (cases h) (simp_all add: run_hook_def emit_def hook_calls_def hook_missing_def)

definition wants_login :: "response \<Rightarrow> bool" where
  "wants_login r = (case login_page r of Some u \<Rightarrow> u \<noteq> [] | None \<Rightarrow> False)"

definition wants_reload :: "refresh_page \<Rightarrow> response \<Rightarrow> bool" where
  "wants_reload pg r = (refresh_stop pg = Some ''1'' \<or> page_contest pg \<notin> {None, current_contest r})"

lemma processAjaxResponse_stay:
  assumes "\<not> wants_login r" "\<not> wants_reload pg r"
  shows "processAjaxResponse pg r b =
    bind_ran (run_hook (globals pg) (refresh_before pg) b) (\<lambda>b.
    run_hook (globals pg) (refresh_after pg) (emit (JqHtml refreshTarget
      (case resp_inner r of Some h \<Rightarrow> h | None \<Rightarrow> resp_body r)) b))"
proof -
  have "login_page r = None \<or> login_page r = Some []"
    using assms(1) by (simp add: wants_login_def split: option.splits)
  moreover have "\<not> (refresh_stop pg = Some ''1'' \<or>
      (case page_contest pg of None \<Rightarrow> False | Some c \<Rightarrow> current_contest r \<noteq> Some c))"
    using assms(2) by (auto simp: wants_reload_def split: option.splits)
  ultimately show ?thesis unfolding processAjaxResponse_def Let_def by auto
qed

text \<open>
  What an answer does, in order: a login header leads to the login page and nothing else; a stop
  signal or another contest than the page's reloads and nothing else; any other answer runs the
  hook before, puts the new markup (of the target's children, if the answer has a target) into
  the target, and runs the hook after; a hook that the page does not define is a \<open>TypeError\<close>,
  which leaves what was done before it.
\<close>

theorem processAjaxResponse_branches:
  "processAjaxResponse pg r b =
    (let new = JqHtml refreshTarget (case resp_inner r of Some h \<Rightarrow> h | None \<Rightarrow> resp_body r) in
     if wants_login r then (emit (Navigate (the (login_page r))) b, None)
     else if wants_reload pg r then (emit Reload b, None)
     else if hook_missing (globals pg) (refresh_before pg) then (b, Some TypeError)
     else if hook_missing (globals pg) (refresh_after pg)
       then (b\<lparr>effects := effects b @ hook_calls (refresh_before pg) @ [new]\<rparr>, Some TypeError)
     else (b\<lparr>effects := effects b @ hook_calls (refresh_before pg) @ [new]
       @ hook_calls (refresh_after pg)\<rparr>, None))"
proof -
  consider "wants_login r" | "\<not> wants_login r" "wants_reload pg r" | "\<not> wants_login r" "\<not> wants_reload pg r"
    by blast
  then show ?thesis
  proof cases
    case 1
    then obtain c cs where "login_page r = Some (c # cs)"
      by (auto simp: wants_login_def neq_Nil_conv split: option.splits)
    with 1 show ?thesis by (simp add: processAjaxResponse_def Let_def)
  next
    case 2
    have "login_page r = None \<or> login_page r = Some []"
      using 2(1) by (simp add: wants_login_def split: option.splits)
    moreover have "refresh_stop pg = Some ''1'' \<or>
        (case page_contest pg of None \<Rightarrow> False | Some c \<Rightarrow> current_contest r \<noteq> Some c)"
      using 2(2) by (auto simp: wants_reload_def split: option.splits)
    ultimately show ?thesis using 2 by (auto simp: processAjaxResponse_def Let_def)
  next
    case 3
    show ?thesis
      unfolding processAjaxResponse_stay [OF 3] using 3 by (simp add: run_hook_cases emit_def Let_def)
  qed
qed

text \<open>
  The refresh button: it switches, the label it gets names what the next click will do, and
  the cookie follows.
\<close>

theorem toggleRefresh_switches:
  assumes "jar_ok (host s)"
  shows "let s' = toggleRefresh c s;
             label = (if refreshEnabled s then ''Enable refresh'' else ''Disable refresh'') in
    refreshEnabled s' = (\<not> refreshEnabled s) \<and>
    JqText ''#refresh-toggle'' label = last (effects (host s')) \<and>
    getCookie ''domjudge_refresh'' (host s') = (if refreshEnabled s then ''0'' else ''1'')"
  using assms by (simp add: toggleRefresh_def enableRefresh_def disableRefresh_def clear_timeout_def Let_def)

theorem toggleRefresh_switches_witness:
  "getCookie ''domjudge_refresh'' (host (toggleRefresh example_closure (new_refresher blank_browser))) = ''1''"
  using toggleRefresh_switches [of "new_refresher blank_browser" example_closure]
  by (simp add: new_refresher_def Let_def)

text \<open>
  The scroll position survives a refresh by reloading: whatever was stored before, when refreshing
  was switched on, the window then scrolled to \<open>y\<close> and left there, and the same address is
  loaded again, switching on scrolls to \<open>y\<close>.
\<close>

theorem scroll_position_restored:
  assumes "\<not> refreshEnabled s" "refresher_start s2"
    and "k < length (listeners (enableRefresh c s))"
    and "storage (host s2) = storage (host (scroll_rest k (scroll y (enableRefresh c s))))"
    and "href (host s2) = href (host s)"
  shows "effects (host (enableRefresh c2 s2)) = effects (host s2) @ [ScrollTo (Some (show_nat y))]"
proof -
  have "href (scroll_to_last b) = href b" "getItem ''lastUrl'' (scroll_to_last b) = Some (href b)" for b
    by (simp_all add: scroll_to_last_def)
  then have "getItem ''lastUrl'' (host s2) = Some (href (host s2))"
    and "getItem ''scrollTop'' (host s2) = Some (show_nat y)"
    using assms(1,4,5)
    by (simp_all add: getItem_def scroll_rest_def scroll_def enableRefresh_def Let_def setCookie_def)
  with assms(2) show ?thesis
    by (simp add: enableRefresh_def Let_def refresher_start_def scroll_to_last_def)
qed

theorem scroll_position_restored_witness:
  "let s = enableRefresh example_closure (new_refresher blank_browser);
       s2 = new_refresher (blank_browser\<lparr>storage := storage (host (scroll_rest 0 (scroll 250 s)))\<rparr>)
   in last (effects (host (enableRefresh example_closure s2))) = ScrollTo (Some (show_nat 250))"
  unfolding Let_def
  by (subst scroll_position_restored [where s = "new_refresher blank_browser" and k = 0 and y = 250
        and c = example_closure])
    (simp_all add: new_refresher_def refresher_start_def enableRefresh_def Let_def jar_ok_def
      scroll_rest_def scroll_def setCookie_def scroll_to_last_def getItem_def blank_browser_def
      cookie_pairs_def)

end
