(* ===== verification/MenuAlerts.thy ===== *)
theory MenuAlerts
  imports Complex_Main Notifications
begin

text \<open>
  The polling of the menus in \<open>webapp/public/js/domjudge.js\<close>: \<open>updateClarifications\<close> for teams, and
  \<open>updateMenuAlerts\<close> for the jury with the eight functions it hands the parts of the answer to. Each
  switches a badge of the menu and reports what is new through \<open>sendNotification\<close>. What the badges
  look like afterwards follows from the interface \<open>jquery_page\<close>, what is notified from \<open>ledger\<close>.
\<close>

section \<open>The answer of the server\<close>

record clarification =
  clarid :: nat
  clar_body :: string

record judgehost =
  hostname :: string
  polltime :: rat

record internal_error =
  errorid :: nat
  description :: string

text \<open>\<open>baloonid\<close> is the property the code reads, spelled as there.\<close>

record balloon =
  baloonid :: "nat jsv"
  balloon_location :: "string option"
  pname :: string
  team_name :: string

record menu_updates =
  clarifications :: "clarification list"
  rejudgings :: "nat list"
  judgehosts :: "judgehost list"
  internal_errors :: "internal_error list"
  balloons :: "balloon list"
  shadow_difference_count :: "nat option"       \<comment> \<open>\<open>None\<close>: \<open>undefined\<close>\<close>
  external_contest_source_is_down :: "bool option"
  external_source_warning_count :: string    \<comment> \<open>as \<open>parseInt\<close> sees it: \<open>[]\<close> is the empty text\<close>

text \<open>
  The balloon entries of \<open>DOMJudgeService::getUpdates\<close> have the properties \<open>balloonid\<close>, \<open>name\<close>,
  \<open>location\<close> and \<open>pname\<close>; the property the code reads is not among them.
\<close>

definition server_balloon :: "string option \<Rightarrow> string \<Rightarrow> string \<Rightarrow> balloon" where
  "server_balloon loc p n = \<lparr>baloonid = Undefined, balloon_location = loc, pname = p, team_name = n\<rparr>"

text \<open>A number in a text; \<open>None\<close> is not a number.\<close>

definition show_number :: "int option \<Rightarrow> string" where
  "show_number x = (case x of None \<Rightarrow> ''NaN'' | Some i \<Rightarrow> show_int i)"

definition show_jsv :: "nat jsv \<Rightarrow> string" where
  "show_jsv v = (case v of Undefined \<Rightarrow> ''undefined'' | Null \<Rightarrow> ''null'' | Val n \<Rightarrow> show_nat n)"

section \<open>The badges\<close>

definition message :: "string \<Rightarrow> string \<Rightarrow> string \<Rightarrow> note_options" where
  "message tag link body = \<lparr>opt_tag = Val tag, opt_link = Val link, opt_body = Val body\<rparr>"

definition clar_note :: "string \<Rightarrow> string \<Rightarrow> string \<Rightarrow> clarification \<Rightarrow> string \<times> note_options" where
  "clar_note title base path c = (title,
     message (''clar_'' @ show_nat (clarid c)) (base @ path @ show_nat (clarid c)) (clar_body c))"

definition updateMenuClarifications :: "clarification list \<Rightarrow> browser \<Rightarrow> browser" where
  "updateMenuClarifications data b =
     (if length data = 0 then
        emit (JqRemoveClass ''#menu_clarifications'' ''text-info'')
          (emit (JqHide ''#num-alerts-clarifications'') b)
      else
        let b = emit (JqHtml ''#num-alerts-clarifications'' (show_nat (length data))) b;
            b = emit (JqShow ''#num-alerts-clarifications'') b;
            b = emit (JqAddClass ''#menu_clarifications'' ''text-info'') b
        in fold send (map (clar_note ''New clarification requested.'' (base_url b)
                             ''/jury/clarifications/'') data) b)"

definition updateMenuRejudgings :: "nat list \<Rightarrow> browser \<Rightarrow> browser" where
  "updateMenuRejudgings data b =
     (if length data = 0 then
        emit (JqRemoveClass ''#menu_rejudgings'' ''text-info'')
          (emit (JqHide ''#num-alerts-rejudgings'') b)
      else
        let b = emit (JqHtml ''#num-alerts-rejudgings'' (show_nat (length data))) b;
            b = emit (JqShow ''#num-alerts-rejudgings'') b
        in emit (JqAddClass ''#menu_rejudgings'' ''text-info'') b)"

definition host_note :: "string \<Rightarrow> judgehost \<Rightarrow> string \<times> note_options" where
  "host_note base h = (''Judgehost down.'',
     message (''host_'' @ hostname h @ ''@'' @ show_int \<lfloor>polltime h\<rfloor>)
       (base @ ''/jury/judgehosts/'' @ encodeURIComponent (hostname h)) (hostname h @ '' is down''))"

definition updateMenuJudgehosts :: "judgehost list \<Rightarrow> browser \<Rightarrow> browser" where
  "updateMenuJudgehosts data b =
     (if length data = 0 then
        emit (JqRemoveClass ''#menu_judgehosts'' ''text-danger'')
          (emit (JqHtml ''#num-alerts-judgehosts-sub'' [])
            (emit (JqHide ''#num-alerts-judgehosts'') b))
      else
        let b = emit (JqHtml ''#num-alerts-judgehosts'' (show_nat (length data))) b;
            b = emit (JqShow ''#num-alerts-judgehosts'') b;
            b = emit (JqHtml ''#num-alerts-judgehosts-sub'' (show_nat (length data) @ '' down'')) b;
            b = emit (JqAddClass ''#menu_judgehosts'' ''text-danger'') b
        in fold send (map (host_note (base_url b)) data) b)"

definition error_note :: "string \<Rightarrow> internal_error \<Rightarrow> string \<times> note_options" where
  "error_note base e = (''Judgehost internal error occurred.'',
     message (''ie_'' @ show_nat (errorid e)) (base @ ''/internal-errors/'' @ show_nat (errorid e))
       (description e))"

definition updateMenuInternalErrors :: "internal_error list \<Rightarrow> browser \<Rightarrow> browser" where
  "updateMenuInternalErrors data b =
     (if length data = 0 then
        emit (JqAddClass ''#menu_internal_error'' ''dropdown-disabled'')
          (emit (JqRemoveClass ''#menu_internal_error'' ''text-danger'')
            (emit (JqHtml ''#num-alerts-internalerrors-sub'' [])
              (emit (JqHide ''#num-alerts-internalerrors'') b)))
      else
        let b = emit (JqHtml ''#num-alerts-internalerrors'' (show_nat (length data))) b;
            b = emit (JqShow ''#num-alerts-internalerrors'') b;
            b = emit (JqHtml ''#num-alerts-internalerrors-sub'' (show_nat (length data) @ '' new'')) b;
            b = emit (JqAddClass ''#menu_internal_error'' ''text-danger'') b;
            b = emit (JqRemoveClass ''#menu_internal_error'' ''dropdown-disabled'') b
        in fold send (map (error_note (base_url b)) data) b)"

definition balloon_note :: "string \<Rightarrow> balloon \<Rightarrow> string \<times> note_options" where
  "balloon_note base x =
     (let text = (case balloon_location x of Some l \<Rightarrow> l @ '': '' | None \<Rightarrow> []);
          text = text @ pname x @ '' '' @ team_name x
      in (''New balloon:'', message (''ball_'' @ show_jsv (baloonid x)) (base @ ''/jury/balloons'') text))"

definition updateMenuBalloons :: "balloon list \<Rightarrow> browser \<Rightarrow> browser" where
  "updateMenuBalloons data b =
     (if length data = 0 then emit (JqHide ''#num-alerts-balloons'') b
      else
        let b = emit (JqHtml ''#num-alerts-balloons'' (show_nat (length data))) b;
            b = emit (JqShow ''#num-alerts-balloons'') b
        in fold send (map (balloon_note (base_url b)) data) b)"

definition updateMenuShadowDifferences :: "nat \<Rightarrow> browser \<Rightarrow> browser" where
  "updateMenuShadowDifferences num b =
     (if num = 0 then
        emit (JqRemoveClass ''#menu_shadow_differences'' ''text-danger'')
          (emit (JqHtml ''#num-alerts-shadowdifferences-sub'' [])
            (emit (JqHide ''#num-alerts-shadowdifferences'') b))
      else
        let b = emit (JqHtml ''#num-alerts-shadowdifferences'' (show_nat num)) b;
            b = emit (JqShow ''#num-alerts-shadowdifferences'') b;
            b = emit (JqHtml ''#num-alerts-shadowdifferences-sub'' (show_nat num @ '' differences'')) b
        in emit (JqAddClass ''#menu_shadow_differences'' ''text-danger'') b)"

definition updateMenuExternalContest :: "bool \<Rightarrow> string \<Rightarrow> browser \<Rightarrow> browser" where
  "updateMenuExternalContest isDown count b =
     (let numWarnings = parseInt count in
      if \<not> isDown \<and> numWarnings = Some 0 then
        emit (JqRemoveClass ''#menu_shadow_differences'' ''text-danger'')
          (emit (JqHtml ''#num-alerts-externalcontest-sub'' [])
            (emit (JqHide ''#num-alerts-externalcontest'') b))
      else
        let total = map_option (\<lambda>n. (if isDown then 1 else 0) + n) numWarnings;
            b = emit (JqHtml ''#num-alerts-externalcontest'' (show_number total)) b;
            b = emit (JqShow ''#num-alerts-externalcontest'') b;
            text = (if isDown \<and> (case numWarnings of Some n \<Rightarrow> n > 0 | None \<Rightarrow> False)
                    then ''down, '' @ show_number numWarnings @ '' warnings''
                    else if isDown then ''down''
                    else show_number numWarnings @ '' warnings'');
            b = emit (JqHtml ''#num-alerts-externalcontest-sub'' text) b
        in emit (JqAddClass ''#menu_external_contest_sources'' ''text-danger'') b)"

lemmas [operation_defs] = updateMenuClarifications_def updateMenuRejudgings_def updateMenuJudgehosts_def
  updateMenuInternalErrors_def updateMenuBalloons_def updateMenuShadowDifferences_def
  updateMenuExternalContest_def Let_def

section \<open>The requests and their answers\<close>

definition ask_updates :: "string \<Rightarrow> browser \<Rightarrow> browser" where
  "ask_updates update_url b = emit (AjaxGet update_url) b"

definition updateMenuAlerts_done :: "string option \<Rightarrow> menu_updates \<Rightarrow> browser \<Rightarrow> browser" where
  "updateMenuAlerts_done login json b =
     (case login of
        Some (c # cs) \<Rightarrow> emit (Navigate (c # cs)) b
      | _ \<Rightarrow>
        let b = updateMenuClarifications (clarifications json) b;
            b = updateMenuRejudgings (rejudgings json) b;
            b = updateMenuJudgehosts (judgehosts json) b;
            b = updateMenuInternalErrors (internal_errors json) b;
            b = updateMenuBalloons (balloons json) b;
            b = (case shadow_difference_count json of
                   Some n \<Rightarrow> updateMenuShadowDifferences n b
                 | None \<Rightarrow> b)
        in (case external_contest_source_is_down json of
              Some d \<Rightarrow> updateMenuExternalContest d (external_source_warning_count json) b
            | None \<Rightarrow> b))"

definition updateClarifications_done :: "string option \<Rightarrow> clarification list \<Rightarrow> browser \<Rightarrow> browser" where
  "updateClarifications_done login unread b =
     (case login of
        Some (c # cs) \<Rightarrow> emit (Navigate (c # cs)) b
      | _ \<Rightarrow> fold send (map (clar_note ''New clarification'' (base_url b) ''/team/clarifications/'') unread) b)"


section \<open>Calls to the page, and calls that are not\<close>

definition page_calls :: "browser \<Rightarrow> effect list" where
  "page_calls b = filter page_call (effects b)"

lemma page_calls_emit [simp]: "page_calls (emit e b) = page_calls b @ (if page_call e then [e] else [])"
  by (simp add: page_calls_def)

lemma page_calls_setItem [simp]: "page_calls (setItem k v b) = page_calls b"
  by (simp add: page_calls_def)

lemma page_call_cases [simp]:
  "page_call (JqShow s)" "page_call (JqHide s)" "page_call (JqHtml s h)" "page_call (JqAddClass s c)"
  "page_call (JqRemoveClass s c)" "\<not> page_call (ShowNotification n)"
  by (simp_all add: page_call_def)

lemma page_calls_send [simp]: "page_calls (fold send ms b) = page_calls b"
proof (induction ms arbitrary: b)
  case (Cons m ms)
  have "page_calls (send m b) = page_calls b"
    by (simp add: send_def sendNotification_def Let_def split: jsv.split)
  with Cons show ?case by simp
qed simp

lemma base_url_send [simp]: "base_url (fold send ms b) = base_url b"
proof (induction ms arbitrary: b)
  case (Cons m ms)
  have "base_url (send m b) = base_url b"
    by (simp add: send_def sendNotification_def Let_def split: jsv.split)
  with Cons show ?case by simp
qed simp

text \<open>What each function does to the page, by the number of its entries.\<close>

definition clar_calls :: "nat \<Rightarrow> effect list" where
  "clar_calls n =
     (if n = 0 then [JqHide ''#num-alerts-clarifications'', JqRemoveClass ''#menu_clarifications'' ''text-info'']
      else [JqHtml ''#num-alerts-clarifications'' (show_nat n), JqShow ''#num-alerts-clarifications'',
        JqAddClass ''#menu_clarifications'' ''text-info''])"

definition rejudging_calls :: "nat \<Rightarrow> effect list" where
  "rejudging_calls n =
     (if n = 0 then [JqHide ''#num-alerts-rejudgings'', JqRemoveClass ''#menu_rejudgings'' ''text-info'']
      else [JqHtml ''#num-alerts-rejudgings'' (show_nat n), JqShow ''#num-alerts-rejudgings'',
        JqAddClass ''#menu_rejudgings'' ''text-info''])"

definition host_calls :: "nat \<Rightarrow> effect list" where
  "host_calls n =
     (if n = 0 then [JqHide ''#num-alerts-judgehosts'', JqHtml ''#num-alerts-judgehosts-sub'' [],
        JqRemoveClass ''#menu_judgehosts'' ''text-danger'']
      else [JqHtml ''#num-alerts-judgehosts'' (show_nat n), JqShow ''#num-alerts-judgehosts'',
        JqHtml ''#num-alerts-judgehosts-sub'' (show_nat n @ '' down''),
        JqAddClass ''#menu_judgehosts'' ''text-danger''])"

definition error_calls :: "nat \<Rightarrow> effect list" where
  "error_calls n =
     (if n = 0 then [JqHide ''#num-alerts-internalerrors'', JqHtml ''#num-alerts-internalerrors-sub'' [],
        JqRemoveClass ''#menu_internal_error'' ''text-danger'',
        JqAddClass ''#menu_internal_error'' ''dropdown-disabled'']
      else [JqHtml ''#num-alerts-internalerrors'' (show_nat n), JqShow ''#num-alerts-internalerrors'',
        JqHtml ''#num-alerts-internalerrors-sub'' (show_nat n @ '' new''),
        JqAddClass ''#menu_internal_error'' ''text-danger'',
        JqRemoveClass ''#menu_internal_error'' ''dropdown-disabled''])"

definition balloon_calls :: "nat \<Rightarrow> effect list" where
  "balloon_calls n = (if n = 0 then [JqHide ''#num-alerts-balloons'']
      else [JqHtml ''#num-alerts-balloons'' (show_nat n), JqShow ''#num-alerts-balloons''])"

definition shadow_calls :: "nat \<Rightarrow> effect list" where
  "shadow_calls n =
     (if n = 0 then [JqHide ''#num-alerts-shadowdifferences'', JqHtml ''#num-alerts-shadowdifferences-sub'' [],
        JqRemoveClass ''#menu_shadow_differences'' ''text-danger'']
      else [JqHtml ''#num-alerts-shadowdifferences'' (show_nat n), JqShow ''#num-alerts-shadowdifferences'',
        JqHtml ''#num-alerts-shadowdifferences-sub'' (show_nat n @ '' differences''),
        JqAddClass ''#menu_shadow_differences'' ''text-danger''])"

definition external_text :: "bool \<Rightarrow> int option \<Rightarrow> string" where
  "external_text d w = (if d then (case w of Some n \<Rightarrow> if n > 0 then ''down, '' @ show_int n @ '' warnings''
       else ''down'' | None \<Rightarrow> ''down'') else show_number w @ '' warnings'')"

definition external_calls :: "bool \<Rightarrow> int option \<Rightarrow> effect list" where
  "external_calls d w =
     (if \<not> d \<and> w = Some 0 then
        [JqHide ''#num-alerts-externalcontest'', JqHtml ''#num-alerts-externalcontest-sub'' [],
         JqRemoveClass ''#menu_shadow_differences'' ''text-danger'']
      else
        [JqHtml ''#num-alerts-externalcontest'' (show_number (map_option (\<lambda>n. (if d then 1 else 0) + n) w)),
         JqShow ''#num-alerts-externalcontest'', JqHtml ''#num-alerts-externalcontest-sub'' (external_text d w),
         JqAddClass ''#menu_external_contest_sources'' ''text-danger''])"

lemmas menu_calls = clar_calls_def rejudging_calls_def host_calls_def error_calls_def balloon_calls_def
  shadow_calls_def external_calls_def

lemma menu_pages:
  "page_calls (updateMenuClarifications cs b) = page_calls b @ clar_calls (length cs)"
  "page_calls (updateMenuRejudgings rs b) = page_calls b @ rejudging_calls (length rs)"
  "page_calls (updateMenuJudgehosts hs b) = page_calls b @ host_calls (length hs)"
  "page_calls (updateMenuInternalErrors es b) = page_calls b @ error_calls (length es)"
  "page_calls (updateMenuBalloons bs b) = page_calls b @ balloon_calls (length bs)"
  "page_calls (updateMenuShadowDifferences n b) = page_calls b @ shadow_calls n"
  by (simp_all add: operation_defs menu_calls)

lemma menu_page_external:
  "page_calls (updateMenuExternalContest d count b) = page_calls b @ external_calls d (parseInt count)"
  by (simp add: operation_defs menu_calls external_text_def show_number_def
      split: option.split)

definition optional_calls :: "menu_updates \<Rightarrow> effect list" where
  "optional_calls json =
     (case shadow_difference_count json of Some n \<Rightarrow> shadow_calls n | None \<Rightarrow> []) @
     (case external_contest_source_is_down json of
        Some d \<Rightarrow> external_calls d (parseInt (external_source_warning_count json)) | None \<Rightarrow> [])"

definition no_login :: "string option \<Rightarrow> bool" where
  "no_login login = (login = None \<or> login = Some [])"

lemma updateMenuAlerts_page:
  assumes "no_login login"
  shows "page_calls (updateMenuAlerts_done login json b) = page_calls b @
     (clar_calls (length (clarifications json)) @ rejudging_calls (length (rejudgings json)) @
      host_calls (length (judgehosts json)) @ error_calls (length (internal_errors json)) @
      balloon_calls (length (balloons json)) @ optional_calls json)"
  using assms
  by (auto simp: updateMenuAlerts_done_def no_login_def Let_def menu_pages menu_page_external
      optional_calls_def split: option.split)

lemma menu_targets:
  "call_target ` set (clar_calls n) = {''#num-alerts-clarifications'', ''#menu_clarifications''}"
  "call_target ` set (rejudging_calls n) = {''#num-alerts-rejudgings'', ''#menu_rejudgings''}"
  "call_target ` set (host_calls n) =
     {''#num-alerts-judgehosts'', ''#num-alerts-judgehosts-sub'', ''#menu_judgehosts''}"
  "call_target ` set (error_calls n) =
     {''#num-alerts-internalerrors'', ''#num-alerts-internalerrors-sub'', ''#menu_internal_error''}"
  "call_target ` set (balloon_calls n) = {''#num-alerts-balloons''}"
  "call_target ` set (shadow_calls n) =
     {''#num-alerts-shadowdifferences'', ''#num-alerts-shadowdifferences-sub'', ''#menu_shadow_differences''}"
  "call_target ` set (external_calls d w) \<subseteq>
     {''#num-alerts-externalcontest'', ''#num-alerts-externalcontest-sub'', ''#menu_shadow_differences'',
      ''#menu_external_contest_sources''}"
  by (simp_all add: menu_calls call_target_def)

lemma optional_targets:
  "call_target ` set (optional_calls json) \<subseteq>
     {''#num-alerts-shadowdifferences'', ''#num-alerts-shadowdifferences-sub'', ''#menu_shadow_differences''} \<union>
     {''#num-alerts-externalcontest'', ''#num-alerts-externalcontest-sub'', ''#menu_shadow_differences'',
      ''#menu_external_contest_sources''}"
  unfolding optional_calls_def set_append image_Un
  by (intro Un_mono) (simp_all only: menu_targets set_simps image_empty empty_subsetI subset_refl
      split: option.split, simp_all)

section \<open>The badges and the answer agree\<close>

definition badge_shows :: "('d \<Rightarrow> string \<Rightarrow> bool) \<Rightarrow> ('d \<Rightarrow> string \<Rightarrow> string) \<Rightarrow> 'd \<Rightarrow> string \<Rightarrow> nat \<Rightarrow> bool" where
  "badge_shows hidden content d badge n \<longleftrightarrow>
     (if n = 0 then hidden d badge else \<not> hidden d badge \<and> content d badge = show_nat n)"

context jquery_page
begin

text \<open>Each function alone, on any page.\<close>

lemma clar_page:
  "badge_shows hidden content (fold exec (clar_calls n) d) ''#num-alerts-clarifications'' n"
  "has_class (fold exec (clar_calls n) d) ''#menu_clarifications'' ''text-info'' \<longleftrightarrow> n \<noteq> 0"
  by (simp_all add: clar_calls_def badge_shows_def page_laws)

lemma rejudging_page:
  "badge_shows hidden content (fold exec (rejudging_calls n) d) ''#num-alerts-rejudgings'' n"
  "has_class (fold exec (rejudging_calls n) d) ''#menu_rejudgings'' ''text-info'' \<longleftrightarrow> n \<noteq> 0"
  by (simp_all add: rejudging_calls_def badge_shows_def page_laws)

lemma host_page:
  "badge_shows hidden content (fold exec (host_calls n) d) ''#num-alerts-judgehosts'' n"
  "has_class (fold exec (host_calls n) d) ''#menu_judgehosts'' ''text-danger'' \<longleftrightarrow> n \<noteq> 0"
  by (simp_all add: host_calls_def badge_shows_def page_laws)

lemma error_page:
  "badge_shows hidden content (fold exec (error_calls n) d) ''#num-alerts-internalerrors'' n"
  "has_class (fold exec (error_calls n) d) ''#menu_internal_error'' ''text-danger'' \<longleftrightarrow> n \<noteq> 0"
  "has_class (fold exec (error_calls n) d) ''#menu_internal_error'' ''dropdown-disabled'' \<longleftrightarrow> n = 0"
  by (simp_all add: error_calls_def badge_shows_def page_laws)

lemma balloon_page:
  "badge_shows hidden content (fold exec (balloon_calls n) d) ''#num-alerts-balloons'' n"
  by (simp_all add: balloon_calls_def badge_shows_def page_laws)

text \<open>What a log shows of an element is what its page calls show, from the last part about it on.\<close>

lemma log_page:
  assumes "page_calls b = pre @ part @ post" "s \<notin> call_target ` set post"
  shows "hidden (fold exec (effects b) d) s = hidden (fold exec part (fold exec pre d)) s"
    "content (fold exec (effects b) d) s = content (fold exec part (fold exec pre d)) s"
    "has_class (fold exec (effects b) d) s c = has_class (fold exec part (fold exec pre d)) s c"
proof -
  have "filter page_call (effects b) = (pre @ part) @ post" using assms(1) by (simp add: page_calls_def)
  with fold_page_calls [of d d "effects b"] fold_elsewhere [OF assms(2), of "fold exec part (fold exec pre d)"]
  show "hidden (fold exec (effects b) d) s = hidden (fold exec part (fold exec pre d)) s"
    "content (fold exec (effects b) d) s = content (fold exec part (fold exec pre d)) s"
    "has_class (fold exec (effects b) d) s c = has_class (fold exec part (fold exec pre d)) s c"
    by simp_all
qed

lemma log_badge:
  assumes "page_calls b = pre @ part @ post" "s \<notin> call_target ` set post"
  shows "badge_shows hidden content (fold exec (effects b) d) s n =
    badge_shows hidden content (fold exec part (fold exec pre d)) s n"
  by (simp add: badge_shows_def log_page [OF assms])

end

text \<open>
  C4. After every answer to the jury's poll that asks for no login, whatever the menu showed before, the
  badges of the clarifications, rejudgings, judgehosts, internal errors and balloons agree with the answer:
  hidden when there are none, otherwise shown with the number; and the entries are highlighted
  exactly when there are some.
\<close>

theorem menu_follows_updates:
  assumes "jquery_page exec hidden content has_class" "no_login login"
    and "d' = fold exec (effects (updateMenuAlerts_done login json b)) d"
  shows "badge_shows hidden content d' ''#num-alerts-clarifications'' (length (clarifications json)) \<and>
    badge_shows hidden content d' ''#num-alerts-rejudgings'' (length (rejudgings json)) \<and>
    badge_shows hidden content d' ''#num-alerts-judgehosts'' (length (judgehosts json)) \<and>
    badge_shows hidden content d' ''#num-alerts-internalerrors'' (length (internal_errors json)) \<and>
    badge_shows hidden content d' ''#num-alerts-balloons'' (length (balloons json)) \<and>
    has_class d' ''#menu_clarifications'' ''text-info'' = (clarifications json \<noteq> []) \<and>
    has_class d' ''#menu_rejudgings'' ''text-info'' = (rejudgings json \<noteq> []) \<and>
    has_class d' ''#menu_judgehosts'' ''text-danger'' = (judgehosts json \<noteq> []) \<and>
    has_class d' ''#menu_internal_error'' ''text-danger'' = (internal_errors json \<noteq> [])"
proof -
  note page = updateMenuAlerts_page [OF assms(2), of json b]
  note split = append_assoc [symmetric]
  define b' where "b' = updateMenuAlerts_done login json b"
  let ?A = "clar_calls (length (clarifications json))" and ?B = "rejudging_calls (length (rejudgings json))"
  let ?C = "host_calls (length (judgehosts json))" and ?D = "error_calls (length (internal_errors json))"
  let ?E = "balloon_calls (length (balloons json))" and ?F = "optional_calls json"
  have opt: "s \<notin> call_target ` set ?F" if "s \<in> {''#num-alerts-clarifications'', ''#menu_clarifications'',
      ''#num-alerts-rejudgings'', ''#menu_rejudgings'', ''#num-alerts-judgehosts'', ''#menu_judgehosts'',
      ''#num-alerts-internalerrors'', ''#menu_internal_error'', ''#num-alerts-balloons''}" for s
    using that optional_targets [of json] by fastforce
  have A: "page_calls b' = page_calls b @ ?A @ (?B @ ?C @ ?D @ ?E @ ?F)"
    and B: "page_calls b' = (page_calls b @ ?A) @ ?B @ (?C @ ?D @ ?E @ ?F)"
    and C: "page_calls b' = (page_calls b @ ?A @ ?B) @ ?C @ (?D @ ?E @ ?F)"
    and D: "page_calls b' = (page_calls b @ ?A @ ?B @ ?C) @ ?D @ (?E @ ?F)"
    and E: "page_calls b' = (page_calls b @ ?A @ ?B @ ?C @ ?D) @ ?E @ ?F"
    using page by (simp_all add: b'_def)
  note log = jquery_page.log_badge [OF assms(1)] jquery_page.log_page(3) [OF assms(1)]
  show ?thesis
    unfolding assms(3) b'_def [symmetric]
    by (intro conjI)
      (simp_all add: log [OF A] log [OF B] log [OF C] log [OF D] log [OF E] image_Un menu_targets opt
        jquery_page.clar_page [OF assms(1)] jquery_page.rejudging_page [OF assms(1)]
        jquery_page.host_page [OF assms(1)] jquery_page.error_page [OF assms(1)]
        jquery_page.balloon_page [OF assms(1)])
qed

definition example_updates :: menu_updates where
  "example_updates = \<lparr>clarifications = [\<lparr>clarid = 3, clar_body = ''Is 0 even?''\<rparr>], rejudgings = [4, 7],
     judgehosts = [], internal_errors = [], balloons = [], shadow_difference_count = None,
     external_contest_source_is_down = None, external_source_warning_count = []\<rparr>"

definition example_dom :: page where
  "example_dom = (\<lambda>_. \<lparr>el_hidden = True, el_html = [], el_classes = []\<rparr>)"

theorem menu_follows_updates_witness:
  "badge_shows page_hidden page_content
     (fold page_exec (effects (updateMenuAlerts_done None example_updates blank_browser)) example_dom)
     ''#num-alerts-rejudgings'' (length [4, 7 :: nat])"
  using menu_follows_updates [OF plain.jquery_page_axioms _ refl, of None example_updates blank_browser example_dom]
  by (simp add: no_login_def example_updates_def)

section \<open>What is notified\<close>

text \<open>
  \<open>posts ms b b'\<close>: going from \<open>b\<close> to \<open>b'\<close> has posted the messages \<open>ms\<close> on the ledger, and nothing else
  as far as notifications go.
\<close>

definition posts :: "(string \<times> note_options) list \<Rightarrow> browser \<Rightarrow> browser \<Rightarrow> bool" where
  "posts ms b b' \<longleftrightarrow>
     notified b' = notified b @ (if notify_enabled b then fresh (set (sent_tags b)) (map note_tag ms) else []) \<and>
     set (sent_tags b') = note_tag ` set ms \<union> set (sent_tags b) \<and>
     notify_enabled b' = notify_enabled b \<and> base_url b' = base_url b"

lemma posts_refl: "posts [] b b"
  by (simp add: posts_def)

lemma posts_trans: "posts ms b b' \<Longrightarrow> posts ns b' b'' \<Longrightarrow> posts (ms @ ns) b b''"
  by (auto simp: posts_def fresh_append)

lemma sent_tags_emit [simp]: "sent_tags (emit e b) = sent_tags b"
  by (simp add: sent_tags_def)

lemma posts_emit: "posts ms (emit e b) b' \<Longrightarrow> effect_tags e = [] \<Longrightarrow> posts ms b b'"
  by (simp add: posts_def)

lemma posts_emit_last: "posts ms b b' \<Longrightarrow> effect_tags e = [] \<Longrightarrow> posts ms b (emit e b')"
  by (simp add: posts_def)

lemma effect_tags_page [simp]:
  "effect_tags (JqShow s) = []" "effect_tags (JqHide s) = []" "effect_tags (JqHtml s h) = []"
  "effect_tags (JqAddClass s c) = []" "effect_tags (JqRemoveClass s c) = []"
  by (simp_all add: effect_tags_def)

lemma posts_send: "\<forall>m \<in> set ms. listable m \<Longrightarrow> posts ms b (fold send ms b)"
  using sent_ledger.shown_fold sent_ledger.seen_fold sent_ledger.on_fold by (simp add: posts_def)

text \<open>The messages the menu sends can be listed; a judgehost's name must not contain a comma.\<close>

lemma show_int_no_comma: "CHR '','' \<notin> set (show_int i)"
  by (rule show_int_not_in) (simp_all add: is_digit_def)

lemma show_nat_no_comma: "CHR '','' \<notin> set (show_nat n)"
  using show_int_no_comma [of "int n"] by (simp add: show_int_def)

lemma listable_notes:
  "listable (clar_note title base path c)" "listable (error_note base e)" "listable (balloon_note base x)"
  "CHR '','' \<notin> set (hostname h) \<Longrightarrow> listable (host_note base h)"
  using show_nat_no_comma show_int_no_comma
  by (auto simp: listable_def clar_note_def error_note_def balloon_note_def host_note_def message_def
      Let_def show_jsv_def split: jsv.split)

definition update_messages :: "string \<Rightarrow> menu_updates \<Rightarrow> (string \<times> note_options) list" where
  "update_messages base json =
     map (clar_note ''New clarification requested.'' base ''/jury/clarifications/'') (clarifications json) @
     map (host_note base) (judgehosts json) @ map (error_note base) (internal_errors json) @
     map (balloon_note base) (balloons json)"

lemma posts_send_from:
  assumes "\<forall>m \<in> set ms. listable m" "notified c = notified b" "sent_tags c = sent_tags b"
    "notify_enabled c = notify_enabled b" "base_url c = base_url b"
  shows "posts ms b (fold send ms c)"
  using posts_send [OF assms(1), of c] assms(2-5) by (simp add: posts_def)

lemma menu_posts:
  "posts (map (clar_note ''New clarification requested.'' (base_url b) ''/jury/clarifications/'') cs) b
     (updateMenuClarifications cs b)"
  "posts [] b (updateMenuRejudgings rs b)"
  "\<forall>h \<in> set hs. CHR '','' \<notin> set (hostname h) \<Longrightarrow>
     posts (map (host_note (base_url b)) hs) b (updateMenuJudgehosts hs b)"
  "posts (map (error_note (base_url b)) es) b (updateMenuInternalErrors es b)"
  "posts (map (balloon_note (base_url b)) bs) b (updateMenuBalloons bs b)"
  "posts [] b (updateMenuShadowDifferences n b)"
  "posts [] b (updateMenuExternalContest d w b)"
proof -
  show "posts (map (clar_note ''New clarification requested.'' (base_url b) ''/jury/clarifications/'') cs) b
     (updateMenuClarifications cs b)"
    by (cases "cs = []") (simp add: operation_defs posts_def, simp add: operation_defs posts_send_from listable_notes)
  show "\<forall>h \<in> set hs. CHR '','' \<notin> set (hostname h) \<Longrightarrow>
     posts (map (host_note (base_url b)) hs) b (updateMenuJudgehosts hs b)"
    by (cases "hs = []") (simp add: operation_defs posts_def, simp add: operation_defs posts_send_from listable_notes)
  show "posts (map (error_note (base_url b)) es) b (updateMenuInternalErrors es b)"
    by (cases "es = []") (simp add: operation_defs posts_def, simp add: operation_defs posts_send_from listable_notes)
  show "posts (map (balloon_note (base_url b)) bs) b (updateMenuBalloons bs b)"
    by (cases "bs = []") (simp add: operation_defs posts_def, simp add: operation_defs posts_send_from listable_notes)
  show "posts [] b (updateMenuRejudgings rs b)" "posts [] b (updateMenuShadowDifferences n b)"
    "posts [] b (updateMenuExternalContest d w b)"
    by (simp_all add: operation_defs posts_def)
qed

lemma updateMenuAlerts_posts:
  assumes "no_login login" "\<forall>h \<in> set (judgehosts json). CHR '','' \<notin> set (hostname h)"
  shows "posts (update_messages (base_url b) json) b (updateMenuAlerts_done login json b)"
proof -
  define b1 where "b1 = updateMenuClarifications (clarifications json) b"
  define b2 where "b2 = updateMenuRejudgings (rejudgings json) b1"
  define b3 where "b3 = updateMenuJudgehosts (judgehosts json) b2"
  define b4 where "b4 = updateMenuInternalErrors (internal_errors json) b3"
  define b5 where "b5 = updateMenuBalloons (balloons json) b4"
  define b6 where "b6 = (case shadow_difference_count json of
      Some n \<Rightarrow> updateMenuShadowDifferences n b5 | None \<Rightarrow> b5)"
  define b7 where "b7 = (case external_contest_source_is_down json of
      Some d \<Rightarrow> updateMenuExternalContest d (external_source_warning_count json) b6 | None \<Rightarrow> b6)"
  have 1: "posts (map (clar_note ''New clarification requested.'' (base_url b) ''/jury/clarifications/'')
      (clarifications json)) b b1" and 2: "posts [] b1 b2"
    unfolding b1_def b2_def by (rule menu_posts)+
  then have base: "base_url b2 = base_url b" by (simp add: posts_def)
  have 3: "posts (map (host_note (base_url b)) (judgehosts json)) b2 b3"
    using menu_posts(3) [OF assms(2), of b2] by (simp add: b3_def base)
  then have base: "base_url b3 = base_url b" by (simp add: posts_def base)
  have 4: "posts (map (error_note (base_url b)) (internal_errors json)) b3 b4"
    using menu_posts(4) [of b3] by (simp add: b4_def base)
  then have base: "base_url b4 = base_url b" by (simp add: posts_def base)
  have 5: "posts (map (balloon_note (base_url b)) (balloons json)) b4 b5"
    using menu_posts(5) [of b4] by (simp add: b5_def base)
  have 6: "posts [] b5 b6" "posts [] b6 b7"
    by (simp_all add: b6_def b7_def menu_posts posts_refl split: option.split)
  have "updateMenuAlerts_done login json b = b7"
    using assms(1) unfolding b7_def b6_def b5_def b4_def b3_def b2_def b1_def
    by (auto simp: updateMenuAlerts_done_def no_login_def Let_def)
  with posts_trans [OF 1 posts_trans [OF 2 posts_trans [OF 3 posts_trans [OF 4 posts_trans [OF 5
      posts_trans [OF 6]]]]]]
  show ?thesis by (simp add: update_messages_def)
qed

text \<open>
  What happens at the contest, as far as the menu is to notify the jury of it. The balloons of an answer
  are one event: the code makes their tag from \<open>baloonid\<close>, which the server does not send.
\<close>

datatype menu_event =
    ClarificationAsked nat
  | HostDown string int      \<comment> \<open>the host and the second in which it was last seen\<close>
  | ErrorOccurred nat
  | NewBalloons

fun event_tag :: "menu_event \<Rightarrow> string" where
  "event_tag (ClarificationAsked n) = ''clar_'' @ show_nat n"
| "event_tag (HostDown h t) = ''host_'' @ h @ ''@'' @ show_int t"
| "event_tag (ErrorOccurred n) = ''ie_'' @ show_nat n"
| "event_tag NewBalloons = ''ball_undefined''"

definition menu_events :: "menu_updates \<Rightarrow> menu_event set" where
  "menu_events json = (ClarificationAsked \<circ> clarid) ` set (clarifications json)
     \<union> (\<lambda>h. HostDown (hostname h) \<lfloor>polltime h\<rfloor>) ` set (judgehosts json)
     \<union> (ErrorOccurred \<circ> errorid) ` set (internal_errors json)
     \<union> (if balloons json = [] then {} else {NewBalloons})"

lemma last_separator:
  "c \<notin> set x \<Longrightarrow> c \<notin> set y \<Longrightarrow> h @ c # x = h' @ c # y \<longleftrightarrow> h = h' \<and> x = y"
  by (auto simp: append_eq_append_conv2 append_eq_Cons_conv Cons_eq_append_conv)

lemma event_tag_inj: "event_tag e = event_tag e' \<longleftrightarrow> e = e'"
proof -
  have "CHR ''@'' \<notin> set (show_int t)" for t by (rule show_int_not_in) (simp_all add: is_digit_def)
  then show ?thesis
    by (cases e; cases e') (simp_all add: show_nat_inj show_int_inj last_separator)
qed

lemma note_events:
  "note_tag (clar_note title base path c) = event_tag (ClarificationAsked (clarid c))"
  "note_tag (host_note base h) = event_tag (HostDown (hostname h) \<lfloor>polltime h\<rfloor>)"
  "note_tag (error_note base e) = event_tag (ErrorOccurred (errorid e))"
  "baloonid x = Undefined \<Longrightarrow> note_tag (balloon_note base x) = event_tag NewBalloons"
  by (simp_all add: note_tag_def clar_note_def host_note_def error_note_def balloon_note_def message_def
      show_jsv_def Let_def)

lemma update_tags:
  assumes "list_all (\<lambda>x. baloonid x = Undefined) (balloons json)"
  shows "note_tag ` set (update_messages base json) = event_tag ` menu_events json"
proof -
  have "note_tag ` balloon_note base ` set (balloons json) =
      event_tag ` (if balloons json = [] then {} else {NewBalloons})"
    using assms by (cases "balloons json") (auto simp: image_image list_all_iff note_events)
  then show ?thesis
    by (simp only: update_messages_def menu_events_def set_append set_map image_Un image_image note_events(1-3)
        o_def Un_assoc)
qed

text \<open>
  C5. What polling notifies. An answer that asks for no login, whose balloons come as the server sends them,
  without \<open>baloonid\<close>, and whose judgehosts have no commas in their names, makes the jury's page notify, if notifications are enabled, each clarification, each judgehost that
  was seen last in some second, and each internal error, once, unless its tag is on the list of tags
  already sent; different events have different tags. Of all balloons of the answer one notification is
  shown, and none if any balloon was ever notified before: they share one tag. The same answer again,
  polled any number of times, notifies nothing more.
\<close>

theorem menu_notifications_once:
  assumes "no_login login" "\<forall>h \<in> set (judgehosts json). CHR '','' \<notin> set (hostname h)"
    "list_all (\<lambda>x. baloonid x = Undefined) (balloons json)"
  shows "\<exists>new. notified (updateMenuAlerts_done login json b) = notified b @ map event_tag new \<and> distinct new \<and>
     distinct (map event_tag new) \<and>
     set new = (if notify_enabled b then {e \<in> menu_events json. event_tag e \<notin> set (sent_tags b)} else {}) \<and>
     notified ((updateMenuAlerts_done login json ^^ Suc n) b) = notified b @ map event_tag new"
proof -
  define tags where "tags = (if notify_enabled b then fresh (set (sent_tags b))
      (map note_tag (update_messages (base_url b) json)) else [])"
  note step = updateMenuAlerts_posts [OF assms(1,2)]
  have "notified ((updateMenuAlerts_done login json ^^ Suc n) b) = notified b @ tags \<and>
      note_tag ` set (update_messages (base_url b) json) \<subseteq>
        set (sent_tags ((updateMenuAlerts_done login json ^^ Suc n) b)) \<and>
      base_url ((updateMenuAlerts_done login json ^^ Suc n) b) = base_url b"
  proof (induction n)
    case 0
    show ?case using step [of b] by (auto simp: posts_def tags_def)
  next
    case (Suc n)
    define c where "c = (updateMenuAlerts_done login json ^^ Suc n) b"
    have "(updateMenuAlerts_done login json ^^ Suc (Suc n)) b = updateMenuAlerts_done login json c"
      by (simp add: c_def)
    moreover have "fresh (set (sent_tags c)) (map note_tag (update_messages (base_url b) json)) = []"
      using Suc by (intro fresh_none) (simp only: c_def set_map)
    ultimately show ?case using step [of c] Suc unfolding c_def [symmetric] by (auto simp: posts_def)
  qed
  moreover have "notified (updateMenuAlerts_done login json b) = notified b @ tags"
    using step [of b] by (simp add: posts_def tags_def)
  moreover have set: "set tags = (if notify_enabled b then event_tag ` menu_events json - set (sent_tags b) else {})"
    using update_tags [OF assms(3)] by (auto simp: tags_def set_fresh)
  moreover have dist: "distinct tags" by (simp add: tags_def distinct_fresh)
  moreover obtain new where new: "tags = map event_tag new"
  proof -
    have "set tags \<subseteq> range event_tag" using set by auto
    then have "\<exists>new. tags = map event_tag new" by (simp add: ex_map_conv subset_iff image_iff)
    then show thesis using that by blast
  qed
  moreover have "set new = (if notify_enabled b then {e \<in> menu_events json. event_tag e \<notin> set (sent_tags b)} else {})"
  proof -
    have mem: "e \<in> set new \<longleftrightarrow> event_tag e \<in> set tags" "event_tag e \<in> event_tag ` menu_events json \<longleftrightarrow> e \<in> menu_events json" for e
      by (auto simp: new image_iff event_tag_inj)
    show ?thesis by (rule set_eqI) (unfold mem(1) set, simp add: mem(2))
  qed
  moreover have "distinct new" using dist by (simp add: new distinct_map)
  ultimately show ?thesis by (intro exI [of _ new] conjI) simp_all
qed

text \<open>A clarification and two balloons.\<close>

definition balloon_updates :: menu_updates where
  "balloon_updates = example_updates\<lparr>balloons := [server_balloon None ''A'' ''team'', server_balloon None ''B'' ''team'']\<rparr>"

theorem menu_notifications_once_witness:
  "\<exists>new. notified ((updateMenuAlerts_done None balloon_updates ^^ Suc 1) (setCookie ''domjudge_notify'' ''1'' blank_browser))
      = notified (setCookie ''domjudge_notify'' ''1'' blank_browser) @ map event_tag new \<and>
     distinct new \<and> set new = {ClarificationAsked 3, NewBalloons}"
proof -
  let ?b = "setCookie ''domjudge_notify'' ''1'' blank_browser"
  have "jar_ok blank_browser" by (simp add: jar_ok_def blank_browser_def cookie_pairs_def)
  then have "notify_enabled ?b" by (simp add: notify_enabled_def)
  moreover have "sent_tags ?b = []" by (simp add: sent_tags_def) (simp add: getItem_def blank_browser_def)
  moreover have "menu_events balloon_updates = {ClarificationAsked 3, NewBalloons}"
    by (auto simp: menu_events_def balloon_updates_def example_updates_def)
  ultimately show ?thesis
    using menu_notifications_once [of None balloon_updates ?b 1]
    by (auto simp: no_login_def balloon_updates_def example_updates_def server_balloon_def)
qed

text \<open>
  A team is notified of each unread clarification once, under the tags the jury's page uses, and
  each notification opens that clarification.
\<close>

theorem team_clarifications:
  assumes "no_login login" "notify_enabled b" "''clar_'' @ show_nat (clarid c) \<notin> set (sent_tags b)"
  shows "effects (updateClarifications_done login [c] b) = effects b @
      [ShowNotification \<lparr>sn_title = ''New clarification'', sn_tag = Val (''clar_'' @ show_nat (clarid c)),
         sn_body = Val (clar_body c), sn_icon = base_url b @ ''/apple-touch-icon.png'',
         sn_onclick = Some (base_url b @ ''/team/clarifications/'' @ show_nat (clarid c))\<rparr>] \<and>
    notified (updateClarifications_done login (replicate n c) (updateClarifications_done login [c] b))
      = notified b @ [''clar_'' @ show_nat (clarid c)]"
proof -
  let ?m = "clar_note ''New clarification'' (base_url b) ''/team/clarifications/'' c"
  have run: "updateClarifications_done login cs b' =
      fold send (map (clar_note ''New clarification'' (base_url b') ''/team/clarifications/'') cs) b'" for cs b'
    using assms(1) by (auto simp: updateClarifications_done_def no_login_def)
  have tag: "note_tag ?m = ''clar_'' @ show_nat (clarid c)"
    by (simp add: note_tag_def clar_note_def message_def)
  have p: "posts [?m] b (send ?m b)" "posts (replicate n ?m) (send ?m b) (fold send (replicate n ?m) (send ?m b))"
    using posts_send [of "[?m]" b] posts_send [of "replicate n ?m" "send ?m b"] by (simp_all add: listable_notes)
  then have "fresh (set (sent_tags (send ?m b))) (map note_tag (replicate n ?m)) = []"
    by (intro fresh_none) (auto simp: posts_def)
  with p have "notified (fold send (replicate n ?m) (send ?m b)) = notified b @ [note_tag ?m]"
    using assms(2,3) by (auto simp: posts_def tag)
  moreover have "effects (send ?m b) = effects b @
      [ShowNotification \<lparr>sn_title = ''New clarification'', sn_tag = Val (''clar_'' @ show_nat (clarid c)),
         sn_body = Val (clar_body c), sn_icon = base_url b @ ''/apple-touch-icon.png'',
         sn_onclick = Some (base_url b @ ''/team/clarifications/'' @ show_nat (clarid c))\<rparr>]"
    using assms(2,3) by (simp add: send_def sendNotification_def clar_note_def message_def Let_def)
  moreover have "base_url (send ?m b) = base_url b" using p(1) by (simp add: posts_def)
  ultimately show ?thesis by (simp add: run tag)
qed

theorem team_clarifications_witness:
  "notified (updateClarifications_done None [\<lparr>clarid = 3, clar_body = ''Yes''\<rparr>]
     (setCookie ''domjudge_notify'' ''1'' blank_browser))
   = notified (setCookie ''domjudge_notify'' ''1'' blank_browser) @ [''clar_'' @ show_nat 3]"
proof -
  have "jar_ok blank_browser" by (simp add: jar_ok_def blank_browser_def cookie_pairs_def)
  then have "notify_enabled (setCookie ''domjudge_notify'' ''1'' blank_browser)"
    by (simp add: notify_enabled_def)
  moreover have "sent_tags (setCookie ''domjudge_notify'' ''1'' blank_browser) = []"
    by (simp add: sent_tags_def) (simp add: getItem_def blank_browser_def)
  ultimately show ?thesis
    using team_clarifications [of None "setCookie ''domjudge_notify'' ''1'' blank_browser"
        "\<lparr>clarid = 3, clar_body = ''Yes''\<rparr>" 0]
    by (simp add: no_login_def updateClarifications_done_def)
qed

section \<open>The external contest\<close>

lemma updateMenuExternalContest_log:
  assumes "jquery_page exec hidden content has_class"
  shows "hidden (fold exec (effects (updateMenuExternalContest isDown count b)) d) s =
      hidden (fold exec (external_calls isDown (parseInt count)) (fold exec (page_calls b) d)) s"
    "content (fold exec (effects (updateMenuExternalContest isDown count b)) d) s =
      content (fold exec (external_calls isDown (parseInt count)) (fold exec (page_calls b) d)) s"
    "has_class (fold exec (effects (updateMenuExternalContest isDown count b)) d) s c =
      has_class (fold exec (external_calls isDown (parseInt count)) (fold exec (page_calls b) d)) s c"
proof -
  have "page_calls (updateMenuExternalContest isDown count b) =
      page_calls b @ external_calls isDown (parseInt count) @ []"
    by (simp add: menu_page_external)
  from jquery_page.log_page [OF assms this]
  show "hidden (fold exec (effects (updateMenuExternalContest isDown count b)) d) s =
      hidden (fold exec (external_calls isDown (parseInt count)) (fold exec (page_calls b) d)) s"
    "content (fold exec (effects (updateMenuExternalContest isDown count b)) d) s =
      content (fold exec (external_calls isDown (parseInt count)) (fold exec (page_calls b) d)) s"
    "has_class (fold exec (effects (updateMenuExternalContest isDown count b)) d) s c =
      has_class (fold exec (external_calls isDown (parseInt count)) (fold exec (page_calls b) d)) s c"
    by simp_all
qed

text \<open>
  The badge of the external contest: hidden exactly when the source is up and has no warnings;
  otherwise it shows the warnings, plus one if the source is down, and a text that says which. When
  the server sends no count of warnings (to a user who is not an administrator it sends an empty
  list) the badge reads \<open>NaN\<close>.
\<close>

theorem external_contest_badge:
  assumes "jquery_page exec hidden content has_class"
    and "d' = fold exec (effects (updateMenuExternalContest isDown count b)) d"
  shows "(\<forall>w. parseInt count = Some (int w) \<longrightarrow>
      badge_shows hidden content d' ''#num-alerts-externalcontest'' (w + of_bool isDown) \<and>
      content d' ''#num-alerts-externalcontest-sub'' =
        (if isDown then (if w > 0 then ''down, '' @ show_nat w @ '' warnings'' else ''down'')
         else if w > 0 then show_nat w @ '' warnings'' else [])) \<and>
    (parseInt count = None \<longrightarrow> \<not> hidden d' ''#num-alerts-externalcontest'' \<and>
      content d' ''#num-alerts-externalcontest'' = ''NaN'' \<and>
      content d' ''#num-alerts-externalcontest-sub'' = (if isDown then ''down'' else ''NaN warnings''))"
proof -
  note log = updateMenuExternalContest_log [OF assms(1)]
  note laws = jquery_page.hidden_exec [OF assms(1)] jquery_page.content_exec [OF assms(1)]
  have show_pos: "show_int (int n) = show_nat n" "show_int (1 + int n) = show_nat (Suc n)" for n
    by (simp_all add: show_int_def nat_add_distrib)
  show ?thesis
    unfolding assms(2) badge_shows_def log
    by (cases isDown)
      (auto simp del: show_nat.simps
        simp: external_calls_def external_text_def laws show_pos show_number_def)
qed

theorem external_contest_badge_witness:
  "page_content (fold page_exec (effects (updateMenuExternalContest False [] blank_browser)) example_dom)
     ''#num-alerts-externalcontest'' = ''NaN''"
  using external_contest_badge [OF plain.jquery_page_axioms refl, of "[]" False blank_browser example_dom]
  by (simp add: parseInt_def)

text \<open>
  The highlight of the external contest is never taken back: when the source has been down and is
  up again, without warnings, the badge goes but the entry keeps the class; instead the entry of the
  shadow differences loses its highlight although its badge still counts some.
\<close>

theorem external_contest_highlight_sticks:
  assumes "jquery_page exec hidden content has_class" "n > 0"
    and "b' = updateMenuExternalContest False ''0'' (updateMenuShadowDifferences n
          (updateMenuExternalContest True count b))"
    and "d' = fold exec (effects b') d"
  shows "hidden d' ''#num-alerts-externalcontest'' \<and>
    has_class d' ''#menu_external_contest_sources'' ''text-danger'' \<and>
    badge_shows hidden content d' ''#num-alerts-shadowdifferences'' n \<and>
    \<not> has_class d' ''#menu_shadow_differences'' ''text-danger''"
proof -
  have zero: "parseInt ''0'' = Some 0"
    using parseInt_show_int [of "[]" 0] by (simp add: show_int_def show_nat_small)
  note laws = jquery_page.hidden_exec [OF assms(1)] jquery_page.content_exec [OF assms(1)]
    jquery_page.has_class_exec [OF assms(1)]
  have "page_calls (updateMenuShadowDifferences n (updateMenuExternalContest True count b)) =
      page_calls b @ external_calls True (parseInt count) @ shadow_calls n"
    by (simp add: menu_pages menu_page_external)
  then show ?thesis
    unfolding assms(3,4) badge_shows_def updateMenuExternalContest_log [OF assms(1)] zero
    using assms(2) by (simp add: external_calls_def shadow_calls_def laws)
qed

theorem external_contest_highlight_sticks_witness:
  "page_has_class (fold page_exec (effects (updateMenuExternalContest False ''0''
      (updateMenuShadowDifferences 2 (updateMenuExternalContest True [] blank_browser)))) example_dom)
     ''#menu_external_contest_sources'' ''text-danger''"
  using external_contest_highlight_sticks [OF plain.jquery_page_axioms _ refl refl, of 2 "[]" blank_browser example_dom]
  by simp

end
