(* ===== verification/Shortcuts.thy ===== *)
theory Shortcuts
  imports Notifications
begin

text \<open>
  The keyboard shortcuts of the jury pages (\<open>initializeKeyboardShortcuts\<close> in
  \<open>webapp/public/js/domjudge.js\<close>): one handler for the keys, and a second one that is installed
  while a sequence like \<open>s 1 2 Enter\<close> is typed and that takes itself away at its end. The handlers
  share variables, so the closures of the second handler are kept in a store, and a key press is
  dispatched to the handlers as jQuery does: to those installed when the key was pressed.
\<close>

section \<open>Key presses and the state\<close>

record key_press =
  key :: string
  alt :: bool
  ctrl :: bool
  meta :: bool
  shift :: bool
  tag_name :: string                  \<comment> \<open>of the element the key was pressed in\<close>

datatype handler = Main | Inner nat

text \<open>The variables of one sequence; its box is known by its number, and is in the page or not.\<close>

record closure =
  seq_type :: char
  sequence :: string
  oldFunc :: "handler option"

record shortcuts =
  ignore :: bool
  handlers :: "handler list"
  closures :: "closure list"
  boxes :: "(nat \<times> string) list"      \<comment> \<open>the boxes in the page, with their text\<close>
  keyhelp :: "bool option"             \<comment> \<open>\<open>#keyhelp\<close>, if there is one: is it hidden?\<close>
  body :: browser

definition typing :: "key_press \<Rightarrow> bool" where
  "typing e = (tag_name e = ''INPUT'' \<or> tag_name e = ''TEXTAREA'')"

text \<open>Comparing texts by \<open><=\<close>.\<close>

fun text_le :: "string \<Rightarrow> string \<Rightarrow> bool" where
  "text_le [] t = True"
| "text_le (c # s) [] = False"
| "text_le (c # s) (d # t) = ((of_char c :: nat) < of_char d \<or> c = d \<and> text_le s t)"

section \<open>The handlers\<close>

definition goto :: "string \<Rightarrow> shortcuts \<Rightarrow> shortcuts" where
  "goto url s = s\<lparr>body := emit (Navigate url) (body s)\<rparr>"

text \<open>The keys \<open>j\<close> and \<open>k\<close>: the address with the number at its end moved by one.\<close>

definition neighbour :: "int \<Rightarrow> string \<Rightarrow> string option" where
  "neighbour delta url =
     (let parts = split_on (CHR ''/'') url;
          params = split_on (CHR ''?'') (last parts)
      in case parseInt (hd params) of
           None \<Rightarrow> None
         | Some currentNumber \<Rightarrow>
             let lst = show_int (currentNumber + delta);
                 lst = (if length params > 1 then lst @ ''?'' @ params ! 1 else lst)
             in Some (join_with ''/'' (butlast parts @ [lst])))"

definition sequence_keys :: "string list" where
  "sequence_keys = [''s'', ''t'', ''p'', ''j'', ''c'']"

definition start_sequence :: "char \<Rightarrow> shortcuts \<Rightarrow> shortcuts" where
  "start_sequence c s =
     (let n = length (closures s);
          old = (case handlers s of [] \<Rightarrow> None | h # _ \<Rightarrow> Some h)
      in s\<lparr>ignore := True,
           closures := closures s @ [\<lparr>seq_type = c, sequence = [], oldFunc = old\<rparr>],
           boxes := boxes s @ [(n, [c])],
           handlers := handlers s @ [Inner n]\<rparr>)"

definition main_handler :: "key_press \<Rightarrow> shortcuts \<Rightarrow> shortcuts" where
  "main_handler e s =
     (let keysCookie = getCookie ''domjudge_keys'' (body s) in
      if \<not> loosely_one keysCookie \<and> keysCookie \<noteq> [] then s
      else if alt e \<or> ctrl e \<or> meta e then s
      else if typing e then s
      else
        let k = to_lower (key e) in
        if k = ''?'' then s\<lparr>keyhelp := map_option Not (keyhelp s)\<rparr>
        else
          let s = (if k = ''escape'' \<and> keyhelp s = Some False then s\<lparr>keyhelp := Some True\<rparr> else s) in
          if \<not> ignore s \<and> \<not> shift e \<and> (k = ''j'' \<or> k = ''k'') then
            (case neighbour (if k = ''j'' then 1 else - 1) (href (body s)) of
               None \<Rightarrow> s
             | Some url \<Rightarrow> goto url s)
          else if \<not> ignore s \<and> k \<in> set sequence_keys then
            if shift e \<and> k = ''s'' then goto (base_url (body s) @ ''/jury/scoreboard'') s
            else start_sequence (hd k) s
          else s)"

definition remove_box :: "nat \<Rightarrow> shortcuts \<Rightarrow> shortcuts" where
  "remove_box n s = s\<lparr>boxes := filter (\<lambda>b. fst b \<noteq> n) (boxes s)\<rparr>"

definition set_sequence :: "nat \<Rightarrow> string \<Rightarrow> shortcuts \<Rightarrow> shortcuts" where
  "set_sequence n q s = s\<lparr>closures := (closures s)[n := (closures s ! n)\<lparr>sequence := q\<rparr>]\<rparr>"

definition box_text :: "nat \<Rightarrow> string \<Rightarrow> shortcuts \<Rightarrow> shortcuts" where
  "box_text n t s = s\<lparr>boxes := map (\<lambda>b. if fst b = n then (n, t) else b) (boxes s)\<rparr>"

definition section_of :: "char \<Rightarrow> string" where
  "section_of c = (if c = CHR ''s'' then ''submissions'' else if c = CHR ''t'' then ''teams''
     else if c = CHR ''p'' then ''problems'' else if c = CHR ''c'' then ''clarifications''
     else if c = CHR ''j'' then ''submissions/by-judging-id'' else [c])"

definition inner_handler :: "nat \<Rightarrow> key_press \<Rightarrow> shortcuts \<Rightarrow> shortcuts" where
  "inner_handler n e s =
     (let c = closures s ! n in
      if typing e then set_sequence n [] (remove_box n (s\<lparr>ignore := False\<rparr>))
      else if text_le ''0'' (key e) \<and> text_le (key e) ''9'' then
        let q = sequence c @ key e in box_text n (seq_type c # q) (set_sequence n q s)
      else
        let typedSequence = sequence c;
            s = set_sequence n [] (remove_box n (s\<lparr>ignore := False\<rparr>));
            s = s\<lparr>handlers := (case oldFunc c of Some h \<Rightarrow> [h] | None \<Rightarrow> [])\<rparr>
        in if key e = ''Enter'' then
             goto (base_url (body s) @ ''/jury/'' @ section_of (seq_type c) @
                   (if typedSequence \<noteq> [] then ''/'' @ typedSequence else [])) s
           else s)"

fun run_handler :: "key_press \<Rightarrow> handler \<Rightarrow> shortcuts \<Rightarrow> shortcuts" where
  "run_handler e Main = main_handler e"
| "run_handler e (Inner n) = inner_handler n e"

definition keydown :: "key_press \<Rightarrow> shortcuts \<Rightarrow> shortcuts" where
  "keydown e s = fold (run_handler e) (handlers s) s"

definition initializeKeyboardShortcuts :: "bool option \<Rightarrow> browser \<Rightarrow> shortcuts" where
  "initializeKeyboardShortcuts help b = \<lparr>ignore = False, handlers = [Main], closures = [], boxes = [],
     keyhelp = help, body = b\<rparr>"

text \<open>What can happen on a page: a key is pressed, or the shortcuts are switched on or off.\<close>

datatype key_event = Press key_press | SwitchKeys bool

inductive shortcut_step :: "shortcuts \<Rightarrow> key_event \<Rightarrow> shortcuts \<Rightarrow> bool" where
  press: "shortcut_step s (Press e) (keydown e s)"
| switch: "shortcut_step s (SwitchKeys on)
    (s\<lparr>body := (if on then enableKeys (body s) else disableKeys (body s))\<rparr>)"

inductive_cases shortcut_stepE: "shortcut_step s e t"

definition shortcuts_start :: "shortcuts \<Rightarrow> bool" where
  "shortcuts_start s = (\<exists>help b. s = initializeKeyboardShortcuts help b)"

section \<open>The handlers that are installed\<close>

text \<open>
  Either no sequence is being typed, or one is: its closure is the only second handler, it will put
  the main handler back, and while keys are ignored its box shows what was typed.
\<close>

definition idle :: "shortcuts \<Rightarrow> bool" where
  "idle s = (handlers s = [Main] \<and> \<not> ignore s)"

definition in_sequence :: "nat \<Rightarrow> shortcuts \<Rightarrow> bool" where
  "in_sequence n s = (handlers s = [Main, Inner n] \<and> n < length (closures s) \<and>
     oldFunc (closures s ! n) = Some Main \<and> [seq_type (closures s ! n)] \<in> set sequence_keys \<and>
     (ignore s \<longrightarrow> (n, seq_type (closures s ! n) # sequence (closures s ! n)) \<in> set (boxes s)))"

definition shortcuts_inv :: "shortcuts \<Rightarrow> bool" where
  "shortcuts_inv s = ((idle s \<or> (\<exists>n. in_sequence n s)) \<and> (\<forall>b \<in> set (boxes s). fst b < length (closures s)) \<and>
     distinct (map fst (boxes s)))"

lemma field_updates [simp]:
  "ignore (goto u s) = ignore s" "handlers (goto u s) = handlers s" "closures (goto u s) = closures s"
  "boxes (goto u s) = boxes s" "keyhelp (goto u s) = keyhelp s"
  "ignore (remove_box n s) = ignore s" "handlers (remove_box n s) = handlers s"
  "closures (remove_box n s) = closures s" "body (remove_box n s) = body s"
  "boxes (remove_box n s) = filter (\<lambda>b. fst b \<noteq> n) (boxes s)" "keyhelp (remove_box n s) = keyhelp s"
  "ignore (set_sequence n q s) = ignore s" "handlers (set_sequence n q s) = handlers s"
  "boxes (set_sequence n q s) = boxes s" "body (set_sequence n q s) = body s"
  "keyhelp (set_sequence n q s) = keyhelp s"
  "closures (set_sequence n q s) = (closures s)[n := (closures s ! n)\<lparr>sequence := q\<rparr>]"
  "ignore (box_text n t s) = ignore s" "handlers (box_text n t s) = handlers s"
  "closures (box_text n t s) = closures s" "body (box_text n t s) = body s"
  "keyhelp (box_text n t s) = keyhelp s"
  "boxes (box_text n t s) = map (\<lambda>b. if fst b = n then (n, t) else b) (boxes s)"
  by (simp_all add: goto_def remove_box_def set_sequence_def box_text_def)

text \<open>The main handler by its cases.\<close>

definition blocked :: "key_press \<Rightarrow> shortcuts \<Rightarrow> bool" where
  "blocked e s = (\<not> loosely_one (getCookie ''domjudge_keys'' (body s)) \<and>
     getCookie ''domjudge_keys'' (body s) \<noteq> [] \<or> alt e \<or> ctrl e \<or> meta e \<or> typing e)"

definition hide_help :: "string \<Rightarrow> shortcuts \<Rightarrow> shortcuts" where
  "hide_help k s = (if k = ''escape'' \<and> keyhelp s = Some False then s\<lparr>keyhelp := Some True\<rparr> else s)"

lemma hide_help_fields [simp]:
  "handlers (hide_help k s) = handlers s" "ignore (hide_help k s) = ignore s"
  "closures (hide_help k s) = closures s" "boxes (hide_help k s) = boxes s" "body (hide_help k s) = body s"
  by (simp_all add: hide_help_def)

lemma main_handler_eq:
  defines "k \<equiv> \<lambda>e. to_lower (key e)"
  shows "main_handler e s =
    (if blocked e s then s
     else if k e = ''?'' then s\<lparr>keyhelp := map_option Not (keyhelp s)\<rparr>
     else if \<not> ignore s \<and> \<not> shift e \<and> (k e = ''j'' \<or> k e = ''k'') then
       (case neighbour (if k e = ''j'' then 1 else - 1) (href (body s)) of
          None \<Rightarrow> hide_help (k e) s | Some url \<Rightarrow> goto url (hide_help (k e) s))
     else if \<not> ignore s \<and> k e \<in> set sequence_keys then
       if shift e \<and> k e = ''s'' then goto (base_url (body s) @ ''/jury/scoreboard'') (hide_help (k e) s)
       else start_sequence (hd (k e)) (hide_help (k e) s)
     else hide_help (k e) s)"
proof -
  have "ignore (if k e = ''escape'' \<and> keyhelp s = Some False then s\<lparr>keyhelp := Some True\<rparr> else s) = ignore s"
    "body (if k e = ''escape'' \<and> keyhelp s = Some False then s\<lparr>keyhelp := Some True\<rparr> else s) = body s"
    by simp_all
  then show ?thesis
    unfolding main_handler_def Let_def hide_help_def k_def blocked_def by simp
qed

text \<open>The main handler leaves the handlers alone or starts a sequence.\<close>

lemma main_handler_cases:
  obtains (stay) "handlers (main_handler e s) = handlers s" "ignore (main_handler e s) = ignore s"
      "closures (main_handler e s) = closures s" "boxes (main_handler e s) = boxes s"
  | (begin_seq) c where "\<not> ignore s" "\<not> typing e" "to_lower (key e) = [c]" "[c] \<in> set sequence_keys"
      "main_handler e s = start_sequence c s"
proof -
  let ?k = "to_lower (key e)"
  show thesis
  proof (cases "\<not> blocked e s \<and> ?k \<noteq> ''?'' \<and> \<not> ignore s \<and> (shift e \<or> ?k \<noteq> ''j'' \<and> ?k \<noteq> ''k'') \<and>
      ?k \<in> set sequence_keys \<and> \<not> (shift e \<and> ?k = ''s'')")
    case True
    then obtain c where c: "?k = [c]" by (auto simp: sequence_keys_def)
    then have "hide_help ?k s = s" by (simp add: hide_help_def)
    then have "main_handler e s = start_sequence c s"
      unfolding main_handler_eq using True c by auto
    then show thesis using True c by (intro begin_seq [of c]) (auto simp: blocked_def)
  next
    case False
    then show thesis by (intro stay) (auto simp: main_handler_eq split: option.split)
  qed
qed

definition digit_key :: "key_press \<Rightarrow> bool" where
  "digit_key e = (text_le ''0'' (key e) \<and> text_le (key e) ''9'')"

lemma sequence_key_no_digit: "to_lower (key e) \<in> set sequence_keys \<Longrightarrow> \<not> digit_key e"
proof -
  assume k: "to_lower (key e) \<in> set sequence_keys"
  then obtain c where c: "key e = [c]" "to_lower_char c \<in> {CHR ''s'', CHR ''t'', CHR ''p'', CHR ''j'', CHR ''c''}"
    by (auto simp: sequence_keys_def to_lower_def)
  have "(57 :: nat) < of_char c"
  proof (rule ccontr)
    assume "\<not> (57 :: nat) < of_char c"
    then have "to_lower_char c = c" by (auto simp: to_lower_char_def)
    with c(2) \<open>\<not> (57 :: nat) < of_char c\<close> show False by auto
  qed
  with c(1) show ?thesis by (auto simp: digit_key_def)
qed

text \<open>The second handler: typing in a field, a digit, or the end of the sequence.\<close>

lemma inner_handler_eq: "inner_handler n e s =
    (if typing e then set_sequence n [] (remove_box n (s\<lparr>ignore := False\<rparr>))
     else if digit_key e then
       box_text n (seq_type (closures s ! n) # sequence (closures s ! n) @ key e)
         (set_sequence n (sequence (closures s ! n) @ key e) s)
     else (let t = set_sequence n [] (remove_box n (s\<lparr>ignore := False\<rparr>))
             \<lparr>handlers := (case oldFunc (closures s ! n) of Some h \<Rightarrow> [h] | None \<Rightarrow> [])\<rparr>
       in if key e = ''Enter'' then
            goto (base_url (body s) @ ''/jury/'' @ section_of (seq_type (closures s ! n)) @
              (if sequence (closures s ! n) \<noteq> [] then ''/'' @ sequence (closures s ! n) else [])) t
          else t))"
  by (simp add: inner_handler_def digit_key_def Let_def)

lemma start_sequence_fields [simp]:
  "handlers (start_sequence c s) = handlers s @ [Inner (length (closures s))]"
  "ignore (start_sequence c s)" "body (start_sequence c s) = body s"
  "boxes (start_sequence c s) = boxes s @ [(length (closures s), [c])]"
  "closures (start_sequence c s) = closures s @ [\<lparr>seq_type = c, sequence = [],
     oldFunc = (case handlers s of [] \<Rightarrow> None | h # _ \<Rightarrow> Some h)\<rparr>]"
  "keyhelp (start_sequence c s) = keyhelp s"
  by (simp_all add: start_sequence_def Let_def)

definition boxes_known :: "shortcuts \<Rightarrow> bool" where
  "boxes_known s = ((\<forall>b \<in> set (boxes s). fst b < length (closures s)) \<and> distinct (map fst (boxes s)))"

lemma boxes_known_start: "boxes_known s \<Longrightarrow> boxes_known (start_sequence c s)"
  by (auto simp: boxes_known_def less_SucI)

lemma fst_retext [simp]: "fst (if fst x = n then (n, t) else x) = fst x"
  by simp

lemma boxes_known_inner: "boxes_known s \<Longrightarrow> boxes_known (inner_handler n e s)"
  by (auto simp: boxes_known_def inner_handler_eq Let_def distinct_map_filter o_def fst_retext
      intro: distinct_map_filter cong: if_cong)

lemma boxes_known_main: "boxes_known s \<Longrightarrow> boxes_known (main_handler e s)"
  by (cases rule: main_handler_cases [of e s]) (simp add: boxes_known_def, simp only: boxes_known_start)

text \<open>A key pressed when nothing is typed, and a key pressed in a sequence.\<close>

lemma keydown_idle:
  assumes "idle s"
  shows "keydown e s = main_handler e s" "idle (main_handler e s) \<or> in_sequence (length (closures s)) (main_handler e s)"
proof -
  show "keydown e s = main_handler e s" using assms by (simp add: keydown_def idle_def)
  show "idle (main_handler e s) \<or> in_sequence (length (closures s)) (main_handler e s)"
    by (cases rule: main_handler_cases [of e s])
      (use assms in \<open>simp_all add: idle_def in_sequence_def\<close>)
qed

lemma inner_handler_state:
  assumes "in_sequence n s"
  shows "if typing e \<or> digit_key e then in_sequence n (inner_handler n e s) else idle (inner_handler n e s)"
  using assms by (auto simp: inner_handler_eq in_sequence_def idle_def Let_def image_iff)

lemma keydown_sequence:
  assumes "in_sequence n s"
  shows "keydown e s = inner_handler n e (main_handler e s)"
    "idle (keydown e s) \<or> in_sequence n (keydown e s)"
proof -
  show eq: "keydown e s = inner_handler n e (main_handler e s)"
    using assms by (simp add: keydown_def in_sequence_def)
  show "idle (keydown e s) \<or> in_sequence n (keydown e s)"
  proof (cases rule: main_handler_cases [of e s])
    case stay
    then have "in_sequence n (main_handler e s)" using assms by (simp add: in_sequence_def)
    from inner_handler_state [OF this, of e] show ?thesis unfolding eq by (auto split: if_splits)
  next
    case (begin_seq c)
    then have "\<not> digit_key e" using sequence_key_no_digit [of e] by simp
    then show ?thesis
      unfolding eq begin_seq(5) using assms begin_seq(2)
      by (auto simp: inner_handler_eq idle_def in_sequence_def nth_append Let_def)
  qed
qed

interpretation shortcut_system: event_system shortcuts_start shortcut_step shortcuts_inv
proof unfold_locales
  show "shortcuts_inv s" if "shortcuts_start s" for s
    using that by (auto simp: shortcuts_start_def initializeKeyboardShortcuts_def shortcuts_inv_def idle_def)
  show "shortcuts_inv t" if inv: "shortcuts_inv s" and step: "shortcut_step s e t" for s e t
    using step
  proof cases
    case (press e)
    have "boxes_known (keydown e s)"
      using inv boxes_known_main boxes_known_inner keydown_idle(1) keydown_sequence(1)
      by (auto simp: shortcuts_inv_def boxes_known_def [symmetric])
    moreover have "idle (keydown e s) \<or> (\<exists>n. in_sequence n (keydown e s))"
      using inv keydown_idle [of s e] keydown_sequence(2) [of _ s e] unfolding shortcuts_inv_def by metis
    ultimately show ?thesis by (simp add: press shortcuts_inv_def boxes_known_def)
  next
    case (switch on)
    with inv show ?thesis by (auto simp: shortcuts_inv_def idle_def in_sequence_def)
  qed
qed

section \<open>Properties\<close>

definition plain_key :: "string \<Rightarrow> key_press" where
  "plain_key k = \<lparr>key = k, alt = False, ctrl = False, meta = False, shift = False, tag_name = ''BODY''\<rparr>"

definition keys_on :: "browser \<Rightarrow> bool" where
  "keys_on b = (getCookie ''domjudge_keys'' b = [] \<or> loosely_one (getCookie ''domjudge_keys'' b))"

text \<open>
  C8. However keys are pressed and the shortcuts are switched, the main handler is installed, first
  and once, and beside it at most one handler of a sequence, which will put it back; keys are
  ignored only while such a handler is there and a box on the page shows the letter and the digits
  typed so far.
\<close>

theorem shortcut_handlers:
  assumes "reachable_from shortcuts_start shortcut_step s"
  shows "handlers s = [Main] \<and> \<not> ignore s \<or>
    (\<exists>n. handlers s = [Main, Inner n] \<and> oldFunc (closures s ! n) = Some Main \<and>
       (ignore s \<longrightarrow> (n, seq_type (closures s ! n) # sequence (closures s ! n)) \<in> set (boxes s)))"
  using shortcut_system.reachable_inv [OF assms]
  by (auto simp: shortcuts_inv_def idle_def in_sequence_def)

definition example_keys :: shortcuts where
  "example_keys = initializeKeyboardShortcuts (Some True) (blank_browser\<lparr>href := ''/jury/submissions/7''\<rparr>)"

lemma example_keys_reachable: "reachable_from shortcuts_start shortcut_step example_keys"
  by (rule reach_start) (auto simp: shortcuts_start_def example_keys_def)

theorem shortcut_handlers_witness:
  "handlers (keydown (plain_key ''t'') example_keys) = [Main] \<or>
   (\<exists>n. handlers (keydown (plain_key ''t'') example_keys) = [Main, Inner n])"
proof -
  have "reachable_from shortcuts_start shortcut_step (keydown (plain_key ''t'') example_keys)"
    using example_keys_reachable by (rule reach_step) (rule press)
  from shortcut_handlers [OF this] show ?thesis by blast
qed

text \<open>Where the main handler does nothing: switched off, a modifier, a field; and, while keys are
  ignored, everywhere but the help.\<close>

lemma main_handler_off:
  "\<not> keys_on (body s) \<or> alt e \<or> ctrl e \<or> meta e \<or> typing e \<Longrightarrow> main_handler e s = s"
  by (simp add: main_handler_eq) (auto simp: keys_on_def blocked_def)

lemma main_handler_ignoring:
  assumes "ignore s"
  shows "\<exists>h. main_handler e s = s\<lparr>keyhelp := h\<rparr>"
proof -
  have hide: "hide_help k s = s\<lparr>keyhelp := keyhelp (hide_help k s)\<rparr>" for k
    by (simp add: hide_help_def)
  have "main_handler e s \<in> {s, s\<lparr>keyhelp := map_option Not (keyhelp s)\<rparr>, hide_help (to_lower (key e)) s}"
    using assms by (simp add: main_handler_eq)
  then consider "main_handler e s = s" | "main_handler e s = s\<lparr>keyhelp := map_option Not (keyhelp s)\<rparr>"
    | "main_handler e s = hide_help (to_lower (key e)) s" by blast
  then show ?thesis
  proof cases
    case 1
    then show ?thesis by (intro exI [of _ "keyhelp s"]) simp
  next
    case 3
    with hide show ?thesis by (intro exI [of _ "keyhelp (hide_help (to_lower (key e)) s)"]) simp
  qed (rule exI)
qed

text \<open>
  When nothing is being typed, a key press changes nothing if the shortcuts are switched off, if
  Alt, Ctrl or Meta is held, or if the key goes to an input field or text area.
\<close>

theorem shortcuts_stay_out:
  assumes "handlers s = [Main]" "\<not> keys_on (body s) \<or> alt e \<or> ctrl e \<or> meta e \<or> typing e"
  shows "keydown e s = s"
  using assms main_handler_off by (simp add: keydown_def)

theorem shortcuts_stay_out_witness:
  "keydown ((plain_key ''s'')\<lparr>ctrl := True\<rparr>) example_keys = example_keys"
  by (rule shortcuts_stay_out) (simp_all add: example_keys_def initializeKeyboardShortcuts_def)

text \<open>The start of a sequence, its digits, and its end.\<close>

definition starts_sequence :: "key_press \<Rightarrow> char \<Rightarrow> bool" where
  "starts_sequence e c = (to_lower (key e) = [c] \<and> [c] \<in> set sequence_keys \<and> \<not> alt e \<and> \<not> ctrl e \<and>
     \<not> meta e \<and> \<not> typing e \<and> (shift e = (c = CHR ''j'')))"

lemma keydown_start:
  assumes "idle s" "keys_on (body s)" "starts_sequence e c"
  shows "keydown e s = start_sequence c s"
proof -
  have "c \<noteq> CHR ''?''" "c \<noteq> CHR ''k''" using assms(3) by (auto simp: starts_sequence_def sequence_keys_def)
  then have "main_handler e s = start_sequence c s"
    using assms by (auto simp: main_handler_def starts_sequence_def keys_on_def idle_def Let_def)
  then show ?thesis using assms(1) by (simp add: keydown_idle)
qed

lemma digit_keys: "is_digit d \<Longrightarrow> text_le ''0'' [d] \<and> text_le [d] ''9''"
proof -
  have "d \<noteq> CHR ''0'' \<Longrightarrow> (of_char d :: nat) \<noteq> of_char (CHR ''0'')"
    "d \<noteq> CHR ''9'' \<Longrightarrow> (of_char d :: nat) \<noteq> of_char (CHR ''9'')"
    by (simp_all only: of_char_eq_iff not_False_eq_True)
  then show "is_digit d \<Longrightarrow> ?thesis" by (auto simp: is_digit_def)
qed

definition typed :: "nat \<Rightarrow> char \<Rightarrow> string \<Rightarrow> shortcuts \<Rightarrow> shortcuts \<Rightarrow> bool" where
  "typed n c q s t = (handlers t = [Main, Inner n] \<and> ignore t \<and> n < length (closures t) \<and>
     closures t ! n = \<lparr>seq_type = c, sequence = q, oldFunc = Some Main\<rparr> \<and>
     body t = body s \<and> boxes t = boxes s @ [(n, c # q)] \<and> (\<forall>b \<in> set (boxes s). fst b < n))"

lemma typed_start:
  assumes "idle s" "boxes_known s"
  shows "typed (length (closures s)) c [] s (start_sequence c s)"
  using assms by (simp add: typed_def idle_def boxes_known_def)

lemma typed_digit:
  assumes "typed n c q s t" "is_digit d"
  shows "typed n c (q @ [d]) s (keydown (plain_key [d]) t)"
proof -
  have h: "handlers t = [Main, Inner n]" "ignore t" using assms(1) by (simp_all add: typed_def)
  obtain kh where "main_handler (plain_key [d]) t = t\<lparr>keyhelp := kh\<rparr>"
    using main_handler_ignoring [OF h(2)] by blast
  then have "keydown (plain_key [d]) t = inner_handler n (plain_key [d]) (t\<lparr>keyhelp := kh\<rparr>)"
    by (simp add: keydown_def h)
  moreover have "\<not> typing (plain_key [d])" "digit_key (plain_key [d])"
    using digit_keys [OF assms(2)] by (simp_all add: typing_def plain_key_def digit_key_def)
  moreover have "map (\<lambda>b. if fst b = n then (n, x) else b) (boxes s) = boxes s" for x
    using assms(1) by (intro map_idI) (auto simp: typed_def)
  ultimately show ?thesis
    using assms(1) by (simp add: typed_def inner_handler_eq plain_key_def)
qed

lemma typed_digits:
  "typed n c q s t \<Longrightarrow> list_all is_digit ds \<Longrightarrow>
   typed n c (q @ ds) s (fold keydown (map (\<lambda>d. plain_key [d]) ds) t)"
proof (induction ds arbitrary: q t)
  case (Cons d ds)
  then have "typed n c (q @ [d]) s (keydown (plain_key [d]) t)" by (intro typed_digit) simp_all
  from Cons.IH [OF this] Cons.prems(2) show ?case by simp
qed simp

lemma typed_end:
  assumes "typed n c q s t" "\<not> typing e" "\<not> digit_key e"
  shows "idle (keydown e t)" "boxes (keydown e t) = boxes s"
    "body (keydown e t) = (if key e = ''Enter''
       then emit (Navigate (base_url (body s) @ ''/jury/'' @ section_of c @ (if q \<noteq> [] then ''/'' @ q else [])))
         (body s)
       else body s)"
proof -
  have h: "handlers t = [Main, Inner n]" "ignore t" using assms(1) by (simp_all add: typed_def)
  obtain kh where kh: "main_handler e t = t\<lparr>keyhelp := kh\<rparr>"
    using main_handler_ignoring [OF h(2)] by blast
  have eq: "keydown e t = inner_handler n e (t\<lparr>keyhelp := kh\<rparr>)" by (simp add: keydown_def h kh)
  have keep: "filter (\<lambda>b. fst b \<noteq> n) (boxes s) = boxes s"
    using assms(1) by (intro filter_True) (auto simp: typed_def)
  show "idle (keydown e t)" "boxes (keydown e t) = boxes s"
    using assms keep unfolding eq by (simp_all add: inner_handler_eq typed_def idle_def Let_def)
  show "body (keydown e t) = (if key e = ''Enter''
       then emit (Navigate (base_url (body s) @ ''/jury/'' @ section_of c @ (if q \<noteq> [] then ''/'' @ q else [])))
         (body s)
       else body s)"
    using assms unfolding eq by (simp add: inner_handler_eq typed_def Let_def goto_def)
qed

text \<open>
  C12. Typing a sequence: a letter (\<open>s\<close>, \<open>t\<close>, \<open>p\<close>, \<open>c\<close>, or \<open>J\<close> with shift), any number of digits and
  Enter opens that section of the jury pages, with the number if there was one; any other key at
  the end opens nothing. Either way the page is as before: one handler, no box left.
\<close>

theorem sequence_navigates:
  assumes "reachable_from shortcuts_start shortcut_step s" "handlers s = [Main]" "keys_on (body s)"
    and "starts_sequence e c" "list_all is_digit ds" "\<not> typing e'" "\<not> digit_key e'"
  shows "let s' = fold keydown (e # map (\<lambda>d. plain_key [d]) ds @ [e']) s in
    handlers s' = [Main] \<and> \<not> ignore s' \<and> boxes s' = boxes s \<and>
    body s' = (if key e' = ''Enter''
      then emit (Navigate (base_url (body s) @ ''/jury/'' @ section_of c @ (if ds \<noteq> [] then ''/'' @ ds else [])))
        (body s)
      else body s)"
proof -
  have inv: "shortcuts_inv s" by (rule shortcut_system.reachable_inv [OF assms(1)])
  then have idle: "idle s" and known: "boxes_known s"
    using assms(2) by (auto simp: shortcuts_inv_def in_sequence_def boxes_known_def)
  define t where "t = fold keydown (map (\<lambda>d. plain_key [d]) ds) (keydown e s)"
  have "typed (length (closures s)) c ds s t"
    using typed_digits [OF typed_start [OF idle known] assms(5)]
    by (simp add: t_def keydown_start [OF idle assms(3,4)])
  from typed_end [OF this assms(6,7)] show ?thesis
    by (simp add: t_def Let_def idle_def)
qed

theorem sequence_navigates_witness:
  "body (fold keydown (plain_key ''t'' # map (\<lambda>d. plain_key [d]) ''42'' @ [plain_key ''Enter'']) example_keys)
   = emit (Navigate ''/jury/teams/42'') (body example_keys)"
proof -
  have "getCookie n (b\<lparr>href := u\<rparr>) = getCookie n b" for n b u
    by (simp add: getCookie_def)
  moreover have "getCookie ''domjudge_keys'' blank_browser = []" by code_simp
  ultimately have "keys_on (body example_keys)"
    by (simp add: keys_on_def example_keys_def initializeKeyboardShortcuts_def)
  moreover have "starts_sequence (plain_key ''t'') (CHR ''t'')"
    by (simp add: starts_sequence_def plain_key_def to_lower_def to_lower_char_def sequence_keys_def typing_def)
  moreover have "list_all is_digit ''42''" "\<not> typing (plain_key ''Enter'')" "\<not> digit_key (plain_key ''Enter'')"
    by (simp_all add: is_digit_def typing_def plain_key_def digit_key_def)
  moreover have "handlers example_keys = [Main]"
    by (simp add: example_keys_def initializeKeyboardShortcuts_def)
  ultimately show ?thesis
    using sequence_navigates [OF example_keys_reachable, of "plain_key ''t''" "CHR ''t''" "''42''" "plain_key ''Enter''"]
    by (simp add: plain_key_def section_of_def Let_def example_keys_def initializeKeyboardShortcuts_def blank_browser_def)
qed

text \<open>The number at the end of an address.\<close>

definition numbered :: "string \<Rightarrow> int \<Rightarrow> string option \<Rightarrow> string" where
  "numbered prefix n query = prefix @ ''/'' @ show_int n @ (case query of None \<Rightarrow> [] | Some q \<Rightarrow> ''?'' @ q)"

lemma neighbour_numbered:
  assumes "\<forall>q. query = Some q \<longrightarrow> CHR ''/'' \<notin> set q \<and> CHR ''?'' \<notin> set q"
  shows "neighbour delta (numbered prefix n query) = Some (numbered prefix (n + delta) query)"
proof -
  define lst where "lst = (\<lambda>m. show_int m @ (case query of None \<Rightarrow> [] | Some q \<Rightarrow> ''?'' @ q))"
  have no: "CHR ''/'' \<notin> set (show_int m)" "CHR ''?'' \<notin> set (show_int m)" for m
    by (rule show_int_not_in; simp add: is_digit_def)+
  then have "CHR ''/'' \<notin> set (lst n)" using assms by (auto simp: lst_def split: option.split)
  then have sp: "split_on (CHR ''/'') (numbered prefix n query) = split_on (CHR ''/'') prefix @ [lst n]"
    by (simp add: numbered_def lst_def split_on_snoc)
  have "split_on (CHR ''?'') (lst n) = show_int n # (case query of None \<Rightarrow> [] | Some q \<Rightarrow> [q])"
    using no assms by (auto simp: lst_def split_on_no_sep split_on_append_sep split: option.split)
  moreover have "parseInt (show_int n) = Some n" using parseInt_show_int [of "[]" n] by simp
  moreover have "join_with ''/'' (split_on (CHR ''/'') prefix @ [lst m]) = numbered prefix m query" for m
    by (simp add: join_with_snoc numbered_def lst_def)
  ultimately show ?thesis
    by (auto simp: neighbour_def sp Let_def lst_def split: option.split)
qed

text \<open>
  On the page of a numbered item (with or without a query), \<open>j\<close> opens the next one and \<open>k\<close> the
  previous one, with everything else in the address kept; so each takes back the other.
\<close>

theorem next_and_previous:
  assumes "idle s" "keys_on (body s)" "href (body s) = numbered prefix n query"
    and "\<forall>q. query = Some q \<longrightarrow> CHR ''/'' \<notin> set q \<and> CHR ''?'' \<notin> set q"
  shows "keydown (plain_key ''j'') s = goto (numbered prefix (n + 1) query) s \<and>
    keydown (plain_key ''k'') s = goto (numbered prefix (n - 1) query) s \<and>
    neighbour (- 1) (numbered prefix (n + 1) query) = Some (href (body s))"
proof -
  have "\<not> blocked (plain_key k) s" for k
    using assms(2) by (auto simp: blocked_def keys_on_def plain_key_def typing_def)
  moreover have "hide_help [c] s = s" for c by (simp add: hide_help_def)
  moreover have "to_lower (key (plain_key ''j'')) = ''j''" "to_lower (key (plain_key ''k'')) = ''k''"
    by (simp_all add: to_lower_def to_lower_char_def plain_key_def)
  moreover have "\<not> shift (plain_key k)" for k by (simp add: plain_key_def)
  ultimately show ?thesis
    using assms by (simp add: keydown_idle main_handler_eq neighbour_numbered) (simp add: idle_def)
qed

theorem next_and_previous_witness:
  "keydown (plain_key ''j'') example_keys = goto (numbered ''/jury/submissions'' 8 None) example_keys"
proof -
  have "getCookie n (b\<lparr>href := u\<rparr>) = getCookie n b" for n b u
    by (simp add: getCookie_def)
  moreover have "getCookie ''domjudge_keys'' blank_browser = []" by code_simp
  ultimately have "keys_on (body example_keys)"
    by (simp add: keys_on_def example_keys_def initializeKeyboardShortcuts_def)
  then show ?thesis
    using next_and_previous [of example_keys "''/jury/submissions''" 7 None]
    by (simp add: example_keys_def initializeKeyboardShortcuts_def idle_def numbered_def show_int_def show_nat_small)
qed

section \<open>The box that stays\<close>

text \<open>A key in an input field, in the middle of a sequence.\<close>

definition field_key :: key_press where
  "field_key = (plain_key ''x'')\<lparr>tag_name := ''INPUT''\<rparr>"

lemma starts_t: "starts_sequence (plain_key ''t'') (CHR ''t'')"
  by (simp add: starts_sequence_def plain_key_def to_lower_def to_lower_char_def sequence_keys_def typing_def)

lemma leak_once:
  assumes "idle s" "boxes_known s" "keys_on (body s)"
  shows "let s' = fold keydown [plain_key ''t'', field_key, plain_key ''t''] s in
    idle s' \<and> keys_on (body s') \<and> length (boxes s') = Suc (length (boxes s))"
proof -
  let ?n = "length (closures s)"
  define s1 where "s1 = keydown (plain_key ''t'') s"
  define s2 where "s2 = keydown field_key s1"
  define s3 where "s3 = keydown (plain_key ''t'') s2"
  have s1: "typed ?n (CHR ''t'') [] s s1"
    unfolding s1_def keydown_start [OF assms(1,3) starts_t] by (rule typed_start [OF assms(1,2)])
  have keep: "filter (\<lambda>b. fst b \<noteq> ?n) (boxes s) = boxes s"
    using s1 by (intro filter_True) (auto simp: typed_def)
  have field: "typing field_key" by (simp add: field_key_def typing_def)
  have "s2 = inner_handler ?n field_key s1"
    using s1 main_handler_off [of s1 field_key] field by (simp add: s2_def keydown_def typed_def)
  then have s2: "handlers s2 = [Main, Inner ?n]" "\<not> ignore s2" "boxes s2 = boxes s" "body s2 = body s"
    "?n < length (closures s2)" "oldFunc (closures s2 ! ?n) = Some Main"
    using s1 field keep by (simp_all add: inner_handler_eq typed_def)
  have "\<not> blocked (plain_key ''t'') s2"
    using assms(3) s2(4) by (auto simp: blocked_def keys_on_def plain_key_def typing_def)
  moreover have t: "to_lower (key (plain_key ''t'')) = ''t''"
    by (simp add: to_lower_def to_lower_char_def plain_key_def)
  moreover have "''t'' \<in> set sequence_keys" "\<not> shift (plain_key k)" for k
    by (simp_all add: sequence_keys_def plain_key_def)
  ultimately have "main_handler (plain_key ''t'') s2 = start_sequence (CHR ''t'') s2"
    using s2(2) by (simp add: main_handler_eq hide_help_def)
  then have "s3 = inner_handler ?n (plain_key ''t'') (start_sequence (CHR ''t'') s2)"
    using s2(1) by (simp add: s3_def keydown_def)
  moreover have "\<not> typing (plain_key ''t'')" "\<not> digit_key (plain_key ''t'')" "key (plain_key ''t'') \<noteq> ''Enter''"
    by (simp_all add: digit_key_def typing_def plain_key_def)
  ultimately have "idle s3 \<and> body s3 = body s \<and> length (boxes s3) = Suc (length (boxes s))"
    using s2 keep by (simp add: inner_handler_eq idle_def nth_append)
  with assms(3) show ?thesis by (simp add: s1_def s2_def s3_def Let_def)
qed

text \<open>
  A key pressed in an input field in the middle of a sequence leaves the sequence's handler
  installed; the next letter then starts a sequence that this handler ends at once, and its box
  stays on the page for good: any number of boxes can pile up with nothing being typed.
\<close>

theorem boxes_pile_up:
  "\<exists>s. reachable_from shortcuts_start shortcut_step s \<and> handlers s = [Main] \<and> \<not> ignore s \<and>
     length (boxes s) = n"
proof -
  have "\<exists>s. reachable_from shortcuts_start shortcut_step s \<and> idle s \<and> keys_on (body s) \<and> length (boxes s) = n"
  proof (induction n)
    case 0
    have "getCookie ''domjudge_keys'' (body example_keys) = []" by code_simp
    then show ?case using example_keys_reachable
      by (intro exI [of _ example_keys])
        (simp add: idle_def keys_on_def, simp add: example_keys_def initializeKeyboardShortcuts_def)
  next
    case (Suc n)
    then obtain s where s: "reachable_from shortcuts_start shortcut_step s" "idle s" "keys_on (body s)"
      "length (boxes s) = n" by blast
    have "boxes_known s"
      using shortcut_system.reachable_inv [OF s(1)] by (simp add: shortcuts_inv_def boxes_known_def)
    moreover have "reachable_from shortcuts_start shortcut_step (fold keydown es s)" for es
      using s(1)
    proof (induction es arbitrary: s)
      case (Cons e es)
      then show ?case using reach_step [OF Cons.prems, of "Press e" "keydown e s"] press by simp
    qed simp
    ultimately show ?case using leak_once [OF s(2) _ s(3)] s(4) unfolding Let_def by metis
  qed
  then show ?thesis unfolding idle_def by blast
qed

end
