(* ===== verification/Preferences.thy ===== *)
theory Preferences
  imports Browser
begin

text \<open>
  The preferences kept in the local storage by \<open>webapp/public/js/domjudge.js\<close>: the theme of the code
  editor (\<open>getEditorThemes\<close>, \<open>getCurrentEditorTheme\<close>, \<open>applyEditorTheme\<close>) and the layout of diffs
  (\<open>isDiffSideBySide\<close>, \<open>setDiffSideBySide\<close>). The editor itself is a library; the calls to it are
  recorded.
\<close>

section \<open>Editor themes\<close>

text \<open>
  The theme table of the page, in the order of its properties, the elements that name a theme, and
  the calls to the editor: a theme file fetched, a theme defined, a theme set.
\<close>

record theme =
  external :: "bool option"

record theme_element =
  editor_theme :: string
  active :: bool

datatype editor_call =
    FetchTheme string
  | DefineTheme string
  | SetTheme string

record editor_page =
  themes_attr :: "(string \<times> theme) list option"   \<comment> \<open>\<open>None\<close>: no element with \<open>data-editor-themes\<close>\<close>
  theme_elements :: "theme_element list"
  theme_folder :: string
  editor_calls :: "editor_call list"
  ed_browser :: browser

definition getEditorThemes :: "editor_page \<Rightarrow> (string \<times> theme) list outcome" where
  "getEditorThemes p = (case themes_attr p of None \<Rightarrow> Inl TypeError | Some ts \<Rightarrow> Inr ts)"

text \<open>\<open>None\<close> is \<open>undefined\<close>, the first of no themes.\<close>

definition getCurrentEditorTheme :: "editor_page \<Rightarrow> string option outcome" where
  "getCurrentEditorTheme p = (case getItem ''domjudge_editor_theme'' (ed_browser p) of
       Some t \<Rightarrow> Inr (Some t)
     | None \<Rightarrow> bind_outcome (getEditorThemes p) (\<lambda>ts.
         Inr (case ts of [] \<Rightarrow> None | (k, _) # _ \<Rightarrow> Some k)))"

text \<open>The loop over the table: the first entry whose key is the theme.\<close>

fun external_of :: "string option \<Rightarrow> (string \<times> theme) list \<Rightarrow> bool \<Rightarrow> bool" where
  "external_of theme [] isExternal = isExternal"
| "external_of theme ((k, t) # ts) isExternal =
     (if theme = Some k then (case external t of Some e \<Rightarrow> e | None \<Rightarrow> False)
      else external_of theme ts isExternal)"

text \<open>A possibly undefined value in a text.\<close>

definition js_text :: "string option \<Rightarrow> string" where
  "js_text v = (case v of None \<Rightarrow> ''undefined'' | Some t \<Rightarrow> t)"

definition show_theme :: "string option \<Rightarrow> bool \<Rightarrow> editor_page \<Rightarrow> editor_page" where
  "show_theme theme isExternal p =
     (let p = p\<lparr>ed_browser := setItem ''domjudge_editor_theme'' (js_text theme) (ed_browser p)\<rparr>;
          p = p\<lparr>theme_elements := map (\<lambda>e. e\<lparr>active := (Some (editor_theme e) = theme)\<rparr>) (theme_elements p)\<rparr>;
          url = theme_folder p @ ''/'' @ js_text theme @ ''.json'';
          calls = (if isExternal
            then [FetchTheme url, DefineTheme (js_text theme), SetTheme (js_text theme)]
            else [SetTheme (js_text theme)])
      in p\<lparr>editor_calls := editor_calls p @ calls\<rparr>)"

definition applyEditorTheme :: "string option \<Rightarrow> bool \<Rightarrow> editor_page \<Rightarrow> editor_page outcome" where
  "applyEditorTheme theme isExternal p =
     (case theme of
        Some t \<Rightarrow> Inr (show_theme (Some t) isExternal p)
      | None \<Rightarrow>
          bind_outcome (getCurrentEditorTheme p) (\<lambda>theme.
          bind_outcome (getEditorThemes p) (\<lambda>themes.
          Inr (show_theme theme (external_of theme themes isExternal) p))))"

lemma show_theme_fields [simp]:
  "themes_attr (show_theme t e p) = themes_attr p" "theme_folder (show_theme t e p) = theme_folder p"
  "getItem ''domjudge_editor_theme'' (ed_browser (show_theme t e p)) = Some (js_text t)"
  "theme_elements (show_theme t e p) =
     map (\<lambda>x. x\<lparr>active := (Some (editor_theme x) = t)\<rparr>) (theme_elements p)"
  by (simp_all add: show_theme_def Let_def)

lemma getCurrent_show_theme [simp]: "getCurrentEditorTheme (show_theme t e p) = Inr (Some (js_text t))"
  by (simp add: getCurrentEditorTheme_def)

text \<open>
  Choosing a theme: it becomes the current one, on this page and on every later page of the same
  storage, exactly the elements that name it are active, and the editor ends with it, after its file
  was fetched from the theme folder if it is an external one.
\<close>

theorem theme_chosen:
  shows "\<exists>p'. applyEditorTheme (Some t) ext p = Inr p' \<and> getCurrentEditorTheme p' = Inr (Some t) \<and>
    filter active (theme_elements p') =
      map (\<lambda>x. x\<lparr>active := True\<rparr>) (filter (\<lambda>x. editor_theme x = t) (theme_elements p)) \<and>
    last (editor_calls p') = SetTheme t \<and>
    (FetchTheme (theme_folder p @ ''/'' @ t @ ''.json'') \<in> set (drop (length (editor_calls p)) (editor_calls p')) \<longleftrightarrow> ext)"
proof -
  have "filter active (map (\<lambda>x. x\<lparr>active := (editor_theme x = t)\<rparr>) xs) =
      map (\<lambda>x. x\<lparr>active := True\<rparr>) (filter (\<lambda>x. editor_theme x = t) xs)" for xs
    by (induction xs) auto
  moreover have "editor_calls (show_theme (Some t) ext p) = editor_calls p @
      (if ext then [FetchTheme (theme_folder p @ ''/'' @ t @ ''.json''), DefineTheme t, SetTheme t] else [SetTheme t])"
    by (simp add: show_theme_def Let_def js_text_def)
  ultimately show ?thesis
    by (intro exI [of _ "show_theme (Some t) ext p"]) (auto simp: applyEditorTheme_def js_text_def)
qed

lemma external_of_distinct:
  "distinct (map fst ts) \<Longrightarrow> (t, th) \<in> set ts \<Longrightarrow>
   external_of (Some t) ts ext = (case external th of Some e \<Rightarrow> e | None \<Rightarrow> False)"
  by (induction ts) force+

text \<open>
  A page loaded without a choice: the first theme of the table is taken when nothing is stored,
  as an external one exactly if the table says so, and is stored; a later page then shows the same
  theme with the same elements active. Of an empty table the text \<open>undefined\<close> is stored; without the table it is a
  \<open>TypeError\<close>.
\<close>

theorem theme_default:
  assumes "getItem ''domjudge_editor_theme'' (ed_browser p) = None"
  shows "case themes_attr p of
      None \<Rightarrow> applyEditorTheme None ext p = Inl TypeError
    | Some [] \<Rightarrow> (\<exists>p'. applyEditorTheme None ext p = Inr p' \<and>
        getItem ''domjudge_editor_theme'' (ed_browser p') = Some ''undefined'')
    | Some ((t, th) # ts) \<Rightarrow>
        applyEditorTheme None ext p = applyEditorTheme (Some t) (external th = Some True) p \<and>
        (\<forall>p'. applyEditorTheme None ext p = Inr p' \<longrightarrow>
           (\<exists>p''. applyEditorTheme None ext p' = Inr p'' \<and> theme_elements p'' = theme_elements p' \<and>
              getItem ''domjudge_editor_theme'' (ed_browser p'') = Some t))"
proof (cases "themes_attr p")
  case None
  with assms show ?thesis by (simp add: applyEditorTheme_def getCurrentEditorTheme_def getEditorThemes_def)
next
  case (Some table)
  show ?thesis
  proof (cases table)
    case (Cons e ts)
    obtain t th where e: "e = (t, th)" by (cases e)
    have ext: "(case external th of Some e \<Rightarrow> e | None \<Rightarrow> False) = (external th = Some True)"
      by (cases "external th") auto
    have step: "applyEditorTheme None ext p = Inr (show_theme (Some t) (external th = Some True) p)"
      using assms Some Cons e ext
      by (simp add: applyEditorTheme_def getCurrentEditorTheme_def getEditorThemes_def)
    have again: "\<exists>e'. applyEditorTheme None ext (show_theme (Some t) b p) = Inr (show_theme (Some t) e' (show_theme (Some t) b p))"
      for b
      using Some by (intro exI [of _ "external_of (Some t) table ext"])
        (simp add: applyEditorTheme_def getEditorThemes_def js_text_def)
    show ?thesis
      using again [of "external th = Some True"] Some Cons e step
      by (auto simp: applyEditorTheme_def js_text_def o_def)
  qed (use Some assms in \<open>simp add: applyEditorTheme_def getCurrentEditorTheme_def getEditorThemes_def js_text_def\<close>)
qed

theorem theme_default_witness:
  "applyEditorTheme None False \<lparr>themes_attr = Some [(''vs'', \<lparr>external = None\<rparr>)], theme_elements = [],
     theme_folder = ''/js'', editor_calls = [], ed_browser = blank_browser\<rparr> =
   applyEditorTheme (Some ''vs'') False \<lparr>themes_attr = Some [(''vs'', \<lparr>external = None\<rparr>)], theme_elements = [],
     theme_folder = ''/js'', editor_calls = [], ed_browser = blank_browser\<rparr>"
  using theme_default [of "\<lparr>themes_attr = Some [(''vs'', \<lparr>external = None\<rparr>)], theme_elements = [],
     theme_folder = ''/js'', editor_calls = [], ed_browser = blank_browser\<rparr>" False]
  by (simp add: getItem_def blank_browser_def)

section \<open>Diffs side by side\<close>

text \<open>What \<open>localStorage.getItem\<close> returns: a missing item is \<open>null\<close>, never \<open>undefined\<close>.\<close>

definition item_value :: "string \<Rightarrow> browser \<Rightarrow> string jsv" where
  "item_value k b = (case getItem k b of None \<Rightarrow> Null | Some v \<Rightarrow> Val v)"

definition isDiffSideBySide :: "browser \<Rightarrow> bool" where
  "isDiffSideBySide b =
     (let sideBySide = item_value ''domjudge_editor_side_by_side'' b in
      if sideBySide = Undefined then True else sideBySide = Val ''true'')"

definition setDiffSideBySide :: "bool \<Rightarrow> browser \<Rightarrow> browser" where
  "setDiffSideBySide v b = setItem ''domjudge_editor_side_by_side'' (if v then ''true'' else ''false'') b"

text \<open>
  What is set is what is read. A browser in which it was never set shows diffs inline, and the
  default the code spells out, side by side, is never taken.
\<close>

theorem diff_side_by_side:
  "isDiffSideBySide (setDiffSideBySide v b) = v \<and>
   isDiffSideBySide (b\<lparr>storage := (storage b)(''domjudge_editor_side_by_side'' := None)\<rparr>) = False"
  by (simp add: isDiffSideBySide_def setDiffSideBySide_def item_value_def Let_def) (simp add: getItem_def)

end
