(* ===== verification/Graph.thy ===== *)
theory Graph
  imports Complex_Main Prelude
begin

text \<open>
  \<open>createSubmissionGraph\<close> of \<open>webapp/public/js/domjudge.js\<close>: the unit of the time axis, the buckets
  the submissions are counted in, and the ticks. Times are rationals (the server sends fractions of
  seconds); \<open>None\<close> stands for \<open>NaN\<close>. Drawing the chart is the library's (nvd3).
\<close>

section \<open>The unit of the time axis\<close>

record time_unit =
  unit_name :: string
  convert :: int
  step :: int

definition units :: "time_unit list" where
  "units = [\<lparr>unit_name = ''seconds'', convert = 1, step = 60\<rparr>,
     \<lparr>unit_name = ''minutes'', convert = 60, step = 15\<rparr>,
     \<lparr>unit_name = ''hours'', convert = 60 * 60, step = 6\<rparr>,
     \<lparr>unit_name = ''days'', convert = 60 * 60 * 24, step = 7\<rparr>,
     \<lparr>unit_name = ''weeks'', convert = 60 * 60 * 24 * 7, step = 1\<rparr>,
     \<lparr>unit_name = ''years'', convert = 60 * 60 * 24 * 365, step = 1\<rparr>]"

definition minBucketCount :: int where
  "minBucketCount = 30"

definition maxBucketCount :: int where
  "maxBucketCount = 301"

definition newDuration :: "rat \<Rightarrow> time_unit \<Rightarrow> int" where
  "newDuration secs u = \<lceil>secs / of_int (convert u)\<rceil>"

fun unit_loop :: "rat \<Rightarrow> time_unit \<Rightarrow> time_unit list \<Rightarrow> time_unit" where
  "unit_loop secs unit [] = unit"
| "unit_loop secs unit (u # us) =
     (if newDuration secs u > minBucketCount then unit_loop secs u us else unit)"

definition graph_unit :: "rat \<Rightarrow> time_unit" where
  "graph_unit secs = unit_loop secs (hd units) units"

definition contestDuration :: "rat \<Rightarrow> int" where
  "contestDuration secs = newDuration secs (graph_unit secs)"

section \<open>Buckets\<close>

definition bucketCount :: "rat \<Rightarrow> int" where
  "bucketCount secs = min (contestDuration secs + 1) maxBucketCount"

text \<open>Zero divided by zero is \<open>NaN\<close>; the divisor is zero only with the dividend.\<close>

definition secondsPerBucket :: "rat \<Rightarrow> int option" where
  "secondsPerBucket secs =
     (if bucketCount secs - 1 = 0 then None
      else Some (\<lceil>of_int (contestDuration secs) / (of_int (bucketCount secs - 1) :: rat)\<rceil> *
                 convert (graph_unit secs)))"

record stat =
  stat_key :: string
  stat_values :: "(rat option \<times> nat) list"

definition clear_values :: "rat \<Rightarrow> stat \<Rightarrow> stat" where
  "clear_values secs st = st\<lparr>stat_values := map (\<lambda>i.
     (map_option (\<lambda>spb. of_nat i * of_int spb / of_int (convert (graph_unit secs))) (secondsPerBucket secs), 0))
     [0..<nat (bucketCount secs)]\<rparr>"

text \<open>\<open>statMap\<close>: a later entry of the same key replaces an earlier one.\<close>

fun stat_index :: "string \<Rightarrow> stat list \<Rightarrow> nat option" where
  "stat_index k [] = None"
| "stat_index k (st # sts) = (case stat_index k sts of
       Some i \<Rightarrow> Some (Suc i)
     | None \<Rightarrow> if stat_key st = k then Some 0 else None)"

record submission =
  submittime :: rat
  result :: string

definition submissionBucket :: "rat \<Rightarrow> rat \<Rightarrow> rat \<Rightarrow> int option" where
  "submissionBucket secs start t =
     map_option (\<lambda>spb. \<lfloor>(t - start) / of_int spb\<rfloor>) (secondsPerBucket secs)"

definition bump :: "nat \<Rightarrow> stat \<Rightarrow> stat" where
  "bump b st = st\<lparr>stat_values := (stat_values st)[b := (fst (stat_values st ! b), Suc (snd (stat_values st ! b)))]\<rparr>"

definition count_submission :: "rat \<Rightarrow> rat \<Rightarrow> submission \<Rightarrow> stat list \<Rightarrow> stat list" where
  "count_submission secs start sub stats =
     (case (stat_index (result sub) stats, submissionBucket secs start (submittime sub)) of
        (Some i, Some b) \<Rightarrow>
          if b \<ge> 0 \<and> b < bucketCount secs then stats[i := bump (nat b) (stats ! i)] else stats
      | _ \<Rightarrow> stats)"

definition count_all :: "stat list \<Rightarrow> rat \<Rightarrow> rat \<Rightarrow> submission list \<Rightarrow> stat list" where
  "count_all stats start secs subs =
     fold (count_submission secs start) subs (map (clear_values secs) stats)"

definition maxSubmissionsPerBucket :: "rat \<Rightarrow> stat list \<Rightarrow> nat" where
  "maxSubmissionsPerBucket secs stats =
     fold (\<lambda>b m. max m (sum_list (map (\<lambda>st. snd (stat_values st ! b)) stats))) [0..<nat (bucketCount secs)] 1"

section \<open>Ticks\<close>

definition convertFactor :: "rat \<Rightarrow> rat option" where
  "convertFactor secs = map_option (\<lambda>spb. of_int spb / of_int (convert (graph_unit secs))) (secondsPerBucket secs)"

definition maxTicks :: "rat \<Rightarrow> rat" where
  "maxTicks secs = min (min (of_int (bucketCount secs))
     (of_int (contestDuration secs) / of_int (step (graph_unit secs)))) (of_int minBucketCount)"

definition tickDelta :: "rat \<Rightarrow> rat option" where
  "tickDelta secs = map_option (\<lambda>cf. cf * of_int \<lceil>of_int (contestDuration secs) / (maxTicks secs * cf)\<rceil>)
     (convertFactor secs)"

definition tickValues :: "rat \<Rightarrow> rat list" where
  "tickValues secs = (case tickDelta secs of
       None \<Rightarrow> []
     | Some delta \<Rightarrow> map (\<lambda>i. of_nat i * delta) [0..<nat (\<lfloor>of_int (contestDuration secs) / delta\<rfloor> + 1)])"

text \<open>What the chart is given.\<close>

record chart =
  axis_label :: string
  tick_values :: "rat list"
  datum :: "stat list"

definition createSubmissionGraph :: "stat list \<Rightarrow> rat \<Rightarrow> rat \<Rightarrow> submission list \<Rightarrow> chart" where
  "createSubmissionGraph stats start secs subs =
     \<lparr>axis_label = ''Contest Time ('' @ unit_name (graph_unit secs) @ '')'',
      tick_values = tickValues secs, datum = count_all stats start secs subs\<rparr>"

section \<open>The unit is the largest that gives enough buckets\<close>

lemma units_pos: "u \<in> set units \<Longrightarrow> 0 < convert u \<and> 0 < step u"
  by (auto simp: units_def)

lemma units_ascending: "sorted_wrt (\<lambda>u v. convert u < convert v) units"
  by (simp add: units_def)

lemma newDuration_antimono:
  assumes "0 < convert u" "convert u \<le> convert v" "0 \<le> secs"
  shows "newDuration secs v \<le> newDuration secs u"
  unfolding newDuration_def using assms
  by (intro ceiling_mono divide_left_mono mult_pos_pos) simp_all

lemma unit_loop_in: "unit_loop secs u us \<in> insert u (set us)"
  by (induction us arbitrary: u) (auto split: if_splits)

lemma graph_unit_in: "graph_unit secs \<in> set units"
  using unit_loop_in [of secs "hd units" units] by (simp add: graph_unit_def units_def)

lemma unit_loop_ge:
  "sorted_wrt (\<lambda>u v. convert u < convert v) (u # us) \<Longrightarrow> newDuration secs u > minBucketCount \<Longrightarrow>
   convert u \<le> convert (unit_loop secs u us) \<and> newDuration secs (unit_loop secs u us) > minBucketCount"
proof (induction us arbitrary: u)
  case (Cons w us)
  show ?case
  proof (cases "newDuration secs w > minBucketCount")
    case True
    with Cons.IH [of w] Cons.prems(1) show ?thesis by (simp add: order.trans [OF less_imp_le])
  qed (use Cons.prems(2) in simp)
qed simp

lemma unit_loop_best:
  assumes "sorted_wrt (\<lambda>u v. convert u < convert v) us" "\<forall>v \<in> set us. 0 < convert v" "0 \<le> secs"
    and "v \<in> set us" "newDuration secs v > minBucketCount"
  shows "convert v \<le> convert (unit_loop secs u us) \<and> newDuration secs (unit_loop secs u us) > minBucketCount"
  using assms
proof (induction us arbitrary: u)
  case (Cons w us)
  have "convert w \<le> convert v" using Cons.prems(1,4) by auto
  then have "newDuration secs v \<le> newDuration secs w"
    using Cons.prems by (intro newDuration_antimono) auto
  then have w: "newDuration secs w > minBucketCount" using Cons.prems(5) by simp
  show ?case
  proof (cases "v \<in> set us")
    case True
    with Cons.IH [of w] Cons.prems w show ?thesis by simp
  next
    case False
    then have "v = w" using Cons.prems(4) by simp
    with unit_loop_ge [OF Cons.prems(1) w] w show ?thesis by simp
  qed
qed simp

text \<open>
  The unit of the time axis is the largest one in which the contest still lasts more than thirty
  units (rounded up), and seconds if there is none.
\<close>

theorem graph_unit_largest:
  assumes "0 \<le> secs"
  shows "graph_unit secs \<in> set units \<and>
    (if \<exists>u \<in> set units. \<lceil>secs / of_int (convert u)\<rceil> > 30
     then contestDuration secs > 30 \<and>
       (\<forall>u \<in> set units. \<lceil>secs / of_int (convert u)\<rceil> > 30 \<longrightarrow> convert u \<le> convert (graph_unit secs))
     else graph_unit secs = hd units)"
proof -
  have pos: "\<forall>v \<in> set units. 0 < convert v" using units_pos by blast
  have best: "\<lceil>secs / of_int (convert u)\<rceil> > 30 \<Longrightarrow>
      convert u \<le> convert (graph_unit secs) \<and> contestDuration secs > 30" if "u \<in> set units" for u
    using unit_loop_best [OF units_ascending pos assms that, of "hd units"]
    by (simp add: newDuration_def minBucketCount_def graph_unit_def contestDuration_def)
  have "graph_unit secs = hd units" if "\<not> (\<exists>u \<in> set units. \<lceil>secs / of_int (convert u)\<rceil> > 30)"
    using that by (simp add: graph_unit_def units_def newDuration_def minBucketCount_def)
  with best graph_unit_in show ?thesis by auto
qed

theorem graph_unit_largest_witness: "contestDuration 18000 > 30 \<and> 60 \<le> convert (graph_unit 18000)"
  using graph_unit_largest [of 18000] by (simp add: units_def)

section \<open>The buckets cover the contest\<close>

lemma contest_bounds:
  assumes "0 < secs"
  shows "0 < convert (graph_unit secs)" "0 < step (graph_unit secs)" "0 < contestDuration secs"
    "secs \<le> of_int (contestDuration secs) * of_int (convert (graph_unit secs))"
proof -
  show pos: "0 < convert (graph_unit secs)" "0 < step (graph_unit secs)"
    using units_pos [OF graph_unit_in] by blast+
  show "0 < contestDuration secs"
    using assms pos(1) by (simp add: contestDuration_def newDuration_def)
  have "secs / of_int (convert (graph_unit secs)) \<le> of_int (contestDuration secs)"
    by (simp add: contestDuration_def newDuration_def)
  then show "secs \<le> of_int (contestDuration secs) * of_int (convert (graph_unit secs))"
    using pos(1) by (simp add: pos_divide_le_eq)
qed

lemma bucketCount_bounds: "0 < secs \<Longrightarrow> 2 \<le> bucketCount secs \<and> bucketCount secs \<le> 301"
  using contest_bounds(3) [of secs] by (simp add: bucketCount_def maxBucketCount_def)

text \<open>Units of time per bucket, a positive whole number.\<close>

definition unitsPerBucket :: "rat \<Rightarrow> int" where
  "unitsPerBucket secs = \<lceil>of_int (contestDuration secs) / (of_int (bucketCount secs - 1) :: rat)\<rceil>"

lemma unitsPerBucket_bounds:
  assumes "0 < secs"
  shows "secondsPerBucket secs = Some (unitsPerBucket secs * convert (graph_unit secs))"
    "0 < unitsPerBucket secs" "contestDuration secs \<le> unitsPerBucket secs * (bucketCount secs - 1)"
proof -
  note b = bucketCount_bounds [OF assms]
  show "secondsPerBucket secs = Some (unitsPerBucket secs * convert (graph_unit secs))"
    using b by (simp add: secondsPerBucket_def unitsPerBucket_def)
  have pos: "(0 :: rat) < of_int (bucketCount secs - 1)" using b by simp
  show "0 < unitsPerBucket secs"
    using contest_bounds(3) [OF assms] pos by (simp add: unitsPerBucket_def)
  have "of_int (contestDuration secs) / (of_int (bucketCount secs - 1) :: rat) \<le> of_int (unitsPerBucket secs)"
    by (simp add: unitsPerBucket_def)
  then have "(of_int (contestDuration secs) :: rat) \<le> of_int (unitsPerBucket secs * (bucketCount secs - 1))"
    using pos by (simp add: pos_divide_le_eq)
  then show "contestDuration secs \<le> unitsPerBucket secs * (bucketCount secs - 1)"
    by (simp only: of_int_le_iff)
qed

lemma bucket_of_submission:
  assumes "0 < secs" "start \<le> t" "t \<le> start + secs"
  shows "2 \<le> bucketCount secs \<and> bucketCount secs \<le> 301 \<and>
    (\<exists>spb. secondsPerBucket secs = Some spb \<and> 0 < spb \<and> convert (graph_unit secs) dvd spb) \<and>
    (\<exists>b. submissionBucket secs start t = Some b \<and> 0 \<le> b \<and> b < bucketCount secs)"
proof -
  note u = unitsPerBucket_bounds [OF assms(1)] and c = contest_bounds [OF assms(1)]
  define spb where "spb = unitsPerBucket secs * convert (graph_unit secs)"
  have spb: "0 < spb" using u(2) c(1) by (simp add: spb_def)
  have "t - start \<le> of_int (contestDuration secs) * of_int (convert (graph_unit secs))"
    using assms c(4) by simp
  also have "\<dots> \<le> (of_int (unitsPerBucket secs * (bucketCount secs - 1)) :: rat) * of_int (convert (graph_unit secs))"
    using u(3) c(1) by (intro mult_right_mono) (simp_all only: of_int_le_iff of_int_0_le_iff less_imp_le)
  also have "\<dots> = of_int (bucketCount secs - 1) * of_int spb" by (simp add: spb_def)
  finally have "(t - start) / of_int spb \<le> of_int (bucketCount secs - 1)"
    using spb by (simp add: pos_divide_le_eq)
  then have "(t - start) / of_int spb < of_int (bucketCount secs)" by simp
  then have "\<lfloor>(t - start) / of_int spb\<rfloor> < bucketCount secs" by (simp add: floor_less_iff)
  moreover have "0 \<le> \<lfloor>(t - start) / of_int spb\<rfloor>" using assms(2) spb by simp
  ultimately show ?thesis
    using bucketCount_bounds [OF assms(1)] u(1) spb by (simp add: spb_def submissionBucket_def)
qed

text \<open>
  C10. For every contest of positive length there are between 2 and 301 buckets of a positive, whole
  number of units each, and every submission from the start of the contest to its end, the end
  included, falls into one of them.
\<close>

theorem buckets_cover_contest:
  assumes "0 < secs" "start \<le> t" "t \<le> start + secs"
  shows "2 \<le> bucketCount secs \<and> bucketCount secs \<le> 301 \<and>
    (\<exists>spb. secondsPerBucket secs = Some spb \<and> 0 < spb \<and> convert (graph_unit secs) dvd spb) \<and>
    (\<exists>b. submissionBucket secs start t = Some b \<and> 0 \<le> b \<and> b < bucketCount secs)"
  by (rule bucket_of_submission [OF assms])

theorem buckets_cover_contest_witness:
  "\<exists>b. submissionBucket 18000 100 18100 = Some b \<and> 0 \<le> b \<and> b < bucketCount 18000"
  using buckets_cover_contest [of 18000 100 18100] by simp

section \<open>Every submission is counted once\<close>

lemma stat_index_Some: "stat_index k sts = Some i \<Longrightarrow> i < length sts \<and> stat_key (sts ! i) = k"
  by (induction sts arbitrary: i) (auto split: option.splits if_splits)

lemma stat_index_distinct:
  "distinct (map stat_key sts) \<Longrightarrow> i < length sts \<Longrightarrow> stat_index (stat_key (sts ! i)) sts = Some i"
proof (induction sts arbitrary: i)
  case (Cons st sts)
  have none: "stat_index k sts = None" if "k \<notin> stat_key ` set sts" for k
  proof (cases "stat_index k sts")
    case (Some j)
    with stat_index_Some [OF Some] that show ?thesis by auto
  qed simp
  show ?case
  proof (cases i)
    case 0
    then show ?thesis using Cons.prems none by simp
  next
    case (Suc j)
    then show ?thesis using Cons by simp
  qed
qed simp

text \<open>What is kept while counting: the keys, and the coordinates of the buckets.\<close>

definition shape :: "stat \<Rightarrow> string \<times> rat option list" where
  "shape st = (stat_key st, map fst (stat_values st))"

lemma shape_bump [simp]: "shape (bump b st) = shape st"
proof (cases "b < length (stat_values st)")
  case True
  then show ?thesis by (simp add: shape_def bump_def map_update list_update_same_conv)
qed (simp add: shape_def bump_def list_update_beyond)

lemma shape_count: "map shape (count_submission secs start sub stats) = map shape stats"
  by (auto simp: count_submission_def map_update list_update_id split: option.split)
    (metis list_update_id map_update shape_bump)

lemma shape_fold: "map shape (fold (count_submission secs start) subs stats) = map shape stats"
  by (induction subs arbitrary: stats) (simp_all add: shape_count)

text \<open>Which submissions belong to a bucket of a key.\<close>

definition hits :: "rat \<Rightarrow> rat \<Rightarrow> string \<Rightarrow> nat \<Rightarrow> submission \<Rightarrow> bool" where
  "hits secs start k b sub = (result sub = k \<and> submissionBucket secs start (submittime sub) = Some (int b))"

lemma count_submission_value:
  assumes "distinct (map stat_key stats)" "i < length stats" "b < length (stat_values (stats ! i))"
    "int (length (stat_values (stats ! i))) = bucketCount secs"
  shows "snd (stat_values (count_submission secs start sub stats ! i) ! b) =
    snd (stat_values (stats ! i) ! b) + of_bool (hits secs start (stat_key (stats ! i)) b sub)"
proof (cases "result sub = stat_key (stats ! i)")
  case True
  then have "stat_index (result sub) stats = Some i"
    using stat_index_distinct [OF assms(1,2)] by simp
  then show ?thesis
    using assms True
    by (auto simp: count_submission_def hits_def bump_def nth_list_update split: option.split)
next
  case False
  then have "count_submission secs start sub stats ! i = stats ! i"
    using stat_index_Some [of "result sub" stats]
    by (auto simp: count_submission_def nth_list_update split: option.split)
  with False show ?thesis by (simp add: hits_def)
qed

lemma count_fold_value:
  assumes "distinct (map stat_key stats)" "i < length stats" "b < length (stat_values (stats ! i))"
    "int (length (stat_values (stats ! i))) = bucketCount secs"
  shows "snd (stat_values (fold (count_submission secs start) subs stats ! i) ! b) =
    snd (stat_values (stats ! i) ! b) + length (filter (hits secs start (stat_key (stats ! i)) b) subs)"
  using assms
proof (induction subs arbitrary: stats)
  case (Cons sub subs)
  define stats1 where "stats1 = count_submission secs start sub stats"
  have sh: "map shape stats1 = map shape stats" by (simp add: stats1_def shape_count)
  then have len: "length stats1 = length stats" by (rule map_eq_imp_length_eq)
  have "map fst (map shape stats1) = map fst (map shape stats)" by (simp only: sh)
  then have keys: "map stat_key stats1 = map stat_key stats" by (simp add: shape_def o_def)
  have "shape (stats1 ! i) = shape (stats ! i)"
    using arg_cong [OF sh, of "\<lambda>l. l ! i"] Cons.prems(2) len by simp
  then have i: "stat_key (stats1 ! i) = stat_key (stats ! i)"
    "length (stat_values (stats1 ! i)) = length (stat_values (stats ! i))"
    by (auto simp: shape_def dest: map_eq_imp_length_eq)
  have "snd (stat_values (fold (count_submission secs start) subs stats1 ! i) ! b) =
      snd (stat_values (stats1 ! i) ! b) + length (filter (hits secs start (stat_key (stats1 ! i)) b) subs)"
    using Cons.prems by (intro Cons.IH) (simp_all add: keys i len)
  with count_submission_value [OF Cons.prems, of start sub] show ?case
    by (simp add: stats1_def [symmetric] i)
qed simp

lemma bucket_value:
  assumes "distinct (map stat_key stats)" "i < length stats" "b < nat (bucketCount secs)"
  shows "snd (stat_values (datum (createSubmissionGraph stats start secs subs) ! i) ! b) =
    length (filter (hits secs start (stat_key (stats ! i)) b) subs)"
proof -
  define cleared where "cleared = map (clear_values secs) stats"
  have "map stat_key cleared = map stat_key stats" by (simp add: cleared_def clear_values_def o_def)
  with assms(1) have "distinct (map stat_key cleared)" by (simp only:)
  moreover have "i < length cleared" "stat_key (cleared ! i) = stat_key (stats ! i)"
    "length (stat_values (cleared ! i)) = nat (bucketCount secs)" "snd (stat_values (cleared ! i) ! b) = 0"
    using assms by (simp_all add: cleared_def clear_values_def)
  ultimately show ?thesis
    using count_fold_value [of cleared i b secs start subs] assms(3)
    by (simp add: createSubmissionGraph_def count_all_def cleared_def [symmetric])
qed

text \<open>What a time has to do with the coordinates that the chart shows.\<close>

lemma bucket_coordinates:
  assumes "0 < secs" "i < length stats" "b < nat (bucketCount secs)"
  shows "fst (stat_values (datum (createSubmissionGraph stats start secs subs) ! i) ! b) =
    Some (of_nat b * of_int (unitsPerBucket secs))"
proof -
  have "map shape (datum (createSubmissionGraph stats start secs subs)) = map shape (map (clear_values secs) stats)"
    by (simp add: createSubmissionGraph_def count_all_def shape_fold del: map_map)
  then have "shape (datum (createSubmissionGraph stats start secs subs) ! i) = shape (clear_values secs (stats ! i))"
    using assms(2) by (metis length_map nth_map)
  then have fsts: "map fst (stat_values (datum (createSubmissionGraph stats start secs subs) ! i)) =
      map fst (stat_values (clear_values secs (stats ! i)))"
    by (simp add: shape_def)
  moreover have "length (stat_values (clear_values secs (stats ! i))) = nat (bucketCount secs)"
    by (simp add: clear_values_def)
  ultimately have "fst (stat_values (datum (createSubmissionGraph stats start secs subs) ! i) ! b) =
      fst (stat_values (clear_values secs (stats ! i)) ! b)"
    using assms(3) by (metis length_map nth_map)
  then show ?thesis
    using assms(3) contest_bounds(1) [OF assms(1)] unitsPerBucket_bounds(1) [OF assms(1)]
    by (simp add: clear_values_def)
qed

lemma bucket_interval:
  assumes "0 < secs"
  shows "submissionBucket secs start t = Some (int b) \<longleftrightarrow>
    (let x = of_nat b * of_int (unitsPerBucket secs); y = (t - start) / of_int (convert (graph_unit secs))
     in x \<le> y \<and> y < x + of_int (unitsPerBucket secs))"
proof -
  let ?c = "of_int (convert (graph_unit secs)) :: rat" and ?u = "of_int (unitsPerBucket secs) :: rat"
  have pos: "0 < ?c" "0 < ?u" using contest_bounds(1) [OF assms] unitsPerBucket_bounds(2) [OF assms] by simp_all
  have "submissionBucket secs start t = Some (int b) \<longleftrightarrow> \<lfloor>(t - start) / (?u * ?c)\<rfloor> = int b"
    using unitsPerBucket_bounds(1) [OF assms] by (simp add: submissionBucket_def)
  also have "\<dots> \<longleftrightarrow> of_nat b \<le> (t - start) / (?u * ?c) \<and> (t - start) / (?u * ?c) < of_nat b + 1"
    by (simp add: floor_eq_iff)
  also have "(t - start) / (?u * ?c) = (t - start) / ?c / ?u" by (simp add: divide_divide_eq_left mult.commute)
  also have "of_nat b \<le> (t - start) / ?c / ?u \<longleftrightarrow> of_nat b * ?u \<le> (t - start) / ?c"
    by (rule pos_le_divide_eq [OF pos(2)])
  also have "(t - start) / ?c / ?u < of_nat b + 1 \<longleftrightarrow> (t - start) / ?c < of_nat b * ?u + ?u"
    unfolding pos_divide_less_eq [OF pos(2)] by (simp add: distrib_right)
  finally show ?thesis by (simp add: Let_def)
qed

text \<open>
  C9. In a contest of positive length, when the verdicts of the graph are different: the buckets of each
  verdict begin at the multiples of one width, and the value of a bucket is the number of submissions
  with that verdict whose time since the start, in the unit of the axis, is at least the beginning of
  the bucket and less than that of the next.
\<close>

theorem bucket_counts:
  assumes "0 < secs" "distinct (map stat_key stats)" "i < length stats" "b < nat (bucketCount secs)"
  shows "let vs = stat_values (datum (createSubmissionGraph stats start secs subs) ! i); w = the (fst (vs ! 1));
             x = of_nat b * w; since = (\<lambda>sub. (submittime sub - start) / of_int (convert (graph_unit secs)))
         in 0 < w \<and> fst (vs ! b) = Some x \<and>
            snd (vs ! b) = length (filter (\<lambda>sub. result sub = stat_key (stats ! i) \<and> x \<le> since sub \<and> since sub < x + w) subs)"
proof -
  have "1 < nat (bucketCount secs)" using bucketCount_bounds [OF assms(1)] by simp
  note x = bucket_coordinates [OF assms(1,3) this, of start subs] bucket_coordinates [OF assms(1,3,4), of start subs]
  show ?thesis
    using x unitsPerBucket_bounds(2) [OF assms(1)]
    by (simp add: Let_def bucket_value [OF assms(2-4)] hits_def [abs_def] bucket_interval [OF assms(1)])
qed

theorem bucket_counts_witness:
  "let vs = stat_values (datum (createSubmissionGraph [\<lparr>stat_key = ''correct'', stat_values = []\<rparr>] 0 120
        [\<lparr>submittime = 5 / 2, result = ''correct''\<rparr>, \<lparr>submittime = 7, result = ''timelimit''\<rparr>]) ! 0);
       w = the (fst (vs ! 1))
   in 0 < w \<and> fst (vs ! 0) = Some 0 \<and>
      snd (vs ! 0) = length (filter (\<lambda>sub. result sub = ''correct'' \<and>
        submittime sub / of_int (convert (graph_unit 120)) < w)
        [\<lparr>submittime = 5 / 2, result = ''correct''\<rparr>, \<lparr>submittime = 7, result = ''timelimit''\<rparr>])"
  using bucket_counts [of 120 "[\<lparr>stat_key = ''correct'', stat_values = []\<rparr>]" 0 0 0] bucketCount_bounds [of 120]
    contest_bounds(1) [of 120]
  by (simp add: Let_def)

lemma sum_one: "(\<Sum>j \<leftarrow> [0..<n]. of_bool (j = b) :: nat) = of_bool (b < n)"
  by (induction n) auto

text \<open>
  In a contest of positive length no submission is lost or counted twice: over all buckets, a
  verdict counts every submission with it that was made during the contest, provided all were.
\<close>

theorem no_submission_lost:
  assumes "0 < secs" "distinct (map stat_key stats)" "i < length stats"
    and "\<forall>sub \<in> set subs. start \<le> submittime sub \<and> submittime sub \<le> start + secs"
  shows "sum_list (map (\<lambda>b. snd (stat_values (datum (createSubmissionGraph stats start secs subs) ! i) ! b))
      [0..<nat (bucketCount secs)]) = length (filter (\<lambda>sub. result sub = stat_key (stats ! i)) subs)"
proof -
  have "sum_list (map (\<lambda>b. length (filter (hits secs start k b) xs)) [0..<nat (bucketCount secs)]) =
      length (filter (\<lambda>sub. result sub = k) xs)"
    if "\<forall>sub \<in> set xs. start \<le> submittime sub \<and> submittime sub \<le> start + secs" for xs k
    using that
  proof (induction xs)
    case (Cons x xs)
    obtain b where b: "submissionBucket secs start (submittime x) = Some b" "0 \<le> b" "b < bucketCount secs"
      using bucket_of_submission [OF assms(1), of start "submittime x"] Cons.prems by auto
    have "(\<Sum>j \<leftarrow> [0..<nat (bucketCount secs)]. of_bool (hits secs start k j x) :: nat) = of_bool (result x = k)"
    proof (cases "result x = k")
      case True
      then have "hits secs start k j x = (j = nat b)" for j using b by (auto simp: hits_def)
      then show ?thesis using True b sum_one [of "nat b" "nat (bucketCount secs)"] by simp
    qed (simp add: hits_def)
    moreover have "length (filter P (x # xs)) = of_bool (P x) + length (filter P xs)" for P by simp
    ultimately show ?case using Cons by (simp only: sum_list_addf) simp
  qed simp
  moreover have "map (\<lambda>b. snd (stat_values (datum (createSubmissionGraph stats start secs subs) ! i) ! b))
      [0..<nat (bucketCount secs)] =
      map (\<lambda>b. length (filter (hits secs start (stat_key (stats ! i)) b) subs)) [0..<nat (bucketCount secs)]"
    using bucket_value [OF assms(2,3), of _ secs start subs] by (intro map_cong refl) simp
  ultimately show ?thesis using assms(4) by (simp only:)
qed

theorem no_submission_lost_witness:
  "sum_list (map (\<lambda>b. snd (stat_values (datum (createSubmissionGraph [\<lparr>stat_key = ''correct'', stat_values = []\<rparr>]
      10 120 [\<lparr>submittime = 130, result = ''correct''\<rparr>]) ! 0) ! b)) [0..<nat (bucketCount 120)]) = 1"
  using no_submission_lost [of 120 "[\<lparr>stat_key = ''correct'', stat_values = []\<rparr>]" 0
      "[\<lparr>submittime = 130, result = ''correct''\<rparr>]" 10]
  by simp

section \<open>The ticks are buckets\<close>

lemma convertFactor_units:
  assumes "0 < secs"
  shows "convertFactor secs = Some (of_int (unitsPerBucket secs))"
  using unitsPerBucket_bounds(1) [OF assms] contest_bounds(1) [OF assms] by (simp add: convertFactor_def)

lemma maxTicks_bounds:
  assumes "0 < secs"
  shows "0 < maxTicks secs" "maxTicks secs \<le> 30"
  using contest_bounds(2,3) [OF assms] bucketCount_bounds [OF assms]
  by (simp_all add: maxTicks_def minBucketCount_def)

definition bucketsPerTick :: "rat \<Rightarrow> int" where
  "bucketsPerTick secs =
     \<lceil>of_int (contestDuration secs) / (maxTicks secs * of_int (unitsPerBucket secs))\<rceil>"

lemma tickDelta_units:
  assumes "0 < secs"
  shows "tickDelta secs = Some (of_int (unitsPerBucket secs * bucketsPerTick secs))" "0 < bucketsPerTick secs"
    "of_int (contestDuration secs) \<le> maxTicks secs * of_int (unitsPerBucket secs * bucketsPerTick secs)"
proof -
  have pos: "0 < maxTicks secs * of_int (unitsPerBucket secs)"
    using maxTicks_bounds(1) [OF assms] unitsPerBucket_bounds(2) [OF assms] by simp
  show "tickDelta secs = Some (of_int (unitsPerBucket secs * bucketsPerTick secs))"
    by (simp add: tickDelta_def convertFactor_units [OF assms] bucketsPerTick_def)
  show "0 < bucketsPerTick secs"
    using pos contest_bounds(3) [OF assms] by (simp add: bucketsPerTick_def)
  have "of_int (contestDuration secs) / (maxTicks secs * of_int (unitsPerBucket secs)) \<le> of_int (bucketsPerTick secs)"
    by (simp add: bucketsPerTick_def)
  then show "of_int (contestDuration secs) \<le> maxTicks secs * of_int (unitsPerBucket secs * bucketsPerTick secs)"
    using pos by (simp add: pos_divide_le_eq algebra_simps)
qed

text \<open>
  What the comment in the code asks for: in a contest of positive length every tick of the time
  axis is the coordinate of a bucket and a whole number of units; the first tick is zero, and there
  are at most 31.
\<close>

theorem ticks_match_buckets:
  assumes "0 < secs"
  shows "hd (tickValues secs) = 0 \<and> tickValues secs \<noteq> [] \<and> length (tickValues secs) \<le> 31 \<and>
    (\<forall>v \<in> set (tickValues secs). v \<in> \<int> \<and> Some v \<in> set (map fst (stat_values (clear_values secs st))))"
proof -
  note u = unitsPerBucket_bounds [OF assms] and t = tickDelta_units [OF assms] and c = contest_bounds [OF assms]
  define U where "U = unitsPerBucket secs"
  define m where "m = bucketsPerTick secs"
  define delta where "delta = (of_int (U * m) :: rat)"
  have delta: "0 < delta" using u(2) t(2) by (simp add: delta_def U_def m_def)
  define k where "k = \<lfloor>of_int (contestDuration secs) / delta\<rfloor>"
  have tks: "tickValues secs = map (\<lambda>i. of_nat i * delta) [0..<nat (k + 1)]"
    by (simp add: tickValues_def t(1) delta_def U_def m_def k_def)
  have k: "0 \<le> k" using delta c(3) by (simp add: k_def)
  have "of_int (contestDuration secs) / delta \<le> maxTicks secs"
    using t(3) delta by (simp add: pos_divide_le_eq delta_def U_def m_def)
  also have "\<dots> \<le> 30" by (rule maxTicks_bounds(2) [OF assms])
  finally have k30: "k \<le> 30" by (simp add: k_def floor_le_iff)
  have coord: "Some (of_nat i * delta) \<in> set (map fst (stat_values (clear_values secs st)))" if "int i \<le> k" for i
  proof -
    have "of_nat i \<le> of_int (contestDuration secs) / delta" using that by (simp add: k_def le_floor_iff)
    then have "of_nat i * delta \<le> (of_int (contestDuration secs) :: rat)" using delta by (simp add: pos_le_divide_eq)
    then have "(of_int (int i * m * U) :: rat) \<le> of_int (contestDuration secs)" by (simp add: delta_def algebra_simps)
    then have "int i * m * U \<le> contestDuration secs" by (simp only: of_int_le_iff)
    also have "\<dots> \<le> (bucketCount secs - 1) * U" using u(3) by (simp add: U_def mult.commute)
    finally have le: "int i * m \<le> bucketCount secs - 1" using u(2) by (simp add: U_def)
    have "nat (int i * m) < nat (bucketCount secs)" using le bucketCount_bounds [OF assms] by linarith
    moreover have "of_nat (nat (int i * m)) * of_int (U * convert (graph_unit secs)) / of_int (convert (graph_unit secs))
        = of_nat i * delta"
      using c(1) t(2) by (simp add: delta_def m_def)
    ultimately show ?thesis
      by (auto simp: clear_values_def u(1) U_def image_iff intro!: bexI [of _ "nat (int i * m)"])
  qed
  have "v \<in> \<int> \<and> Some v \<in> set (map fst (stat_values (clear_values secs st)))" if v: "v \<in> set (tickValues secs)" for v
  proof -
    obtain i where i: "i \<in> set [0..<nat (k + 1)]" "v = of_nat i * delta"
      using v unfolding tks set_map by blast
    then have "i < nat (k + 1)" by simp
    then have "int i \<le> k" using k by linarith
    with coord i(2) show ?thesis by (simp add: delta_def)
  qed
  moreover have "hd (tickValues secs) = 0" "tickValues secs \<noteq> []" "length (tickValues secs) \<le> 31"
    using k k30 by (simp_all add: tks hd_map)
  ultimately show ?thesis by blast
qed

theorem ticks_match_buckets_witness:
  "tickValues 18000 \<noteq> [] \<and> length (tickValues 18000) \<le> 31"
  using ticks_match_buckets [of 18000] by simp

text \<open>
  A contest whose length is zero (rounded up) gets one bucket at \<open>NaN\<close>, no tick, and counts no
  submission at all.
\<close>

theorem empty_contest_graph:
  assumes "- 1 < secs" "secs \<le> 0"
  shows "bucketCount secs = 1 \<and> tickValues secs = [] \<and>
    datum (createSubmissionGraph stats start secs subs) =
      map (\<lambda>st. st\<lparr>stat_values := [(None, 0)]\<rparr>) stats"
proof -
  have nd: "newDuration secs u \<le> 0" if "0 < convert u" for u
    using that assms(2) by (simp add: newDuration_def divide_nonpos_pos)
  have "graph_unit secs = hd units"
    using nd [of "hd units"] by (simp add: graph_unit_def units_def minBucketCount_def)
  then have "contestDuration secs = \<lceil>secs\<rceil>" by (simp add: contestDuration_def newDuration_def units_def)
  also have "\<dots> = 0" using assms by (simp add: ceiling_eq_iff)
  finally have b: "bucketCount secs = 1" by (simp add: bucketCount_def maxBucketCount_def)
  then have none: "secondsPerBucket secs = None" by (simp add: secondsPerBucket_def)
  have "count_submission secs start sub sts = sts" for sub sts
    by (simp add: count_submission_def submissionBucket_def none split: option.split)
  then have "fold (count_submission secs start) subs sts = sts" for sts
    by (induction subs) simp_all
  then show ?thesis
    using b none
    by (simp add: tickValues_def tickDelta_def convertFactor_def createSubmissionGraph_def count_all_def
        clear_values_def)
qed

theorem empty_contest_graph_witness:
  "datum (createSubmissionGraph [] 0 0 [\<lparr>submittime = 0, result = ''correct''\<rparr>]) = [] \<and> tickValues 0 = []"
  using empty_contest_graph [of 0 "[]" 0 "[\<lparr>submittime = 0, result = ''correct''\<rparr>]"] by simp

end
