(* ===== verification/Layout.thy ===== *)
theory Layout
  imports Complex_Main Prelude
begin

text \<open>
  Fitting the scoreboard into the window, from \<open>webapp/public/js/domjudge.js\<close>: the marking of items
  that are too long on the desktop table, \<open>resizeMobileTeamNamesAndProblemBadges\<close>, \<open>pinScoreheader\<close>,
  and the handler that keeps an outer dropdown menu open. The layout engine of the browser is a
  parameter: \<open>layout\<close> gives the \<open>scrollWidth\<close> and \<open>offsetWidth\<close> of an element in its present style.
\<close>

section \<open>Items that are too long\<close>

record item =
  item_id :: nat
  toolong :: bool
  max_width :: "int option"
  transform :: "(rat \<times> rat) option"    \<comment> \<open>\<open>scale\<close> and \<open>translateX\<close>\<close>

definition overflows :: "(item \<Rightarrow> int \<times> int) \<Rightarrow> item \<Rightarrow> bool" where
  "overflows layout el = (fst (layout el) > snd (layout el))"

text \<open>The selector \<open>:not(.toolong)\<close> picks the items; the others are left as they are.\<close>

definition mark_toolong :: "(item \<Rightarrow> int \<times> int) \<Rightarrow> item list \<Rightarrow> item list" where
  "mark_toolong layout = map (\<lambda>el. if toolong el then el
     else if overflows layout el then el\<lparr>toolong := True\<rparr> else el)"

definition fit_name :: "(item \<Rightarrow> int \<times> int) \<Rightarrow> int \<Rightarrow> item \<Rightarrow> item" where
  "fit_name layout w el =
     (let el = el\<lparr>toolong := False\<rparr>;
          el = el\<lparr>max_width := Some w\<rparr>
      in if overflows layout el then el\<lparr>toolong := True\<rparr> else el\<lparr>toolong := False\<rparr>)"

definition fit_badges :: "(item \<Rightarrow> int \<times> int) \<Rightarrow> int \<Rightarrow> item \<Rightarrow> item" where
  "fit_badges layout w el =
     (let el = el\<lparr>toolong := False\<rparr>;
          el = el\<lparr>max_width := Some w\<rparr>
      in if overflows layout el then
           let el = el\<lparr>toolong := True\<rparr>;
               (sw, ow) = layout el;
               scale = of_int ow / of_int sw;
               off = - 1 * of_int (sw - ow) / 2
           in el\<lparr>transform := Some (scale, off)\<rparr>
         else el\<lparr>toolong := False, transform := None\<rparr>)"

record mobile_page =
  mobile_width :: "int option"          \<comment> \<open>\<open>offsetWidth\<close> of the mobile scoreboard, if there is one\<close>
  window_width :: int
  names :: "item list"
  badges :: "item list"

definition resizeMobileTeamNamesAndProblemBadges ::
  "(item \<Rightarrow> int \<times> int) \<Rightarrow> mobile_page \<Rightarrow> mobile_page outcome" where
  "resizeMobileTeamNamesAndProblemBadges layout p =
     (case mobile_width p of
        None \<Rightarrow> Inl TypeError
      | Some mw \<Rightarrow>
          if mw = 0 then Inr p
          else
            let teamNameMaxWidth = max 10 (window_width p - 150);
                problemBadgesMaxWidth = max 10 (window_width p - 78);
                p = p\<lparr>names := map (\<lambda>el. if toolong el then el else fit_name layout teamNameMaxWidth el) (names p)\<rparr>
            in Inr (p\<lparr>badges := map (\<lambda>el. if toolong el then el
                      else fit_badges layout problemBadgesMaxWidth el) (badges p)\<rparr>))"

lemma fit_name_toolong:
  "toolong (fit_name layout w el) = overflows layout (el\<lparr>toolong := False, max_width := Some w\<rparr>)"
  by (simp add: fit_name_def Let_def)

text \<open>
  What a scaled element promises: with its transformation left out, its content has exactly the width
  of the element after scaling.
\<close>

definition badge_fits :: "(item \<Rightarrow> int \<times> int) \<Rightarrow> item \<Rightarrow> item \<Rightarrow> bool" where
  "badge_fits layout old el = (case transform el of
       None \<Rightarrow> \<not> toolong el
     | Some (scale, off) \<Rightarrow> toolong el \<and>
         (let (sw, ow) = layout (el\<lparr>transform := transform old\<rparr>) in
          sw \<noteq> 0 \<longrightarrow> scale * of_int sw = of_int ow))"

lemma fit_badges_fits:
  "max_width (fit_badges layout w el) = Some w \<and> badge_fits layout el (fit_badges layout w el)"
proof (cases "overflows layout (el\<lparr>toolong := False, max_width := Some w\<rparr>)")
  case True
  define e1 where "e1 = el\<lparr>toolong := False, max_width := Some w, toolong := True\<rparr>"
  obtain sw ow where m: "layout e1 = (sw, ow)" by (cases "layout e1")
  have f: "fit_badges layout w el = e1\<lparr>transform := Some (of_int ow / of_int sw, - 1 * of_int (sw - ow) / 2)\<rparr>"
    using True m by (simp add: fit_badges_def Let_def e1_def)
  have "e1\<lparr>transform := t, transform := transform el\<rparr> = e1" for t
    by (cases el) (simp add: e1_def)
  moreover have "max_width e1 = Some w" "toolong e1" by (simp_all add: e1_def)
  ultimately show ?thesis using m unfolding f by (simp add: badge_fits_def)
qed (simp add: fit_badges_def badge_fits_def Let_def)

text \<open>
  A resize of the visible mobile scoreboard: every name and row of badges that was not marked
  before gets the width that the window leaves, at least 10, and is marked exactly if it overflows
  there; marked badges are scaled so that they fill their width exactly.
\<close>

theorem resize_fits:
  assumes "mobile_width p = Some mw" "mw \<noteq> 0"
  shows "\<exists>p'. resizeMobileTeamNamesAndProblemBadges layout p = Inr p' \<and>
    (\<forall>i < length (names p). \<not> toolong (names p ! i) \<longrightarrow>
       max_width (names p' ! i) = Some (max 10 (window_width p - 150)) \<and>
       toolong (names p' ! i) =
         overflows layout ((names p ! i)\<lparr>toolong := False, max_width := Some (max 10 (window_width p - 150))\<rparr>)) \<and>
    (\<forall>i < length (badges p). \<not> toolong (badges p ! i) \<longrightarrow>
       max_width (badges p' ! i) = Some (max 10 (window_width p - 78)) \<and>
       badge_fits layout (badges p ! i) (badges p' ! i))"
proof -
  define nw where "nw = max 10 (window_width p - 150)"
  define bw where "bw = max 10 (window_width p - 78)"
  define ns where "ns = map (\<lambda>el. if toolong el then el else fit_name layout nw el) (names p)"
  define bs where "bs = map (\<lambda>el. if toolong el then el else fit_badges layout bw el) (badges p)"
  have "resizeMobileTeamNamesAndProblemBadges layout p = Inr (p\<lparr>names := ns, badges := bs\<rparr>)"
    using assms by (simp add: resizeMobileTeamNamesAndProblemBadges_def Let_def ns_def bs_def nw_def bw_def)
  moreover have "max_width (ns ! i) = Some nw \<and> toolong (ns ! i) =
      overflows layout ((names p ! i)\<lparr>toolong := False, max_width := Some nw\<rparr>)"
    if "i < length (names p)" "\<not> toolong (names p ! i)" for i
    using that by (simp add: ns_def fit_name_toolong) (simp add: fit_name_def Let_def)
  moreover have "max_width (bs ! i) = Some bw \<and> badge_fits layout (badges p ! i) (bs ! i)"
    if "i < length (badges p)" "\<not> toolong (badges p ! i)" for i
    using that fit_badges_fits by (simp add: bs_def)
  ultimately show ?thesis unfolding nw_def [symmetric] bw_def [symmetric] by simp
qed

definition example_mobile :: mobile_page where
  "example_mobile = \<lparr>mobile_width = Some 300, window_width = 400,
     names = [\<lparr>item_id = 0, toolong = False, max_width = None, transform = None\<rparr>], badges = []\<rparr>"

theorem resize_fits_witness:
  "\<exists>p'. resizeMobileTeamNamesAndProblemBadges (\<lambda>el. (320, case max_width el of Some w \<Rightarrow> w | None \<Rightarrow> 320))
      example_mobile = Inr p' \<and> toolong (names p' ! 0)"
  using resize_fits [of example_mobile 300 "\<lambda>el. (320, case max_width el of Some w \<Rightarrow> w | None \<Rightarrow> 320)"]
  by (auto simp: example_mobile_def overflows_def)

text \<open>Resizing again and again, with the window at other widths.\<close>

fun resize_all :: "(item \<Rightarrow> int \<times> int) \<Rightarrow> int list \<Rightarrow> mobile_page \<Rightarrow> mobile_page outcome" where
  "resize_all layout [] p = Inr p"
| "resize_all layout (w # ws) p =
     bind_outcome (resizeMobileTeamNamesAndProblemBadges layout (p\<lparr>window_width := w\<rparr>)) (resize_all layout ws)"

text \<open>
  An item once marked as too long is never looked at again: however the window is resized, it
  keeps its mark, its width and its scale, although the code means to take the mark away first.
\<close>

theorem toolong_sticks:
  assumes "resize_all layout ws p = Inr p'"
  shows "length (names p') = length (names p) \<and> length (badges p') = length (badges p) \<and>
    (\<forall>i < length (names p). toolong (names p ! i) \<longrightarrow> names p' ! i = names p ! i) \<and>
    (\<forall>i < length (badges p). toolong (badges p ! i) \<longrightarrow> badges p' ! i = badges p ! i)"
  using assms
proof (induction ws arbitrary: p)
  case (Cons w ws)
  then obtain p1 where p1: "resizeMobileTeamNamesAndProblemBadges layout (p\<lparr>window_width := w\<rparr>) = Inr p1"
    "resize_all layout ws p1 = Inr p'"
    by (auto simp: bind_outcome_Inr_iff)
  then have "length (names p1) = length (names p) \<and> length (badges p1) = length (badges p) \<and>
      (\<forall>i < length (names p). toolong (names p ! i) \<longrightarrow> names p1 ! i = names p ! i) \<and>
      (\<forall>i < length (badges p). toolong (badges p ! i) \<longrightarrow> badges p1 ! i = badges p ! i)"
    by (auto simp: resizeMobileTeamNamesAndProblemBadges_def Let_def split: option.splits if_splits)
  with Cons.IH [OF p1(2)] show ?case by simp
qed simp

theorem toolong_sticks_witness:
  "\<exists>p'. resize_all (\<lambda>el. (320, case max_width el of Some w \<Rightarrow> w | None \<Rightarrow> 320)) [2000]
      (example_mobile\<lparr>names := [\<lparr>item_id = 0, toolong = True, max_width = Some 250, transform = None\<rparr>]\<rparr>) = Inr p' \<and>
    names p' ! 0 = \<lparr>item_id = 0, toolong = True, max_width = Some 250, transform = None\<rparr>"
proof -
  define m :: "item \<Rightarrow> int \<times> int" where "m = (\<lambda>el. (320, case max_width el of Some w \<Rightarrow> w | None \<Rightarrow> 320))"
  let ?p = "example_mobile\<lparr>names := [\<lparr>item_id = 0, toolong = True, max_width = Some 250, transform = None\<rparr>]\<rparr>"
  obtain p' where p': "resize_all m [2000] ?p = Inr p'"
    by (simp add: resizeMobileTeamNamesAndProblemBadges_def example_mobile_def Let_def)
  from toolong_sticks [OF this] p' show ?thesis by (simp add: m_def)
qed

section \<open>The header of the scoreboard\<close>

text \<open>
  The page's header cells by their distance from the top, whether there is a header and whether it
  is of a static scoreboard, the height of the fixed bar, and whether changes of it are observed.
\<close>

record header_page =
  header_tops :: "string list"
  has_header :: bool
  static_header :: bool
  fixed_height :: string
  has_observer_api :: bool
  observing :: bool

definition pinScoreheader :: "header_page \<Rightarrow> header_page" where
  "pinScoreheader p =
     (if \<not> has_header p then p
      else if \<not> static_header p then
        let p = p\<lparr>header_tops := map (\<lambda>_. fixed_height p) (header_tops p)\<rparr>
        in if has_observer_api p then p\<lparr>observing := True\<rparr> else p
      else p)"

text \<open>The fixed bar gets another height; the observer, if there is one, moves the header.\<close>

definition bar_resized :: "string \<Rightarrow> header_page \<Rightarrow> header_page" where
  "bar_resized h p =
     (let p = p\<lparr>fixed_height := h\<rparr>
      in if observing p then p\<lparr>header_tops := map (\<lambda>_. fixed_height p) (header_tops p)\<rparr> else p)"

text \<open>
  A scoreboard header that is not static stays below the fixed bar, however often the bar changes
  its height, in a browser that can observe it; a static one, or none, is left alone.
\<close>

theorem header_stays_pinned:
  assumes "has_header p" "\<not> static_header p" "has_observer_api p"
    and "p' = fold bar_resized hs (pinScoreheader p)"
  shows "\<forall>top \<in> set (header_tops p'). top = fixed_height p'"
proof -
  have "(\<forall>top \<in> set (header_tops (fold bar_resized hs q)). top = fixed_height (fold bar_resized hs q))"
    if "observing q" "\<forall>top \<in> set (header_tops q). top = fixed_height q" for q
    using that
  proof (induction hs arbitrary: q)
    case (Cons h hs)
    have "observing (bar_resized h q)" "\<forall>top \<in> set (header_tops (bar_resized h q)). top = fixed_height (bar_resized h q)"
      using Cons.prems by (auto simp: bar_resized_def Let_def)
    then show ?case using Cons.IH by simp
  qed simp
  with assms show ?thesis by (auto simp: pinScoreheader_def Let_def)
qed

theorem header_stays_pinned_witness:
  "header_tops (fold bar_resized [''80px'', ''64px''] (pinScoreheader \<lparr>header_tops = [''0''], has_header = True,
     static_header = False, fixed_height = ''50px'', has_observer_api = True, observing = False\<rparr>)) \<noteq> [''50px'']"
proof -
  define p where "p = \<lparr>header_tops = [''0''], has_header = True, static_header = False,
    fixed_height = ''50px'', has_observer_api = True, observing = False\<rparr>"
  define p' where "p' = fold bar_resized [''80px'', ''64px''] (pinScoreheader p)"
  have "\<forall>top \<in> set (header_tops p'). top = fixed_height p'"
    by (rule header_stays_pinned [of p, OF _ _ _ p'_def]) (simp_all add: p_def)
  moreover have "fixed_height p' = ''64px''" by (simp add: p'_def bar_resized_def Let_def)
  ultimately have "header_tops p' \<noteq> [''50px'']" by auto
  then show ?thesis by (simp add: p'_def p_def)
qed

end
