(* ===== verification/Widgets.thy ===== *)
theory Widgets
  imports Browser
begin

text \<open>
  The small controls of \<open>webapp/public/js/domjudge.js\<close>: reloading (\<open>reloadPage\<close>, \<open>initReload\<close>),
  \<open>collapse\<close>, \<open>confirmLogout\<close>, the form of \<open>postVerifyCommentToICAT\<close>, \<open>toggleExpand\<close>, the answers and the
  preview of clarifications (\<open>clarificationAppendAnswer\<close>, \<open>previewClarification\<close>,
  \<open>setupPreviewClarification\<close>), and the handler for dropdown menus inside dropdown menus.
\<close>

section \<open>Reloading\<close>

text \<open>\<open>doReload\<close> is a global the templates may clear; timers are kept by their delay in milliseconds.\<close>

record reload_page =
  doReload :: bool
  reload_timers :: "int list"
  rl_browser :: browser

definition reloadPage :: "reload_page \<Rightarrow> reload_page" where
  "reloadPage p = (if doReload p then p\<lparr>rl_browser := emit Reload (rl_browser p)\<rparr> else p)"

definition initReload :: "int \<Rightarrow> reload_page \<Rightarrow> reload_page" where
  "initReload refreshtime p = p\<lparr>reload_timers := reload_timers p @ [refreshtime * 1000]\<rparr>"

text \<open>The first timer runs out and its callback runs.\<close>

definition reload_timeout :: "reload_page \<Rightarrow> reload_page" where
  "reload_timeout p = (case reload_timers p of
       [] \<Rightarrow> p
     | _ # ts \<Rightarrow> reloadPage (p\<lparr>reload_timers := ts\<rparr>))"

text \<open>\<open>toggleClass\<close> on an element given by its classes.\<close>

definition collapse :: "string list \<Rightarrow> string list" where
  "collapse classes = (if ''d-none'' \<in> set classes then filter (\<lambda>c. c \<noteq> ''d-none'') classes else classes @ [''d-none''])"

definition confirmLogout :: "bool \<Rightarrow> bool" where
  "confirmLogout answer = answer"

text \<open>
  A reload is scheduled in seconds and happens once, after its time, unless \<open>doReload\<close> has been
  cleared in the meantime; collapsing hides, and collapsing again shows, with the other classes as
  before.
\<close>

theorem reload_and_collapse:
  "reload_timers p = [] \<longrightarrow>
     reload_timers (initReload t p) = [1000 * t] \<and>
     effects (rl_browser (reload_timeout (initReload t p))) =
       effects (rl_browser p) @ (if doReload p then [Reload] else []) \<and>
     reload_timeout (reload_timeout (initReload t p)) = reload_timeout (initReload t p) \<and>
     (''d-none'' \<in> set (collapse cs) \<longleftrightarrow> ''d-none'' \<notin> set cs) \<and>
     filter (\<lambda>c. c \<noteq> ''d-none'') (collapse cs) = filter (\<lambda>c. c \<noteq> ''d-none'') cs"
  by (simp add: initReload_def reload_timeout_def reloadPage_def collapse_def)

theorem reload_and_collapse_witness:
  "reload_timers (initReload 30 \<lparr>doReload = True, reload_timers = [], rl_browser = blank_browser\<rparr>) = [30000]"
  using reload_and_collapse [of "\<lparr>doReload = True, reload_timers = [], rl_browser = blank_browser\<rparr>" 30] by simp

section \<open>The form for iCAT\<close>

record html_form =
  form_method :: string
  form_action :: string
  form_target :: string
  form_fields :: "(string \<times> string) list"

text \<open>\<open>None\<close>: the page has no comment, and nothing is posted.\<close>

definition addField :: "string \<Rightarrow> string \<Rightarrow> html_form \<Rightarrow> html_form" where
  "addField name val form = form\<lparr>form_fields := form_fields form @ [(name, val)]\<rparr>"

definition postVerifyCommentToICAT ::
  "string option \<Rightarrow> string \<Rightarrow> string \<Rightarrow> string \<Rightarrow> string \<Rightarrow> string \<Rightarrow> html_form option" where
  "postVerifyCommentToICAT comment url user teamid probid submissionid =
     (case comment of
        None \<Rightarrow> None
      | Some msg \<Rightarrow>
          let form = \<lparr>form_method = ''post'', form_action = url, form_target = ''formresult'', form_fields = []\<rparr>;
              form = addField ''user'' user form;
              form = addField ''priority'' ''1'' form;
              form = addField ''submission'' submissionid form;
              form = addField ''text'' (''Team #t'' @ teamid @ '' on problem #p'' @ probid @ '': '' @ msg) form
          in Some form)"

section \<open>Expanding\<close>

text \<open>A child of the common parent: its two data attributes and its content.\<close>

record node =
  data_expanded :: "string option"
  data_collapsed :: "string option"
  inner :: string

definition first_expandable :: "node list \<Rightarrow> nat option" where
  "first_expandable ns = List.find (\<lambda>i. data_expanded (ns ! i) \<noteq> None) [0..<length ns]"

text \<open>Writing \<open>null\<close> into \<open>innerHTML\<close> empties it. \<open>t\<close> is the place of the link that was clicked.\<close>

definition set_inner :: "nat \<Rightarrow> string option \<Rightarrow> node list \<Rightarrow> node list" where
  "set_inner k v ns = ns[k := (ns ! k)\<lparr>inner := (case v of Some s \<Rightarrow> s | None \<Rightarrow> [])\<rparr>]"

definition toggleExpand :: "nat \<Rightarrow> node list \<Rightarrow> node list outcome" where
  "toggleExpand t ns = (case first_expandable ns of
       None \<Rightarrow> Inl TypeError
     | Some k \<Rightarrow>
         if data_expanded (ns ! t) = Some ''1'' then
           let ns = set_inner k (data_collapsed (ns ! k)) ns;
               ns = ns[t := (ns ! t)\<lparr>data_expanded := Some ''0''\<rparr>]
           in Inr (set_inner t (Some ''[expand]'') ns)
         else
           let ns = set_inner k (data_expanded (ns ! k)) ns;
               ns = ns[t := (ns ! t)\<lparr>data_expanded := Some ''1''\<rparr>]
           in Inr (set_inner t (Some ''[collapse]'') ns))"

text \<open>The markup the server writes: the text, and the link after it.\<close>

definition expandable :: "string \<Rightarrow> string \<Rightarrow> string \<Rightarrow> string option \<Rightarrow> string \<Rightarrow> node list" where
  "expandable long short shown state label =
     [\<lparr>data_expanded = Some long, data_collapsed = Some short, inner = shown\<rparr>,
      \<lparr>data_expanded = state, data_collapsed = None, inner = label\<rparr>]"

lemma toggleExpand_expandable:
  "toggleExpand 1 (expandable long short shown state label) = Inr (if state = Some ''1''
     then expandable long short short (Some ''0'') ''[expand]''
     else expandable long short long (Some ''1'') ''[collapse]'')"
  by (simp add: toggleExpand_def first_expandable_def expandable_def set_inner_def Let_def upt_rec)

fun clicks :: "nat \<Rightarrow> node list \<Rightarrow> node list outcome" where
  "clicks 0 ns = Inr ns"
| "clicks (Suc n) ns = bind_outcome (clicks n ns) (toggleExpand 1)"

text \<open>
  On the markup the server writes, after any number of clicks the long text is shown if the number
  is odd and the short one if it is even, and the link always names what the next click does; no
  click raises an exception.
\<close>

theorem expand_alternates:
  "clicks (Suc n) (expandable long short short None ''[expand]'') =
     Inr (if even n then expandable long short long (Some ''1'') ''[collapse]''
          else expandable long short short (Some ''0'') ''[expand]'')"
  by (induction n) (simp_all add: toggleExpand_expandable [unfolded One_nat_def])

section \<open>Clarifications\<close>

record clar_form =
  clar_answer :: string                 \<comment> \<open>the value of the list of answers\<close>
  clar_selected :: string               \<comment> \<open>the text of the selected answer\<close>
  message_text :: string
  preview_html :: string
  preview_posts :: "string list"        \<comment> \<open>the messages sent to be previewed\<close>
  keyup_handlers :: nat

definition previewClarification :: "clar_form \<Rightarrow> clar_form" where
  "previewClarification f =
     (if message_text f \<noteq> [] then f\<lparr>preview_posts := preview_posts f @ [message_text f]\<rparr> else f)"

definition previewClarification_done :: "string \<Rightarrow> clar_form \<Rightarrow> clar_form" where
  "previewClarification_done html f = f\<lparr>preview_html := html\<rparr>"

text \<open>The handler is debounced by a jQuery plugin (\<open>Debounce\<close>): it runs once the typing has paused.\<close>

definition setupPreviewClarification :: "bool \<Rightarrow> clar_form \<Rightarrow> clar_form" where
  "setupPreviewClarification previewInitial f =
     (let f = (if previewInitial then previewClarification f else f)
      in f\<lparr>keyup_handlers := Suc (keyup_handlers f)\<rparr>)"

definition typing_paused :: "clar_form \<Rightarrow> clar_form" where
  "typing_paused f = (previewClarification ^^ keyup_handlers f) f"

definition newline :: char where
  "newline = char_of (10 :: nat)"

definition drop_newline :: "string \<Rightarrow> string" where
  "drop_newline s = (if s \<noteq> [] \<and> last s = newline then butlast s else s)"

definition clarificationAppendAnswer :: "clar_form \<Rightarrow> clar_form" where
  "clarificationAppendAnswer f =
     (if clar_answer f = ''_default'' then f
      else
        let f = f\<lparr>message_text := drop_newline (message_text f) @ [newline] @ clar_selected f\<rparr>
        in previewClarification f)"

text \<open>
  Choosing an answer puts it on a line of its own at the end of the message, which is otherwise
  kept (one newline at its end is not doubled), and has the whole message previewed; the default
  entry changes nothing.
\<close>

theorem answer_appended:
  "clarificationAppendAnswer f =
     (if clar_answer f = ''_default'' then f
      else f\<lparr>message_text := drop_newline (message_text f) @ newline # clar_selected f,
             preview_posts := preview_posts f @ [drop_newline (message_text f) @ newline # clar_selected f]\<rparr>) \<and>
   drop_newline (s @ [newline]) = s \<and>
   drop_newline (drop_newline (message_text f) @ newline # clar_selected f) =
     (if clar_selected f = [] then drop_newline (message_text f)
      else drop_newline (message_text f) @ newline # drop_newline (clar_selected f))"
  by (auto simp: clarificationAppendAnswer_def previewClarification_def drop_newline_def Let_def butlast_append)

lemma preview_times:
  "(previewClarification ^^ n) f = f\<lparr>preview_posts := preview_posts f @
     (if message_text f \<noteq> [] then replicate n (message_text f) else [])\<rparr>"
  by (induction n) (simp_all add: previewClarification_def replicate_append_same)

text \<open>
  An empty message is never sent to be previewed, neither at first nor later; any other message
  is sent once at first, if asked for, and each time the typing pauses once for each time the
  preview was set up; the preview shows the last answer.
\<close>

theorem preview_messages:
  "preview_posts (typing_paused ((setupPreviewClarification initial f)\<lparr>message_text := m\<rparr>)) =
     preview_posts f @ (if initial \<and> message_text f \<noteq> [] then [message_text f] else []) @
     (if m \<noteq> [] then replicate (Suc (keyup_handlers f)) m else []) \<and>
   preview_html (previewClarification_done h2 (previewClarification_done h1 f)) = h2"
  unfolding typing_paused_def preview_times
  by (simp add: setupPreviewClarification_def previewClarification_def previewClarification_done_def Let_def)

section \<open>Dropdown menus inside dropdown menus\<close>

text \<open>
  The elements from the one clicked up to the root: their classes, their popper attribute, and which
  toggle \<open>querySelector\<close> finds below them (by a number, with its classes in \<open>toggles\<close>).
\<close>

record dom_element =
  el_class_list :: "string list"
  popper :: "string option"
  first_toggle :: "nat option"

record menu_page =
  chain :: "dom_element list"
  toggles :: "nat \<Rightarrow> string list"

definition find_menu :: "dom_element list \<Rightarrow> nat option" where
  "find_menu els = List.find (\<lambda>i. ''dropdown-menu'' \<in> set (el_class_list (els ! i))) [0..<length els]"

text \<open>The click, and the timeout after it; \<open>add\<close> does nothing if the class is there.\<close>

definition add_to :: "string \<Rightarrow> string list \<Rightarrow> string list" where
  "add_to c cs = (if c \<in> set cs then cs else cs @ [c])"

definition dropdown_click :: "menu_page \<Rightarrow> menu_page outcome" where
  "dropdown_click p = (case find_menu (chain p) of
       None \<Rightarrow> Inl TypeError
     | Some i \<Rightarrow>
         if Suc i < length (chain p) then
           let parent = chain p ! i;
               parent' = parent\<lparr>el_class_list := add_to ''show'' (el_class_list parent), popper := Some ''static''\<rparr>;
               p = p\<lparr>chain := (chain p)[i := parent']\<rparr>
           in (case first_toggle (chain p ! Suc i) of
                 None \<Rightarrow> Inl TypeError
               | Some a \<Rightarrow> Inr (p\<lparr>toggles := (toggles p)(a := add_to ''show'' (toggles p a))\<rparr>))
         else Inl TypeError)"

text \<open>
  A click inside a dropdown menu leaves the innermost menu around it shown, together with the link
  it belongs to, and changes no element further in or further out; without a menu around the click
  it is a \<open>TypeError\<close>.
\<close>

theorem dropdown_stays_open:
  assumes "chain p = before @ menu # outer # rest" "''dropdown-menu'' \<in> set (el_class_list menu)"
    and "\<forall>el \<in> set before. ''dropdown-menu'' \<notin> set (el_class_list el)" "first_toggle outer = Some a"
  shows "\<exists>p' menu'. dropdown_click p = Inr p' \<and> chain p' = before @ menu' # outer # rest \<and>
    ''show'' \<in> set (el_class_list menu') \<and> ''show'' \<in> set (toggles p' a) \<and>
    set (el_class_list menu) \<subseteq> set (el_class_list menu') \<and> (\<forall>x. x \<noteq> a \<longrightarrow> toggles p' x = toggles p x)"
proof -
  have "find_menu (chain p) = Some (length before)"
    unfolding find_menu_def find_Some_iff using assms(1-3)
    by (intro exI [of _ "length before"]) (auto simp: nth_append)
  then show ?thesis
    using assms by (simp add: dropdown_click_def Let_def nth_append add_to_def) auto
qed

theorem dropdown_stays_open_witness:
  "\<exists>p'. dropdown_click \<lparr>chain = [\<lparr>el_class_list = [''dropdown-item''], popper = None, first_toggle = None\<rparr>,
       \<lparr>el_class_list = [''dropdown-menu''], popper = None, first_toggle = None\<rparr>,
       \<lparr>el_class_list = [], popper = None, first_toggle = Some 3\<rparr>], toggles = (\<lambda>_. [])\<rparr> = Inr p' \<and>
     ''show'' \<in> set (toggles p' 3)"
  using dropdown_stays_open [of "\<lparr>chain = [\<lparr>el_class_list = [''dropdown-item''], popper = None, first_toggle = None\<rparr>,
       \<lparr>el_class_list = [''dropdown-menu''], popper = None, first_toggle = None\<rparr>,
       \<lparr>el_class_list = [], popper = None, first_toggle = Some 3\<rparr>], toggles = (\<lambda>_. [])\<rparr>"
      "[\<lparr>el_class_list = [''dropdown-item''], popper = None, first_toggle = None\<rparr>]"
      "\<lparr>el_class_list = [''dropdown-menu''], popper = None, first_toggle = None\<rparr>"
      "\<lparr>el_class_list = [], popper = None, first_toggle = Some 3\<rparr>" "[]" 3]
  by auto

end
