(* ===== verification/Debounce.thy ===== *)
theory Debounce
  imports Widgets
begin

text \<open>
  The jQuery plugin that delays handlers (\<open>jquery.debounce.min.js\<close>): \<open>debounce\<close>, which the page uses
  for the preview of clarifications, and \<open>throttle\<close>.

  Time is in milliseconds. The browser runs the function of a timer at its time or later, at most
  \<open>late\<close> milliseconds: a run is a list of events, each with its time, that keeps to this. A call made
  at the very moment a timer is due may come before or after it.
\<close>

section \<open>Timed events\<close>

datatype ('c, 'a) timed_event =
    Called nat 'c 'a     \<comment> \<open>the function returned is called: the time, \<open>this\<close>, the arguments\<close>
  | Fired nat            \<comment> \<open>the timer's function runs\<close>

fun event_time :: "('c, 'a) timed_event \<Rightarrow> nat" where
  "event_time (Called t c a) = t"
| "event_time (Fired t) = t"

text \<open>May the event happen, given when the pending timer is due, if there is one?\<close>

fun timely :: "nat \<Rightarrow> nat option \<Rightarrow> ('c, 'a) timed_event \<Rightarrow> bool" where
  "timely late due (Called t c a) = (case due of None \<Rightarrow> True | Some d \<Rightarrow> t \<le> d + late)"
| "timely late due (Fired t) = (case due of None \<Rightarrow> False | Some d \<Rightarrow> d \<le> t \<and> t \<le> d + late)"

text \<open>The calls of a run, as pairs of their time and arguments.\<close>

fun calls :: "('c, 'a) timed_event list \<Rightarrow> (nat \<times> 'a) list" where
  "calls [] = []"
| "calls (Called t c a # es) = (t, a) # calls es"
| "calls (Fired t # es) = calls es"

text \<open>
  A run from time \<open>now\<close>: events in the order of time, each when it may happen; \<open>due\<close> reads off a state
  when its timer is due, \<open>step\<close> is what an event does.
\<close>

fun timed_run :: "nat \<Rightarrow> ('s \<Rightarrow> nat option) \<Rightarrow> (('c, 'a) timed_event \<Rightarrow> 's \<Rightarrow> 's) \<Rightarrow> nat \<Rightarrow>
    ('c, 'a) timed_event list \<Rightarrow> 's \<Rightarrow> 's option" where
  "timed_run late due step now [] s = Some s"
| "timed_run late due step now (e # es) s =
     (if now \<le> event_time e \<and> timely late (due s) e
      then timed_run late due step (event_time e) es (step e s)
      else None)"

lemma run_later:
  "timed_run late due step now es s = Some s' \<Longrightarrow> case calls es of [] \<Rightarrow> True | (t, g) # cs \<Rightarrow> now \<le> t"
proof (induction es arbitrary: now s)
  case (Cons e es)
  then show ?case
    by (cases e) (fastforce split: if_splits list.splits prod.splits)+
qed simp

lemma calls_append [simp]: "calls (es @ es') = calls es @ calls es'"
  by (induction es rule: calls.induct) simp_all

text \<open>
  \<open>timed_system\<close>: an invariant that relates the state to the time and to the calls made so far, and
  that every event keeps that may happen. It holds after every run.
\<close>

locale timed_system =
  fixes late :: nat
    and due :: "'s \<Rightarrow> nat option"
    and step :: "('c, 'a) timed_event \<Rightarrow> 's \<Rightarrow> 's"
    and inv :: "nat \<Rightarrow> (nat \<times> 'a) list \<Rightarrow> 's \<Rightarrow> bool"
  assumes step_inv: "inv now cs s \<Longrightarrow> now \<le> event_time e \<Longrightarrow> timely late (due s) e \<Longrightarrow>
      inv (event_time e) (cs @ calls [e]) (step e s)"
begin

lemma run_inv:
  "timed_run late due step now es s = Some s' \<Longrightarrow> inv now cs s \<Longrightarrow> \<exists>now'. inv now' (cs @ calls es) s'"
proof (induction es arbitrary: now cs s)
  case (Cons e es)
  have now: "inv (event_time e) (cs @ calls [e]) (step e s)"
    using Cons.prems by (intro step_inv) (auto split: if_splits)
  have run: "timed_run late due step (event_time e) es (step e s) = Some s'"
    using Cons.prems(1) by (auto split: if_splits)
  then obtain now' where "inv now' ((cs @ calls [e]) @ calls es) s'"
    using Cons.IH [OF run now] by blast
  then show ?case using calls_append [of "[e]" es] by auto
qed auto

end

section \<open>The optional arguments of \<open>debounce\<close>\<close>

datatype 'c third_argument = Flag bool | Context 'c

text \<open>
  Whether to call at once (\<open>c\<close>) and the given \<open>this\<close> (\<open>d\<close>), from the third and fourth argument, if
  there are any: a third argument that is not a truth value is the \<open>this\<close> if it is the last.
\<close>

fun debounce_options :: "'c third_argument option \<Rightarrow> 'c option \<Rightarrow> bool \<times> 'c option" where
  "debounce_options None d = (False, None)"
| "debounce_options (Some (Flag b)) d = (b, d)"
| "debounce_options (Some (Context o1)) None = (False, Some o1)"
| "debounce_options (Some (Context o1)) (Some o2) = (True, Some o2)"

section \<open>\<open>debounce\<close>\<close>

record ('c, 'a) debounced =
  deb_this :: "'c option"                      \<comment> \<open>\<open>d\<close>\<close>
  deb_timer :: "(nat \<times> 'a) option"             \<comment> \<open>\<open>e\<close>: when it is due, and \<open>f\<close> of its closure\<close>
  deb_log :: "(nat \<times> 'c \<times> 'a) list"            \<comment> \<open>the calls of the function given: time, \<open>this\<close>, arguments\<close>

definition debounce :: "'c option \<Rightarrow> ('c, 'a) debounced" where
  "debounce d = \<lparr>deb_this = d, deb_timer = None, deb_log = []\<rparr>"

definition apply_a :: "nat \<Rightarrow> 'a \<Rightarrow> ('c, 'a) debounced \<Rightarrow> ('c, 'a) debounced" where
  "apply_a t f s = (case deb_this s of None \<Rightarrow> s | Some c \<Rightarrow> s\<lparr>deb_log := deb_log s @ [(t, c, f)]\<rparr>)"

text \<open>The function that \<open>debounce\<close> returns, with the delay \<open>b\<close>, called at time \<open>t\<close>.\<close>

definition debounced_call :: "nat \<Rightarrow> bool \<Rightarrow> nat \<Rightarrow> 'c \<Rightarrow> 'a \<Rightarrow> ('c, 'a) debounced \<Rightarrow> ('c, 'a) debounced" where
  "debounced_call b c t this f s =
     (let s = s\<lparr>deb_this := (case deb_this s of None \<Rightarrow> Some this | Some d \<Rightarrow> Some d)\<rparr>;
          s = (if c \<and> deb_timer s = None then apply_a t f s else s);
          s = s\<lparr>deb_timer := None\<rparr>
      in s\<lparr>deb_timer := Some (t + b, f)\<rparr>)"

text \<open>The timer's function.\<close>

definition debounced_timeout :: "bool \<Rightarrow> nat \<Rightarrow> ('c, 'a) debounced \<Rightarrow> ('c, 'a) debounced" where
  "debounced_timeout c t s =
     (case deb_timer s of
        None \<Rightarrow> s
      | Some (due, f) \<Rightarrow> (if c then s else apply_a t f s)\<lparr>deb_timer := None\<rparr>)"

fun debounced_event :: "nat \<Rightarrow> bool \<Rightarrow> ('c, 'a) timed_event \<Rightarrow> ('c, 'a) debounced \<Rightarrow> ('c, 'a) debounced" where
  "debounced_event b c (Called t this f) s = debounced_call b c t this f s"
| "debounced_event b c (Fired t) s = debounced_timeout c t s"

abbreviation debounced_run :: "nat \<Rightarrow> nat \<Rightarrow> bool \<Rightarrow> nat \<Rightarrow> ('c, 'a) timed_event list \<Rightarrow>
    ('c, 'a) debounced \<Rightarrow> ('c, 'a) debounced option" where
  "debounced_run late b c \<equiv> timed_run late (\<lambda>s. map_option fst (deb_timer s)) (debounced_event b c)"

text \<open>
  What is promised. Of the calls of a run, in the usual mode those are passed on that are followed
  by a pause, at the end of the pause: no call for \<open>b\<close> milliseconds (and for \<open>late\<close> more, if the timer
  takes them). When called at once, those are passed on that come first or after a pause.
\<close>

fun after_pauses :: "nat \<Rightarrow> nat \<Rightarrow> (nat \<times> 'a) list \<Rightarrow> (nat \<times> 'a) list \<Rightarrow> bool" where
  "after_pauses late b [] log = (log = [])"
| "after_pauses late b [(t, f)] log =
     (case log of [(d, g)] \<Rightarrow> g = f \<and> t + b \<le> d \<and> d \<le> t + b + late | _ \<Rightarrow> False)"
| "after_pauses late b ((t, f) # (t', f') # cs) log =
     ((t' \<le> t + b + late \<and> after_pauses late b ((t', f') # cs) log) \<or>
      (case log of
         [] \<Rightarrow> False
       | (d, g) # log \<Rightarrow> g = f \<and> t + b \<le> d \<and> d \<le> t + b + late \<and> d \<le> t' \<and>
           after_pauses late b ((t', f') # cs) log))"

fun before_bursts :: "nat \<Rightarrow> nat \<Rightarrow> nat option \<Rightarrow> (nat \<times> 'a) list \<Rightarrow> (nat \<times> 'a) list \<Rightarrow> bool" where
  "before_bursts late b prev [] log = (log = [])"
| "before_bursts late b prev ((t, f) # cs) log =
     (((case prev of None \<Rightarrow> False | Some l \<Rightarrow> t \<le> l + b + late) \<and> before_bursts late b (Some t) cs log) \<or>
      ((case prev of None \<Rightarrow> True | Some l \<Rightarrow> l + b \<le> t) \<and> 
       (case log of [] \<Rightarrow> False | (d, g) # log \<Rightarrow> d = t \<and> g = f \<and> before_bursts late b (Some t) cs log)))"

text \<open>The \<open>this\<close> of all calls that are passed on: the one given, or that of the first call.\<close>

fun kept_this :: "'c option \<Rightarrow> ('c, 'a) timed_event list \<Rightarrow> 'c option" where
  "kept_this (Some c) es = Some c"
| "kept_this None [] = None"
| "kept_this None (Called t c a # es) = Some c"
| "kept_this None (Fired t # es) = kept_this None es"

text \<open>What was passed on, without \<open>this\<close>.\<close>

definition passed_on :: "(nat \<times> 'c \<times> 'a) list \<Rightarrow> (nat \<times> 'a) list" where
  "passed_on log = map (\<lambda>(t, c, f). (t, f)) log"

lemma passed_on_simps [simp]:
  "passed_on [] = []"
  "passed_on (log1 @ log2) = passed_on log1 @ passed_on log2"
  "passed_on ((t, c, f) # log) = (t, f) # passed_on log"
  by (simp_all add: passed_on_def)

lemma kept_this_Some: "kept_this (Some c) es = Some c"
  by simp

lemmas debounced_defs = debounced_call_def debounced_timeout_def apply_a_def Let_def

text \<open>Before the first call \<open>this\<close> is as good as known, since nothing but a call can happen.\<close>

lemma run_with_this:
  assumes "deb_this s = None" "deb_timer s = None"
    and "debounced_run late b c now es s = Some s'" and "es \<noteq> []"
  shows "kept_this None es \<noteq> None \<and>
    debounced_run late b c now es (s\<lparr>deb_this := kept_this None es\<rparr>) = Some s'"
  using assms by (cases es; cases "hd es") (auto simp: debounced_defs split: if_splits)

text \<open>With a call pending the run is one whose calls begin with that call.\<close>

definition pending :: "nat \<Rightarrow> ('c, 'a) debounced \<Rightarrow> (nat \<times> 'a) list" where
  "pending b s = (case deb_timer s of None \<Rightarrow> [] | Some (due, f) \<Rightarrow> [(due - b, f)])"

lemma trailing_run:
  assumes "debounced_run late b False now es s = Some s'" "deb_timer s' = None"
    and "deb_this s = Some c"
    and "case deb_timer s of None \<Rightarrow> True | Some (due, f) \<Rightarrow> b \<le> due"
  shows "\<exists>log. deb_log s' = deb_log s @ map (\<lambda>(d, g). (d, c, g)) log \<and>
           after_pauses late b (pending b s @ calls es) log"
  using assms
proof (induction es arbitrary: now s)
  case (Cons e es)
  show ?case
  proof (cases e)
    case (Called t this f)
    let ?s = "debounced_call b False t this f s"
    have run: "debounced_run late b False t es ?s = Some s'"
      and timely: "case deb_timer s of None \<Rightarrow> True | Some (due, g) \<Rightarrow> t \<le> due + late"
      using Cons.prems(1) Called by (auto split: if_splits option.splits)
    have s: "deb_this ?s = Some c" "deb_timer ?s = Some (t + b, f)" "deb_log ?s = deb_log s"
      using Cons.prems(3) by (simp_all add: debounced_defs)
    obtain log where "deb_log s' = deb_log s @ map (\<lambda>(d, g). (d, c, g)) log"
      "after_pauses late b ((t, f) # calls es) log"
      using Cons.IH [OF run Cons.prems(2) s(1)] s by (auto simp: pending_def)
    then show ?thesis using Called timely Cons.prems(4)
      by (intro exI [of _ log]) (auto simp: pending_def split: option.splits)
  next
    case (Fired t)
    then obtain due f where timer: "deb_timer s = Some (due, f)" and t: "due \<le> t" "t \<le> due + late"
      using Cons.prems(1) by (auto split: if_splits option.splits)
    let ?s = "debounced_timeout False t s"
    have run: "debounced_run late b False t es ?s = Some s'"
      using Cons.prems(1) Fired by (auto split: if_splits)
    have s: "deb_this ?s = Some c" "deb_timer ?s = None" "deb_log ?s = deb_log s @ [(t, c, f)]"
      using Cons.prems(3) timer by (simp_all add: debounced_defs)
    obtain log where log: "deb_log s' = deb_log s @ (t, c, f) # map (\<lambda>(d, g). (d, c, g)) log"
      "after_pauses late b (calls es) log"
      using Cons.IH [OF run Cons.prems(2) s(1)] s by (auto simp: pending_def)
    have later: "case calls es of [] \<Rightarrow> True | (t', g) # cs \<Rightarrow> t \<le> t'"
      using run_later [OF run] by simp
    show ?thesis using log later t timer Fired Cons.prems(4)
      by (intro exI [of _ "(t, f) # log"])
        (cases "calls es"; auto simp: pending_def)
  qed
qed (auto simp: pending_def)

text \<open>When called at once: \<open>prev\<close> is the time of the last call, whose timer may be pending or over.\<close>

definition last_call :: "nat \<Rightarrow> nat \<Rightarrow> nat option \<Rightarrow> ('c, 'a) debounced \<Rightarrow> bool" where
  "last_call b now prev s =
     (case deb_timer s of
        None \<Rightarrow> (case prev of None \<Rightarrow> True | Some l \<Rightarrow> l + b \<le> now)
      | Some (due, f) \<Rightarrow> (case prev of None \<Rightarrow> False | Some l \<Rightarrow> due = l + b))"

lemma leading_run:
  assumes "debounced_run late b True now es s = Some s'"
    and "deb_this s = Some c" and "last_call b now prev s"
  shows "\<exists>log. deb_log s' = deb_log s @ map (\<lambda>(d, g). (d, c, g)) log \<and>
           before_bursts late b prev (calls es) log"
  using assms
proof (induction es arbitrary: now s prev)
  case (Cons e es)
  show ?case
  proof (cases e)
    case (Called t this f)
    let ?s = "debounced_call b True t this f s"
    have run: "debounced_run late b True t es ?s = Some s'" and now: "now \<le> t"
      and timely: "case deb_timer s of None \<Rightarrow> True | Some (due, g) \<Rightarrow> t \<le> due + late"
      using Cons.prems(1) Called by (auto split: if_splits option.splits)
    have s: "deb_this ?s = Some c" "last_call b t (Some t) ?s"
      "deb_log ?s = deb_log s @ (if deb_timer s = None then [(t, c, f)] else [])"
      using Cons.prems(2) by (simp_all add: debounced_defs last_call_def)
    obtain log where log: "deb_log s' = deb_log ?s @ map (\<lambda>(d, g). (d, c, g)) log"
      "before_bursts late b (Some t) (calls es) log"
      using Cons.IH [OF run s(1,2)] by auto
    show ?thesis
    proof (cases "deb_timer s")
      case None
      then show ?thesis using Called log s(3) now Cons.prems(3)
        by (intro exI [of _ "(t, f) # log"]) (auto simp: last_call_def split: option.splits)
    next
      case (Some p)
      then show ?thesis using Called log s(3) timely Cons.prems(3)
        by (intro exI [of _ log]) (auto simp: last_call_def split: option.splits)
    qed
  next
    case (Fired t)
    let ?s = "debounced_timeout True t s"
    have run: "debounced_run late b True t es ?s = Some s'"
      and timer: "case deb_timer s of None \<Rightarrow> False | Some (due, g) \<Rightarrow> due \<le> t"
      using Cons.prems(1) Fired by (auto split: if_splits option.splits)
    have s: "deb_this ?s = Some c" "last_call b t prev ?s" "deb_log ?s = deb_log s"
      using Cons.prems(2,3) timer by (auto simp: debounced_defs last_call_def split: option.splits)
    show ?thesis using Cons.IH [OF run s(1,2)] s(3) Fired by simp
  qed
qed simp

lemma run_of_debounce:
  assumes "debounced_run late b asap now es (debounce d) = Some s" "es \<noteq> []"
  shows "\<exists>c. kept_this d es = Some c \<and>
    debounced_run late b asap now es (\<lparr>deb_this = Some c, deb_timer = None, deb_log = []\<rparr>) = Some s"
proof (cases d)
  case None
  then show ?thesis using run_with_this [OF _ _ assms] by (auto simp: debounce_def)
qed (use assms in \<open>simp add: debounce_def\<close>)

text \<open>
  \<open>debounce\<close>: in the usual mode, once nothing is pending any more, the calls passed on are those
  followed by a pause, at the end of their pause; when called at once they are those that come first
  or after a pause, at the moment they come. Each is passed on with its own arguments, all in their
  order, and all run with one \<open>this\<close>: the one given, else that of the first call ever.
\<close>

theorem debounce_passes_on:
  assumes "debounced_run late b asap now es (debounce d) = Some s"
    and "asap \<or> deb_timer s = None"
  shows "(if asap then before_bursts late b None (calls es) (passed_on (deb_log s))
          else after_pauses late b (calls es) (passed_on (deb_log s))) \<and>
    list_all (\<lambda>(t, c, f). Some c = kept_this d es) (deb_log s)"
proof (cases "es = []")
  case True
  then have "deb_log s = []" using assms(1) by (auto simp: debounce_def)
  then show ?thesis using True by simp
next
  case False
  then obtain c where c: "kept_this d es = Some c"
    and run: "debounced_run late b asap now es \<lparr>deb_this = Some c, deb_timer = None, deb_log = []\<rparr> = Some s"
    using run_of_debounce [OF assms(1)] by blast
  obtain log where "deb_log s = map (\<lambda>(t, f). (t, c, f)) log"
    "if asap then before_bursts late b None (calls es) log else after_pauses late b (calls es) log"
  proof (cases asap)
    case True
    show ?thesis
      using leading_run [OF run [unfolded eqTrueI [OF True]], of c None] that True
      by (auto simp: last_call_def)
  next
    case False
    then have asap: "asap = False" by simp
    show ?thesis
      using trailing_run [OF run [unfolded asap]] assms(2) asap that by (auto simp: pending_def)
  qed
  then show ?thesis using c by (auto simp: passed_on_def list_all_iff case_prod_unfold o_def)
qed

theorem debounce_passes_on_witness:
  "after_pauses 10 250 [(0, ''a''), (100, ''ab''), (400, ''abc'')] [(355, ''ab''), (650, ''abc'')]"
  using debounce_passes_on
    [of 10 250 False 0
       "[Called 0 () ''a'', Called 100 () ''ab'', Fired 355, Called 400 () ''abc'', Fired 650]" None
       "\<lparr>deb_this = Some (), deb_timer = None, deb_log = [(355, (), ''ab''), (650, (), ''abc'')]\<rparr>"]
  by (simp add: debounce_def debounced_defs)

section \<open>\<open>throttle\<close>\<close>

record ('c, 'a) throttled =
  thr_this :: "'c option"                      \<comment> \<open>\<open>c\<close>\<close>
  thr_timer :: "nat option"                    \<comment> \<open>\<open>d\<close>: when it is due\<close>
  thr_arguments :: "'a option"                 \<comment> \<open>\<open>e\<close>\<close>
  thr_called :: bool                           \<comment> \<open>\<open>f\<close>\<close>
  thr_log :: "(nat \<times> 'c \<times> 'a) list"

definition throttle :: "'c option \<Rightarrow> ('c, 'a) throttled" where
  "throttle c = \<lparr>thr_this = c, thr_timer = None, thr_arguments = None, thr_called = False, thr_log = []\<rparr>"

definition throttle_apply :: "nat \<Rightarrow> ('c, 'a) throttled \<Rightarrow> ('c, 'a) throttled" where
  "throttle_apply t s =
     (case (thr_this s, thr_arguments s) of
        (Some c, Some e) \<Rightarrow> s\<lparr>thr_log := thr_log s @ [(t, c, e)]\<rparr>
      | _ \<Rightarrow> s)"

text \<open>The inner function, which is also the function of its timer, at time \<open>t\<close> with the period \<open>b\<close>.\<close>

definition throttle_tick :: "nat \<Rightarrow> nat \<Rightarrow> ('c, 'a) throttled \<Rightarrow> ('c, 'a) throttled" where
  "throttle_tick b t s =
     (if thr_called s
      then (throttle_apply t s)\<lparr>thr_called := False, thr_timer := Some (t + b)\<rparr>
      else s\<lparr>thr_timer := None\<rparr>)"

definition throttled_call :: "nat \<Rightarrow> nat \<Rightarrow> 'c \<Rightarrow> 'a \<Rightarrow> ('c, 'a) throttled \<Rightarrow> ('c, 'a) throttled" where
  "throttled_call b t this e s =
     (let s = s\<lparr>thr_arguments := Some e, thr_called := True,
                thr_this := (case thr_this s of None \<Rightarrow> Some this | Some c \<Rightarrow> Some c)\<rparr>
      in if thr_timer s = None then throttle_tick b t s else s)"

fun throttled_event :: "nat \<Rightarrow> ('c, 'a) timed_event \<Rightarrow> ('c, 'a) throttled \<Rightarrow> ('c, 'a) throttled" where
  "throttled_event b (Called t this e) s = throttled_call b t this e s"
| "throttled_event b (Fired t) s = throttle_tick b t s"

abbreviation throttled_run :: "nat \<Rightarrow> nat \<Rightarrow> nat \<Rightarrow> ('c, 'a) timed_event list \<Rightarrow>
    ('c, 'a) throttled \<Rightarrow> ('c, 'a) throttled option" where
  "throttled_run late b \<equiv> timed_run late thr_timer (throttled_event b)"

text \<open>At least \<open>b\<close> milliseconds from each time to the next.\<close>

definition spaced :: "nat \<Rightarrow> nat list \<Rightarrow> bool" where
  "spaced b = sorted_wrt (\<lambda>t t'. t + b \<le> t')"

text \<open>Each entry is a call of at most \<open>w\<close> milliseconds before.\<close>

definition fresh :: "nat \<Rightarrow> (nat \<times> 'a) list \<Rightarrow> (nat \<times> 'a) list \<Rightarrow> bool" where
  "fresh w cs = list_all (\<lambda>(d, g). list_ex (\<lambda>(t, f). f = g \<and> t \<le> d \<and> d \<le> t + w) cs)"

lemma fresh_timer_append: "fresh w cs log \<Longrightarrow> fresh w (cs @ cs') log"
  by (auto simp: fresh_def list_all_iff)

lemma fresh_add: "fresh w cs log \<Longrightarrow> (t, f) \<in> set cs \<Longrightarrow> t \<le> d \<Longrightarrow> d \<le> t + w \<Longrightarrow> fresh w cs (log @ [(d, f)])"
  by (auto simp: fresh_def list_all_iff list_ex_iff)

lemma spaced_add:
  assumes "spaced b (map fst log)" "log = [] \<or> fst (last log) + b \<le> t"
  shows "spaced b (map fst log @ [t])"
proof (cases log rule: rev_cases)
  case (snoc us u)
  then show ?thesis using assms by (fastforce simp: spaced_def sorted_wrt_append)
qed (simp add: spaced_def)

text \<open>
  The invariant: the last entry of the log was made \<open>b\<close> milliseconds before the timer is due; without
  a timer nothing waits; a call that waits is the last one, made since that entry.
\<close>

definition throttle_inv :: "nat \<Rightarrow> nat \<Rightarrow> nat \<Rightarrow> (nat \<times> 'a) list \<Rightarrow> ('c, 'a) throttled \<Rightarrow> bool" where
  "throttle_inv late b now cs s \<longleftrightarrow>
     (let log = passed_on (thr_log s) in
      spaced b (map fst log) \<and> fresh (b + late) cs log \<and> (log = [] \<or> fst (last log) \<le> now) \<and>
      (case thr_timer s of
         None \<Rightarrow> \<not> thr_called s \<and> (log = [] \<or> fst (last log) + b \<le> now)
       | Some due \<Rightarrow> log \<noteq> [] \<and> due = fst (last log) + b) \<and>
      (if cs = [] then log = [] \<and> \<not> thr_called s
       else thr_this s \<noteq> None \<and> thr_arguments s = Some (snd (last cs)) \<and> fst (last cs) \<le> now \<and>
         log \<noteq> [] \<and>
         (if thr_called s then fst (last log) \<le> fst (last cs) else snd (last log) = snd (last cs))))"

lemmas throttle_defs = throttled_call_def throttle_tick_def throttle_apply_def Let_def

lemma throttle_step:
  assumes "throttle_inv late b now cs s" "now \<le> event_time e" "timely late (thr_timer s) e"
  shows "throttle_inv late b (event_time e) (cs @ calls [e]) (throttled_event b e s)"
proof (cases e)
  case (Called t this f)
  show ?thesis
  proof (cases "thr_timer s")
    case None
    have "fresh (b + late) (cs @ [(t, f)]) (passed_on (thr_log s) @ [(t, f)])"
      using assms(1) by (intro fresh_add fresh_timer_append) (auto simp: throttle_inv_def Let_def)
    moreover have "spaced b (map fst (passed_on (thr_log s)) @ [t])"
      using assms(1,2) None Called by (intro spaced_add) (auto simp: throttle_inv_def Let_def)
    ultimately show ?thesis using Called None
      by (simp add: throttle_inv_def throttle_defs split: option.split)
  next
    case (Some due)
    have "fresh (b + late) (cs @ [(t, f)]) (passed_on (thr_log s))"
      using assms(1) by (intro fresh_timer_append) (auto simp: throttle_inv_def Let_def)
    moreover have "fst (last (passed_on (thr_log s))) \<le> t"
      using assms(1,2) Called Some
      by (auto simp: throttle_inv_def Let_def)
    ultimately show ?thesis using Called Some assms(1)
      by (simp add: throttle_inv_def throttle_defs split: option.split)
  qed
next
  case (Fired t)
  then obtain due where due: "thr_timer s = Some due" "due \<le> t" "t \<le> due + late"
    using assms(3) by (auto split: option.splits)
  show ?thesis
  proof (cases "thr_called s")
    case True
    obtain c where c: "thr_this s = Some c" "thr_arguments s = Some (snd (last cs))" "cs \<noteq> []"
      using assms(1) True by (auto simp: throttle_inv_def Let_def split: if_splits)
    have "fresh (b + late) cs (passed_on (thr_log s) @ [(t, snd (last cs))])"
      using assms c due True Fired last_in_set [OF c(3)]
      by (intro fresh_add [of _ _ _ "fst (last cs)"]) (auto simp: throttle_inv_def Let_def)
    moreover have "spaced b (map fst (passed_on (thr_log s)) @ [t])"
      using assms(1) due by (intro spaced_add) (auto simp: throttle_inv_def Let_def)
    ultimately show ?thesis using Fired True c assms(1,2)
      by (simp add: throttle_inv_def throttle_defs)
  next
    case False
    then show ?thesis using Fired due assms(1,2)
      by (auto simp: throttle_inv_def throttle_defs)
  qed
qed

interpretation throttling: timed_system late thr_timer "throttled_event b" "throttle_inv late b" for late b
  by unfold_locales (rule throttle_step)

text \<open>
  \<open>throttle\<close>: calls are passed on at least \<open>b\<close> milliseconds apart, each within \<open>b\<close> milliseconds (and
  the lateness of the timer) of being made, and none is lost but to a newer one: as soon as no timer
  is pending, the last call has been passed on.
\<close>

theorem throttle_rate:
  assumes "throttled_run late b 0 es (throttle c) = Some s"
  shows "spaced b (map fst (passed_on (thr_log s))) \<and>
    fresh (b + late) (calls es) (passed_on (thr_log s)) \<and>
    (if thr_timer s = None then map snd (drop (length (thr_log s) - 1) (passed_on (thr_log s))) =
        map snd (drop (length (calls es) - 1) (calls es))
     else thr_log s \<noteq> [])"
proof -
  have "throttle_inv late b 0 [] (throttle c)"
    by (simp add: throttle_inv_def throttle_def spaced_def fresh_def)
  then obtain now where inv: "throttle_inv late b now (calls es) s"
    using throttling.run_inv [OF assms] by fastforce
  have last: "drop (length xs - 1) xs = (if xs = [] then [] else [last xs])" for xs :: "(nat \<times> 'b) list"
    by (cases xs rule: rev_cases) simp_all
  have log: "length (thr_log s) = length (passed_on (thr_log s))" by (simp add: passed_on_def)
  show ?thesis using inv unfolding log last throttle_inv_def Let_def
    by (auto split: if_splits option.splits)
qed

theorem throttle_rate_witness:
  "spaced 100 [0, 105] \<and> fresh 110 [(0, ''a''), (10, ''b''), (20, ''c'')] [(0, ''a''), (105, ''c'')]"
  using throttle_rate
    [of 10 100 "[Called 0 () ''a'', Called 10 () ''b'', Called 20 () ''c'', Fired 105, Fired 210]" None
       "\<lparr>thr_this = Some (), thr_timer = None, thr_arguments = Some ''c'', thr_called = False,
         thr_log = [(0, (), ''a''), (105, (), ''c'')]\<rparr>"]
  by (simp add: throttle_def throttle_defs)

section \<open>The preview of a clarification\<close>

text \<open>
  A key released in the field: an event carries the text that the field has then (the handler does
  not look at its arguments); the timer's function, if it calls the handler, previews the message.
\<close>

definition keyup_event :: "(unit, string) timed_event \<Rightarrow> clar_form \<times> (unit, string) debounced \<Rightarrow>
    clar_form \<times> (unit, string) debounced" where
  "keyup_event e p =
     (let f = (case e of Called t c m \<Rightarrow> (fst p)\<lparr>message_text := m\<rparr> | Fired t \<Rightarrow> fst p);
          s = debounced_event 250 False e (snd p)
      in ((typing_paused ^^ (length (deb_log s) - length (deb_log (snd p)))) f, s))"

abbreviation typing_run :: "nat \<Rightarrow> nat \<Rightarrow> (unit, string) timed_event list \<Rightarrow>
    clar_form \<times> (unit, string) debounced \<Rightarrow> (clar_form \<times> (unit, string) debounced) option" where
  "typing_run late \<equiv> timed_run late (\<lambda>p. map_option fst (deb_timer (snd p))) keyup_event"

definition texts :: "(nat \<times> string) list \<Rightarrow> string list" where
  "texts log = filter (\<lambda>m. m \<noteq> []) (map snd log)"

lemma typing_paused_times:
  "keyup_handlers f = 1 \<Longrightarrow> (typing_paused ^^ n) f = f\<lparr>preview_posts := preview_posts f @
     (if message_text f \<noteq> [] then replicate n (message_text f) else [])\<rparr>"
  by (induction n) (simp_all add: typing_paused_def preview_times previewClarification_def replicate_append_same)

lemma typing_is_debounced:
  assumes "typing_run late now es (f, s) = Some (f', s')" and "keyup_handlers f = 1"
    and "case deb_timer s of None \<Rightarrow> True | Some (due, m) \<Rightarrow> message_text f = m"
  shows "debounced_run late 250 False now es s = Some s' \<and>
    (\<exists>log. deb_log s' = deb_log s @ log \<and>
       preview_posts f' = preview_posts f @ texts (passed_on log))"
  using assms
proof (induction es arbitrary: now f s)
  case (Cons e es)
  obtain f1 s1 where step: "keyup_event e (f, s) = (f1, s1)" by (cases "keyup_event e (f, s)") 
  have run: "now \<le> event_time e" "timely late (map_option fst (deb_timer s)) e"
    "typing_run late (event_time e) es (f1, s1) = Some (f', s')"
    using Cons.prems(1) step by (auto split: if_splits)
  have s1: "s1 = debounced_event 250 False e s" using step by (simp add: keyup_event_def Let_def)
  have handlers: "keyup_handlers f1 = 1"
    using step Cons.prems(2)
    by (cases e) (auto simp: keyup_event_def typing_paused_times Let_def simp del: One_nat_def)
  have timer: "case deb_timer s1 of None \<Rightarrow> True | Some (due, m) \<Rightarrow> message_text f1 = m"
    using step Cons.prems(2) by (cases e) (auto simp: keyup_event_def typing_paused_times debounced_defs split: option.splits)
  obtain log where log: "deb_log s' = deb_log s1 @ log" "preview_posts f' = preview_posts f1 @ texts (passed_on log)"
    and "debounced_run late 250 False (event_time e) es s1 = Some s'"
    using Cons.IH [OF run(3) handlers timer] by blast
  moreover obtain new where "deb_log s1 = deb_log s @ new" "preview_posts f1 = preview_posts f @ texts (passed_on new)"
  proof (cases e)
    case (Called t c m)
    show ?thesis using that [of "[]"] step Called Cons.prems(2)
      by (auto simp: keyup_event_def typing_paused_times debounced_defs texts_def split: option.splits)
  next
    case (Fired t)
    show ?thesis
      using that [of "case (deb_this s, deb_timer s) of (Some c, Some (due, m)) \<Rightarrow> [(t, c, m)] | _ \<Rightarrow> []"]
        step Fired Cons.prems(2,3)
      by (auto simp: keyup_event_def typing_paused_times debounced_defs texts_def split: option.splits)
  qed
  ultimately show ?case using run s1 by (auto simp: texts_def)
qed (auto simp: texts_def)

text \<open>
  C15. Typing a clarification on a page just loaded: whatever the times at which keys are released, once nothing is pending any
  more the messages sent to be previewed, after the first if one was asked for, are the texts the
  field had when the typing had paused for a quarter of a second, without the empty ones, in order.
\<close>

theorem preview_after_pauses:
  assumes "keyup_handlers f = 0" "preview_posts f = []"
    and "typing_run late now es (setupPreviewClarification initial f, debounce None) = Some (f', s)"
    and "deb_timer s = None"
  shows "after_pauses late 250 (calls es) (passed_on (deb_log s)) \<and>
    preview_posts f' = (if initial \<and> message_text f \<noteq> [] then [message_text f] else []) @
      texts (passed_on (deb_log s))"
proof -
  have "debounced_run late 250 False now es (debounce None) = Some s \<and>
    (\<exists>log. deb_log s = deb_log (debounce None :: (unit, string) debounced) @ log \<and>
       preview_posts f' = preview_posts (setupPreviewClarification initial f) @ texts (passed_on log))"
    using assms(3) by (rule typing_is_debounced) (use assms(1) in \<open>simp_all add: debounce_def setupPreviewClarification_def previewClarification_def\<close>)
  moreover have "preview_posts (setupPreviewClarification initial f) =
      (if initial \<and> message_text f \<noteq> [] then [message_text f] else [])"
    using assms(2) by (simp add: setupPreviewClarification_def previewClarification_def Let_def)
  ultimately show ?thesis using debounce_passes_on [of late 250 False now es None s] assms(4)
    by (simp add: debounce_def)
qed

theorem preview_after_pauses_witness:
  "after_pauses 10 250 [(0, ''a''), (100, ''ab''), (500, [])] [(355, ''ab''), (750, [])] \<and>
   texts [(355, ''ab''), (750, [])] = [''ab'']"
  using preview_after_pauses
    [of "\<lparr>clar_answer = [], clar_selected = [], message_text = [], preview_html = [], preview_posts = [],
          keyup_handlers = 0\<rparr>" 10 0
       "[Called 0 () ''a'', Called 100 () ''ab'', Fired 355, Called 500 () [], Fired 750]" True
       "\<lparr>clar_answer = [], clar_selected = [], message_text = [], preview_html = [], preview_posts = [''ab''],
          keyup_handlers = 1\<rparr>"
       "\<lparr>deb_this = Some (), deb_timer = None, deb_log = [(355, (), ''ab''), (750, (), [])]\<rparr>"]
  by (simp add: debounce_def debounced_defs keyup_event_def typing_paused_def setupPreviewClarification_def
      previewClarification_def texts_def)

end
