(* ===== verification/Dialogs.thy ===== *)
theory Dialogs
  imports Browser
begin

text \<open>
  The dialogs of \<open>webapp/public/js/domjudge.js\<close>: \<open>initializeAjaxModals\<close>, which loads a dialog from the
  server and takes it away when it is closed, and the list of submissions behind a cell of the
  scoreboard (\<open>initScoreboardSubmissions\<close>, \<open>loadSubmissions\<close>). Showing and hiding a dialog is
  Bootstrap's; here they are events.
\<close>

section \<open>Dialogs loaded from the server\<close>

text \<open>A dialog in the page: its number, its markup, and whether closing it removes it.\<close>

record modal =
  modal_id :: nat
  modal_html :: string
  removed_on_hide :: bool

record dialog_page =
  modals :: "modal list"
  next_modal :: nat
  hook_names :: "string list"
  dl_browser :: browser

text \<open>A click on a \<open>[data-ajax-modal]\<close> element; the second component: may the browser follow the link?\<close>

definition modal_click :: "string option \<Rightarrow> dialog_page \<Rightarrow> dialog_page \<times> bool" where
  "modal_click target p = (case target of
       None \<Rightarrow> (p, True)
     | Some url \<Rightarrow> if url = [] then (p, True)
         else (p\<lparr>dl_browser := emit (AjaxGet url) (dl_browser p)\<rparr>, False))"

text \<open>The answer to it; the second component is the exception that ended the callback, if one did.\<close>

definition modal_done ::
  "string option \<Rightarrow> string \<Rightarrow> string option \<Rightarrow> dialog_page \<Rightarrow> dialog_page \<times> js_error option" where
  "modal_done login data modal_after p = (case login of
       Some (c # cs) \<Rightarrow> (p\<lparr>dl_browser := emit (Navigate (c # cs)) (dl_browser p)\<rparr>, None)
     | _ \<Rightarrow>
         let n = next_modal p;
             p = p\<lparr>modals := modals p @ [\<lparr>modal_id = n, modal_html = data, removed_on_hide = False\<rparr>],
                   next_modal := Suc n\<rparr>;
             hide = (\<lambda>p. p\<lparr>modals := map (\<lambda>m. if modal_id m = n then m\<lparr>removed_on_hide := True\<rparr> else m) (modals p)\<rparr>)
         in (case modal_after of
               Some (f # fs) \<Rightarrow>
                 if f # fs \<in> set (hook_names p)
                 then (hide (p\<lparr>dl_browser := emit (CallHook (f # fs)) (dl_browser p)\<rparr>), None)
                 else (p, Some TypeError)
             | _ \<Rightarrow> (hide p, None)))"

definition modal_hidden :: "nat \<Rightarrow> dialog_page \<Rightarrow> dialog_page" where
  "modal_hidden n p = p\<lparr>modals := filter (\<lambda>m. \<not> (modal_id m = n \<and> removed_on_hide m)) (modals p)\<rparr>"

text \<open>The answer to the POST of a button of a dialog.\<close>

definition modal_button_done :: "string \<Rightarrow> dialog_page \<Rightarrow> dialog_page" where
  "modal_button_done url p = p\<lparr>dl_browser := emit (Navigate url) (dl_browser p)\<rparr>"

definition modals_known :: "dialog_page \<Rightarrow> bool" where
  "modals_known p = (\<forall>m \<in> set (modals p). modal_id m < next_modal p)"

text \<open>
  A dialog that was loaded is in the page exactly until it is closed: the other dialogs are as
  before, and so is the page afterwards. If the function named to be called after loading does not
  exist, the exception leaves the dialog in the page even when it has been closed.
\<close>

theorem modal_life:
  assumes "modals_known p" "login = None \<or> login = Some []"
  shows "let (p', e) = modal_done login data after p;
      missing = (\<exists>f. after = Some f \<and> f \<noteq> [] \<and> f \<notin> set (hook_names p)) in
    modals_known p' \<and> length (modals p') = Suc (length (modals p)) \<and>
    (e = None \<longleftrightarrow> \<not> missing) \<and>
    modals (modal_hidden (next_modal p) p') = (if missing then modals p' else modals p)"
proof -
  define m where "m = \<lparr>modal_id = next_modal p, modal_html = data, removed_on_hide = False\<rparr>"
  have other: "map (\<lambda>x. if modal_id x = next_modal p then x\<lparr>removed_on_hide := True\<rparr> else x) (modals p) = modals p"
    "filter (\<lambda>x. \<not> (modal_id x = next_modal p \<and> removed_on_hide x)) (modals p) = modals p"
    using assms(1) by (auto simp: modals_known_def intro!: map_idI filter_True)
  have known: "\<forall>x \<in> set (modals p). modal_id x < Suc (next_modal p)"
    using assms(1) by (auto simp: modals_known_def)
  consider "after = None \<or> after = Some []" | f fs where "after = Some (f # fs)"
    by (metis list.exhaust option.exhaust)
  then show ?thesis
  proof cases
    case 1
    then show ?thesis using assms(2) other known
      by (auto simp: modal_done_def modal_hidden_def modals_known_def Let_def)
  next
    case (2 f fs)
    then show ?thesis using assms(2) other known
      by (cases "f # fs \<in> set (hook_names p)")
        (auto simp: modal_done_def modal_hidden_def modals_known_def Let_def)
  qed
qed

definition example_dialogs :: dialog_page where
  "example_dialogs = \<lparr>modals = [], next_modal = 0, hook_names = [], dl_browser = blank_browser\<rparr>"

theorem modal_life_witness:
  "modals (modal_hidden 0 (fst (modal_done None ''<div>'' None example_dialogs))) = []"
  using modal_life [of example_dialogs None "''<div>''" None]
  by (simp add: example_dialogs_def modals_known_def Let_def case_prod_beta)

section \<open>The submissions of a cell\<close>

record sub_item =
  time :: string
  language :: string
  verdict :: string

text \<open>The answer: by \<open>team-\<close> key, then by \<open>problem-\<close> key; \<open>None\<close> where a property is missing.\<close>

type_synonym sub_data = "(string \<Rightarrow> (string \<Rightarrow> sub_item list option) option) option"

datatype part = Markup string | SubmissionTable "sub_item list"

record display =
  spinner :: bool
  parts :: "part list"

definition cell_of :: "string \<Rightarrow> string \<Rightarrow> sub_data \<Rightarrow> sub_item list option" where
  "cell_of teamId problemId data = (case data of
       None \<Rightarrow> None
     | Some by_team \<Rightarrow> (case by_team (''team-'' @ teamId) of
         None \<Rightarrow> None
       | Some by_problem \<Rightarrow> by_problem (''problem-'' @ problemId)))"

text \<open>The rows of the table, one per submission, appended in a loop.\<close>

fun fill_table :: "sub_item list \<Rightarrow> sub_item list \<Rightarrow> sub_item list" where
  "fill_table [] table = table"
| "fill_table (s # ss) table =
     fill_table ss (table @ [\<lparr>time = time s, language = language s, verdict = verdict s\<rparr>])"

definition loadSubmissions :: "string \<Rightarrow> string \<Rightarrow> string \<Rightarrow> sub_data \<Rightarrow> display \<Rightarrow> display" where
  "loadSubmissions empty_html teamId problemId data d =
     (case cell_of teamId problemId data of
        None \<Rightarrow> d
      | Some subs \<Rightarrow>
          if length subs = 0 then d\<lparr>spinner := False, parts := [Markup empty_html]\<rparr>
          else d\<lparr>spinner := False, parts := parts d @ [SubmissionTable (fill_table subs [])]\<rparr>)"

lemma fill_table_eq: "fill_table ss t = t @ ss"
  by (induction ss t rule: fill_table.induct) simp_all

text \<open>A dialog of submissions: a copy of the page's template, filled for one cell.\<close>

record sub_modal =
  sm_id :: nat
  sm_team :: string
  sm_badge :: string
  sm_problem :: string
  sm_cell :: "string \<times> string"
  sm_body :: display

record score_page =
  team_names :: "string \<Rightarrow> string option"
  problem_badges :: "string \<Rightarrow> string option"
  problem_names :: "string \<Rightarrow> string option"
  template_body :: display
  sub_modals :: "sub_modal list"
  next_sub :: nat

text \<open>\<open>html\<close> of \<open>undefined\<close> writes nothing: the template's text, here empty, stays.\<close>

definition html_or :: "string option \<Rightarrow> string" where
  "html_or v = (case v of None \<Rightarrow> [] | Some h \<Rightarrow> h)"

definition submissions_click :: "string \<Rightarrow> string \<Rightarrow> score_page \<Rightarrow> score_page" where
  "submissions_click teamId problemId p =
     p\<lparr>sub_modals := sub_modals p @ [\<lparr>sm_id = next_sub p, sm_team = html_or (team_names p teamId),
         sm_badge = html_or (problem_badges p problemId), sm_problem = html_or (problem_names p problemId),
         sm_cell = (teamId, problemId), sm_body = template_body p\<rparr>],
       next_sub := Suc (next_sub p)\<rparr>"

text \<open>The dialog has been shown, and the answer to the request this makes has arrived.\<close>

definition submissions_shown :: "string \<Rightarrow> sub_data \<Rightarrow> nat \<Rightarrow> score_page \<Rightarrow> score_page" where
  "submissions_shown empty_html data n p = p\<lparr>sub_modals := map (\<lambda>m. if sm_id m = n
     then m\<lparr>sm_body := loadSubmissions empty_html (fst (sm_cell m)) (snd (sm_cell m)) data (sm_body m)\<rparr>
     else m) (sub_modals p)\<rparr>"

definition submissions_hidden :: "nat \<Rightarrow> score_page \<Rightarrow> score_page" where
  "submissions_hidden n p = p\<lparr>sub_modals := filter (\<lambda>m. sm_id m \<noteq> n) (sub_modals p)\<rparr>"

text \<open>
  A click on a cell of the scoreboard opens a dialog with the cell's team and problem; once the
  answer has arrived it lists exactly the submissions of that cell in their order, or the text for
  none, with the spinner gone (and still the spinner if the answer has no such cell). The other
  dialogs do not change, and closing it gives them back.
\<close>

theorem cell_submissions:
  assumes "\<forall>m \<in> set (sub_modals p). sm_id m < next_sub p"
    and "p' = submissions_shown none data (next_sub p) (submissions_click t q p)"
  shows "butlast (sub_modals p') = sub_modals p \<and>
    (sm_team (last (sub_modals p')), sm_problem (last (sub_modals p'))) =
      (html_or (team_names p t), html_or (problem_names p q)) \<and>
    sm_body (last (sub_modals p')) = (case cell_of t q data of
        None \<Rightarrow> template_body p
      | Some [] \<Rightarrow> (template_body p)\<lparr>spinner := False, parts := [Markup none]\<rparr>
      | Some subs \<Rightarrow> (template_body p)\<lparr>spinner := False,
          parts := parts (template_body p) @ [SubmissionTable subs]\<rparr>) \<and>
    sub_modals (submissions_hidden (next_sub p) p') = sub_modals p"
proof -
  have "map (\<lambda>m. if sm_id m = next_sub p then f m else m) (sub_modals p) = sub_modals p" for f
    using assms(1) by (intro map_idI) auto
  moreover have "filter (\<lambda>m. sm_id m \<noteq> next_sub p) (sub_modals p) = sub_modals p"
    using assms(1) by (intro filter_True) auto
  ultimately show ?thesis
    by (simp add: assms(2) submissions_shown_def submissions_click_def submissions_hidden_def
        loadSubmissions_def fill_table_eq split: option.split list.split)
qed

definition example_score_page :: score_page where
  "example_score_page = \<lparr>team_names = (\<lambda>_. None)(''exteam'' \<mapsto> ''The Exteam''), problem_badges = (\<lambda>_. None),
     problem_names = (\<lambda>_. None)(''A'' \<mapsto> ''Addition''), template_body = \<lparr>spinner = True, parts = []\<rparr>,
     sub_modals = [], next_sub = 0\<rparr>"

theorem cell_submissions_witness:
  "sm_body (last (sub_modals (submissions_shown ''none'' (Some ((\<lambda>_. None)(''team-exteam'' \<mapsto>
       (\<lambda>_. None)(''problem-A'' \<mapsto> [\<lparr>time = ''0:12'', language = ''C++'', verdict = ''correct''\<rparr>])))) 0
     (submissions_click ''exteam'' ''A'' example_score_page)))) =
   \<lparr>spinner = False, parts = [SubmissionTable [\<lparr>time = ''0:12'', language = ''C++'', verdict = ''correct''\<rparr>]]\<rparr>"
  using cell_submissions [of example_score_page _ "''none''" "Some ((\<lambda>_. None)(''team-exteam'' \<mapsto>
       (\<lambda>_. None)(''problem-A'' \<mapsto> [\<lparr>time = ''0:12'', language = ''C++'', verdict = ''correct''\<rparr>])))"
      "''exteam''" "''A''"]
  by (simp add: example_score_page_def cell_of_def)

end
