(* ===== verification/Versions.thy ===== *)
theory Versions
  imports JsString Prelude
begin

text \<open>
  The version switcher of the manual, \<open>doc/manual/_static/js/versionswitcher.js\<close>: the list of
  versions it builds when the page has loaded, and the address it goes to for a version.
\<close>

section \<open>The address\<close>

text \<open>One round of the loop: the address up to its last slash, all of it if there is none.\<close>

definition up_to_slash :: "string \<Rightarrow> string" where
  "up_to_slash url = (case last_index_of (CHR ''/'') url of None \<Rightarrow> url | Some to \<Rightarrow> take to url)"

definition versionChange :: "string \<Rightarrow> string \<Rightarrow> string" where
  "versionChange value url = (up_to_slash ^^ 2) url @ ''/'' @ value @ ''/index.html''"

lemma up_to_slash_part: "CHR ''/'' \<notin> set y \<Longrightarrow> up_to_slash (x @ ''/'' @ y) = x"
  by (simp add: up_to_slash_def last_index_of_append)

text \<open>
  From any page of a version of the manual the switcher goes to the overview of the chosen
  version; and from there, switching again, to that of the next one, beside the first.
\<close>

theorem version_switch:
  assumes "CHR ''/'' \<notin> set old" "CHR ''/'' \<notin> set page" "CHR ''/'' \<notin> set v"
  shows "versionChange v (base @ ''/'' @ old @ ''/'' @ page) = base @ ''/'' @ v @ ''/index.html'' \<and>
    versionChange w (versionChange v (base @ ''/'' @ old @ ''/'' @ page)) = base @ ''/'' @ w @ ''/index.html''"
proof -
  have two: "(up_to_slash ^^ 2) (base @ ''/'' @ o' @ ''/'' @ p) = base"
    if "CHR ''/'' \<notin> set o'" "CHR ''/'' \<notin> set p" for o' p
    using that up_to_slash_part [of p "base @ ''/'' @ o'"] up_to_slash_part [of o' base]
    by (simp add: numeral_2_eq_2)
  have "CHR ''/'' \<notin> set ''index.html''" by simp
  from two [OF assms(3) this] two [OF assms(1,2)] show ?thesis
    unfolding versionChange_def by (simp only: append_assoc) simp
qed

theorem version_switch_witness:
  "versionChange ''8.2'' ''https://www.domjudge.org/docs/manual/main/overview.html''
     = ''https://www.domjudge.org/docs/manual/8.2/index.html''"
  using version_switch [of "''main''" "''overview.html''" "''8.2''" "''https://www.domjudge.org/docs/manual''"]
  by simp

section \<open>The list of versions\<close>

text \<open>
  A list of choices, and its value: setting a value that is no choice gives the empty text.
\<close>

record select_list =
  options :: "string list"
  sel_value :: string

definition set_value :: "string \<Rightarrow> select_list \<Rightarrow> select_list" where
  "set_value v sl = sl\<lparr>sel_value := (if v \<in> set (options sl) then v else [])\<rparr>"

text \<open>
  The page: the content of its first element of class \<open>version\<close>, if there is one, and the list put
  into it.
\<close>

record manual_page =
  version_html :: "string option"
  version_list :: "select_list option"

fun add_options :: "string list \<Rightarrow> select_list \<Rightarrow> select_list" where
  "add_options [] sl = sl"
| "add_options (v # vs) sl = add_options vs (sl\<lparr>options := options sl @ [v]\<rparr>)"

definition onreadystatechange :: "nat \<Rightarrow> nat \<Rightarrow> string list \<Rightarrow> manual_page \<Rightarrow> manual_page outcome" where
  "onreadystatechange readyState status availableVersions p =
     (if readyState = 4 \<and> status = 200 then
        (case version_html p of
           None \<Rightarrow> Inl TypeError
         | Some html \<Rightarrow>
             let currentVersion = trim html;
                 selectList = add_options availableVersions \<lparr>options = [], sel_value = []\<rparr>;
                 selectList = set_value currentVersion selectList
             in Inr (p\<lparr>version_html := Some [], version_list := Some selectList\<rparr>))
      else Inr p)"

lemma add_options_eq: "add_options vs sl = sl\<lparr>options := options sl @ vs\<rparr>"
  by (induction vs sl rule: add_options.induct) simp_all

text \<open>
  The switcher offers exactly the available versions, in their order, with the version of the page
  (without the white space around it) selected if it is one of them and nothing selected otherwise;
  it changes the page only when the whole answer has arrived with status 200.
\<close>

theorem version_list_offered:
  "onreadystatechange 4 200 vs \<lparr>version_html = Some html, version_list = l\<rparr> =
     Inr \<lparr>version_html = Some [], version_list = Some \<lparr>options = vs,
       sel_value = (if trim html \<in> set vs then trim html else [])\<rparr>\<rparr> \<and>
   onreadystatechange 4 200 vs \<lparr>version_html = None, version_list = l\<rparr> = Inl TypeError \<and>
   ((rs, st) \<noteq> (4, 200) \<longrightarrow> onreadystatechange rs st vs p = Inr p)"
  by (auto simp: onreadystatechange_def add_options_eq set_value_def Let_def)

theorem version_list_offered_witness:
  "onreadystatechange 2 200 [''main''] \<lparr>version_html = Some ''main'', version_list = None\<rparr> =
     Inr \<lparr>version_html = Some ''main'', version_list = None\<rparr>"
  using version_list_offered [of "[''main'']" "''main''" None 2 200
      "\<lparr>version_html = Some ''main'', version_list = None\<rparr>"] by simp

end
