(* ===== verification/ToggleSwitch.thy ===== *)
theory ToggleSwitch
  imports Prelude
begin

text \<open>
  The switches of the jury pages (\<open>bootstrap-toggle.min.js\<close>): a checkbox that is wrapped in an element
  whose classes show its state. The plugin's methods, its handlers, and the clicks as the browser
  carries them out: on the switch, on a label of the checkbox, with or without the \<open>onclick\<close> that the
  configuration page gives to its labels.
\<close>

section \<open>Classes of an element\<close>

definition class_space :: "char \<Rightarrow> bool" where
  "class_space c = (c \<in> {CHR '' '', CHR 0x09, CHR 0x0A, CHR 0x0C, CHR 0x0D})"

text \<open>The words of a \<open>class\<close> argument; \<open>w\<close> holds the letters read so far.\<close>

fun class_words_from :: "string \<Rightarrow> string \<Rightarrow> string list" where
  "class_words_from w [] = (if w = [] then [] else [w])"
| "class_words_from w (c # cs) =
     (if class_space c then (if w = [] then [] else [w]) @ class_words_from [] cs
      else class_words_from (w @ [c]) cs)"

definition class_words :: "string \<Rightarrow> string list" where
  "class_words = class_words_from []"

definition addClass :: "string list \<Rightarrow> string list \<Rightarrow> string list" where
  "addClass new cs = fold (\<lambda>c cs. if c \<in> set cs then cs else cs @ [c]) new cs"

definition removeClass :: "string list \<Rightarrow> string list \<Rightarrow> string list" where
  "removeClass old cs = filter (\<lambda>c. c \<notin> set old) cs"

lemma set_addClass [simp]: "set (addClass new cs) = set new \<union> set cs"
  unfolding addClass_def by (induction new arbitrary: cs) auto

lemma set_removeClass [simp]: "set (removeClass old cs) = set cs - set old"
  unfolding removeClass_def by auto

section \<open>The switch\<close>

text \<open>The options, by name; \<open>None\<close> stands for \<open>null\<close>.\<close>

type_synonym toggle_options = "string \<rightharpoonup> string"

record widget =
  onstyle_words :: "string list"          \<comment> \<open>\<open>_onstyle\<close>\<close>
  offstyle_words :: "string list"         \<comment> \<open>\<open>_offstyle\<close>\<close>
  toggle_class :: "string list"           \<comment> \<open>the classes of \<open>$toggle\<close>\<close>
  toggle_disabled :: bool                 \<comment> \<open>the attribute \<open>disabled\<close> of \<open>$toggle\<close>\<close>
  label_on :: "string \<times> string list"      \<comment> \<open>\<open>$toggleOn\<close>: content and classes\<close>
  label_off :: "string \<times> string list"     \<comment> \<open>\<open>$toggleOff\<close>\<close>
  handle_class :: "string list"

text \<open>
  A checkbox with its attributes, the switch if it has one, the number of the plugin's handlers of
  \<open>change\<close>, and what the page's own handler of \<open>change\<close> has seen: the state at each event.
\<close>

record switch =
  attribute :: "string \<rightharpoonup> string"
  checked :: bool
  disabled :: bool
  widget :: "widget option"               \<comment> \<open>\<open>data("bs.toggle")\<close>\<close>
  listeners :: nat                        \<comment> \<open>handlers \<open>change.bs.toggle\<close>\<close>
  changes :: "bool list"

definition DEFAULTS :: toggle_options where
  "DEFAULTS = [''on'' \<mapsto> ''On'', ''off'' \<mapsto> ''Off'', ''onstyle'' \<mapsto> ''primary'', ''offstyle'' \<mapsto> ''default'',
     ''size'' \<mapsto> ''normal'', ''style'' \<mapsto> []]"

text \<open>An attribute that is missing or empty gives way to the default.\<close>

definition defaults :: "(string \<rightharpoonup> string) \<Rightarrow> toggle_options" where
  "defaults attr k =
     (case attr (''data-'' @ k) of
        None \<Rightarrow> DEFAULTS k
      | Some v \<Rightarrow> if v = [] then DEFAULTS k else Some v)"

definition option_text :: "toggle_options \<Rightarrow> string \<Rightarrow> string" where
  "option_text opts k = (case opts k of None \<Rightarrow> ''null'' | Some v \<Rightarrow> v)"

definition size_class :: "string \<Rightarrow> string" where
  "size_class sz =
     (if sz = ''large'' then ''btn-lg'' else if sz = ''small'' then ''btn-sm''
      else if sz = ''mini'' then ''btn-xs'' else [])"

section \<open>The methods\<close>

text \<open>The event \<open>change\<close> as \<open>trigger\<close> fires it, when only the page's own handler is left.\<close>

definition trigger :: "bool \<Rightarrow> switch \<Rightarrow> switch" where
  "trigger silent s =
     (let s = s\<lparr>listeners := 0\<rparr>;
          s = (if silent then s else s\<lparr>changes := changes s @ [checked s]\<rparr>)
      in s\<lparr>listeners := Suc (listeners s)\<rparr>)"

definition with_widget :: "(widget \<Rightarrow> widget) \<Rightarrow> switch \<Rightarrow> switch" where
  "with_widget f s = s\<lparr>widget := map_option f (widget s)\<rparr>"

definition toggle_on :: "bool \<Rightarrow> switch \<Rightarrow> switch" where
  "toggle_on silent s =
     (if disabled s then s
      else
        let s = with_widget (\<lambda>w. w\<lparr>toggle_class :=
                  addClass (onstyle_words w) (removeClass (offstyle_words w @ [''off'']) (toggle_class w))\<rparr>) s;
            s = s\<lparr>checked := True\<rparr>
        in if silent then s else trigger False s)"

definition toggle_off :: "bool \<Rightarrow> switch \<Rightarrow> switch" where
  "toggle_off silent s =
     (if disabled s then s
      else
        let s = with_widget (\<lambda>w. w\<lparr>toggle_class :=
                  addClass (offstyle_words w @ [''off'']) (removeClass (onstyle_words w) (toggle_class w))\<rparr>) s;
            s = s\<lparr>checked := False\<rparr>
        in if silent then s else trigger False s)"

definition toggle_toggle :: "switch \<Rightarrow> switch" where
  "toggle_toggle s = (if checked s then toggle_off False s else toggle_on False s)"

definition toggle_enable :: "switch \<Rightarrow> switch" where
  "toggle_enable s = (with_widget (\<lambda>w. w\<lparr>toggle_disabled := False\<rparr>) s)\<lparr>disabled := False\<rparr>"

definition toggle_disable :: "switch \<Rightarrow> switch" where
  "toggle_disable s = (with_widget (\<lambda>w. w\<lparr>toggle_disabled := True\<rparr>) s)\<lparr>disabled := True\<rparr>"

definition toggle_update :: "bool \<Rightarrow> switch \<Rightarrow> switch" where
  "toggle_update silent s =
     (let s = (if disabled s then toggle_disable s else toggle_enable s)
      in if checked s then toggle_on silent s else toggle_off silent s)"

definition toggle_destroy :: "switch \<Rightarrow> switch" where
  "toggle_destroy s = s\<lparr>listeners := 0, widget := None\<rparr>"

definition render :: "toggle_options \<Rightarrow> switch \<Rightarrow> switch" where
  "render opts s =
     (let onstyle = class_words (''btn-'' @ option_text opts ''onstyle'');
          offstyle = class_words (''btn-'' @ option_text opts ''offstyle'');
          b = class_words (size_class (option_text opts ''size''));
          s = s\<lparr>widget := Some
                \<lparr>onstyle_words = onstyle,
                 offstyle_words = offstyle,
                 toggle_class =
                   addClass (class_words (option_text opts ''style'')) (addClass b
                     (addClass (if checked s then onstyle else offstyle @ [''off'']) [''toggle'', ''btn''])),
                 toggle_disabled = False,
                 label_on = (option_text opts ''on'', addClass [''toggle-on''] (addClass (onstyle @ b) [''btn''])),
                 label_off = (option_text opts ''off'',
                   addClass [''toggle-off''] (addClass (offstyle @ b @ [''active'']) [''btn''])),
                 handle_class = addClass b [''toggle-handle'', ''btn'', ''btn-default'']\<rparr>\<rparr>
      in trigger True (toggle_update True s))"

text \<open>The plugin as it is called, with an object of options or the name of a method, or neither.\<close>

datatype plugin_argument =
    No_Argument
  | Options toggle_options
  | Toggle | On | Off | Enable | Disable | Update | Destroy

definition bootstrapToggle :: "plugin_argument \<Rightarrow> switch \<Rightarrow> switch" where
  "bootstrapToggle b s =
     (let f = (case b of Options opts \<Rightarrow> opts | _ \<Rightarrow> Map.empty);
          s = (if widget s = None then render (defaults (attribute s) ++ f) s else s)
      in case b of
           Toggle \<Rightarrow> toggle_toggle s
         | On \<Rightarrow> toggle_on False s
         | Off \<Rightarrow> toggle_off False s
         | Enable \<Rightarrow> toggle_enable s
         | Disable \<Rightarrow> toggle_disable s
         | Update \<Rightarrow> toggle_update False s
         | Destroy \<Rightarrow> toggle_destroy s
         | _ \<Rightarrow> s)"

section \<open>Events\<close>

text \<open>A \<open>change\<close> that the page's code fires: its own handler sees it, and each handler of the plugin updates.\<close>

definition change_event :: "switch \<Rightarrow> switch" where
  "change_event s = (toggle_update False ^^ listeners s) (s\<lparr>changes := changes s @ [checked s]\<rparr>)"

text \<open>The handler of clicks inside of the wrapping element, which also prevents the default action.\<close>

definition click_toggle :: "switch \<Rightarrow> switch" where
  "click_toggle s = bootstrapToggle Toggle s"

text \<open>
  A click on the checkbox itself: the browser switches it first, then runs the handlers. If they
  prevent the default action the state is put back, otherwise \<open>change\<close> is fired. Only a checkbox
  that is wrapped has such a handler above it.
\<close>

definition click_checkbox :: "switch \<Rightarrow> switch" where
  "click_checkbox s =
     (if disabled s then s
      else
        let before = checked s;
            s = s\<lparr>checked := \<not> before\<rparr>
        in if widget s = None then change_event s
           else (click_toggle s)\<lparr>checked := before\<rparr>)"

text \<open>
  A click on a label of the checkbox: its \<open>onclick\<close>, if it has one, switches; then the browser clicks
  on the checkbox.
\<close>

definition click_label :: "bool \<Rightarrow> switch \<Rightarrow> switch" where
  "click_label onclick s = click_checkbox (if onclick then bootstrapToggle Toggle s else s)"

datatype switch_event =
    Plugin plugin_argument | Change_Fired | Clicked | Checkbox_Clicked | Label_Clicked bool

fun switch_step :: "switch_event \<Rightarrow> switch \<Rightarrow> switch" where
  "switch_step (Plugin b) s = bootstrapToggle b s"
| "switch_step Change_Fired s = change_event s"
| "switch_step Clicked s = (if widget s = None then s else click_toggle s)"
| "switch_step Checkbox_Clicked s = click_checkbox s"
| "switch_step (Label_Clicked onclick) s = click_label onclick s"

section \<open>What the switch shows\<close>

text \<open>
  The classes, the attribute \<open>disabled\<close> and the handler agree with the checkbox. A style that contains
  the class \<open>off\<close> would confuse them; it comes from the options only.
\<close>

definition plain_options :: "toggle_options \<Rightarrow> bool" where
  "plain_options opts =
     (''off'' \<notin> set (class_words (''btn-'' @ option_text opts ''onstyle'')) \<and>
      ''off'' \<notin> set (class_words (option_text opts ''style'')))"

definition shows_state :: "switch \<Rightarrow> widget \<Rightarrow> bool" where
  "shows_state s w =
     ((''off'' \<in> set (toggle_class w)) = (\<not> checked s) \<and>
      set (if checked s then onstyle_words w else offstyle_words w) \<subseteq> set (toggle_class w))"

definition agrees :: "switch \<Rightarrow> bool" where
  "agrees s =
     (case widget s of
        None \<Rightarrow> listeners s = 0
      | Some w \<Rightarrow> listeners s = 1 \<and> ''off'' \<notin> set (onstyle_words w) \<and>
          shows_state s w \<and> toggle_disabled w = disabled s)"

definition options_given :: "switch_event \<Rightarrow> toggle_options" where
  "options_given e = (case e of Plugin (Options opts) \<Rightarrow> opts | _ \<Rightarrow> Map.empty)"

definition switch_start :: "switch \<Rightarrow> bool" where
  "switch_start s = (widget s = None \<and> listeners s = 0 \<and> plain_options (defaults (attribute s)))"

definition switch_inv :: "switch \<Rightarrow> bool" where
  "switch_inv s = (plain_options (defaults (attribute s)) \<and> agrees s)"

definition switch_moves :: "switch \<Rightarrow> switch_event \<Rightarrow> switch \<Rightarrow> bool" where
  "switch_moves s e t = (plain_options (defaults (attribute s) ++ options_given e) \<and> t = switch_step e s)"

lemmas toggle_defs = toggle_on_def toggle_off_def toggle_toggle_def toggle_enable_def toggle_disable_def
  toggle_update_def toggle_destroy_def trigger_def with_widget_def Let_def

lemma attribute_kept [simp]:
  "attribute (toggle_on silent s) = attribute s" "attribute (toggle_off silent s) = attribute s"
  "attribute (toggle_toggle s) = attribute s" "attribute (toggle_enable s) = attribute s"
  "attribute (toggle_disable s) = attribute s" "attribute (toggle_update silent s) = attribute s"
  "attribute (trigger silent s) = attribute s" "attribute (toggle_destroy s) = attribute s"
  "attribute (render opts s) = attribute s"
  by (simp_all add: toggle_defs render_def)

lemma attribute_bootstrapToggle [simp]: "attribute (bootstrapToggle b s) = attribute s"
  by (cases b) (simp_all add: bootstrapToggle_def Let_def)

lemma attribute_updates [simp]: "attribute ((toggle_update False ^^ n) s) = attribute s"
  by (induction n) simp_all

lemma attribute_step [simp]: "attribute (switch_step e s) = attribute s"
  by (cases e) (simp_all add: change_event_def click_checkbox_def click_toggle_def click_label_def Let_def)

text \<open>Every method keeps the agreement, and a new switch has it.\<close>

lemma agrees_methods:
  assumes "agrees s" "widget s \<noteq> None"
  shows "agrees (toggle_on False s)" "agrees (toggle_off False s)" "agrees (toggle_toggle s)"
    "agrees (toggle_enable s)" "agrees (toggle_disable s)" "agrees (toggle_update False s)"
    "agrees (toggle_destroy s)"
  using assms by (auto simp: agrees_def shows_state_def toggle_defs split: option.splits)

lemma render_widget: "\<exists>w. widget (render opts s) = Some w"
  by (simp add: render_def toggle_defs)

lemma agrees_render: "plain_options opts \<Longrightarrow> agrees (render opts s)"
  by (auto simp: agrees_def shows_state_def render_def toggle_defs plain_options_def size_class_def
      class_words_def class_space_def)

lemma agrees_method:
  assumes "agrees s" "widget s \<noteq> None"
  shows "agrees (bootstrapToggle b s)"
  using agrees_methods [OF assms] assms by (cases b) (auto simp: bootstrapToggle_def Let_def)

text \<open>A method called on a checkbox without a switch makes one first.\<close>

lemma bootstrapToggle_renders:
  "widget s = None \<Longrightarrow> bootstrapToggle b s =
     bootstrapToggle b (render (defaults (attribute s) ++ options_given (Plugin b)) s)"
  using render_widget [of "defaults (attribute s) ++ options_given (Plugin b)" s]
  by (auto simp: bootstrapToggle_def options_given_def Let_def)

lemma agrees_bootstrapToggle:
  assumes "agrees s" "plain_options (defaults (attribute s) ++ options_given (Plugin b))"
  shows "agrees (bootstrapToggle b s)"
proof (cases "widget s")
  case None
  then show ?thesis
    using agrees_method [OF agrees_render [OF assms(2)]] render_widget
    by (simp add: bootstrapToggle_renders)
qed (use assms in \<open>simp add: agrees_method\<close>)

lemma agrees_change_event: "agrees s \<Longrightarrow> agrees (change_event s)"
  by (auto simp: change_event_def agrees_def shows_state_def toggle_defs split: option.splits)

text \<open>Switching sets all the classes, whatever they were.\<close>

lemma toggled:
  assumes "widget s = Some w" "\<not> disabled s" "''off'' \<notin> set (onstyle_words w)" "\<not> toggle_disabled w"
  shows "agrees (toggle_toggle s)" "checked (toggle_toggle s) = (\<not> checked s)"
    "changes (toggle_toggle s) = changes s @ [\<not> checked s]" "disabled (toggle_toggle s) = False"
    "(widget (toggle_toggle s) = None) = False"
  using assms by (auto simp: agrees_def shows_state_def toggle_defs)

lemma bootstrapToggle_widget: "widget s = Some w \<Longrightarrow> bootstrapToggle Toggle s = toggle_toggle s"
  by (simp add: bootstrapToggle_def)

lemma toggle_twice_checked [simp]: "s\<lparr>checked := checked s\<rparr> = s"
  by simp

lemma checkbox_clicked:
  assumes "agrees s" "widget s = Some w" "\<not> disabled s"
  shows "agrees (click_checkbox s)" "checked (click_checkbox s) = checked s"
    "changes (click_checkbox s) = changes s @ [checked s]"
proof -
  let ?s = "s\<lparr>checked := \<not> checked s\<rparr>"
  have w: "widget ?s = Some w" "\<not> disabled ?s" "''off'' \<notin> set (onstyle_words w)" "\<not> toggle_disabled w"
    using assms by (auto simp: agrees_def)
  have same: "(toggle_toggle ?s)\<lparr>checked := checked s\<rparr> = toggle_toggle ?s"
    using toggled(2) [OF w] by simp
  have "click_checkbox s = toggle_toggle ?s"
    using assms(2,3) same by (simp add: click_checkbox_def click_toggle_def bootstrapToggle_widget)
  then show "agrees (click_checkbox s)" "checked (click_checkbox s) = checked s"
    "changes (click_checkbox s) = changes s @ [checked s]"
    using toggled [OF w] by simp_all
qed

lemma agrees_click_checkbox: "agrees s \<Longrightarrow> agrees (click_checkbox s)"
proof (cases "disabled s \<or> widget s = None")
  case True
  assume "agrees s"
  then show ?thesis using True
    by (auto simp: click_checkbox_def agrees_def change_event_def Let_def split: option.splits)
qed (use checkbox_clicked(1) in auto)

lemma switch_step_inv: "switch_inv s \<Longrightarrow> switch_moves s e t \<Longrightarrow> switch_inv t"
proof -
  assume s: "switch_inv s" "switch_moves s e t"
  have plain: "plain_options (defaults (attribute s) ++ options_given (Plugin Toggle))"
    using s(1) by (simp add: switch_inv_def options_given_def)
  have "agrees (switch_step e s)"
  proof (cases e)
    case (Plugin b)
    then show ?thesis using s by (simp add: switch_inv_def switch_moves_def agrees_bootstrapToggle)
  qed (use s(1) plain in \<open>simp_all add: switch_inv_def agrees_bootstrapToggle agrees_change_event
        click_toggle_def click_label_def agrees_click_checkbox\<close>)
  then show ?thesis using s by (simp add: switch_inv_def switch_moves_def)
qed

interpretation switch_machine: event_system switch_start switch_moves switch_inv
proof unfold_locales
  show "switch_inv s" if "switch_start s" for s
    using that by (simp add: switch_start_def switch_inv_def agrees_def)
  show "switch_inv t" if "switch_inv s" "switch_moves s e t" for s e t
    using that by (rule switch_step_inv)
qed

text \<open>
  C26. For options whose style classes do not name the class \<open>off\<close> themselves: whatever is done to a
  switch by its methods, by clicks on it, on the checkbox or on labels, and by \<open>change\<close> events, in any
  order, it shows the state of its checkbox: the class \<open>off\<close> is there exactly when it is not checked, the
  classes of its state are there, and it looks disabled exactly when it is; the plugin listens once to its
  changes, and no longer once the switch is destroyed.
\<close>

theorem switch_shows_checkbox:
  assumes "reachable_from switch_start switch_moves s"
  shows "case widget s of
      None \<Rightarrow> listeners s = 0
    | Some w \<Rightarrow> listeners s = 1 \<and> (''off'' \<in> set (toggle_class w)) = (\<not> checked s) \<and>
        set (if checked s then onstyle_words w else offstyle_words w) \<subseteq> set (toggle_class w) \<and>
        toggle_disabled w = disabled s"
  using switch_machine.reachable_inv [OF assms]
  by (auto simp: switch_inv_def agrees_def shows_state_def split: option.splits)

text \<open>
  A click counts once: on the switch, or on a label of its checkbox that calls the plugin in its
  \<open>onclick\<close>, as on the configuration page, it switches the checkbox, which the page sees at each
  \<open>change\<close> (two for the label). Without that \<open>onclick\<close> a label does nothing, since the click that the
  browser passes on to the checkbox is undone; the page sees a \<open>change\<close> to the same state. A disabled
  switch does not move.
\<close>

theorem clicks_count_once:
  assumes "reachable_from switch_start switch_moves s" and "widget s \<noteq> None"
  shows "(let v = checked s; t = switch_step Clicked s; u = switch_step (Label_Clicked True) s;
      x = switch_step (Label_Clicked False) s
    in if disabled s then t = s \<and> u = s \<and> x = s
       else checked t = (\<not> v) \<and> changes t = changes s @ [\<not> v] \<and>
         checked u = (\<not> v) \<and> changes u = changes s @ [\<not> v, \<not> v] \<and>
         checked x = v \<and> changes x = changes s @ [v])"
proof -
  obtain w where w: "widget s = Some w" using assms(2) by auto
  have s: "agrees s" using switch_machine.reachable_inv [OF assms(1)] by (simp add: switch_inv_def)
  show ?thesis
  proof (cases "disabled s")
    case True
    then show ?thesis using w
      by (simp add: click_toggle_def click_label_def click_checkbox_def bootstrapToggle_widget toggle_defs)
  next
    case False
    then have off: "''off'' \<notin> set (onstyle_words w)" "\<not> toggle_disabled w"
      using s w by (auto simp: agrees_def)
    note t = toggled [OF w False off]
    obtain w' where w': "widget (toggle_toggle s) = Some w'" using t(5) by auto
    show ?thesis
      using False w t checkbox_clicked [OF s w False] checkbox_clicked [OF t(1) w']
      by (simp add: click_toggle_def click_label_def bootstrapToggle_widget)
  qed
qed

text \<open>
  Code that sets the checkbox itself has to call \<open>update\<close>, which makes the switch show it; of a
  disabled switch it does not: the classes stay as they were.
\<close>

theorem update_shows_checkbox:
  assumes "reachable_from switch_start switch_moves s"
  shows "case widget s of None \<Rightarrow> True | Some w \<Rightarrow>
    (let t = switch_step (Plugin Update) (s\<lparr>checked := v\<rparr>)
     in checked t = v \<and>
        (if disabled s then widget t = Some w else agrees t \<and> changes t = changes s @ [v]))"
  using switch_machine.reachable_inv [OF assms]
  by (auto simp: switch_inv_def agrees_def shows_state_def bootstrapToggle_def toggle_defs split: option.splits)

text \<open>A checkbox as the server writes it: small, with its own texts.\<close>

definition language_checkbox :: switch where
  "language_checkbox = \<lparr>attribute = [''data-toggle'' \<mapsto> ''toggle'', ''data-size'' \<mapsto> ''mini'',
     ''data-on'' \<mapsto> ''Yes'', ''data-off'' \<mapsto> ''No''], checked = True, disabled = False, widget = None,
     listeners = 0, changes = []\<rparr>"

lemma language_checkbox_plain: "plain_options (defaults (attribute language_checkbox))"
  by (simp add: language_checkbox_def plain_options_def defaults_def DEFAULTS_def option_text_def
      class_words_def class_space_def)

lemma language_checkbox_reachable:
  "reachable_from switch_start switch_moves (bootstrapToggle No_Argument language_checkbox)"
  by (rule reach_step [OF reach_start, of _ language_checkbox _ "Plugin No_Argument"])
    (use language_checkbox_plain in \<open>simp_all add: switch_start_def switch_moves_def options_given_def
       language_checkbox_def\<close>)

theorem switch_shows_checkbox_witness:
  "(case widget (bootstrapToggle No_Argument language_checkbox) of None \<Rightarrow> False
    | Some w \<Rightarrow> ''off'' \<notin> set (toggle_class w))"
  using switch_shows_checkbox [OF language_checkbox_reachable]
  by (simp add: bootstrapToggle_def language_checkbox_def render_def toggle_defs split: option.splits)

theorem clicks_count_once_witness:
  "changes (switch_step (Label_Clicked True) (bootstrapToggle No_Argument language_checkbox)) = [False, False] \<and>
   changes (switch_step (Label_Clicked False) (bootstrapToggle No_Argument language_checkbox)) = [True]"
proof -
  have "widget (bootstrapToggle No_Argument language_checkbox) \<noteq> None"
    "disabled (bootstrapToggle No_Argument language_checkbox) = False"
    "checked (bootstrapToggle No_Argument language_checkbox)"
    "changes (bootstrapToggle No_Argument language_checkbox) = []"
    by (simp_all add: bootstrapToggle_def language_checkbox_def render_def toggle_defs)
  then show ?thesis using clicks_count_once [OF language_checkbox_reachable] by (simp add: Let_def)
qed

end
