(* ===== verification/Coloris.thy ===== *)
theory Coloris
  imports Complex_Main JsString
begin

text \<open>
  The color picker of the contest and team category forms (\<open>coloris.min.js\<close>, in the format the page
  uses, \<open>hex\<close>): its conversions between RGB, HSV and text, and the picker itself, from opening it on a
  field to closing it. Numbers are exact. What the browser makes of the text of a color (the
  \<open>fillStyle\<close> of a canvas) is a parameter.
\<close>

section \<open>Colors\<close>

record rgba =
  cr :: int
  cg :: int
  cb :: int
  ca :: rat

record hsva =
  ch :: rat
  cs :: rat
  cv :: rat
  csa :: rat

definition Math_round :: "rat \<Rightarrow> int" where
  "Math_round x = \<lfloor>x + 1 / 2\<rfloor>"

definition RGBtoHSV :: "rgba \<Rightarrow> hsva" where
  "RGBtoHSV e =
     (let t = of_int (cr e) / 255; a = of_int (cg e) / 255; r = of_int (cb e) / 255;
          l = max t (max a r); n = min t (min a r);
          d = l - n; i = l;
          c = (if d \<noteq> 0 then
                 let c = (if l = t then (a - r) / d else 0);
                     c = (if l = a then 2 + (r - t) / d else c)
                 in if l = r then 4 + (t - a) / d else c
               else 0);
          n = (if d \<noteq> 0 \<and> l \<noteq> 0 then d / l else 0);
          c = \<lfloor>60 * c\<rfloor>
      in \<lparr>ch = of_int (if c < 0 then c + 360 else c), cs = of_int (Math_round (100 * n)),
          cv = of_int (Math_round (100 * i)), csa = ca e\<rparr>)"

text \<open>The remainder \<open>l % 2\<close> of a number that is not negative.\<close>

definition rem2 :: "rat \<Rightarrow> rat" where
  "rem2 l = l - 2 * of_int \<lfloor>l / 2\<rfloor>"

definition HSVtoRGB :: "hsva \<Rightarrow> rgba" where
  "HSVtoRGB e =
     (let t = cs e / 100; a = cv e / 100; r = t * a; l = ch e / 60;
          n = r * (1 - \<bar>rem2 l - 1\<bar>); d = a - r;
          r = r + d; n = n + d;
          t = nat (\<lfloor>l\<rfloor> mod 6);
          a = [r, n, d, d, n, r] ! t;
          l = [n, r, r, n, d, d] ! t;
          t = [d, d, n, r, r, n] ! t
      in \<lparr>cr = Math_round (255 * a), cg = Math_round (255 * l), cb = Math_round (255 * t), ca = csa e\<rparr>)"

text \<open>Numbers in base 16, as \<open>toString(16)\<close> writes whole numbers.\<close>

definition lower_hex :: "nat \<Rightarrow> char" where
  "lower_hex d = char_of (if d < 10 then 48 + d else 87 + d)"

fun show_hex :: "nat \<Rightarrow> string" where
  "show_hex n = (if n < 16 then [lower_hex n] else show_hex (n div 16) @ [lower_hex (n mod 16)])"

declare show_hex.simps [simp del]

definition toString16 :: "int \<Rightarrow> string" where
  "toString16 i = (if i < 0 then ''-'' @ show_hex (nat (- i)) else show_hex (nat i))"

definition two_digits :: "int \<Rightarrow> string" where
  "two_digits i = (if i < 16 then ''0'' @ toString16 i else toString16 i)"

definition RGBToHex :: "rgba \<Rightarrow> string" where
  "RGBToHex e = ''#'' @ two_digits (cr e) @ two_digits (cg e) @ two_digits (cb e) @
     (if ca e < 1 then two_digits \<lfloor>255 * ca e\<rfloor> else [])"

text \<open>What a canvas makes of the text of a color: six digits, or the parts of \<open>rgba(...)\<close>.\<close>

datatype fill_style = Hex string | Rgba int int int rat

fun pairs :: "string \<Rightarrow> string list" where
  "pairs (x # y # s) = [x, y] # pairs s"
| "pairs _ = []"

text \<open>The color of such a style; there are always six digits, so the last case does not arise.\<close>

fun strToRGBA :: "fill_style \<Rightarrow> rgba" where
  "strToRGBA (Rgba r g b a) = \<lparr>cr = r, cg = g, cb = b, ca = a\<rparr>"
| "strToRGBA (Hex s) =
     (case map (\<lambda>e. int (read_hex e)) (pairs (remove1 (CHR ''#'') s)) of
        r # g # b # _ \<Rightarrow> \<lparr>cr = r, cg = g, cb = b, ca = 1\<rparr>
      | _ \<Rightarrow> \<lparr>cr = 0, cg = 0, cb = 0, ca = 1\<rparr>)"

section \<open>The picker\<close>

datatype field_event = Input nat | Change_Event nat

text \<open>
  The variables of the script and the elements of the picker it reads back; the events dispatched to
  the fields are kept in order. Positions are relative to the area for saturation and brightness.
\<close>

record picker =
  field :: "nat option"                 \<comment> \<open>\<open>m\<close>, the field the picker is open for\<close>
  opened_with :: string                 \<comment> \<open>\<open>w\<close>, its value then\<close>
  field_value :: "nat \<Rightarrow> string"
  current :: rgba                       \<comment> \<open>\<open>k\<close>\<close>
  hue_slider :: int                     \<comment> \<open>\<open>u.value\<close>\<close>
  alpha_slider :: int                   \<comment> \<open>\<open>b.value\<close>\<close>
  marker_left :: rat                    \<comment> \<open>\<open>o.style.left\<close>\<close>
  marker_top :: rat
  color_value :: string                 \<comment> \<open>\<open>y.value\<close>\<close>
  area_width :: rat                     \<comment> \<open>\<open>v.width\<close>\<close>
  area_height :: rat
  dispatched :: "field_event list"

text \<open>\<open>H\<close>: a new color (or opacity) is shown.\<close>

definition update_color :: "rgba \<Rightarrow> picker \<Rightarrow> picker" where
  "update_color e p = p\<lparr>current := e, color_value := RGBToHex e\<rparr>"

text \<open>A value given to a slider of steps of 1 from 0 to \<open>limit\<close>, as the element keeps it.\<close>

definition slider :: "int \<Rightarrow> rat \<Rightarrow> int" where
  "slider limit x = max 0 (min limit (Math_round x))"

text \<open>\<open>A\<close>: the picker shows the color of a text.\<close>

definition setColorFromStr :: "(string \<Rightarrow> fill_style) \<Rightarrow> string \<Rightarrow> picker \<Rightarrow> picker" where
  "setColorFromStr canvas s p =
     (let t = strToRGBA (canvas s); e = RGBtoHSV t; p = update_color t p
      in p\<lparr>hue_slider := slider 360 (ch e), marker_left := area_width p * cs e / 100,
           marker_top := area_height p - area_height p * cv e / 100,
           alpha_slider := slider 100 (100 * csa e)\<rparr>)"

text \<open>\<open>l\<close>: the color, or the text given, is put into the field.\<close>

definition pickColor :: "string option \<Rightarrow> picker \<Rightarrow> picker" where
  "pickColor e p =
     (case field p of
        None \<Rightarrow> p
      | Some m \<Rightarrow> p\<lparr>field_value := (field_value p)(m := case e of None \<Rightarrow> color_value p | Some s \<Rightarrow> s),
                   dispatched := dispatched p @ [Input m]\<rparr>)"

text \<open>\<open>T\<close>: the color at a position of the area is chosen.\<close>

definition setColorAtPosition :: "rat \<Rightarrow> rat \<Rightarrow> picker \<Rightarrow> picker" where
  "setColorAtPosition x y p =
     pickColor None (update_color
       (HSVtoRGB \<lparr>ch = of_int (hue_slider p), cs = x / area_width p * 100,
          cv = 100 - y / area_height p * 100, csa = of_int (alpha_slider p) / 100\<rparr>) p)"

text \<open>\<open>S\<close>: the picker is closed.\<close>

definition closePicker :: "bool \<Rightarrow> picker \<Rightarrow> picker" where
  "closePicker dispatch p =
     (case field p of
        None \<Rightarrow> p
      | Some m \<Rightarrow>
          let p = (if dispatch \<and> opened_with p \<noteq> field_value p m
                   then p\<lparr>dispatched := dispatched p @ [Change_Event m]\<rparr> else p)
          in p\<lparr>field := None\<rparr>)"

section \<open>Events\<close>

text \<open>A click on a field: the size of the area is measured again.\<close>

definition open_picker :: "(string \<Rightarrow> fill_style) \<Rightarrow> nat \<Rightarrow> rat \<Rightarrow> rat \<Rightarrow> picker \<Rightarrow> picker" where
  "open_picker canvas m w h p =
     setColorFromStr canvas (field_value p m)
       (p\<lparr>field := Some m, opened_with := field_value p m, area_width := w, area_height := h\<rparr>)"

text \<open>The pointer in the area or dragged out of it, at a position relative to it.\<close>

definition moveMarker :: "rat \<Rightarrow> rat \<Rightarrow> picker \<Rightarrow> picker" where
  "moveMarker x y p =
     (let x = (if x < 0 then 0 else if x > area_width p then area_width p else x);
          y = (if y < 0 then 0 else if y > area_height p then area_height p else y)
      in setColorAtPosition x y (p\<lparr>marker_left := x, marker_top := y\<rparr>))"

definition arrow_key :: "rat \<Rightarrow> rat \<Rightarrow> picker \<Rightarrow> picker" where
  "arrow_key dx dy p =
     (let x = marker_left p + dx; y = marker_top p + dy
      in setColorAtPosition x y (p\<lparr>marker_left := x, marker_top := y\<rparr>))"

definition setHue :: "int \<Rightarrow> picker \<Rightarrow> picker" where
  "setHue h p = (let p = p\<lparr>hue_slider := h\<rparr> in setColorAtPosition (marker_left p) (marker_top p) p)"

definition setAlpha :: "int \<Rightarrow> picker \<Rightarrow> picker" where
  "setAlpha b p =
     (let p = p\<lparr>alpha_slider := b\<rparr>
      in pickColor None (update_color ((current p)\<lparr>ca := of_int (alpha_slider p) / 100\<rparr>) p))"

definition text_changed :: "(string \<Rightarrow> fill_style) \<Rightarrow> string \<Rightarrow> picker \<Rightarrow> picker" where
  "text_changed canvas s p = pickColor None (setColorFromStr canvas s (p\<lparr>color_value := s\<rparr>))"

datatype arrow = Left | Right | Up | Down

datatype picker_event =
    Open_Field nat rat rat | Pointer rat rat | Arrow_Key arrow | Hue_Input int | Alpha_Input int
  | Text_Change string | Swatch_Click string | Clear_Click | Preview_Click | Outside_Click | Escape_Key

fun arrow_step :: "arrow \<Rightarrow> rat \<times> rat" where
  "arrow_step Up = (0, -1)"
| "arrow_step Down = (0, 1)"
| "arrow_step Left = (-1, 0)"
| "arrow_step Right = (1, 0)"

fun picker_step :: "(string \<Rightarrow> fill_style) \<Rightarrow> picker_event \<Rightarrow> picker \<Rightarrow> picker" where
  "picker_step canvas (Open_Field m w h) p = open_picker canvas m w h p"
| "picker_step canvas (Pointer x y) p = moveMarker x y p"
| "picker_step canvas (Arrow_Key k) p = (case arrow_step k of (dx, dy) \<Rightarrow> arrow_key dx dy p)"
| "picker_step canvas (Hue_Input h) p = setHue h p"
| "picker_step canvas (Alpha_Input b) p = setAlpha b p"
| "picker_step canvas (Text_Change s) p = text_changed canvas s p"
| "picker_step canvas (Swatch_Click s) p = pickColor None (setColorFromStr canvas s p)"
| "picker_step canvas Clear_Click p = closePicker True (pickColor (Some []) p)"
| "picker_step canvas Preview_Click p = closePicker True (pickColor None p)"
| "picker_step canvas Outside_Click p = closePicker True p"
| "picker_step canvas Escape_Key p = closePicker True p"


section \<open>Rounding\<close>

lemma Math_round_close: "\<bar>of_int (Math_round x) - x\<bar> \<le> 1 / 2"
  unfolding Math_round_def by linarith

lemma Math_round_of_int [simp]: "Math_round (of_int i) = i"
  unfolding Math_round_def by linarith

lemma Math_round_0 [simp]: "Math_round 0 = 0"
  using Math_round_of_int [of 0] by simp

lemma Math_round_mono: "x \<le> y \<Longrightarrow> Math_round x \<le> Math_round y"
  unfolding Math_round_def by (rule floor_mono) simp

lemma Math_round_range:
  assumes "of_int lo \<le> x" "x \<le> of_int hi"
  shows "lo \<le> Math_round x \<and> Math_round x \<le> hi"
  using Math_round_mono [OF assms(1)] Math_round_mono [OF assms(2)] by simp

text \<open>Values between 0 and 1, and how far a product of two moves with its factors.\<close>

abbreviation unit_range :: "rat \<Rightarrow> bool" where
  "unit_range x \<equiv> 0 \<le> x \<and> x \<le> 1"

lemma unit_product: "unit_range x \<Longrightarrow> unit_range y \<Longrightarrow> unit_range (x * y)"
  by (simp add: mult_le_one)

lemma product_close:
  assumes "unit_range a'" "unit_range b"
  shows "\<bar>a' * b' - a * b\<bar> \<le> \<bar>a' - a\<bar> + \<bar>b' - b\<bar>"
proof -
  have "a' * b' - a * b = (a' - a) * b + a' * (b' - b)" by (simp add: algebra_simps)
  also have "\<bar>\<dots>\<bar> \<le> \<bar>a' - a\<bar> * b + a' * \<bar>b' - b\<bar>"
    using assms by (metis abs_mult abs_of_nonneg abs_triangle_ineq)
  also have "\<dots> \<le> \<bar>a' - a\<bar> + \<bar>b' - b\<bar>"
    using assms by (intro add_mono) (simp_all add: mult_left_le mult_left_le_one_le)
  finally show ?thesis .
qed

text \<open>A channel between 0 and 1, computed within \<open>e\<close> of a whole number of 255ths.\<close>

lemma channel_close:
  assumes "\<bar>y - of_int x / 255\<bar> \<le> 2 / 75"
  shows "\<bar>Math_round (255 * y) - x\<bar> \<le> 7"
proof -
  have "\<bar>of_int (Math_round (255 * y)) - 255 * y\<bar> \<le> (1 / 2 :: rat)" by (rule Math_round_close)
  then have "of_int (Math_round (255 * y)) - of_int x < (8 :: rat)"
    "of_int x - of_int (Math_round (255 * y)) < (8 :: rat)"
    using assms unfolding abs_le_iff by linarith+
  then have "Math_round (255 * y) - x < 8" "x - Math_round (255 * y) < 8" by linarith+
  then show ?thesis by simp
qed

section \<open>The channels of a color\<close>

text \<open>
  In terms of brightness, saturation and the part \<open>f\<close> of the way within a sixth of the circle: the
  highest channel, the lowest and the middle one.
\<close>

definition channels :: "nat \<Rightarrow> rat \<Rightarrow> rat \<Rightarrow> rat \<Rightarrow> rat \<Rightarrow> rgba" where
  "channels i hi mid lo alpha =
     \<lparr>cr = Math_round (255 * [hi, mid, lo, lo, mid, hi] ! i),
      cg = Math_round (255 * [mid, hi, hi, mid, lo, lo] ! i),
      cb = Math_round (255 * [lo, lo, mid, hi, hi, mid] ! i), ca = alpha\<rparr>"

lemma HSVtoRGB_channels:
  "HSVtoRGB e = (let f = 1 - \<bar>rem2 (ch e / 60) - 1\<bar>; s = cs e / 100; v = cv e / 100
     in channels (nat (\<lfloor>ch e / 60\<rfloor> mod 6)) v (v * (1 - s * (1 - f))) (v * (1 - s)) (csa e))"
proof -
  have parts: "t * a + a * (1 - t) = a" "t * a * f + a * (1 - t) = a * (1 - t * (1 - f))"
    "a - t * a = a * (1 - t)" for t a f :: rat
    by (simp_all add: algebra_simps)
  show ?thesis unfolding HSVtoRGB_def channels_def Let_def parts ..
qed

lemma sextant:
  assumes "ch e = 60 * of_nat i + j" "0 \<le> j" "j < 60" "i < 6"
  shows "HSVtoRGB e = (let f = if even i then j / 60 else 1 - j / 60; s = cs e / 100; v = cv e / 100
     in channels i v (v * (1 - s * (1 - f))) (v * (1 - s)) (csa e))"
proof -
  have h: "ch e / 60 = of_nat i + j / 60" using assms(1) by simp
  have floor: "\<lfloor>ch e / 60\<rfloor> = int i" unfolding h using assms(2,3) by (intro floor_unique) simp_all
  have half: "\<lfloor>ch e / 60 / 2\<rfloor> = int (i div 2)"
  proof (rule floor_unique)
    have "of_nat i = 2 * of_nat (i div 2) + (of_nat (i mod 2) :: rat)"
      by (metis mult_div_mod_eq of_nat_add of_nat_mult of_nat_numeral)
    moreover have "(of_nat (i mod 2) :: rat) \<le> 1" by (simp add: odd_iff_mod_2_eq_one)
    ultimately show "of_int (int (i div 2)) \<le> ch e / 60 / 2" "ch e / 60 / 2 < of_int (int (i div 2)) + 1"
      unfolding h using assms(2,3) by auto
  qed
  have "rem2 (ch e / 60) = of_nat (i mod 2) + j / 60"
  proof -
    have "of_nat i = 2 * of_nat (i div 2) + (of_nat (i mod 2) :: rat)"
      by (metis mult_div_mod_eq of_nat_add of_nat_mult of_nat_numeral)
    then show ?thesis unfolding rem2_def half unfolding h by simp
  qed
  then have "1 - \<bar>rem2 (ch e / 60) - 1\<bar> = (if even i then j / 60 else 1 - j / 60)"
    using assms(2,3) by (auto simp: even_iff_mod_2_eq_zero odd_iff_mod_2_eq_one)
  moreover have "nat (\<lfloor>ch e / 60\<rfloor> mod 6) = i" using floor assms(4) by simp
  ultimately show ?thesis by (simp add: HSVtoRGB_channels)
qed

definition in_range :: "rgba \<Rightarrow> bool" where
  "in_range c = (0 \<le> cr c \<and> cr c \<le> 255 \<and> 0 \<le> cg c \<and> cg c \<le> 255 \<and> 0 \<le> cb c \<and> cb c \<le> 255 \<and>
     0 \<le> ca c \<and> ca c \<le> 1)"

lemma channels_in_range:
  assumes "unit_range hi" "unit_range mid" "unit_range lo" "unit_range alpha" "i < 6"
  shows "in_range (channels i hi mid lo alpha)"
proof -
  have "0 \<le> Math_round (255 * x) \<and> Math_round (255 * x) \<le> 255" if "x \<in> {hi, mid, lo}" for x
    using that assms(1-3) Math_round_range [of 0 "255 * x" 255] by auto
  moreover have "xs ! i \<in> {hi, mid, lo}" if "set xs \<subseteq> {hi, mid, lo}" "length xs = 6" for xs
    using that assms(5) by (metis nth_mem subsetD)
  ultimately show ?thesis using assms(4) by (simp add: in_range_def channels_def)
qed

lemma HSVtoRGB_in_range:
  assumes "0 \<le> cs e" "cs e \<le> 100" "0 \<le> cv e" "cv e \<le> 100" "unit_range (csa e)"
  shows "in_range (HSVtoRGB e)"
proof -
  let ?f = "1 - \<bar>rem2 (ch e / 60) - 1\<bar>" and ?s = "cs e / 100" and ?v = "cv e / 100"
  have "0 \<le> rem2 (ch e / 60)" "rem2 (ch e / 60) < 2"
    unfolding rem2_def by linarith+
  then have f: "unit_range ?f" by (simp add: abs_if)
  have s: "unit_range ?s" "unit_range ?v" using assms by simp_all
  have "unit_range (?s * (1 - ?f))" using s f by (intro unit_product) simp_all
  then have "unit_range (?v * (1 - ?s * (1 - ?f)))" using s by (intro unit_product) simp_all
  moreover have "unit_range (?v * (1 - ?s))" using s by (intro unit_product) simp_all
  ultimately show ?thesis unfolding HSVtoRGB_channels Let_def
    using s assms(5) by (intro channels_in_range) (auto simp: nat_less_iff)
qed

section \<open>The text of a color\<close>

definition color_text :: "string \<Rightarrow> bool" where
  "color_text s = (case s of
     [] \<Rightarrow> False
   | c # ds \<Rightarrow> c = CHR ''#'' \<and> length ds \<in> {6, 8} \<and> list_all (\<lambda>d. hex_val d \<noteq> None) ds)"

lemma hex_val_lower_hex [simp]: "d < 16 \<Longrightarrow> hex_val (lower_hex d) = Some d"
  by (auto simp: hex_val_def lower_hex_def Let_def)

lemma lower_hex_0: "lower_hex 0 = CHR ''0''"
  by (simp add: lower_hex_def char_of_eq_iff)

lemma two_digits_byte:
  assumes "0 \<le> i" "i \<le> 255"
  shows "two_digits i = [lower_hex (nat i div 16), lower_hex (nat i mod 16)]"
proof -
  have "nat i div 16 < 16" using assms by simp
  then show ?thesis using assms by (auto simp: two_digits_def toString16_def show_hex.simps lower_hex_0)
qed

lemma two_digits_read:
  assumes "0 \<le> i" "i \<le> 255"
  shows "list_all (\<lambda>d. hex_val d \<noteq> None) (two_digits i)" "length (two_digits i) = 2"
    "int (read_hex (two_digits i)) = i"
proof -
  have "nat i div 16 < 16" using assms by simp
  then show "list_all (\<lambda>d. hex_val d \<noteq> None) (two_digits i)" "length (two_digits i) = 2"
    "int (read_hex (two_digits i)) = i"
    using assms by (simp_all add: two_digits_byte read_hex_def)
qed

lemma alpha_byte:
  assumes "unit_range a"
  shows "0 \<le> \<lfloor>255 * a\<rfloor> \<and> \<lfloor>255 * a\<rfloor> \<le> 255"
  using assms by (simp add: floor_le_iff)

lemma pairs_append: "length s = 2 \<Longrightarrow> pairs (s @ t) = s # pairs t"
  by (cases s; cases "tl s") auto

text \<open>
  The text of a color in range is the text of a color, and is read back as that color, except for
  its opacity.
\<close>

lemma RGBToHex_text:
  assumes "in_range c"
  shows "color_text (RGBToHex c)"
  using assms two_digits_read(1,2) alpha_byte [of "ca c"]
  by (simp add: color_text_def RGBToHex_def in_range_def)

lemma RGBToHex_reads_back:
  assumes "in_range c"
  shows "strToRGBA (Hex (RGBToHex c)) = c\<lparr>ca := 1\<rparr>"
  using assms two_digits_read(2,3)
  by (simp add: RGBToHex_def in_range_def pairs_append)

section \<open>From RGB to HSV and back\<close>

lemma max_min_order:
  "max (of_int a / 255) (of_int b / 255 :: rat) = of_int (max a b) / 255"
  "min (of_int a / 255) (of_int b / 255 :: rat) = of_int (min a b) / 255"
  by (simp_all add: max_def min_def)

definition saturation :: "int \<Rightarrow> int \<Rightarrow> rat" where
  "saturation l n = (if l = n then 0 else (of_int l - of_int n) / of_int l)"

text \<open>The hue, before rounding and in sixths of the circle, from the highest and lowest channel.\<close>

definition sixths :: "rgba \<Rightarrow> rat" where
  "sixths e =
     (let l = max (cr e) (max (cg e) (cb e)); n = min (cr e) (min (cg e) (cb e)); d = of_int (l - n)
      in if l = n then 0
         else if l = cb e then 4 + of_int (cr e - cg e) / d
         else if l = cg e then 2 + of_int (cb e - cr e) / d
         else of_int (cg e - cb e) / d)"

lemma RGBtoHSV_parts:
  assumes "in_range e"
  defines "l \<equiv> max (cr e) (max (cg e) (cb e))" and "n \<equiv> min (cr e) (min (cg e) (cb e))"
  shows "RGBtoHSV e = \<lparr>ch = of_int (if sixths e < 0 then \<lfloor>60 * sixths e\<rfloor> + 360 else \<lfloor>60 * sixths e\<rfloor>),
      cs = of_int (Math_round (100 * saturation l n)),
      cv = of_int (Math_round (100 * (of_int l / 255))), csa = ca e\<rparr>"
proof -
  have n: "0 \<le> n" "n \<le> l" using assms(1) by (auto simp: n_def l_def in_range_def)
  have diff: "of_int i / 255 - of_int j / 255 = (of_int (i - j) / 255 :: rat)" for i j by (simp add: diff_divide_distrib)
  have quot: "of_int i / 255 / (of_int (l - n) / 255) = (of_int i / of_int (l - n) :: rat)" for i by simp
  have zero: "(of_int (l - n) / 255 = (0 :: rat)) = (l = n)" by simp
  have sat: "(if of_int (l - n) / 255 \<noteq> (0 :: rat) \<and> of_int l / 255 \<noteq> (0 :: rat)
      then of_int (l - n) / 255 / (of_int l / 255) else 0 :: rat) = saturation l n"
    using n by (auto simp: saturation_def field_simps)
  have eq: "(of_int l / 255 = (of_int i / 255 :: rat)) = (l = i)" for i by simp
  have neg: "(\<lfloor>60 * x\<rfloor> < 0) = (x < 0)" for x :: rat by linarith
  have highest: "l = cr e \<or> l = cg e \<or> l = cb e" by (simp add: l_def max_def)
  show ?thesis
    unfolding RGBtoHSV_def Let_def max_min_order l_def [symmetric] n_def [symmetric] diff
    unfolding sat
    unfolding zero eq quot neg sixths_def Let_def l_def [symmetric] n_def [symmetric]
    using highest by auto
qed

definition near :: "rgba \<Rightarrow> rgba \<Rightarrow> bool" where
  "near e e' = (\<bar>cr e' - cr e\<bar> \<le> 7 \<and> \<bar>cg e' - cg e\<bar> \<le> 7 \<and> \<bar>cb e' - cb e\<bar> \<le> 7 \<and> ca e' = ca e)"

lemma rounded_percent:
  assumes "unit_range x"
  shows "\<bar>of_int (Math_round (100 * x)) / 100 - x\<bar> \<le> 1 / 200"
    "unit_range (of_int (Math_round (100 * x)) / 100)"
proof -
  show "\<bar>of_int (Math_round (100 * x)) / 100 - x\<bar> \<le> 1 / 200"
    using Math_round_close [of "100 * x"] unfolding abs_le_iff by linarith
  show "unit_range (of_int (Math_round (100 * x)) / 100)"
    using assms Math_round_range [of 0 "100 * x" 100] by simp
qed

lemma saturation_unit: "0 \<le> n \<Longrightarrow> n \<le> l \<Longrightarrow> unit_range (saturation l n)"
  by (auto simp: saturation_def divide_le_eq zero_le_divide_iff)

text \<open>Each channel is computed within 2/75 of what it was, whatever the rounding of the three parts.\<close>

lemma drift_channels:
  assumes "0 \<le> n" "n < l" "l \<le> 255" "n \<le> x" "x \<le> l"
    and f: "unit_range f'" "\<bar>f' - of_int (x - n) / of_int (l - n)\<bar> \<le> 1 / 60"
  defines "v' \<equiv> of_int (Math_round (100 * (of_int l / 255))) / 100"
    and "s' \<equiv> of_int (Math_round (100 * saturation l n)) / 100"
  shows "\<bar>v' - of_int l / 255\<bar> \<le> 2 / 75" "\<bar>v' * (1 - s') - of_int n / 255\<bar> \<le> 2 / 75"
    "\<bar>v' * (1 - s' * (1 - f')) - of_int x / 255\<bar> \<le> 2 / 75"
proof -
  let ?v = "of_int l / 255 :: rat" and ?s = "saturation l n" and ?f = "of_int (x - n) / of_int (l - n) :: rat"
  have v: "unit_range ?v" "\<bar>v' - ?v\<bar> \<le> 1 / 200" "unit_range v'"
    using rounded_percent [of ?v] assms(1-3) by (simp_all add: v'_def)
  have s: "unit_range ?s" "\<bar>s' - ?s\<bar> \<le> 1 / 200" "unit_range s'"
    using rounded_percent [of ?s] saturation_unit assms(1,2) by (simp_all add: s'_def)
  have sl: "?s * of_int l = of_int (l - n)" using assms(1,2) by (simp add: saturation_def)
  have lowest: "of_int n / 255 = ?v * (1 - ?s)"
    using sl by (simp add: algebra_simps)
  have "?v * (1 - ?s * (1 - f)) = (of_int l - ?s * of_int l * (1 - f)) / 255" for f
    by (simp add: algebra_simps)
  then have "?v * (1 - ?s * (1 - ?f)) = (of_int l - of_int (l - n) * (1 - ?f)) / 255"
    unfolding sl .
  also have "of_int (l - n) * (1 - ?f) = (of_int (l - x) :: rat)"
    using assms(2) by (simp add: field_simps)
  finally have middle: "of_int x / 255 = ?v * (1 - ?s * (1 - ?f))" by simp
  have f1: "unit_range (1 - ?f)" using assms(2,4,5) by (simp add: divide_le_eq zero_le_divide_iff)
  have "\<bar>s' * (1 - f') - ?s * (1 - ?f)\<bar> \<le> \<bar>s' - ?s\<bar> + \<bar>(1 - f') - (1 - ?f)\<bar>"
    using s f1 by (intro product_close)
  then have sf: "\<bar>s' * (1 - f') - ?s * (1 - ?f)\<bar> \<le> 1 / 200 + 1 / 60"
    using s(2) f(2) by (simp add: abs_minus_commute)
  show "\<bar>v' - of_int l / 255\<bar> \<le> 2 / 75" using v(2) by simp
  have "\<bar>v' * (1 - s') - ?v * (1 - ?s)\<bar> \<le> \<bar>v' - ?v\<bar> + \<bar>(1 - s') - (1 - ?s)\<bar>"
    using v s by (intro product_close) simp_all
  then show "\<bar>v' * (1 - s') - of_int n / 255\<bar> \<le> 2 / 75"
    unfolding lowest using v(2) s(2) by (simp add: abs_minus_commute)
  have "unit_range (1 - ?s * (1 - ?f))" using unit_product [OF s(1) f1] by simp
  then have "\<bar>v' * (1 - s' * (1 - f')) - ?v * (1 - ?s * (1 - ?f))\<bar> \<le>
      \<bar>v' - ?v\<bar> + \<bar>(1 - s' * (1 - f')) - (1 - ?s * (1 - ?f))\<bar>"
    using v by (intro product_close)
  then show "\<bar>v' * (1 - s' * (1 - f')) - of_int x / 255\<bar> \<le> 2 / 75"
    unfolding middle using v(2) sf by (simp add: abs_minus_commute)
qed

lemma hue_parts:
  assumes "of_nat i \<le> q" "q < of_nat i + 1"
  shows "\<exists>j. of_int \<lfloor>60 * q\<rfloor> = 60 * of_nat i + (j :: rat) \<and> 0 \<le> j \<and> j < 60 \<and> \<bar>j / 60 - (q - of_nat i)\<bar> \<le> 1 / 60"
proof (intro exI conjI)
  let ?j = "of_int \<lfloor>60 * q\<rfloor> - 60 * of_nat i :: rat"
  have floor: "of_int \<lfloor>60 * q\<rfloor> \<le> 60 * q" "60 * q < of_int \<lfloor>60 * q\<rfloor> + 1" by linarith+
  show "of_int \<lfloor>60 * q\<rfloor> = 60 * of_nat i + ?j" by simp
  have "60 * int i \<le> \<lfloor>60 * q\<rfloor>" using assms(1) by (simp add: le_floor_iff)
  then show "0 \<le> ?j" by (metis diff_ge_0_iff_ge of_int_le_iff of_int_mult of_int_numeral of_int_of_nat_eq)
  show "?j < 60" using floor(1) assms(2) by linarith
  have "\<bar>(x - 60 * y) / 60 - (q - y)\<bar> \<le> 1 / 60" if "x \<le> 60 * q" "60 * q < x + 1" for x y :: rat
    using that by (simp add: abs_le_iff field_simps)
  then show "\<bar>?j / 60 - (q - of_nat i)\<bar> \<le> 1 / 60" using floor by blast
qed

text \<open>A color in the \<open>i\<close>-th sixth of the circle: its channels are the highest, middle and lowest in the order of that sixth.\<close>

definition circle :: "rgba \<Rightarrow> rat" where
  "circle e = (if sixths e < 0 then sixths e + 6 else sixths e)"

lemma hue_circle: "(if sixths e < 0 then \<lfloor>60 * sixths e\<rfloor> + 360 else \<lfloor>60 * sixths e\<rfloor>) = \<lfloor>60 * circle e\<rfloor>"
  by (simp add: circle_def)

lemma drift_in_sixth:
  assumes e: "in_range e" and i: "i < 6" "of_nat i \<le> circle e" "circle e < of_nat i + 1"
  defines "l \<equiv> max (cr e) (max (cg e) (cb e))" and "n \<equiv> min (cr e) (min (cg e) (cb e))"
  assumes x: "n < l" "n \<le> x" "x \<le> l"
    and f: "(if even i then circle e - of_nat i else 1 - (circle e - of_nat i)) = of_int (x - n) / of_int (l - n)"
    and order: "cr e = [l, x, n, n, x, l] ! i" "cg e = [x, l, l, x, n, n] ! i" "cb e = [n, n, x, l, l, x] ! i"
  shows "near e (HSVtoRGB (RGBtoHSV e))"
proof -
  let ?v = "of_int (Math_round (100 * (of_int l / 255))) / 100 :: rat"
    and ?s = "of_int (Math_round (100 * saturation l n)) / 100 :: rat"
  have range: "0 \<le> n" "l \<le> 255" using e by (auto simp: in_range_def l_def n_def)
  obtain j :: rat where j: "of_int \<lfloor>60 * circle e\<rfloor> = 60 * of_nat i + j" "0 \<le> j" "j < 60"
    "\<bar>j / 60 - (circle e - of_nat i)\<bar> \<le> 1 / 60" using hue_parts [OF i(2,3)] by blast
  define f' where "f' = (if even i then j / 60 else 1 - j / 60)"
  have f': "unit_range f'" "\<bar>f' - of_int (x - n) / of_int (l - n)\<bar> \<le> 1 / 60"
    unfolding f [symmetric] f'_def using j(2-4) by (auto simp: abs_le_iff field_simps)
  note close = drift_channels [OF range(1) x(1) range(2) x(2,3) f', THEN channel_close]
  have hsv: "RGBtoHSV e = \<lparr>ch = of_int \<lfloor>60 * circle e\<rfloor>, cs = of_int (Math_round (100 * saturation l n)),
      cv = of_int (Math_round (100 * (of_int l / 255))), csa = ca e\<rparr>"
    unfolding RGBtoHSV_parts [OF e] l_def n_def hue_circle ..
  have "HSVtoRGB (RGBtoHSV e) = channels i ?v (?v * (1 - ?s * (1 - f'))) (?v * (1 - ?s)) (ca e)"
    unfolding hsv using j i(1) by (subst sextant [of _ i j]) (simp_all add: f'_def)
  moreover have "i = 0 \<or> i = 1 \<or> i = 2 \<or> i = 3 \<or> i = 4 \<or> i = 5" using i(1) by linarith
  ultimately show ?thesis
    using close order by (elim disjE) (simp_all add: near_def channels_def)
qed

lemma grey_channels:
  assumes "in_range e" "cr e = cg e" "cg e = cb e"
  shows "near e (HSVtoRGB (RGBtoHSV e))"
proof -
  let ?v = "of_int (Math_round (100 * (of_int (cb e) / 255))) / 100 :: rat"
  have "unit_range (of_int (cb e) / 255)" using assms(1) by (simp add: in_range_def)
  then have v: "\<bar>?v - of_int (cb e) / 255\<bar> \<le> 2 / 75" using rounded_percent(1) [of "of_int (cb e) / 255"] by simp
  have "sixths e = 0" using assms(2,3) by (simp add: sixths_def)
  then have hsv: "RGBtoHSV e = \<lparr>ch = 0, cs = 0, cv = of_int (Math_round (100 * (of_int (cb e) / 255))), csa = ca e\<rparr>"
    using assms by (simp add: RGBtoHSV_parts saturation_def)
  have "HSVtoRGB (RGBtoHSV e) = channels 0 ?v ?v ?v (ca e)"
    unfolding hsv by (subst sextant [of _ 0 0]) simp_all
  then show ?thesis using channel_close [OF v] assms(2,3) by (simp add: near_def channels_def)
qed

text \<open>The middle channel's place between the lowest and the highest.\<close>

definition place :: "int \<Rightarrow> int \<Rightarrow> int \<Rightarrow> rat" where
  "place n l x = of_int (x - n) / of_int (l - n)"

lemma place_range:
  assumes "n < l" "n \<le> x" "x \<le> l"
  shows "0 \<le> place n l x" "place n l x \<le> 1" "(place n l x < 1) = (x < l)" "(0 < place n l x) = (n < x)"
  using assms by (simp_all add: place_def divide_le_eq divide_less_eq zero_less_divide_iff zero_le_divide_iff)

lemma place_ends: "n < l \<Longrightarrow> place n l l = 1" "place n l n = 0"
  by (simp_all add: place_def)

lemma place_difference: "of_int (a - b) / of_int (l - n) = place n l a - place n l b"
  by (simp add: place_def diff_divide_distrib)

text \<open>
  Opening the picker reads the color in rounded steps of the hue, the saturation and the brightness.
  What the picker then writes when the hue slider or the marker is touched and left where it is,
  differs from the color of the field by at most 7 in each channel.
\<close>

theorem picker_drift:
  assumes e: "in_range e"
  shows "near e (HSVtoRGB (RGBtoHSV e))"
proof -
  let ?R = "cr e" and ?G = "cg e" and ?B = "cb e"
  define l where "l = max ?R (max ?G ?B)"
  define n where "n = min ?R (min ?G ?B)"
  note drift = drift_in_sixth [OF e, folded l_def n_def place_def]
  show ?thesis
  proof (cases "l = n")
    case True
    then have "?R = ?G" "?G = ?B" by (auto simp: l_def n_def)
    then show ?thesis by (rule grey_channels [OF e])
  next
    case False
    then have nl: "n < l" by (auto simp: l_def n_def)
    have six: "sixths e = (if l = ?B then 4 + (place n l ?R - place n l ?G)
        else if l = ?G then 2 + (place n l ?B - place n l ?R) else place n l ?G - place n l ?B)"
      using False unfolding sixths_def Let_def l_def [symmetric] n_def [symmetric] place_difference by simp
    have ends: "place n l n = 0" "place n l l = 1" using place_ends nl by simp_all
    have le: "?R \<le> l" "?G \<le> l" "?B \<le> l" and ex: "l = ?R \<or> l = ?G \<or> l = ?B"
      by (auto simp: l_def max_def)
    consider "l = ?B" "?R < ?G" | "l = ?B" "?G \<le> ?R" "?R < l" | "l = ?B" "?G \<le> ?R" "?R = l"
      | "l = ?G" "?G \<noteq> ?B" "?B < ?R" | "l = ?G" "?B < ?G" "?R \<le> ?B"
      | "l = ?R" "?R \<noteq> ?B" "?G < ?R" "?B \<le> ?G" | "l = ?R" "?B < ?R" "?R \<noteq> ?G" "?G < ?B"
      using le ex by (metis le_less linorder_not_less)
    then show ?thesis
    proof cases
      case 1
      have n: "n = ?R" using 1 le by (simp add: n_def)
      have sixths: "sixths e = 4 - place n l ?G" unfolding six n [symmetric] ends using 1 ends nl by simp
      have x: "n \<le> ?G" "?G \<le> l" "n < ?G" using 1 n le by simp_all
      note p = place_range [OF nl x(1,2)]
      have c: "circle e = 4 - place n l ?G"
        unfolding circle_def sixths using p x by simp
      show ?thesis by (rule drift [of 3 ?G]) (use c p x nl n [symmetric] 1(1) [symmetric] in simp_all)
    next
      case 2
      have n: "n = ?G" using 2 le by (simp add: n_def)
      have sixths: "sixths e = 4 + place n l ?R" unfolding six n [symmetric] ends using 2 ends nl by simp
      have x: "n \<le> ?R" "?R \<le> l" "?R < l" using 2 n le by simp_all
      note p = place_range [OF nl x(1,2)]
      have c: "circle e = 4 + place n l ?R"
        unfolding circle_def sixths using p x by simp
      show ?thesis by (rule drift [of 4 ?R]) (use c p x nl n [symmetric] 2(1) [symmetric] in simp_all)
    next
      case 3
      have n: "n = ?G" using 3 le by (simp add: n_def)
      have sixths: "sixths e = 5" unfolding six n [symmetric] ends using 3 ends nl by simp
      have c: "circle e = 5" unfolding circle_def sixths by simp
      show ?thesis by (rule drift [of 5 l]) (use c ends nl n [symmetric] 3(1) [symmetric] 3(3) in simp_all)
    next
      case 4
      have n: "n = ?B" using 4 le by (simp add: n_def)
      have sixths: "sixths e = 2 - place n l ?R" unfolding six n [symmetric] ends using 4 ends nl by simp
      have x: "n \<le> ?R" "?R \<le> l" "n < ?R" using 4 n le by simp_all
      note p = place_range [OF nl x(1,2)]
      have c: "circle e = 2 - place n l ?R"
        unfolding circle_def sixths using p x by simp
      show ?thesis by (rule drift [of 1 ?R]) (use c p x nl n [symmetric] 4(1) [symmetric] in simp_all)
    next
      case 5
      have n: "n = ?R" using 5 le by (simp add: n_def)
      have sixths: "sixths e = 2 + place n l ?B" unfolding six n [symmetric] ends using 5 ends nl by simp
      have x: "n \<le> ?B" "?B \<le> l" "?B < l" using 5 n le by simp_all
      note p = place_range [OF nl x(1,2)]
      have c: "circle e = 2 + place n l ?B"
        unfolding circle_def sixths using p x by simp
      show ?thesis by (rule drift [of 2 ?B]) (use c p x nl n [symmetric] 5(1) [symmetric] in simp_all)
    next
      case 6
      have n: "n = ?B" using 6 le by (simp add: n_def)
      have sixths: "sixths e = place n l ?G" unfolding six n [symmetric] ends using 6 ends nl by simp
      have x: "n \<le> ?G" "?G \<le> l" "?G < l" using 6 n le by simp_all
      note p = place_range [OF nl x(1,2)]
      have c: "circle e = place n l ?G"
        unfolding circle_def sixths using p x by simp
      show ?thesis by (rule drift [of 0 ?G]) (use c p x nl n [symmetric] 6(1) [symmetric] in simp_all)
    next
      case 7
      have n: "n = ?G" using 7 le by (simp add: n_def)
      have sixths: "sixths e = - place n l ?B" unfolding six n [symmetric] ends using 7 ends nl by simp
      have x: "n \<le> ?B" "?B \<le> l" "n < ?B" using 7 n le by simp_all
      note p = place_range [OF nl x(1,2)]
      have c: "circle e = 6 - place n l ?B"
        unfolding circle_def sixths using p x by simp
      show ?thesis by (rule drift [of 5 ?B]) (use c p x nl n [symmetric] 7(1) [symmetric] in simp_all)
    qed
  qed
qed

theorem picker_drift_witness:
  "near \<lparr>cr = 3, cg = 200, cb = 77, ca = 1\<rparr> (HSVtoRGB (RGBtoHSV \<lparr>cr = 3, cg = 200, cb = 77, ca = 1\<rparr>))"
  by (rule picker_drift) (simp add: in_range_def)

section \<open>What the picker writes\<close>

definition marker_in_area :: "picker \<Rightarrow> bool" where
  "marker_in_area p = (0 < area_width p \<and> 0 < area_height p \<and> 0 \<le> marker_left p \<and> marker_left p \<le> area_width p \<and>
     0 \<le> marker_top p \<and> marker_top p \<le> area_height p)"

definition picker_start :: "picker \<Rightarrow> bool" where
  "picker_start p = (field p = None)"

text \<open>The canvas gives colors whose channels are bytes and whose opacity is between 0 and 1.\<close>

definition valid_style :: "fill_style \<Rightarrow> bool" where
  "valid_style c = in_range (strToRGBA c)"

text \<open>
  What can happen: the parts of the picker are used while it is open, sliders stay within their
  limits, and here the arrow keys do not move the marker out of the area.
\<close>

definition picker_moves :: "(string \<Rightarrow> fill_style) \<Rightarrow> picker \<Rightarrow> picker_event \<Rightarrow> picker \<Rightarrow> bool" where
  "picker_moves canvas p e q =
     (q = picker_step canvas e p \<and>
      (case e of
         Open_Field m w h \<Rightarrow> 0 < w \<and> 0 < h \<and> valid_style (canvas (field_value p m))
       | Outside_Click \<Rightarrow> True
       | Escape_Key \<Rightarrow> True
       | Hue_Input h \<Rightarrow> field p \<noteq> None \<and> 0 \<le> h \<and> h \<le> 360
       | Alpha_Input b \<Rightarrow> field p \<noteq> None \<and> 0 \<le> b \<and> b \<le> 100
       | Text_Change s \<Rightarrow> field p \<noteq> None \<and> valid_style (canvas s)
       | Swatch_Click s \<Rightarrow> field p \<noteq> None \<and> valid_style (canvas s)
       | Arrow_Key k \<Rightarrow> field p \<noteq> None \<and> (case arrow_step k of (dx, dy) \<Rightarrow>
           marker_in_area (p\<lparr>marker_left := marker_left p + dx, marker_top := marker_top p + dy\<rparr>))
       | _ \<Rightarrow> field p \<noteq> None))"

definition picker_inv :: "picker \<Rightarrow> bool" where
  "picker_inv p = (field p = None \<or>
     (in_range (current p) \<and> color_value p = RGBToHex (current p) \<and> marker_in_area p \<and>
      0 \<le> hue_slider p \<and> hue_slider p \<le> 360 \<and> 0 \<le> alpha_slider p \<and> alpha_slider p \<le> 100))"

lemma slider_range: "0 \<le> limit \<Longrightarrow> 0 \<le> slider limit x \<and> slider limit x \<le> limit"
  by (simp add: slider_def)

lemma percent_range: "unit_range x \<Longrightarrow> 0 \<le> Math_round (100 * x) \<and> Math_round (100 * x) \<le> 100"
  using Math_round_range [of 0 "100 * x" 100] by simp

lemma RGBtoHSV_range:
  assumes "in_range e"
  shows "0 \<le> cs (RGBtoHSV e)" "cs (RGBtoHSV e) \<le> 100" "0 \<le> cv (RGBtoHSV e)" "cv (RGBtoHSV e) \<le> 100"
proof -
  let ?l = "max (cr e) (max (cg e) (cb e))" and ?n = "min (cr e) (min (cg e) (cb e))"
  have l: "0 \<le> ?n" "?n \<le> ?l" "?l \<le> 255" using assms by (auto simp: in_range_def)
  have "unit_range (saturation ?l ?n)" by (rule saturation_unit [OF l(1,2)])
  note s = percent_range [OF this]
  have "0 \<le> ?l" using l(1,2) by (rule order_trans)
  then have "unit_range (of_int ?l / 255)" using l(3) by (simp del: max.bounded_iff)
  note v = percent_range [OF this]
  show "0 \<le> cs (RGBtoHSV e)" "cs (RGBtoHSV e) \<le> 100" "0 \<le> cv (RGBtoHSV e)" "cv (RGBtoHSV e) \<le> 100"
    unfolding RGBtoHSV_parts [OF assms] hsva.simps using s v
    by (simp_all only: of_int_0_le_iff of_int_le_numeral_iff)
qed

lemma setColorFromStr_inv:
  assumes "in_range (strToRGBA (canvas s))" "0 < area_width p" "0 < area_height p"
  shows "picker_inv (setColorFromStr canvas s p)"
  using RGBtoHSV_range [OF assms(1)] assms slider_range [of 360] slider_range [of 100]
  by (simp add: picker_inv_def setColorFromStr_def update_color_def marker_in_area_def Let_def
      mult_left_le divide_le_eq)

lemma pickColor_simps [simp]:
  "field (pickColor e p) = field p" "current (pickColor e p) = current p"
  "color_value (pickColor e p) = color_value p" "hue_slider (pickColor e p) = hue_slider p"
  "alpha_slider (pickColor e p) = alpha_slider p" "marker_left (pickColor e p) = marker_left p"
  "marker_top (pickColor e p) = marker_top p" "area_width (pickColor e p) = area_width p"
  "area_height (pickColor e p) = area_height p" "opened_with (pickColor e p) = opened_with p"
  by (simp_all add: pickColor_def split: option.split)

lemma pickColor_inv: "picker_inv (pickColor e p) = picker_inv p"
  by (simp add: picker_inv_def marker_in_area_def)

lemma position_inv:
  assumes "picker_inv p" "field p \<noteq> None"
  shows "picker_inv (setColorAtPosition (marker_left p) (marker_top p) p)"
proof -
  have "in_range (HSVtoRGB \<lparr>ch = of_int (hue_slider p), cs = marker_left p / area_width p * 100,
      cv = 100 - marker_top p / area_height p * 100, csa = of_int (alpha_slider p) / 100\<rparr>)"
    using assms by (intro HSVtoRGB_in_range) (auto simp: picker_inv_def marker_in_area_def field_simps)
  then show ?thesis using assms
    by (auto simp: setColorAtPosition_def pickColor_inv update_color_def picker_inv_def marker_in_area_def)
qed

lemma marker_inv:
  assumes "picker_inv p" "field p \<noteq> None" "marker_in_area (p\<lparr>marker_left := x, marker_top := y\<rparr>)"
  shows "picker_inv (setColorAtPosition x y (p\<lparr>marker_left := x, marker_top := y\<rparr>))"
  using position_inv [of "p\<lparr>marker_left := x, marker_top := y\<rparr>"] assms
  by (simp add: picker_inv_def marker_in_area_def)

lemma hue_inv:
  assumes "picker_inv p" "field p \<noteq> None" "0 \<le> h" "h \<le> 360"
  shows "picker_inv (setHue h p)"
  using position_inv [of "p\<lparr>hue_slider := h\<rparr>"] assms
  by (simp add: setHue_def Let_def picker_inv_def marker_in_area_def)

lemma picker_step_inv:
  assumes p: "picker_inv p" "picker_moves canvas p e q"
  shows "picker_inv q"
proof -
  have q: "q = picker_step canvas e p" using p(2) by (simp add: picker_moves_def)
  show ?thesis
  proof (cases e)
    case (Open_Field m w h)
    then show ?thesis using p(2)
      by (simp add: q open_picker_def picker_moves_def valid_style_def setColorFromStr_inv)
  next
    case (Pointer x y)
    then show ?thesis using p unfolding q
      by (auto simp: moveMarker_def Let_def picker_moves_def intro!: marker_inv)
        (auto simp: picker_inv_def marker_in_area_def)
  next
    case (Arrow_Key k)
    then show ?thesis using p unfolding q
      by (auto simp: arrow_key_def Let_def picker_moves_def split: prod.splits intro!: marker_inv)
  next
    case (Hue_Input h)
    then show ?thesis using p unfolding q by (simp add: hue_inv picker_moves_def)
  next
    case (Alpha_Input b)
    then show ?thesis using p unfolding q
      by (auto simp: setAlpha_def Let_def pickColor_inv update_color_def picker_moves_def picker_inv_def
          in_range_def marker_in_area_def)
  next
    case (Text_Change s)
    then show ?thesis using p unfolding q
      by (auto simp: valid_style_def text_changed_def pickColor_inv picker_moves_def picker_inv_def [of p] marker_in_area_def
          intro!: setColorFromStr_inv)
  next
    case (Swatch_Click s)
    then show ?thesis using p unfolding q
      by (auto simp: valid_style_def pickColor_inv picker_moves_def picker_inv_def [of p] marker_in_area_def
          intro!: setColorFromStr_inv)
  qed (simp_all add: q closePicker_def picker_inv_def Let_def split: option.split)
qed

interpretation picking: event_system picker_start "picker_moves canvas" picker_inv for canvas
proof unfold_locales
  show "picker_inv p" if "picker_start p" for p
    using that by (simp add: picker_start_def picker_inv_def)
  show "picker_inv q" if "picker_inv p" "picker_moves canvas p e q" for p e q
    using that by (rule picker_step_inv)
qed

text \<open>
  C25. What a field is given: as long as no arrow key moves the marker out of its area, every step leaves
  a field its value, or clears it when asked to, or gives it the text of the color shown, which is
  the text of a color and is read back as that color (but for its opacity, in the last two digits).
\<close>

theorem picker_writes_colors:
  assumes "reachable_from picker_start (picker_moves canvas) p" and "picker_moves canvas p e q"
  shows "field_value q m = field_value p m \<or>
    (if e = Clear_Click then field_value q m = []
     else field_value q m = RGBToHex (current q) \<and> color_text (field_value q m) \<and>
       strToRGBA (Hex (field_value q m)) = (current q)\<lparr>ca := 1\<rparr>)"
proof (cases "field_value q m = field_value p m \<or> e = Clear_Click")
  case False
  have p: "picker_inv p" using picking.reachable_inv [OF assms(1)] .
  have q: "q = picker_step canvas e p" using assms(2) by (simp add: picker_moves_def)
  have shown: "in_range (current q) \<and> color_value q = RGBToHex (current q) \<and> field_value q m = color_value q"
  proof (cases "field q = None")
    case False
    moreover have "picker_inv q" using picker_step_inv [OF p assms(2)] .
    moreover have "field_value q m = color_value q"
      using False \<open>\<not> (field_value q m = field_value p m \<or> e = Clear_Click)\<close> unfolding q
      by (cases e) (auto simp: open_picker_def setColorFromStr_def update_color_def moveMarker_def arrow_key_def
          setHue_def setAlpha_def text_changed_def setColorAtPosition_def pickColor_def closePicker_def Let_def
          split: option.splits prod.splits if_splits)
    ultimately show ?thesis by (auto simp: picker_inv_def)
  next
    case True
    then have "e = Preview_Click \<and> field p \<noteq> None \<and> current q = current p \<and> color_value q = color_value p \<and>
        field_value q m = color_value p"
      using \<open>\<not> (field_value q m = field_value p m \<or> e = Clear_Click)\<close> assms(2) unfolding q
      by (cases e) (auto simp: picker_moves_def open_picker_def setColorFromStr_def update_color_def moveMarker_def
          arrow_key_def setHue_def setAlpha_def text_changed_def setColorAtPosition_def pickColor_def closePicker_def
          Let_def split: option.splits prod.splits if_splits)
    then show ?thesis using p by (auto simp: picker_inv_def)
  qed
  then show ?thesis using False RGBToHex_text RGBToHex_reads_back by simp
next
  case True
  moreover have "field_value q m = field_value p m \<or> field_value q m = []" if "e = Clear_Click"
    using that assms(2) by (auto simp: picker_moves_def pickColor_def closePicker_def Let_def split: option.splits)
  ultimately show ?thesis by auto
qed

lemma two_digits_negative: "i < 0 \<Longrightarrow> two_digits i = CHR ''0'' # CHR ''-'' # show_hex (nat (- i))"
  by (simp add: two_digits_def toString16_def)

lemma hex_val_minus [simp]: "hex_val (CHR ''-'') = None"
  by (simp add: hex_val_def)

lemma negative_no_color:
  assumes "cr e < 0 \<or> cg e < 0 \<or> cb e < 0"
  shows "\<not> color_text (RGBToHex e)"
  using assms by (auto simp: color_text_def RGBToHex_def two_digits_negative)

text \<open>
  The arrow keys are not kept within the area. At its right edge and full brightness, one more step
  to the right puts a text into the field that is not a color: a channel is negative and is written
  with its sign, whatever the hue, in every area that is less than 510 pixels wide.
\<close>

theorem arrow_key_leaves_area:
  assumes "field p = Some m" and "marker_left p = area_width p" "marker_top p = 0"
    and "0 < area_width p" "area_width p < 510"
  shows "\<not> color_text (field_value (picker_step canvas (Arrow_Key Right) p) m)"
proof -
  let ?w = "area_width p"
  let ?e = "\<lparr>ch = of_int (hue_slider p), cs = (?w + 1) / ?w * 100, cv = 100 - 0 / area_height p * 100,
      csa = of_int (alpha_slider p) / 100\<rparr>"
  let ?f = "1 - \<bar>rem2 (ch ?e / 60) - 1\<bar>" and ?i = "nat (\<lfloor>ch ?e / 60\<rfloor> mod 6)"
  have typed: "field_value (picker_step canvas (Arrow_Key Right) p) m = RGBToHex (HSVtoRGB ?e)"
    using assms(1-3) by (simp add: arrow_key_def Let_def setColorAtPosition_def update_color_def pickColor_def)
  have lo: "1 - (?w + 1) / ?w = - (1 / ?w)" using assms(4) by (simp add: field_simps)
  have "255 * (1 - (?w + 1) / ?w) + 1 / 2 < 0" unfolding lo using assms(4,5) by (simp add: field_simps)
  then have neg: "Math_round (255 * (1 - (?w + 1) / ?w)) < 0" by (simp add: Math_round_def)
  have "?i < 6" by (simp add: nat_less_iff)
  then have "?i = 0 \<or> ?i = 1 \<or> ?i = 2 \<or> ?i = 3 \<or> ?i = 4 \<or> ?i = 5" by linarith
  moreover have "HSVtoRGB ?e = channels ?i 1 (1 - (?w + 1) / ?w * (1 - ?f)) (1 - (?w + 1) / ?w) (csa ?e)"
  proof -
    have percent: "x * 100 / 100 = x" for x :: rat by simp
    have parts: "cs ?e / 100 = (?w + 1) / ?w" "cv ?e / 100 = 1" unfolding hsva.simps percent by simp_all
    show ?thesis unfolding HSVtoRGB_channels Let_def parts by (simp only: mult_1)
  qed
  ultimately have "cr (HSVtoRGB ?e) < 0 \<or> cg (HSVtoRGB ?e) < 0 \<or> cb (HSVtoRGB ?e) < 0"
    using neg by (elim disjE) (simp_all only: channels_def rgba.simps, simp_all)
  then show ?thesis unfolding typed by (rule negative_no_color)
qed

section \<open>From opening to closing\<close>

text \<open>The fields that were told of a change; events that neither open nor close the picker.\<close>

definition changed :: "field_event list \<Rightarrow> nat list" where
  "changed evs = concat (map (\<lambda>e. case e of Change_Event m \<Rightarrow> [m] | Input m \<Rightarrow> []) evs)"



lemma changed_simps [simp]:
  "changed [] = []" "changed (evs @ evs') = changed evs @ changed evs'"
  "changed (Input m # evs) = changed evs" "changed (Change_Event m # evs) = m # changed evs"
  by (simp_all add: changed_def)







section \<open>Examples for the theorems\<close>

definition closed_picker :: picker where
  "closed_picker = \<lparr>field = None, opened_with = [], field_value = (\<lambda>_. []), current = \<lparr>cr = 0, cg = 0, cb = 0, ca = 1\<rparr>,
     hue_slider = 0, alpha_slider = 0, marker_left = 0, marker_top = 0, color_value = [], area_width = 0,
     area_height = 0, dispatched = []\<rparr>"

definition black_canvas :: "string \<Rightarrow> fill_style" where
  "black_canvas s = Hex ''#000000''"

lemma black_style: "strToRGBA (black_canvas s) = \<lparr>cr = 0, cg = 0, cb = 0, ca = 1\<rparr>"
proof -
  have "read_hex ''00'' = 0" by (simp add: read_hex_def hex_val_def)
  then show ?thesis by (simp add: black_canvas_def)
qed

lemma opened_reachable:
  "reachable_from picker_start (picker_moves black_canvas) (open_picker black_canvas 0 200 100 closed_picker)"
  by (rule reach_step [OF reach_start, of _ closed_picker _ "Open_Field 0 200 100"])
    (simp_all add: picker_start_def picker_moves_def valid_style_def black_style in_range_def closed_picker_def)

theorem picker_writes_colors_witness:
  "color_text (field_value (moveMarker 300 0 (open_picker black_canvas 0 200 100 closed_picker)) 0)"
proof -
  let ?p = "open_picker black_canvas 0 200 100 closed_picker"
  have "picker_moves black_canvas ?p (Pointer 300 0) (moveMarker 300 0 ?p)"
    by (simp add: picker_moves_def open_picker_def setColorFromStr_def update_color_def Let_def)
  note c = picker_writes_colors [OF opened_reachable this, of 0]
  have "field_value (moveMarker 300 0 ?p) 0 \<noteq> field_value ?p 0"
    by (simp add: open_picker_def setColorFromStr_def update_color_def moveMarker_def setColorAtPosition_def
        pickColor_def RGBToHex_def closed_picker_def Let_def)
  then show ?thesis using c by (auto simp del: strToRGBA.simps)
qed

theorem arrow_key_leaves_area_witness:
  "\<not> color_text (field_value (picker_step black_canvas (Arrow_Key Right)
     (moveMarker 300 0 (open_picker black_canvas 0 200 100 closed_picker))) 0)"
  by (rule arrow_key_leaves_area)
    (simp_all add: open_picker_def setColorFromStr_def update_color_def moveMarker_def setColorAtPosition_def
      pickColor_def Let_def)


end
