(* ===== verification/SubmitForm.thy ===== *)
theory SubmitForm
  imports HumanReadable Browser
begin

text \<open>
  The script of the submit form (\<open>templates/team/partials/submit_scripts.html.twig\<close>), with the language
  tables that the server writes into it (\<open>partials/javascript_language_detect.html.twig\<close>), the same for
  printing (\<open>partials/javascript_print.html.twig\<close>) and the list of the files selected
  (\<open>team/submit_modal.html.twig\<close>). A file that is chosen selects a language, a problem and an entry point.
\<close>

section \<open>The tables of languages\<close>

record language =
  langid :: string
  extensions :: "string list"
  requireEntryPoint :: bool
  entryPointDescription :: "string option"

text \<open>The template writes a case for each extension of each language, in order.\<close>

definition main_extension_cases :: "language list \<Rightarrow> (string \<times> string) list" where
  "main_extension_cases ls = concat (map (\<lambda>l. map (\<lambda>e. (to_lower e, langid l)) (extensions l)) ls)"

definition getMainExtension :: "language list \<Rightarrow> string \<Rightarrow> string" where
  "getMainExtension ls ext = (case map_of (main_extension_cases ls) ext of Some l \<Rightarrow> l | None \<Rightarrow> [])"

text \<open>The filter \<open>default\<close> of the templates also replaces an empty text.\<close>

definition described :: "string option \<Rightarrow> string" where
  "described d = (case d of None \<Rightarrow> ''Entry point'' | Some s \<Rightarrow> if s = [] then ''Entry point'' else s)"

definition getEntryPoint :: "language list \<Rightarrow> string \<Rightarrow> string" where
  "getEntryPoint ls mainext =
     (case map_of (map (\<lambda>l. (langid l, described (entryPointDescription l))) (filter requireEntryPoint ls)) mainext of
        Some d \<Rightarrow> d | None \<Rightarrow> [])"

section \<open>Entry points\<close>

text \<open>\<open>replace(/\.[^\.]*$/, '')\<close>: the last dot and what follows it.\<close>

definition drop_extension :: "string \<Rightarrow> string" where
  "drop_extension s = (case last_index_of (CHR ''.'') s of None \<Rightarrow> s | Some i \<Rightarrow> take i s)"

definition entryPointDetectJava :: "string \<Rightarrow> string" where
  "entryPointDetectJava filename = drop_extension filename"

definition is_letter :: "char \<Rightarrow> bool" where
  "is_letter c = (let n = of_char c :: nat in 65 \<le> n \<and> n \<le> 90 \<or> 97 \<le> n \<and> n \<le> 122)"

text \<open>\<open>replace\<close> with a pattern that has no flag \<open>g\<close> replaces the first match only.\<close>

fun replace_first :: "(char \<Rightarrow> bool) \<Rightarrow> char \<Rightarrow> string \<Rightarrow> string" where
  "replace_first P r [] = []"
| "replace_first P r (c # s) = (if P c then r # s else c # replace_first P r s)"

text \<open>\<open>toUpperCase\<close> of an ASCII letter.\<close>

definition to_upper_letter :: "char \<Rightarrow> char" where
  "to_upper_letter c = (let n = of_char c :: nat in if 97 \<le> n \<and> n \<le> 122 then char_of (n - 32) else c)"

definition entryPointDetectKt :: "string \<Rightarrow> string" where
  "entryPointDetectKt filename =
     (let filebase = drop_extension filename in
      if filebase = [] then ''_Kt''
      else
        let filebase = replace_first (\<lambda>c. \<not> is_alnum c) (CHR ''_'') filebase in
        if is_letter (hd filebase) then to_upper_letter (hd filebase) # tl filebase @ ''Kt''
        else ''_'' @ filebase @ ''Kt'')"

section \<open>The form\<close>

text \<open>A list of choices, each with its value and its text, and the index of the one selected.\<close>

record selection =
  options :: "(string \<times> string) list"
  selectedIndex :: nat

definition selected :: "selection \<Rightarrow> string" where
  "selected s = (case nth_opt (options s) (selectedIndex s) of None \<Rightarrow> [] | Some (v, t) \<Rightarrow> v)"

definition selected_text :: "selection \<Rightarrow> string" where
  "selected_text s = (case nth_opt (options s) (selectedIndex s) of None \<Rightarrow> [] | Some (v, t) \<Rightarrow> t)"

text \<open>The loop over the choices: each that fits is selected, so that the last one stays.\<close>

definition select_where :: "(string \<times> string \<Rightarrow> bool) \<Rightarrow> selection \<Rightarrow> selection" where
  "select_where P s = fold (\<lambda>i s. if P (options s ! i) then s\<lparr>selectedIndex := i\<rparr> else s) [0..<length (options s)] s"

record submit_form =
  code :: "string option"          \<comment> \<open>the value of the file field; \<open>None\<close>: there is no field\<close>
  language_list :: selection
  problem_list :: selection
  entry_shown :: bool
  entry_label :: string            \<comment> \<open>the text of the label, without its children\<close>
  entry_required :: bool
  entry_value :: string
  language_class :: string
  problem_class :: string

definition maybeShowEntryPoint :: "language list \<Rightarrow> string option \<Rightarrow> submit_form \<Rightarrow> submit_form" where
  "maybeShowEntryPoint ls filename f =
     (let lang = selected (language_list f) in
      if lang = [] then f
      else
        let description = getEntryPoint ls lang;
            f = f\<lparr>entry_shown := (description \<noteq> [])\<rparr>;
            f = (if description \<noteq> [] then f\<lparr>entry_label := description, entry_required := True\<rparr>
                 else f\<lparr>entry_required := False\<rparr>)
        in (case filename of
              Some (c # cs) \<Rightarrow>
                if description \<noteq> [] then
                  f\<lparr>entry_value :=
                      (if lang = ''java'' then entryPointDetectJava (c # cs)
                       else if lang = ''kt'' then entryPointDetectKt (c # cs)
                       else c # cs)\<rparr>
                else f\<lparr>entry_value := []\<rparr>
            | _ \<Rightarrow> f\<lparr>entry_value := []\<rparr>))"

text \<open>\<open>replace(/^.*[\\\/]/, '')\<close>: up to the last slash or backslash of the first line.\<close>

definition is_slash :: "char \<Rightarrow> bool" where
  "is_slash c = (c = CHR ''/'' \<or> c = CHR 0x5C)"

definition line_end :: "char \<Rightarrow> bool" where
  "line_end c = (c = CHR 0x0A \<or> c = CHR 0x0D)"

definition base_name :: "string \<Rightarrow> string" where
  "base_name s =
     (let line = takeWhile (\<lambda>c. \<not> line_end c) s;
          rest = dropWhile (\<lambda>c. \<not> line_end c) s
      in rev (takeWhile (\<lambda>c. \<not> is_slash c) (rev line)) @ rest)"

text \<open>\<open>split(/ - /)[0]\<close>: up to the first blank, hyphen, blank.\<close>

fun before_hyphen :: "string \<Rightarrow> string" where
  "before_hyphen [] = []"
| "before_hyphen (c # s) = (if take 3 (c # s) = '' - '' then [] else c # before_hyphen s)"

definition processFile :: "language list \<Rightarrow> submit_form \<Rightarrow> submit_form" where
  "processFile ls f =
     (case code f of
        Some (c # cs) \<Rightarrow>
          let filename = base_name (c # cs);
              parts = rev (split_on (CHR ''.'') filename)
          in if length parts < 2 then f
             else
               let lcParts = [to_lower (parts ! 0), to_lower (parts ! 1)] in
               if selected (language_list f) \<noteq> [] then f
               else
                 let lang = getMainExtension ls (lcParts ! 0);
                     f = f\<lparr>language_list := select_where (\<lambda>p. fst p = lang) (language_list f)\<rparr>;
                     f = maybeShowEntryPoint ls (Some filename) f
                 in if selected (problem_list f) \<noteq> [] then f
                    else f\<lparr>problem_list := select_where
                             (\<lambda>p. to_lower (before_hyphen (snd p)) = lcParts ! 1) (problem_list f)\<rparr>
      | _ \<Rightarrow> f)"

text \<open>The handlers of \<open>change\<close> of the two fields, and what is done once the page is ready.\<close>

definition code_changed :: "language list \<Rightarrow> string option \<Rightarrow> submit_form \<Rightarrow> submit_form" where
  "code_changed ls v f = processFile ls (f\<lparr>code := v\<rparr>)"



section \<open>Submitting\<close>

text \<open>
  The handler of \<open>submit\<close>, given the names of the files: the form goes ahead if the question it asks is
  answered with yes. (A file has no property \<open>value\<close>, so each file but the first counts.)
\<close>

definition newline :: string where
  "newline = [CHR 0x0A]"

definition submit_question :: "string list \<Rightarrow> submit_form \<Rightarrow> string" where
  "submit_question filenames f =
     (let auxfileno = length (tl filenames);
          extrafiles = (if auxfileno > 0 then ''Additional source files: '' @ show_nat auxfileno @ newline else [])
      in ''Main source file: '' @ hd filenames @ newline @ extrafiles @ newline @
         ''Problem: '' @ selected_text (problem_list f) @ newline @
         ''Language: '' @ selected_text (language_list f) @ newline @ newline @ ''Make submission?'')"

datatype submit_outcome = Refused | Asks string

definition submit_handler :: "string list \<Rightarrow> submit_form \<Rightarrow> (submit_form \<times> submit_outcome) outcome" where
  "submit_handler filenames f =
     (case filenames of
        [] \<Rightarrow> Inl TypeError
      | filename # _ \<Rightarrow>
          let lang = selected (language_list f); problem = selected (problem_list f);
              f = (if lang = [] then f\<lparr>language_class := language_class f @ '' errorfield''\<rparr> else f);
              f = (if problem = [] then f\<lparr>problem_class := problem_class f @ '' errorfield''\<rparr> else f)
          in Inr (f, if lang = [] \<or> problem = [] \<or> filename = [] then Refused
                     else Asks (submit_question filenames f)))"

section \<open>Printing\<close>

definition detectLanguage :: "language list \<Rightarrow> string \<Rightarrow> selection \<Rightarrow> selection" where
  "detectLanguage ls filename elt =
     (let parts = rev (split_on (CHR ''.'') (to_lower filename)) in
      if length parts < 2 then elt
      else if selected elt \<noteq> [] then elt
      else select_where (\<lambda>p. fst p = getMainExtension ls (parts ! 0)) elt)"

section \<open>The list of the files selected\<close>

text \<open>The names that the server accepts: \<open>/^[a-zA-Z0-9][a-zA-Z0-9+_\.-]*$/\<close>.\<close>

definition name_char :: "char \<Rightarrow> bool" where
  "name_char c = (is_alnum c \<or> c \<in> {CHR ''+'', CHR ''_'', CHR ''.'', CHR ''-''})"

definition valid_filename :: "string \<Rightarrow> bool" where
  "valid_filename s = (s \<noteq> [] \<and> is_alnum (hd s) \<and> list_all name_char (tl s))"

record selected_file =
  file_name :: string
  file_size :: nat
  last_modified :: int             \<comment> \<open>in milliseconds\<close>

definition is_recent :: "int \<Rightarrow> selected_file \<Rightarrow> bool" where
  "is_recent now file = (last_modified file > now - 5 * 60 * 1000)"

definition file_class :: "selected_file \<Rightarrow> string" where
  "file_class file =
     (let className = [];
          className = (if \<not> valid_filename (file_name file) then ''bg-danger'' else className)
      in if file_size file = 0 then ''bg-warning'' else className)"

definition file_message :: "int \<Rightarrow> selected_file \<Rightarrow> string" where
  "file_message now file =
     (let ago = humanReadableTimeDiff (of_int (now - last_modified file) / 1000) @ '' ago'';
          message = ''size '' @ humanReadableBytes (of_nat (file_size file));
          message = message @ '', last modified '' @ ago;
          message = message @ (if \<not> valid_filename (file_name file) then '', invalid filename'' else [])
      in message @ (if file_size file = 0 then '', empty file'' else []))"

definition file_item :: "int \<Rightarrow> selected_file \<Rightarrow> string" where
  "file_item now file = ''<li class='' @ [CHR 0x22] @ file_class file @ [CHR 0x22] @ ''><span class='' @ [CHR 0x22] @
     ''filename'' @ [CHR 0x22] @ ''>'' @ file_name file @ ''</span> '' @ file_message now file @ ''</li>''"

definition not_recent_alert :: string where
  "not_recent_alert = ''<div class='' @ [CHR 0x22] @ ''alert alert-warning'' @ [CHR 0x22] @
     ''>None of the selected files have been recently modified</div>''"

definition files_selected :: "int \<Rightarrow> selected_file list \<Rightarrow> string" where
  "files_selected now files = ''<ul>'' @ concat (map (file_item now) files) @ ''</ul>'' @
     (if \<not> list_ex (is_recent now) files then not_recent_alert else [])"

section \<open>Entry points for Kotlin\<close>







lemma alnum_letter: "is_letter c \<Longrightarrow> is_alnum c" "is_letter c \<Longrightarrow> is_alnum (to_upper_letter c)"
  by (auto simp: is_letter_def is_alnum_def to_upper_letter_def Let_def)

lemma replace_first_set: "set (replace_first P r s) \<subseteq> insert r (set s)"
  by (induction s) auto

lemma drop_extension_Cons: "c \<noteq> CHR ''.'' \<Longrightarrow> drop_extension (c # cs) = c # drop_extension cs"
  by (auto simp: drop_extension_def simp del: last_index_of_None split: option.splits)

lemma set_drop_extension: "set (drop_extension s) \<subseteq> set s"
  by (auto simp: drop_extension_def dest: in_set_takeD split: option.splits)

lemma is_alnum_dot [simp]: "\<not> is_alnum (CHR ''.'')" "\<not> is_alnum (CHR ''_'')"
  by (simp_all add: is_alnum_def)

text \<open>
  The server takes an entry point only if it is such a name as a file may have. For a file that the
  server takes, the entry point proposed for Java is always taken; the one for Kotlin exactly if
  the name of the file begins with a letter, for otherwise it begins with an underscore.
\<close>

theorem entry_point_accepted:
  assumes "valid_filename filename"
  shows "valid_filename (entryPointDetectJava filename) \<and>
    valid_filename (entryPointDetectKt filename) = is_letter (hd filename)"
proof -
  obtain c cs where f: "filename = c # cs" "is_alnum c" "list_all name_char cs"
    using assms by (cases filename) (simp_all add: valid_filename_def)
  have base: "drop_extension filename = c # drop_extension cs"
    unfolding f(1) using f(2) by (intro drop_extension_Cons) auto
  have rest: "list_all name_char (drop_extension cs)"
    using f(3) set_drop_extension [of cs] by (auto simp: list_all_iff)
  let ?one = "replace_first (\<lambda>c. \<not> is_alnum c) (CHR ''_'') (drop_extension cs)"
  have one: "list_all name_char ?one"
    using rest replace_first_set [of "\<lambda>c. \<not> is_alnum c" "CHR ''_''" "drop_extension cs"]
    by (auto simp: list_all_iff name_char_def)
  have suffix: "list_all name_char ''Kt''" by (simp add: name_char_def is_alnum_def)
  have "entryPointDetectKt filename =
      (if is_letter c then to_upper_letter c # ?one @ ''Kt'' else CHR ''_'' # c # ?one @ ''Kt'')"
    using base f(2) by (simp add: entryPointDetectKt_def Let_def)
  then show ?thesis
    using base rest one suffix f(1,2) alnum_letter [of c]
    by (simp add: valid_filename_def entryPointDetectJava_def)
qed

section \<open>What a file selects\<close>





text \<open>A list of problems as the server writes it, and the problems with a label.\<close>

record problem =
  probid :: string
  short_name :: string
  problem_name :: string

definition problem_options :: "problem list \<Rightarrow> (string \<times> string) list" where
  "problem_options ps = ([], ''Select a problem'') #
     map (\<lambda>p. (probid p, short_name p @ '' - '' @ problem_name p)) ps"














lemma described_full [simp]: "described d \<noteq> []"
  by (simp add: described_def split: option.split)





text \<open>
  Once a language is chosen, by hand or by a first file, another file changes nothing: neither the
  problem nor the language nor the entry point follow it, so the entry point of the first file stays.
\<close>

theorem first_file_stays:
  assumes "selected (language_list f) \<noteq> []"
  shows "fold (code_changed ls) vs f = (if vs = [] then f else f\<lparr>code := last vs\<rparr>)"
  using assms
proof (induction vs arbitrary: f)
  case (Cons v vs)
  have "code_changed ls v f = f\<lparr>code := v\<rparr>"
    using Cons.prems by (auto simp: code_changed_def processFile_def Let_def split: option.split list.split)
  then show ?case using Cons by simp
qed simp

section \<open>The entry point field\<close>










text \<open>
  The form is sent only after a question, and the question is asked only if both a language and a
  problem are chosen; otherwise what is missing is marked, and nothing else changes.
\<close>

theorem submit_asks:
  "submit_handler (n # ns) f =
     (let ok = selected (language_list f) \<noteq> [] \<and> selected (problem_list f) \<noteq> []
      in Inr (f\<lparr>language_class := language_class f @ (if selected (language_list f) = [] then '' errorfield'' else []),
                problem_class := problem_class f @ (if selected (problem_list f) = [] then '' errorfield'' else [])\<rparr>,
              if ok \<and> n \<noteq> [] then Asks (submit_question (n # ns) f) else Refused))"
  by (simp add: submit_handler_def submit_question_def Let_def)

text \<open>A file is listed without a color exactly if the server takes its name and it is not empty.\<close>

lemma file_class_plain: "file_class file = [] \<longleftrightarrow> valid_filename (file_name file) \<and> file_size file \<noteq> 0"
  by (simp add: file_class_def)

section \<open>Examples for the theorems\<close>

definition two_languages :: "language list" where
  "two_languages =
     [\<lparr>langid = ''java'', extensions = [''java''], requireEntryPoint = False, entryPointDescription = Some ''Main class''\<rparr>,
      \<lparr>langid = ''kt'', extensions = [''kt''], requireEntryPoint = True, entryPointDescription = Some ''Main class''\<rparr>]"

definition fresh_form :: submit_form where
  "fresh_form = \<lparr>code = None,
     language_list = \<lparr>options = [([], ''Select a language''), (''java'', ''Java''), (''kt'', ''Kotlin'')], selectedIndex = 0\<rparr>,
     problem_list = \<lparr>options = problem_options [\<lparr>probid = ''3'', short_name = ''A'', problem_name = ''Hello''\<rparr>],
       selectedIndex = 0\<rparr>,
     entry_shown = True, entry_label = [], entry_required = False, entry_value = [],
     language_class = [], problem_class = []\<rparr>"


theorem entry_point_accepted_witness:
  "valid_filename (entryPointDetectJava ''1-a.kt'') \<and> \<not> valid_filename (entryPointDetectKt ''1-a.kt'')"
  using entry_point_accepted [of "''1-a.kt''"]
  by (simp add: valid_filename_def is_alnum_def is_letter_def name_char_def)

theorem first_file_stays_witness:
  "entry_value (fold (code_changed two_languages) [Some ''B.kt'', Some ''C.java'']
     (fresh_form\<lparr>language_list := (language_list fresh_form)\<lparr>selectedIndex := 2\<rparr>, entry_value := ''AKt''\<rparr>)) = ''AKt''"
  by (subst first_file_stays) (simp_all add: fresh_form_def selected_def nth_opt_def)


end
