(* ===== verification/RowFilters.thy ===== *)
theory RowFilters
  imports Refresh
begin

text \<open>
  The filters on the rows of two tables of the jury: the balloons (\<open>templates/jury/balloons.html.twig\<close>)
  and the warnings of an external contest (\<open>jury/external_contest.html.twig\<close>). The script reads the
  lists of choices, keeps them in a cookie for the server, and hides the rows they do not allow; it
  runs at every choice, and as the hook of the page refresh (\<open>Refresh\<close>) for the rows that came new.
\<close>

section \<open>A cookie with an object in it\<close>

text \<open>An object whose values are arrays of strings, by name, in the order in which names were first set.\<close>

type_synonym filters = "(string \<times> string list) list"

fun obj_put :: "string \<Rightarrow> string list \<Rightarrow> filters \<Rightarrow> filters" where
  "obj_put k v [] = [(k, v)]"
| "obj_put k v ((k', v') # ps) = (if k' = k then (k, v) # ps else (k', v') # obj_put k v ps)"

definition stringify_member :: "string \<times> string list \<Rightarrow> string" where
  "stringify_member p = json_string (fst p) @ '':'' @ json_stringify (map Some (snd p))"

definition stringify_object :: "filters \<Rightarrow> string" where
  "stringify_object ps = ''{'' @ join_with '','' (map stringify_member ps) @ ''}''"

section \<open>The filters of a page\<close>

text \<open>A list of choices with its field and the values chosen; a row with what its cells say.\<close>

record 'r filter_page =
  selects :: filters
  rows :: "('r \<times> bool) list"           \<comment> \<open>each row, and whether it is shown\<close>
  host :: browser

definition active_filters :: "filters \<Rightarrow> filters" where
  "active_filters sels = filter (\<lambda>f. snd f \<noteq> []) sels"

definition filter_object :: "filters \<Rightarrow> filters" where
  "filter_object fs = foldl (\<lambda>ob f. obj_put (fst f) (snd f) ob) [] fs"

text \<open>The loop over the filters for one row, with an early exit.\<close>

fun passes :: "('r \<Rightarrow> string \<Rightarrow> string) \<Rightarrow> filters \<Rightarrow> 'r \<Rightarrow> bool" where
  "passes cell [] r = True"
| "passes cell ((field, vs) # fs) r = (if cell r field \<notin> set vs then False else passes cell fs r)"

definition process_filter :: "string \<Rightarrow> ('r \<Rightarrow> string \<Rightarrow> string) \<Rightarrow> 'r filter_page \<Rightarrow> 'r filter_page" where
  "process_filter cookie cell p =
     (let filters = active_filters (selects p);
          p = p\<lparr>host := setCookie cookie (stringify_object (filter_object filters)) (host p)\<rparr>
      in if length filters = 0 then p\<lparr>rows := map (\<lambda>(r, s). (r, True)) (rows p)\<rparr>
         else
           let hidden = map (\<lambda>(r, s). (r, False)) (rows p)
           in p\<lparr>rows := map (\<lambda>(r, s). if passes cell filters r then (r, True) else (r, s)) hidden\<rparr>)"

text \<open>A choice, by its handler of \<open>change\<close>.\<close>

definition take_choice :: "string \<Rightarrow> ('r \<Rightarrow> string \<Rightarrow> string) \<Rightarrow> nat \<Rightarrow> string list \<Rightarrow> 'r filter_page \<Rightarrow> 'r filter_page" where
  "take_choice cookie cell i vs p =
     process_filter cookie cell
       (p\<lparr>selects := list_update (selects p) i (fst (selects p ! i), vs)\<rparr>)"

text \<open>The page refresh: the rows of the answer, all shown, then the hook.\<close>

definition refreshed :: "string \<Rightarrow> ('r \<Rightarrow> string \<Rightarrow> string) \<Rightarrow> 'r list \<Rightarrow> 'r filter_page \<Rightarrow> 'r filter_page" where
  "refreshed cookie cell new p = process_filter cookie cell (p\<lparr>rows := map (\<lambda>r. (r, True)) new\<rparr>)"

section \<open>The two pages\<close>

text \<open>
  A row of balloons has its data in attributes of the row (\<open>undefined\<close> is written for one that is
  missing). jQuery reads an attribute that looks like a JSON array or object as such; locations of
  that form are left out.
\<close>

type_synonym balloon_row = "string \<rightharpoonup> string"

definition balloon_cell :: "balloon_row \<Rightarrow> string \<Rightarrow> string" where
  "balloon_cell r field = (case r field of None \<Rightarrow> ''undefined'' | Some v \<Rightarrow> v)"

definition process_balloons_filter :: "balloon_row filter_page \<Rightarrow> balloon_row filter_page" where
  "process_balloons_filter = process_filter ''domjudge_balloonsfilter'' balloon_cell"

text \<open>The button that resets all filters: each list in turn, with its \<open>change\<close>; the categories get their default.\<close>

definition clear_balloon_filters :: "string list \<Rightarrow> balloon_row filter_page \<Rightarrow> balloon_row filter_page" where
  "clear_balloon_filters defaultCategories p =
     fold (\<lambda>i p. take_choice ''domjudge_balloonsfilter'' balloon_cell i
             (if fst (selects p ! i) = ''category-id'' then defaultCategories else []) p)
       [0..<length (selects p)] p"

text \<open>A row of warnings has cells, each with an attribute of its own.\<close>

type_synonym warning_row = "(string \<times> string) list"

definition warning_cell :: "warning_row \<Rightarrow> string \<Rightarrow> string" where
  "warning_cell r field = (case map_of r field of None \<Rightarrow> ''undefined'' | Some v \<Rightarrow> v)"

definition process_warnings_filter :: "warning_row filter_page \<Rightarrow> warning_row filter_page" where
  "process_warnings_filter = process_filter ''domjudge_external_configuration_filter'' warning_cell"

text \<open>Here all lists are emptied first, then each has its \<open>change\<close>.\<close>

definition clear_warning_filters :: "warning_row filter_page \<Rightarrow> warning_row filter_page" where
  "clear_warning_filters p =
     fold (\<lambda>f p. process_warnings_filter p) (selects p)
       (p\<lparr>selects := map (\<lambda>f. (fst f, [])) (selects p)\<rparr>)"

section \<open>Reading the cookie\<close>

text \<open>A reader of such texts, for the server's side: an object of arrays, as \<open>stringify_object\<close> writes it.\<close>

definition read_array :: "string \<Rightarrow> (string option list \<times> string) option" where
  "read_array s =
     (case s of
        [] \<Rightarrow> None
      | c # r \<Rightarrow>
          if c \<noteq> CHR ''['' then None
          else if json_skip r \<noteq> [] \<and> hd (json_skip r) = CHR '']'' then Some ([], tl (json_skip r))
          else json_elems r)"

definition read_member :: "string \<Rightarrow> ((string \<times> string option list) \<times> string) option" where
  "read_member s =
     (case s of
        [] \<Rightarrow> None
      | c # r \<Rightarrow>
          if c \<noteq> CHR 0x22 then None
          else (case json_body r of
              Some (k, d # t) \<Rightarrow>
                if d = CHR '':'' then map_option (\<lambda>(vs, u). ((k, vs), u)) (read_array t) else None
            | _ \<Rightarrow> None))"

fun read_members :: "string \<Rightarrow> (string \<times> string option list) list option" where
  "read_members s =
     (case read_member s of
        None \<Rightarrow> None
      | Some (m, t) \<Rightarrow>
          (case t of
             [] \<Rightarrow> None
           | c # u \<Rightarrow>
               if c = CHR ''}'' then (if u = [] then Some [m] else None)
               else if c = CHR '','' \<and> length u < length s then map_option (\<lambda>ms. m # ms) (read_members u)
               else None))"

declare read_members.simps [simp del]

definition read_object :: "string \<Rightarrow> (string \<times> string option list) list option" where
  "read_object s =
     (case s of
        [] \<Rightarrow> None
      | c # r \<Rightarrow> if c \<noteq> CHR ''{'' then None else if r = ''}'' then Some [] else read_members r)"

lemma read_array_stringify: "read_array (json_stringify vs @ r) = Some (vs, r)"
proof (cases "vs = []")
  case True
  then show ?thesis by (simp add: json_stringify_def read_array_def)
next
  case False
  then obtain v ws where vs: "vs = v # ws" by (cases vs) auto
  define j where "j = join_with '','' (map json_value vs) @ '']'' @ r"
  have "\<exists>t. j = json_value v @ t" unfolding j_def vs by (cases ws) auto
  then have "json_skip j \<noteq> [] \<and> hd (json_skip j) \<noteq> CHR '']''" using json_value_head [of v] by auto
  moreover have "json_elems j = Some (vs, r)" unfolding j_def by (rule json_elems_join [OF False])
  ultimately show ?thesis by (simp add: json_stringify_def read_array_def j_def)
qed

lemma read_member_stringify: "read_member (stringify_member p @ r) = Some ((fst p, map Some (snd p)), r)"
  using json_body_string [of "fst p" "CHR '':'' # json_stringify (map Some (snd p)) @ r"]
  by (simp add: stringify_member_def json_string_def read_member_def read_array_stringify)

lemma read_members_stringify:
  "ps \<noteq> [] \<Longrightarrow> read_members (join_with '','' (map stringify_member ps) @ ''}'') =
     Some (map (\<lambda>p. (fst p, map Some (snd p))) ps)"
proof (induction ps)
  case (Cons p ps)
  show ?case
  proof (cases "ps = []")
    case True
    then show ?thesis by (simp add: read_members.simps read_member_stringify)
  next
    case False
    then have "join_with '','' (map stringify_member (p # ps)) @ ''}''
        = stringify_member p @ CHR '','' # join_with '','' (map stringify_member ps) @ ''}''"
      by (simp add: join_with_Cons)
    with False Cons.IH show ?thesis
      by (simp add: read_members.simps [of "stringify_member p @ _"] read_member_stringify)
  qed
qed simp

lemma read_object_stringify:
  "read_object (stringify_object ps) = Some (map (\<lambda>p. (fst p, map Some (snd p))) ps)"
proof (cases "ps = []")
  case False
  then have "join_with '','' (map stringify_member ps) \<noteq> []"
    by (cases ps) (auto simp: stringify_member_def json_string_def join_with_Cons dest: arg_cong [of _ _ length]
        split: list.splits elim: join_with.elims)
  then show ?thesis
    using read_members_stringify [OF False] by (simp add: stringify_object_def read_object_def)
qed (simp add: stringify_object_def read_object_def)

section \<open>What is shown\<close>

definition allowed :: "('r \<Rightarrow> string \<Rightarrow> string) \<Rightarrow> filters \<Rightarrow> 'r \<Rightarrow> bool" where
  "allowed cell sels r = list_all (\<lambda>f. snd f = [] \<or> cell r (fst f) \<in> set (snd f)) sels"

lemma passes_allowed: "passes cell (active_filters sels) r = allowed cell sels r"
  by (induction sels) (auto simp: active_filters_def allowed_def split: prod.split if_splits)

lemma no_filters_allowed: "active_filters sels = [] \<Longrightarrow> allowed cell sels r"
  by (auto simp: active_filters_def allowed_def filter_empty_conv list_all_iff)

lemma process_filter_rows:
  "rows (process_filter cookie cell p) = map (\<lambda>(r, s). (r, allowed cell (selects p) r)) (rows p)"
  "selects (process_filter cookie cell p) = selects p"
  by (auto simp: process_filter_def Let_def passes_allowed no_filters_allowed)

lemma obj_put_new: "k \<notin> fst ` set ob \<Longrightarrow> obj_put k v ob = ob @ [(k, v)]"
  by (induction ob rule: obj_put.induct) auto

lemma filter_object_same: "distinct (map fst fs) \<Longrightarrow> filter_object fs = fs"
proof (induction fs rule: rev_induct)
  case (snoc f fs)
  then show ?case unfolding filter_object_def by (simp add: obj_put_new)
qed (simp add: filter_object_def)

lemma distinct_active: "distinct (map fst sels) \<Longrightarrow> distinct (map fst (active_filters sels))"
  unfolding active_filters_def by (rule distinct_map_filter)

text \<open>
  What both pages promise: each row is shown exactly if every list of choices in which something is
  chosen has the row's value among them; and the cookie, read by anyone, tells those lists.
\<close>

definition filters_applied :: "string \<Rightarrow> ('r \<Rightarrow> string \<Rightarrow> string) \<Rightarrow> 'r filter_page \<Rightarrow> bool" where
  "filters_applied cookie cell p =
     (list_all (\<lambda>(r, s). s = allowed cell (selects p) r) (rows p) \<and>
      read_object (getCookie cookie (host p)) =
        Some (map (\<lambda>f. (fst f, map Some (snd f))) (active_filters (selects p))))"

definition page_ok :: "'r filter_page \<Rightarrow> bool" where
  "page_ok p = (jar_ok (host p) \<and> distinct (map fst (selects p)))"

locale row_filter =
  fixes cookie :: string and cell :: "'r \<Rightarrow> string \<Rightarrow> string"
  assumes name: "cookie_name cookie"
begin

lemma process_applies:
  assumes "page_ok p"
  shows "filters_applied cookie cell (process_filter cookie cell p)" "page_ok (process_filter cookie cell p)"
proof -
  have ok: "jar_ok (host p)" "distinct (map fst (active_filters (selects p)))"
    using assms by (simp_all add: page_ok_def distinct_active)
  have host: "host (process_filter cookie cell p) =
      setCookie cookie (stringify_object (active_filters (selects p))) (host p)"
    using ok(2) by (simp add: process_filter_def Let_def filter_object_same)
  show "filters_applied cookie cell (process_filter cookie cell p)"
    using ok(1) name host process_filter_rows [of cookie cell p]
    by (auto simp: filters_applied_def read_object_stringify list_all_iff)
  show "page_ok (process_filter cookie cell p)"
    using assms host name by (simp add: page_ok_def process_filter_rows)
qed

lemma choice_applies:
  assumes "page_ok p"
  shows "filters_applied cookie cell (take_choice cookie cell i vs p)" "page_ok (take_choice cookie cell i vs p)"
proof -
  let ?p = "p\<lparr>selects := list_update (selects p) i (fst (selects p ! i), vs)\<rparr>"
  have "map fst (selects ?p) = map fst (selects p)"
    by (cases "i < length (selects p)") (simp_all add: map_update list_update_same_conv list_update_beyond)
  then have "page_ok ?p" using assms by (simp add: page_ok_def)
  then show "filters_applied cookie cell (take_choice cookie cell i vs p)" "page_ok (take_choice cookie cell i vs p)"
    unfolding take_choice_def by (rule process_applies)+
qed

lemma refreshed_applies:
  assumes "page_ok p"
  shows "filters_applied cookie cell (refreshed cookie cell new p)" "page_ok (refreshed cookie cell new p)"
  unfolding refreshed_def using assms process_applies [of "p\<lparr>rows := map (\<lambda>r. (r, True)) new\<rparr>"]
  by (simp_all add: page_ok_def)

lemma choices_apply:
  "page_ok p \<Longrightarrow> filters_applied cookie cell p \<Longrightarrow>
   filters_applied cookie cell (fold (\<lambda>i p. take_choice cookie cell i (g i p) p) is p) \<and>
   page_ok (fold (\<lambda>i p. take_choice cookie cell i (g i p) p) is p)"
  by (induction "is" arbitrary: p) (simp_all add: choice_applies)

lemma processes_apply:
  "page_ok p \<Longrightarrow> xs \<noteq> [] \<Longrightarrow>
   filters_applied cookie cell (fold (\<lambda>x. process_filter cookie cell) xs p) \<and>
   page_ok (fold (\<lambda>x. process_filter cookie cell) xs p)"
proof (induction xs arbitrary: p)
  case (Cons x xs)
  then show ?case by (cases xs) (simp_all add: process_applies)
qed simp

end

interpretation balloon_filter: row_filter "''domjudge_balloonsfilter''" balloon_cell
  by unfold_locales (simp add: cookie_name_def is_ws_def)

interpretation warning_filter: row_filter "''domjudge_external_configuration_filter''" warning_cell
  by unfold_locales (simp add: cookie_name_def is_ws_def)

section \<open>The pages in use\<close>

datatype 'r filter_event = Choice nat "string list" | Refreshed "'r list" | Reset

fun balloon_step :: "string list \<Rightarrow> balloon_row filter_event \<Rightarrow> balloon_row filter_page \<Rightarrow> balloon_row filter_page" where
  "balloon_step dflt (Choice i vs) p = take_choice ''domjudge_balloonsfilter'' balloon_cell i vs p"
| "balloon_step dflt (Refreshed new) p = refreshed ''domjudge_balloonsfilter'' balloon_cell new p"
| "balloon_step dflt Reset p = clear_balloon_filters dflt p"

fun warning_step :: "warning_row filter_event \<Rightarrow> warning_row filter_page \<Rightarrow> warning_row filter_page" where
  "warning_step (Choice i vs) p = take_choice ''domjudge_external_configuration_filter'' warning_cell i vs p"
| "warning_step (Refreshed new) p = refreshed ''domjudge_external_configuration_filter'' warning_cell new p"
| "warning_step Reset p = clear_warning_filters p"

lemma balloon_step_applies:
  assumes "page_ok p" "filters_applied ''domjudge_balloonsfilter'' balloon_cell p"
  shows "page_ok (balloon_step dflt e p)" "filters_applied ''domjudge_balloonsfilter'' balloon_cell (balloon_step dflt e p)"
  using assms balloon_filter.choices_apply [OF assms]
  by (cases e; simp add: balloon_filter.choice_applies balloon_filter.refreshed_applies clear_balloon_filters_def)+

lemma warning_step_applies:
  assumes "page_ok p" "filters_applied ''domjudge_external_configuration_filter'' warning_cell p"
  shows "page_ok (warning_step e p)"
    "filters_applied ''domjudge_external_configuration_filter'' warning_cell (warning_step e p)"
proof -
  let ?p = "p\<lparr>selects := map (\<lambda>f. (fst f, [])) (selects p)\<rparr>"
  have ok: "page_ok ?p" using assms(1) by (simp add: page_ok_def o_def)
  have "page_ok (clear_warning_filters p) \<and>
      filters_applied ''domjudge_external_configuration_filter'' warning_cell (clear_warning_filters p)"
  proof (cases "selects p = []")
    case True
    then have "clear_warning_filters p = p" by (cases p) (simp add: clear_warning_filters_def)
    then show ?thesis using assms by simp
  next
    case False
    then show ?thesis using warning_filter.processes_apply [OF ok False]
      by (simp add: clear_warning_filters_def process_warnings_filter_def)
  qed
  then show "page_ok (warning_step e p)"
    "filters_applied ''domjudge_external_configuration_filter'' warning_cell (warning_step e p)"
    using assms by (cases e; simp add: warning_filter.choice_applies warning_filter.refreshed_applies)+
qed

text \<open>
  C19. The balloons that are shown: from when the page is ready on, after any choices, resets and refreshes
  that bring any new rows, a row is shown exactly if every list in which something is chosen has its
  value; and the cookie that the server reads tells exactly those lists and what is chosen in them.
\<close>

theorem balloons_filtered:
  assumes "jar_ok (host p)" "distinct (map fst (selects p))"
  shows "let q = fold (balloon_step dflt) es (process_balloons_filter p) in
    map snd (rows q) = map (\<lambda>(r, s). allowed balloon_cell (selects q) r) (rows q) \<and>
    read_object (getCookie ''domjudge_balloonsfilter'' (host q)) =
      Some (map (\<lambda>f. (fst f, map Some (snd f))) (active_filters (selects q)))"
proof -
  have "page_ok p" using assms by (simp add: page_ok_def)
  then have start: "page_ok (process_balloons_filter p)"
    "filters_applied ''domjudge_balloonsfilter'' balloon_cell (process_balloons_filter p)"
    unfolding process_balloons_filter_def by (rule balloon_filter.process_applies)+
  have "page_ok (fold (balloon_step dflt) es q) \<and>
      filters_applied ''domjudge_balloonsfilter'' balloon_cell (fold (balloon_step dflt) es q)"
    if "page_ok q" "filters_applied ''domjudge_balloonsfilter'' balloon_cell q" for q
    using that by (induction es arbitrary: q) (simp_all add: balloon_step_applies)
  from this [OF start] show ?thesis
    by (auto simp: Let_def filters_applied_def list_all_iff)
qed

text \<open>The same for the warnings of an external contest.\<close>

theorem warnings_filtered:
  assumes "jar_ok (host p)" "distinct (map fst (selects p))"
  shows "let q = fold warning_step es (process_warnings_filter p) in
    map snd (rows q) = map (\<lambda>(r, s). allowed warning_cell (selects q) r) (rows q) \<and>
    read_object (getCookie ''domjudge_external_configuration_filter'' (host q)) =
      Some (map (\<lambda>f. (fst f, map Some (snd f))) (active_filters (selects q)))"
proof -
  have "page_ok p" using assms by (simp add: page_ok_def)
  then have start: "page_ok (process_warnings_filter p)"
    "filters_applied ''domjudge_external_configuration_filter'' warning_cell (process_warnings_filter p)"
    unfolding process_warnings_filter_def by (rule warning_filter.process_applies)+
  have "page_ok (fold warning_step es q) \<and>
      filters_applied ''domjudge_external_configuration_filter'' warning_cell (fold warning_step es q)"
    if "page_ok q" "filters_applied ''domjudge_external_configuration_filter'' warning_cell q" for q
    using that by (induction es arbitrary: q) (simp_all add: warning_step_applies)
  from this [OF start] show ?thesis
    by (auto simp: Let_def filters_applied_def list_all_iff)
qed

text \<open>
  The hook of the refresh: an answer for this page puts the new rows into the table and then has the
  filter run, in this order.
\<close>

lemma balloon_refresh_hook:
  "processAjaxResponse \<lparr>page_contest = c, refresh_stop = None, refresh_before = None,
       refresh_after = Some ''process_balloons_filter'', globals = ''process_balloons_filter'' # gl\<rparr>
     \<lparr>login_page = None, current_contest = c, resp_body = body, resp_inner = None\<rparr> b =
   (emit (CallHook ''process_balloons_filter'') (emit (JqHtml refreshTarget body) b), None)"
  by (simp add: processAjaxResponse_def run_hook_def Let_def split: option.split)

section \<open>Examples for the theorems\<close>

definition two_balloons :: "balloon_row filter_page" where
  "two_balloons = \<lparr>selects = [(''affiliation-id'', [''7'']), (''location-str'', [])],
     rows = [([''affiliation-id'' \<mapsto> ''7''], False), ([''affiliation-id'' \<mapsto> ''8''], True)], host = blank_browser\<rparr>"

theorem balloons_filtered_witness:
  "map snd (rows (fold (balloon_step []) [Choice 1 [''hall 2'']] (process_balloons_filter two_balloons))) = [False, False] \<and>
   read_object (getCookie ''domjudge_balloonsfilter'' (host (process_balloons_filter two_balloons))) =
     Some [(''affiliation-id'', [Some ''7''])]"
proof -
  have p: "jar_ok (host two_balloons)" "distinct (map fst (selects two_balloons))"
    by (simp_all add: two_balloons_def jar_ok_def blank_browser_def cookie_pairs_def)
  show ?thesis
    using balloons_filtered [OF p, of "[]" "[Choice 1 [''hall 2'']]"] balloons_filtered [OF p, of "[]" "[]"]
    by (simp add: Let_def process_balloons_filter_def take_choice_def process_filter_rows
        two_balloons_def allowed_def balloon_cell_def active_filters_def)
qed

theorem warnings_filtered_witness:
  "map snd (rows (fold warning_step [Refreshed [[(''type'', ''2'')]]]
     (process_warnings_filter \<lparr>selects = [(''type'', [''2''])], rows = [], host = blank_browser\<rparr>))) = [True]"
  using warnings_filtered [of "\<lparr>selects = [(''type'', [''2''])], rows = [], host = blank_browser\<rparr>"
      "[Refreshed [[(''type'', ''2'')]]]"]
  by (simp add: Let_def process_warnings_filter_def refreshed_def process_filter_rows allowed_def warning_cell_def
      jar_ok_def blank_browser_def cookie_pairs_def)

end
