(* ===== verification/ProgressBar.thy ===== *)
theory ProgressBar
  imports JsString
begin

text \<open>
  The progress bar of long operations of the jury (the macro \<open>progress_loader\<close> of
  \<open>templates/jury/jury_macros.twig\<close>): the server writes one JSON object after the other, the script
  reads the answer in pieces, as the network cuts it, and shows the last object that is complete.
  \<open>JSON.parse\<close> is a parameter, and so is the text that the server writes for an object; the pieces
  are decoded one by one, so here no character is cut in two.
\<close>

section \<open>The script\<close>

record update =
  progress :: nat
  message :: "string option"
  redirect :: "string option"
  log :: "string option"

record progress_page =
  currentData :: string
  bar_style :: string
  bar_text :: string
  bar_running :: bool              \<comment> \<open>animated and striped, not yet the class of success\<close>
  message_html :: string
  log_html :: string
  navigated :: "string option"

datatype reading = Finished | Stopped | Rejected

text \<open>A text that is there and not empty.\<close>

definition given :: "string option \<Rightarrow> bool" where
  "given t = (case t of None \<Rightarrow> False | Some s \<Rightarrow> s \<noteq> [])"

definition show_progress :: "nat \<Rightarrow> progress_page \<Rightarrow> progress_page" where
  "show_progress n p =
     (let p = p\<lparr>bar_style := ''width: '' @ show_nat n @ ''%;'', bar_text := show_nat n @ ''%''\<rparr>
      in if n = 100 then p\<lparr>bar_running := False\<rparr> else p)"

text \<open>What is done with an object; the answer is whether reading goes on. (No log leaves the old one.)\<close>

definition show_update :: "update \<Rightarrow> progress_page \<Rightarrow> progress_page \<times> bool" where
  "show_update d p =
     (let p = show_progress (progress d) p in
      if given (message d) then (p\<lparr>message_html := the (message d)\<rparr>, False)
      else if given (redirect d) then (p\<lparr>navigated := redirect d\<rparr>, False)
      else (case log d of None \<Rightarrow> p | Some t \<Rightarrow> p\<lparr>log_html := t\<rparr>, True))"

definition last_object :: "string \<Rightarrow> string" where
  "last_object s = (case last_index_of (CHR ''{'') s of None \<Rightarrow> s | Some i \<Rightarrow> drop i s)"

fun consume :: "(string \<Rightarrow> update option) \<Rightarrow> string list \<Rightarrow> progress_page \<Rightarrow> progress_page \<times> reading" where
  "consume parse [] p = (p, Finished)"
| "consume parse (chunk # chunks) p =
     (let p = p\<lparr>currentData := currentData p @ chunk\<rparr> in
      if currentData p \<noteq> [] \<and> last (currentData p) = CHR ''}'' then
        (case parse (last_object (currentData p)) of
           None \<Rightarrow> (p, Rejected)
         | Some data \<Rightarrow>
             (case show_update data (p\<lparr>currentData := []\<rparr>) of
                (p, True) \<Rightarrow> consume parse chunks p
              | (p, False) \<Rightarrow> (p, Stopped)))
      else consume parse chunks p)"

section \<open>The stream\<close>

text \<open>A text in braces, with no braces inside.\<close>

definition flat_text :: "string \<Rightarrow> bool" where
  "flat_text s =
     (2 \<le> length s \<and> hd s = CHR ''{'' \<and> last s = CHR ''}'' \<and>
      CHR ''{'' \<notin> set (tl s) \<and> CHR ''}'' \<notin> set (butlast s))"

lemma flat_text_shape:
  assumes "flat_text s"
  obtains body where "s = CHR ''{'' # body @ [CHR ''}'']" "CHR ''{'' \<notin> set body" "CHR ''}'' \<notin> set body"
proof -
  obtain c t where s: "s = c # t" "t \<noteq> []" using assms by (cases s) (auto simp: flat_text_def Suc_le_eq)
  then obtain body d where t: "t = body @ [d]" by (cases t rule: rev_cases) auto
  show ?thesis using that [of body] assms unfolding s t by (simp add: flat_text_def)
qed

text \<open>A piece of the stream that ends in a closing brace ends with an object.\<close>

lemma cut_at_object:
  assumes "list_all flat_text ts" "a @ b = concat ts" "a \<noteq> []" "last a = CHR ''}''"
  shows "\<exists>k. 0 < k \<and> k \<le> length ts \<and> a = concat (take k ts) \<and> b = concat (drop k ts)"
  using assms
proof (induction ts arbitrary: a)
  case (Cons t ts)
  obtain body where t: "t = CHR ''{'' # body @ [CHR ''}'']" "CHR ''{'' \<notin> set body" "CHR ''}'' \<notin> set body"
    using Cons.prems(1) flat_text_shape by (metis list.pred_inject(2))
  consider us where "a = t @ us" "us @ b = concat ts" | us where "t = a @ us" "us \<noteq> []" "b = us @ concat ts"
  proof -
    obtain us where "a = t @ us \<and> us @ b = concat ts \<or> a @ us = t \<and> b = us @ concat ts"
      using Cons.prems(2) by (auto simp: append_eq_append_conv2)
    then show ?thesis using that(1) [of "[]"] that(1) [of us] that(2) [of us] by (cases "us = []") auto
  qed
  then show ?case
  proof cases
    case 1
    show ?thesis
    proof (cases "us = []")
      case True
      then show ?thesis using 1 by (intro exI [of _ 1]) simp
    next
      case False
      then obtain k where "0 < k" "k \<le> length ts" "us = concat (take k ts)" "b = concat (drop k ts)"
        using Cons.IH [of us] 1 Cons.prems by auto
      then show ?thesis using 1 by (intro exI [of _ "Suc k"]) simp
    qed
  next
    case 2
    have "last a \<in> set (butlast t)"
      using 2 Cons.prems(3) by (simp add: butlast_append)
    then have "CHR ''}'' \<in> set (CHR ''{'' # body)" using Cons.prems(4) unfolding t(1) by (simp add: butlast_append)
    then show ?thesis using t(3) by simp
  qed
qed simp

lemma last_object_flat:
  assumes "flat_text t"
  shows "last_object (s @ t) = t"
proof -
  obtain body where t: "t = CHR ''{'' # body @ [CHR ''}'']" "CHR ''{'' \<notin> set body"
    using assms flat_text_shape by metis
  have "last_index_of (CHR ''{'') (s @ CHR ''{'' # (body @ [CHR ''}''])) = Some (length s)"
    using t(2) by (intro last_index_of_append) simp
  then show ?thesis unfolding last_object_def t(1) by simp
qed

text \<open>
  However the network cuts the answer, reading it fails nowhere and ends with the last object that
  the server wrote: its progress is shown, and its message or redirection is followed, if only the
  last one has any.
\<close>

definition quiet :: "update \<Rightarrow> bool" where
  "quiet d = (\<not> given (message d) \<and> \<not> given (redirect d))"

lemma show_update_fields:
  "bar_style (fst (show_update d p)) = ''width: '' @ show_nat (progress d) @ ''%;''"
  "bar_text (fst (show_update d p)) = show_nat (progress d) @ ''%''"
  "currentData (fst (show_update d p)) = currentData p"
  "snd (show_update d p) = quiet d"
  by (auto simp: show_update_def show_progress_def quiet_def Let_def split: option.split)

lemma consume_stream:
  assumes "list_all (\<lambda>d. flat_text (enc d) \<and> parse (enc d) = Some d) ds" "ds \<noteq> []"
    and "list_all quiet (butlast ds)" "[] \<notin> set chunks"
    and "currentData p @ concat chunks = concat (map enc ds)"
    and "currentData p = [] \<or> last (currentData p) \<noteq> CHR ''}''"
  shows "\<exists>p'. consume parse chunks p =
    (fst (show_update (last ds) p'), if quiet (last ds) then Finished else Stopped)"
  using assms
proof (induction chunks arbitrary: p ds)
  case Nil
  let ?all = "concat (map enc ds)"
  have "last ?all = last (enc (last ds))" "?all \<noteq> []"
  proof -
    obtain es e where ds: "ds = es @ [e]" using Nil.prems(2) by (cases ds rule: rev_cases) auto
    then have "flat_text (enc e)" using Nil.prems(1) by simp
    then have "enc e \<noteq> []" by (auto simp: flat_text_def)
    then show "last ?all = last (enc (last ds))" "?all \<noteq> []" using ds by simp_all
  qed
  moreover have "last (enc (last ds)) = CHR ''}''"
    using Nil.prems(1,2) by (simp add: list_all_iff flat_text_def)
  ultimately show ?case using Nil.prems(5,6) by simp
next
  case (Cons c cs)
  let ?cur = "currentData p @ c"
  let ?p = "p\<lparr>currentData := ?cur\<rparr>"
  have c: "c \<noteq> []" using Cons.prems(4) by auto
  have all: "?cur @ concat cs = concat (map enc ds)" using Cons.prems(5) by simp
  show ?case
  proof (cases "last ?cur = CHR ''}''")
    case False
    then show ?thesis using Cons.IH [of ds ?p] Cons.prems c by (simp add: Let_def)
  next
    case True
    have flat: "list_all flat_text (map enc ds)" using Cons.prems(1) by (simp add: list_all_iff)
    obtain k where k: "0 < k" "k \<le> length ds" "?cur = concat (map enc (take k ds))"
        "concat cs = concat (map enc (drop k ds))"
      using cut_at_object [OF flat all _ True] c by (auto simp: take_map drop_map)
    let ?d = "ds ! (k - 1)"
    have d: "?d \<in> set ds" using k by (intro nth_mem) simp
    have "take k ds = take (k - 1) ds @ [?d]"
      using k by (metis Suc_diff_1 Suc_le_eq less_le_trans take_Suc_conv_app_nth lessI)
    then have "last_object ?cur = enc ?d"
      unfolding k(3) using Cons.prems(1) d by (simp add: last_object_flat list_all_iff)
    then have parse: "parse (last_object ?cur) = Some ?d" using Cons.prems(1) d by (simp add: list_all_iff)
    let ?q = "show_update ?d (?p\<lparr>currentData := []\<rparr>)"
    show ?thesis
    proof (cases "k = length ds")
      case True
      then have "cs = []" using k(4) Cons.prems(4) by (cases cs) auto
      moreover have "?d = last ds" using True Cons.prems(2) by (simp add: last_conv_nth)
      ultimately show ?thesis
        using \<open>last ?cur = CHR ''}''\<close> c parse show_update_fields(4) [of "last ds" "?p\<lparr>currentData := []\<rparr>"]
        by (intro exI [of _ "?p\<lparr>currentData := []\<rparr>"])
          (auto simp: Let_def split: prod.split bool.split)
    next
      case False
      then have rest: "k < length ds" "drop k ds \<noteq> []" using k(2) by simp_all
      have "?d \<in> set (butlast ds)"
        using rest k(1) by (metis One_nat_def Suc_pred diff_less_mono length_butlast less_Suc_eq_le less_imp_le_nat
            linorder_not_le nth_butlast nth_mem)
      then have quiet: "quiet ?d" using Cons.prems(3) by (simp add: list_all_iff)
      then have "snd ?q = True" by (simp add: show_update_fields)
      moreover have "\<exists>p'. consume parse cs (fst ?q) =
          (fst (show_update (last (drop k ds)) p'), if quiet (last (drop k ds)) then Finished else Stopped)"
      proof (rule Cons.IH)
        show "list_all (\<lambda>d. flat_text (enc d) \<and> parse (enc d) = Some d) (drop k ds)"
          using Cons.prems(1) by (auto simp: list_all_iff dest: in_set_dropD)
        show "list_all quiet (butlast (drop k ds))"
          using Cons.prems(3) by (auto simp: list_all_iff butlast_drop dest: in_set_dropD)
        show "[] \<notin> set cs" using Cons.prems(4) by simp
      qed (use rest k(4) in \<open>simp_all add: show_update_fields\<close>)
      moreover have "last (drop k ds) = last ds" using rest by simp
      ultimately show ?thesis using True c parse
        by (cases ?q) (simp add: Let_def)
    qed
  qed
qed

text \<open>
  C20. However the network cuts the answer into pieces, reading it fails nowhere and ends with the last
  object that the server wrote, provided that no text in an object has a brace: its progress is shown
  in the bar, and its message is shown or its redirection followed, if only the last one has any.
\<close>

theorem progress_shown:
  assumes "list_all (\<lambda>d. flat_text (enc d) \<and> parse (enc d) = Some d) ds" "ds \<noteq> []"
    and "list_all quiet (butlast ds)" "[] \<notin> set chunks"
    and "concat chunks = concat (map enc ds)" "currentData p = []"
  shows "(let (q, r) = consume parse chunks p; d = last ds in
    r = (if quiet d then Finished else Stopped) \<and>
    bar_style q = ''width: '' @ show_nat (progress d) @ ''%;'' \<and> bar_text q = show_nat (progress d) @ ''%'' \<and>
    (if given (message d) then message_html q = the (message d)
     else if given (redirect d) then navigated q = redirect d
     else (case log d of None \<Rightarrow> True | Some t \<Rightarrow> log_html q = t)))"
proof -
  obtain p' where p': "consume parse chunks p =
      (fst (show_update (last ds) p'), if quiet (last ds) then Finished else Stopped)"
    using consume_stream [of enc parse ds chunks p] assms by auto
  have "if given (message d) then message_html q = the (message d)
      else if given (redirect d) then navigated q = redirect d
      else (case log d of None \<Rightarrow> True | Some t \<Rightarrow> log_html q = t)"
    if "q = fst (show_update d p')" for d q
    using that by (auto simp: show_update_def Let_def split: option.split)
  from this [OF refl] show ?thesis
    unfolding p' Let_def prod.case show_update_fields by (intro conjI refl)
qed

text \<open>
  With a closing brace inside a text, as in a log that names a team \<open>{x}\<close>, a piece that happens to end
  right after it is taken for complete: what is parsed is no object, and nothing is read any more.
\<close>

theorem brace_in_text_rejects:
  assumes "last piece = CHR ''}''" "piece \<noteq> []" "currentData p = []" "parse (last_object piece) = None"
  shows "consume parse (piece # chunks) p = (p\<lparr>currentData := piece\<rparr>, Rejected)"
  using assms by (simp add: Let_def)

section \<open>Examples for the theorems\<close>

definition halfway :: update where
  "halfway = \<lparr>progress = 50, message = None, redirect = None, log = Some ''half''\<rparr>"

definition complete :: update where
  "complete = \<lparr>progress = 100, message = Some ''done'', redirect = None, log = None\<rparr>"

definition two_texts :: "update \<Rightarrow> string" where
  "two_texts d = (if progress d = 50 then ''{h}'' else ''{c}'')"

definition read_two :: "string \<Rightarrow> update option" where
  "read_two s = (if s = ''{h}'' then Some halfway else if s = ''{c}'' then Some complete else None)"

definition empty_bar :: progress_page where
  "empty_bar = \<lparr>currentData = [], bar_style = [], bar_text = [], bar_running = True, message_html = [],
     log_html = [], navigated = None\<rparr>"

theorem progress_shown_witness:
  "message_html (fst (consume read_two [''{'', ''h}{'', ''c}''] empty_bar)) = ''done''"
  using progress_shown [of two_texts read_two "[halfway, complete]" "[''{'', ''h}{'', ''c}'']" empty_bar]
  by (simp add: Let_def split_beta two_texts_def read_two_def halfway_def complete_def empty_bar_def flat_text_def
      quiet_def given_def del: consume.simps)

theorem brace_in_text_rejects_witness:
  "snd (consume read_two [''{h}'', ''{a}'', ''{c}''] empty_bar) = Rejected"
proof -
  have "consume read_two [''{h}'', ''{a}'', ''{c}''] empty_bar =
      consume read_two [''{a}'', ''{c}''] (fst (show_update halfway empty_bar))"
    by (simp add: Let_def empty_bar_def last_object_def read_two_def show_update_def halfway_def show_progress_def
        given_def)
  moreover have "currentData (fst (show_update halfway empty_bar)) = []"
    by (simp add: show_update_fields empty_bar_def)
  ultimately show ?thesis
    using brace_in_text_rejects [of "''{a}''" "fst (show_update halfway empty_bar)" read_two "[''{c}'']"]
    by (simp add: last_object_def read_two_def del: consume.simps)
qed

end
