(* ===== verification/PageHooks.thy ===== *)
theory PageHooks
  imports Refresh
begin

text \<open>
  The hooks that the pages of teams and spectators give to the page refresh (\<open>Refresh\<close>): the team's
  overview (\<open>templates/team/index.html.twig\<close>) and scoreboard (\<open>team/scoreboard.html.twig\<close>) and the
  public scoreboard (\<open>public/scoreboard.html.twig\<close>). They move the bar of the contest's progress out
  of the new markup, keep the messages that were shown, and stop the refresh while a dialog is open.
  Turning the text of an answer into elements is a parameter.
\<close>

section \<open>The pages\<close>

text \<open>
  The children of the target of the refresh, as far as the hooks look for them: a bar of progress, a
  division of class \<open>d-none\<close>, the division of the messages, and others.
\<close>

datatype part =
    Progress_Bar "string list"
  | Hidden_Div "part list"
  | Flash_Messages "string list"
  | Other_Part string

record live_page =
  target_parts :: "part list option"      \<comment> \<open>\<open>None\<close>: the target is not in the document any more\<close>
  body_bar :: "string list option"        \<comment> \<open>the children of the bar in the body, if it has one\<close>
  flash_saved :: "string list"            \<comment> \<open>\<open>$flash\<close>; empty before the first refresh, when it is null\<close>

fun bar_children :: "part \<Rightarrow> string list" where
  "bar_children (Progress_Bar cs) = cs"
| "bar_children _ = []"

fun is_bar :: "part \<Rightarrow> bool" where
  "is_bar (Progress_Bar cs) = True"
| "is_bar _ = False"


fun hidden_parts :: "part \<Rightarrow> part list" where
  "hidden_parts (Hidden_Div ps) = ps"
| "hidden_parts _ = []"

definition parts_of :: "live_page \<Rightarrow> part list" where
  "parts_of p = (case target_parts p of None \<Rightarrow> [] | Some ps \<Rightarrow> ps)"

section \<open>The overview of a team\<close>



text \<open>The children of the new bar replace those of the bar in the body, if there is one.\<close>

definition move_bar :: "part list \<Rightarrow> live_page \<Rightarrow> live_page" where
  "move_bar newProgress p = p\<lparr>body_bar := map_option (\<lambda>_. concat (map bar_children newProgress)) (body_bar p)\<rparr>"


section \<open>The scoreboards\<close>

text \<open>
  The hook of the public scoreboard removes the division around the bar; that of the team's scoreboard
  removes what is around the bar too, and looks for the bar among the children of the target.
\<close>

definition has_bar :: "part \<Rightarrow> bool" where
  "has_bar d = list_ex is_bar (hidden_parts d)"

definition public_initializeScoreboard :: "live_page \<Rightarrow> live_page" where
  "public_initializeScoreboard p =
     (let newProgress = filter is_bar (concat (map hidden_parts (parts_of p)))
      in if newProgress \<noteq> []
         then (move_bar newProgress p)\<lparr>target_parts := map_option (filter (\<lambda>d. \<not> has_bar d)) (target_parts p)\<rparr>
         else p)"

definition team_initializeScoreboard :: "live_page \<Rightarrow> live_page" where
  "team_initializeScoreboard p =
     (let newProgress = filter is_bar (parts_of p)
      in if newProgress \<noteq> [] then (move_bar newProgress p)\<lparr>target_parts := None\<rparr> else p)"

section \<open>An answer\<close>

text \<open>The functions that a page defines, by name, and what the effects of an answer do to the page.\<close>

type_synonym hooks = "(string \<times> (live_page \<Rightarrow> live_page)) list"

fun page_effect :: "(string \<Rightarrow> part list) \<Rightarrow> hooks \<Rightarrow> effect \<Rightarrow> live_page \<Rightarrow> live_page" where
  "page_effect parse hs (JqHtml sel h) p =
     (if sel = refreshTarget then p\<lparr>target_parts := map_option (\<lambda>_. parse h) (target_parts p)\<rparr> else p)"
| "page_effect parse hs (CallHook f) p = (case map_of hs f of None \<Rightarrow> p | Some h \<Rightarrow> h p)"
| "page_effect parse hs _ p = p"

definition answered :: "(string \<Rightarrow> part list) \<Rightarrow> hooks \<Rightarrow> refresh_page \<Rightarrow> response \<Rightarrow> live_page \<Rightarrow> live_page" where
  "answered parse hs pg r p =
     fold (page_effect parse hs) (effects (fst (processAjaxResponse pg r blank_browser))) p"



definition scoreboard_hooks :: "(live_page \<Rightarrow> live_page) \<Rightarrow> hooks" where
  "scoreboard_hooks h = [(''initializeScoreboard'', h)]"

definition scoreboard_page :: "string option \<Rightarrow> refresh_page" where
  "scoreboard_page c = \<lparr>page_contest = c, refresh_stop = None, refresh_before = None,
     refresh_after = Some ''initializeScoreboard'', globals = [''initializeScoreboard'']\<rparr>"

section \<open>Dialogs on a static scoreboard\<close>

text \<open>
  \<open>disableRefreshOnModal\<close> adds a handler for the opening and one for the closing of dialogs, when the
  page is ready and once more with every refresh; they all run, \<open>n\<close> of each.
\<close>

definition modal_shown :: "nat \<Rightarrow> closure \<Rightarrow> refresher \<Rightarrow> refresher" where
  "modal_shown n c s = (disableRefresh (cl_ajax c) ^^ n) s"

definition modal_hidden :: "nat \<Rightarrow> closure \<Rightarrow> refresher \<Rightarrow> refresher" where
  "modal_hidden n c s = (enableRefresh c ^^ n) s"

section \<open>What the overview keeps\<close>

definition answer_markup :: "response \<Rightarrow> string" where
  "answer_markup r = (case resp_inner r of Some h \<Rightarrow> h | None \<Rightarrow> resp_body r)"

lemma answered_stay:
  assumes "\<not> wants_login r" "\<not> wants_reload pg r" "set (globals pg) = fst ` set hs"
    and "refresh_after pg = Some after" "after \<noteq> []" "map_of hs after = Some g"
  shows "refresh_before pg = None \<Longrightarrow>
      answered parse hs pg r p = g (p\<lparr>target_parts := map_option (\<lambda>_. parse (answer_markup r)) (target_parts p)\<rparr>)"
    and "refresh_before pg = Some before \<Longrightarrow> before \<noteq> [] \<Longrightarrow> map_of hs before = Some f \<Longrightarrow>
      answered parse hs pg r p =
        g ((f p)\<lparr>target_parts := map_option (\<lambda>_. parse (answer_markup r)) (target_parts (f p))\<rparr>)"
proof -
  have gl: "h \<in> set (globals pg)" if "map_of hs h = Some k" for h k
    using that assms(3) by (auto dest: map_of_SomeD intro: rev_image_eqI)
  note unf = answered_def processAjaxResponse_stay [OF assms(1,2)] answer_markup_def run_hook_def
  show "answered parse hs pg r p = g (p\<lparr>target_parts := map_option (\<lambda>_. parse (answer_markup r)) (target_parts p)\<rparr>)"
    if "refresh_before pg = None"
    using that assms gl by (simp add: unf emit_def blank_browser_def)
  show "answered parse hs pg r p =
        g ((f p)\<lparr>target_parts := map_option (\<lambda>_. parse (answer_markup r)) (target_parts (f p))\<rparr>)"
    if "refresh_before pg = Some before" "before \<noteq> []" "map_of hs before = Some f"
    using that assms gl by (simp add: unf emit_def blank_browser_def)
qed













text \<open>
  The hook of the team's scoreboard would remove the whole scoreboard, and for good, on an answer that
  has a bar; the server sends none for this page, so the bar of the page is never brought up to date.
\<close>

lemma team_scoreboard_vanishes:
  assumes "\<not> wants_login r" "\<not> wants_reload (scoreboard_page c) r" "filter is_bar (parse (answer_markup r)) \<noteq> []"
  shows "target_parts (answered parse (scoreboard_hooks team_initializeScoreboard) (scoreboard_page c) r p) = None"
proof -
  have a: "answered parse (scoreboard_hooks team_initializeScoreboard) (scoreboard_page c) r p =
      team_initializeScoreboard (p\<lparr>target_parts := map_option (\<lambda>_. parse (answer_markup r)) (target_parts p)\<rparr>)"
    using assms by (intro answered_stay(1)) (simp_all add: scoreboard_page_def scoreboard_hooks_def)
  show ?thesis unfolding a
    using assms(3) by (auto simp: team_initializeScoreboard_def parts_of_def move_bar_def split: option.split)
qed

section \<open>What a dialog does\<close>

lemma disable_again: "disableRefresh a (disableRefresh b s) = disableRefresh b s"
  by (simp add: disableRefresh_def Let_def clear_timeout_def)

lemma enable_again: "enableRefresh c (enableRefresh d s) = enableRefresh d s"
  by (simp add: enableRefresh_def Let_def set_timeout_def)

lemma funpow_again: "(\<And>s. f (f s) = f s) \<Longrightarrow> 0 < n \<Longrightarrow> (f ^^ n) s = f s"
proof (induction n)
  case (Suc n)
  then show ?case by (cases "n = 0") simp_all
qed simp

text \<open>
  A dialog that is opened and closed on a static scoreboard, however many handlers have piled up, acts
  as one \<open>disableRefresh\<close> and one \<open>enableRefresh\<close>: afterwards the page refreshes itself, a new timer is
  armed and the cookie says so, also if the user had switched the refresh off before.
\<close>

theorem dialog_switches_refresh_on:
  assumes "0 < n" "jar_ok (host s)"
  shows "(let t = modal_hidden n c (modal_shown n c s) in
    t = enableRefresh c (disableRefresh (cl_ajax c) s) \<and> refreshEnabled t \<and>
    getCookie ''domjudge_refresh'' (host t) = ''1'' \<and> (next_timer s, c) \<in> set (timers t))"
proof -
  have t: "modal_hidden n c (modal_shown n c s) = enableRefresh c (disableRefresh (cl_ajax c) s)"
    unfolding modal_hidden_def modal_shown_def
    using assms(1) funpow_again [of "enableRefresh c" n] funpow_again [of "disableRefresh (cl_ajax c)" n]
    by (simp add: disable_again enable_again)
  show ?thesis unfolding t Let_def
    using assms(2)
    by (auto simp: enableRefresh_def disableRefresh_def set_timeout_def clear_timeout_def scroll_to_last_def Let_def)
qed

section \<open>Examples for the theorems\<close>




definition switched_off :: refresher where
  "switched_off = \<lparr>refreshEnabled = False, refreshHandler = None, timers = [], next_timer = 0, requests = [],
     listeners = [], scroll_pos = 0, host = blank_browser\<rparr>"

theorem dialog_switches_refresh_on_witness:
  "\<not> refreshEnabled switched_off \<and>
   refreshEnabled (modal_hidden 3 \<lparr>cl_url = ''public'', cl_after = 30, cl_ajax = True\<rparr>
     (modal_shown 3 \<lparr>cl_url = ''public'', cl_after = 30, cl_ajax = True\<rparr> switched_off))"
proof -
  have "0 < (3::nat)" "jar_ok (host switched_off)" "\<not> refreshEnabled switched_off"
    by (simp_all add: switched_off_def jar_ok_def blank_browser_def cookie_pairs_def)
  then show ?thesis using dialog_switches_refresh_on unfolding Let_def by blast
qed

end
