(* ===== verification/Collections.thy ===== *)
theory Collections
  imports JsString "HOL-Library.Sublist"
begin

text \<open>
  The rows that the forms of the jury let one add and delete: problems of a contest, hosts and files
  (\<open>collection_scripts\<close> of \<open>templates/jury/jury_macros.twig\<close>), settings with several values
  (\<open>jury/config.html.twig\<close>) and extensions of a language (\<open>jury/partials/language_form.html.twig\<close>). A
  row is given by the names of its fields, which the server tells the rows apart by; a new row is
  made from the text of a prototype, in which a mark is replaced by a number.
\<close>

section \<open>The scripts\<close>

text \<open>\<open>replace\<close> with a global pattern that is a plain text: every occurrence, from the left.\<close>

fun replace_all :: "string \<Rightarrow> string \<Rightarrow> string \<Rightarrow> string" where
  "replace_all m r [] = []"
| "replace_all m r (c # s) =
     (if m \<noteq> [] \<and> take (length m) (c # s) = m then r @ replace_all m r (drop (length m - 1) s)
      else c # replace_all m r s)"

type_synonym row = "string list"

record collection =
  prototype :: row
  rows :: "row list"
  index :: nat

definition make_row :: "string \<Rightarrow> nat \<Rightarrow> row \<Rightarrow> row" where
  "make_row mark i proto = map (replace_all mark (show_nat i)) proto"

definition add_row :: "string \<Rightarrow> collection \<Rightarrow> collection" where
  "add_row mark c =
     (let newRow = make_row mark (index c) (prototype c)
      in c\<lparr>index := index c + 1, rows := rows c @ [newRow]\<rparr>)"

definition delete_row :: "nat \<Rightarrow> collection \<Rightarrow> collection" where
  "delete_row k c = c\<lparr>rows := take k (rows c) @ drop (Suc k) (rows c)\<rparr>"

text \<open>The three scripts: the mark, and where counting begins when the page is ready.\<close>

definition addCollectionItem :: "collection \<Rightarrow> collection" where
  "addCollectionItem = add_row ''__name__''"

definition config_addCollectionItem :: "collection \<Rightarrow> collection" where
  "config_addCollectionItem = add_row ''__idx__''"

definition addExtension :: "collection \<Rightarrow> collection" where
  "addExtension = add_row ''__name__''"

definition table_ready :: "row \<Rightarrow> row list \<Rightarrow> collection" where
  "table_ready proto rs = \<lparr>prototype = proto, rows = rs, index = length rs\<rparr>"

text \<open>The template of the settings has the number of rows that the server wrote.\<close>

definition config_ready :: "row \<Rightarrow> row list \<Rightarrow> collection" where
  "config_ready proto rs = \<lparr>prototype = proto, rows = rs, index = length rs\<rparr>"

text \<open>Here all inputs are counted, and the button that adds rows is one of them by then.\<close>

definition extensions_ready :: "row \<Rightarrow> row list \<Rightarrow> collection" where
  "extensions_ready proto rs = \<lparr>prototype = proto, rows = rs, index = sum_list (map length rs) + 1\<rparr>"

datatype row_event = Row_Added | Row_Deleted nat

fun row_step :: "string \<Rightarrow> row_event \<Rightarrow> collection \<Rightarrow> collection" where
  "row_step mark Row_Added c = add_row mark c"
| "row_step mark (Row_Deleted k) c = delete_row k c"

section \<open>Replacing the mark\<close>

lemma replace_all_none: "\<not> sublist m s \<Longrightarrow> replace_all m r s = s"
proof (induction m r s rule: replace_all.induct)
  case (2 m r c s)
  have "take (length m) (c # s) \<noteq> m"
    using 2(3) by (metis append_take_drop_id prefixI prefix_imp_sublist)
  moreover have "\<not> sublist m s" using 2(3) by (simp add: sublist_Cons_right)
  ultimately show ?case using 2(2) by auto
qed simp

text \<open>A character that the mark does not have parts the text.\<close>

lemma replace_all_split:
  "x \<notin> set m \<Longrightarrow> replace_all m r (a @ x # b) = replace_all m r a @ x # replace_all m r b"
proof (induction m r a rule: replace_all.induct)
  case (1 m r)
  then have "m \<noteq> [] \<Longrightarrow> take (length m) (x # b) \<noteq> m" by (cases m) auto
  then show ?case by auto
next
  case (2 m r c s)
  show ?case
  proof (cases "m \<noteq> [] \<and> take (length m) (c # s) = m")
    case True
    then have len: "length m \<le> length (c # s)" by (metis length_take min.cobounded1)
    then have "take (length m) (c # s @ x # b) = m" using True by (cases m) simp_all
    moreover have "drop (length m - 1) (s @ x # b) = drop (length m - 1) s @ x # b"
      using len True by (cases m) simp_all
    ultimately show ?thesis using True 2 by simp
  next
    case False
    have "take (length m) (c # s @ x # b) \<noteq> m" if m: "m \<noteq> []"
    proof (cases "length m \<le> length (c # s)")
      case True
      then show ?thesis using False m by (cases m) auto
    next
      case False
      then obtain d where "length m = length (c # s) + Suc d" by (metis less_iff_Suc_add linorder_not_le add_Suc_right)
      then have "x \<in> set (take (length m) ((c # s) @ x # b))" by simp
      then show ?thesis using 2(3) by auto
    qed
    then show ?thesis using False 2 by auto
  qed
qed

lemma replace_all_mark: "m \<noteq> [] \<Longrightarrow> replace_all m r m = r"
  by (cases m) simp_all

section \<open>The names of the fields\<close>

text \<open>The name of a field as the server writes it: the collection, a key in brackets, and the field.\<close>

definition field_name :: "string \<Rightarrow> string \<Rightarrow> string \<Rightarrow> string" where
  "field_name base key field = base @ ''['' @ key @ '']'' @ field"

definition server_row :: "string \<Rightarrow> string list \<Rightarrow> string \<Rightarrow> row" where
  "server_row base fs key = map (field_name base key) fs"

definition good_form :: "string \<Rightarrow> string \<Rightarrow> string list \<Rightarrow> bool" where
  "good_form mark base fs =
     (mark \<noteq> [] \<and> CHR ''['' \<notin> set mark \<and> CHR '']'' \<notin> set mark \<and>
      \<not> sublist mark base \<and> list_all (\<lambda>f. \<not> sublist mark f) fs \<and> distinct fs)"

lemma make_row_names:
  assumes "good_form mark base fs"
  shows "make_row mark i (server_row base fs mark) = server_row base fs (show_nat i)"
proof -
  have "replace_all mark (show_nat i) (field_name base mark f) = field_name base (show_nat i) f"
    if "f \<in> set fs" for f
  proof -
    have "replace_all mark (show_nat i) (base @ CHR ''['' # mark @ CHR '']'' # f) =
        replace_all mark (show_nat i) base @ CHR ''['' # replace_all mark (show_nat i) mark @
        CHR '']'' # replace_all mark (show_nat i) f"
      using assms by (simp add: replace_all_split good_form_def)
    then show ?thesis
      using assms that by (simp add: good_form_def field_name_def replace_all_none replace_all_mark list_all_iff)
  qed
  then show ?thesis by (simp add: make_row_def server_row_def)
qed

lemma field_name_inj:
  "field_name base (show_nat i) f = field_name base (show_nat j) g \<longleftrightarrow> i = j \<and> f = g"
proof
  have no: "CHR '']'' \<notin> set (show_nat n)" for n
    using show_nat_digits [of "CHR '']''" n] by (auto simp: is_digit_def)
  assume "field_name base (show_nat i) f = field_name base (show_nat j) g"
  then have eq: "show_nat i @ CHR '']'' # f = show_nat j @ CHR '']'' # g" by (simp add: field_name_def)
  have "takeWhile (\<lambda>c. c \<noteq> CHR '']'') (show_nat n @ CHR '']'' # h) = show_nat n" for n h
    using no [of n] by (subst takeWhile_append2) auto
  then have "show_nat i = show_nat j" using eq by metis
  then show "i = j \<and> f = g" using eq by (simp add: show_nat_inj)
qed simp

lemma distinct_rows:
  assumes "distinct ks" "distinct fs"
  shows "distinct (concat (map (\<lambda>k. server_row base fs (show_nat k)) ks))"
  using assms(1)
proof (induction ks)
  case (Cons k ks)
  have "distinct (server_row base fs (show_nat k))"
    using assms(2) by (auto simp: server_row_def distinct_map inj_on_def field_name_inj)
  moreover have "set (server_row base fs (show_nat k)) \<inter>
      set (concat (map (\<lambda>k. server_row base fs (show_nat k)) ks)) = {}"
    using Cons.prems by (auto simp: server_row_def field_name_inj)
  ultimately show ?case using Cons by simp
qed simp

section \<open>No two fields of one name\<close>

definition rows_of_keys :: "string \<Rightarrow> string list \<Rightarrow> nat list \<Rightarrow> row list" where
  "rows_of_keys base fs ks = map (\<lambda>k. server_row base fs (show_nat k)) ks"

definition keyed :: "string \<Rightarrow> string \<Rightarrow> string list \<Rightarrow> nat list \<Rightarrow> collection \<Rightarrow> bool" where
  "keyed mark base fs ks c =
     (prototype c = server_row base fs mark \<and> rows c = rows_of_keys base fs ks \<and> distinct ks \<and>
      list_all (\<lambda>k. k < index c) ks)"

lemma keyed_step:
  assumes "good_form mark base fs" "keyed mark base fs ks c"
  shows "\<exists>ls. keyed mark base fs ls (row_step mark e c)"
proof (cases e)
  case Row_Added
  have "keyed mark base fs (ks @ [index c]) (add_row mark c)"
    using assms by (auto simp: keyed_def add_row_def Let_def rows_of_keys_def make_row_names list_all_iff)
  then show ?thesis using Row_Added by auto
next
  case (Row_Deleted k)
  have "keyed mark base fs (take k ks @ drop (Suc k) ks) (delete_row k c)"
    using assms(2) distinct_append [of "take k ks" "drop k ks"]
    by (auto simp: keyed_def delete_row_def rows_of_keys_def take_map drop_map list_all_iff
        dest: in_set_takeD in_set_dropD set_take_disj_set_drop_if_distinct [of ks k "Suc k"])
  then show ?thesis using Row_Deleted by auto
qed

lemma keyed_run:
  assumes "good_form mark base fs" "keyed mark base fs ks c"
  shows "\<exists>ls. keyed mark base fs ls (fold (row_step mark) es c)"
  using assms(2)
proof (induction es arbitrary: c ks)
  case (Cons e es)
  then show ?case using keyed_step [OF assms(1) Cons.prems, of e] by auto
qed auto

lemma keyed_distinct: "good_form mark base fs \<Longrightarrow> keyed mark base fs ks c \<Longrightarrow> distinct (concat (rows c))"
  by (simp add: keyed_def rows_of_keys_def good_form_def distinct_rows)

text \<open>
  C21. On a page that the server has written afresh, with its rows numbered from zero and the fields of a row
  named apart, no two fields of a collection ever have one name, whatever rows are added and deleted in whatever order: in the tables
  of problems and hosts, among the settings and among the extensions.
\<close>

theorem rows_stay_apart:
  assumes "good_form mark base fs" "fs \<noteq> []"
    and "start \<in> {table_ready, config_ready, extensions_ready}"
  shows "distinct (concat (rows (fold (row_step mark) es
    (start (server_row base fs mark) (rows_of_keys base fs [0..<n])))))"
proof -
  let ?c = "start (server_row base fs mark) (rows_of_keys base fs [0..<n])"
  have "sum_list (map length (rows_of_keys base fs [0..<n])) = n * length fs"
    by (simp add: rows_of_keys_def server_row_def o_def sum_list_triv)
  moreover have "k < Suc (n * length fs)" if "k < n" for k
    using that assms(2) by (cases fs) (simp_all add: less_SucI trans_less_add1)
  ultimately have "keyed mark base fs [0..<n] ?c"
    using assms(3) by (auto simp: keyed_def table_ready_def config_ready_def extensions_ready_def list_all_iff
        rows_of_keys_def)
  then show ?thesis using keyed_run [OF assms(1)] keyed_distinct [OF assms(1)] by blast
qed

text \<open>
  C22. A form that was refused comes back with the numbers of the rows as they were sent. Then the tables
  are safe, however many rows are added, exactly if all numbers are less than the number of rows: with
  a row deleted before the form was sent, a new row may take the names of an old one, whose
  values are lost at the server.
\<close>

theorem returned_form_collides:
  assumes "good_form ''__name__'' base fs" "fs \<noteq> []" "distinct ks"
  defines "form \<equiv> table_ready (server_row base fs ''__name__'') (rows_of_keys base fs ks)"
  shows "(\<exists>n. \<not> distinct (concat (rows ((addCollectionItem ^^ n) form)))) =
    list_ex (\<lambda>k. length ks \<le> k) ks"
proof
  let ?row = "\<lambda>k. server_row base fs (show_nat k)"
  have added: "prototype ((addCollectionItem ^^ n) form) = prototype form"
    "index ((addCollectionItem ^^ n) form) = index form + n"
    "rows ((addCollectionItem ^^ n) form) = map ?row (ks @ [length ks..<length ks + n])" for n
  proof -
    have step: "prototype (addCollectionItem c) = prototype c" "index (addCollectionItem c) = index c + 1"
      "rows (addCollectionItem c) = rows c @ [make_row ''__name__'' (index c) (prototype c)]" for c
      by (simp_all add: addCollectionItem_def add_row_def Let_def)
    show p: "prototype ((addCollectionItem ^^ n) form) = prototype form" for n
      by (induction n) (simp_all add: step)
    show i: "index ((addCollectionItem ^^ n) form) = index form + n" for n
      by (induction n) (simp_all add: step)
    have start: "prototype form = server_row base fs ''__name__''" "index form = length ks" "rows form = map ?row ks"
      by (simp_all add: form_def table_ready_def rows_of_keys_def)
    show "rows ((addCollectionItem ^^ n) form) = map ?row (ks @ [length ks..<length ks + n])" for n
      by (induction n) (simp_all add: step p i start make_row_names [OF assms(1)])
  qed
  show "\<exists>n. \<not> distinct (concat (rows ((addCollectionItem ^^ n) form)))" if late: "list_ex (\<lambda>k. length ks \<le> k) ks"
  proof -
    obtain k where k: "k \<in> set ks" "length ks \<le> k" using late by (auto simp: list_ex_iff)
    obtain f where f: "f \<in> set fs" using assms(2) by (cases fs) auto
    have "field_name base (show_nat k) f \<in> set (concat (map ?row ks))"
      using k f by (auto simp: server_row_def)
    moreover have "field_name base (show_nat k) f \<in> set (concat (map ?row [length ks..<length ks + Suc (k - length ks)]))"
      using k f by (auto simp: server_row_def)
    ultimately have "\<not> distinct (concat (rows ((addCollectionItem ^^ Suc (k - length ks)) form)))"
      unfolding added(3) map_append concat_append distinct_append by blast
    then show ?thesis by blast
  qed
  show "list_ex (\<lambda>k. length ks \<le> k) ks" if "\<exists>n. \<not> distinct (concat (rows ((addCollectionItem ^^ n) form)))"
  proof (rule ccontr)
    assume "\<not> list_ex (\<lambda>k. length ks \<le> k) ks"
    then have "distinct (ks @ [length ks..<length ks + n])" for n
      using assms(3) by (auto simp: list_ex_iff)
    then have "distinct (concat (rows ((addCollectionItem ^^ n) form)))" for n
      unfolding added(3) using assms(1) by (intro distinct_rows) (auto simp: good_form_def)
    then show False using that by blast
  qed
qed

section \<open>Examples for the theorems\<close>

lemma contest_form: "good_form ''__name__'' ''contest[problems]'' [''[shortname]'', ''[points]'']"
  by (simp add: good_form_def sublist_code)

theorem rows_stay_apart_witness:
  "distinct (concat (rows (fold (row_step ''__name__'') [Row_Deleted 0, Row_Added, Row_Added]
     (table_ready (server_row ''contest[problems]'' [''[shortname]'', ''[points]''] ''__name__'')
       (rows_of_keys ''contest[problems]'' [''[shortname]'', ''[points]''] [0..<2])))))"
  using rows_stay_apart [OF contest_form, of table_ready "[Row_Deleted 0, Row_Added, Row_Added]" 2] by simp

theorem returned_form_collides_witness:
  "\<exists>n. \<not> distinct (concat (rows ((addCollectionItem ^^ n)
     (table_ready (server_row ''contest[problems]'' [''[shortname]'', ''[points]''] ''__name__'')
       (rows_of_keys ''contest[problems]'' [''[shortname]'', ''[points]''] [1, 2])))))"
  using returned_form_collides [OF contest_form, of "[1, 2]"] by simp

end
