(* ===== verification/MenuSwitches.thy ===== *)
theory MenuSwitches
  imports Shortcuts
begin

text \<open>
  The entries of the menu that switch notifications and keyboard shortcuts on and off: the scripts of
  \<open>templates/jury/base.html.twig\<close> and \<open>templates/team/base.html.twig\<close> show them when a page is ready, the
  functions of \<open>Notifications\<close> when they are clicked.
\<close>

section \<open>A page\<close>

text \<open>\<open>asked\<close> counts the questions for permission that are open; the jury's pages have the keyboard switches.\<close>

record switch_page =
  browser_of :: browser
  elements :: page
  asked :: nat
  for_jury :: bool

text \<open>The entries of the menu as the server writes them: each has the class \<open>d-none\<close>.\<close>

definition fresh_menu :: page where
  "fresh_menu s = \<lparr>el_hidden = False, el_html = [], el_classes = [''d-none'']\<rparr>"

definition do_it :: "(browser \<Rightarrow> browser) \<Rightarrow> switch_page \<Rightarrow> switch_page" where
  "do_it f p =
     (let b = f (browser_of p)
      in p\<lparr>browser_of := b, elements := fold page_exec (new_effects (browser_of p) b) (elements p)\<rparr>)"

definition notify_ready :: "browser \<Rightarrow> browser" where
  "notify_ready b =
     (if notification_api b then
        (if \<not> loosely_one (getCookie ''domjudge_notify'' b) then emit (JqRemoveClass ''#notify_enable'' ''d-none'') b
         else emit (JqRemoveClass ''#notify_disable'' ''d-none'') b)
      else b)"

definition keys_ready :: "browser \<Rightarrow> browser" where
  "keys_ready b =
     (let keysCookie = getCookie ''domjudge_keys'' b
      in if \<not> loosely_one keysCookie \<and> keysCookie \<noteq> []
         then emit (JqRemoveClass ''#keys_enable'' ''d-none'') b
         else emit (JqRemoveClass ''#keys_disable'' ''d-none'') b)"

definition menu_ready :: "switch_page \<Rightarrow> switch_page" where
  "menu_ready p = (if for_jury p then do_it keys_ready (do_it notify_ready p) else do_it notify_ready p)"

definition load_page :: "switch_page \<Rightarrow> switch_page" where
  "load_page p = menu_ready (p\<lparr>elements := fresh_menu, asked := 0\<rparr>)"

section \<open>What happens on it\<close>

definition visible :: "switch_page \<Rightarrow> string \<Rightarrow> bool" where
  "visible p s = (\<not> page_hidden (elements p) s \<and> \<not> page_has_class (elements p) s ''d-none'')"

text \<open>
  The entries that can be seen are clicked, a question for permission is answered, the updates of the menu
  send notifications, or the next page is loaded.
\<close>

datatype switch_event =
    Clicked_Notify_Enable | Clicked_Notify_Disable | Clicked_Keys_Enable | Clicked_Keys_Disable
  | Permission_Given string | Notified string note_options | Next_Page bool

definition click_notify_enable :: "switch_page \<Rightarrow> switch_page" where
  "click_notify_enable p =
     (let q = do_it (\<lambda>b. fst (enableNotifications b)) p
      in if snd (enableNotifications (browser_of p)) = Undefined then q\<lparr>asked := asked p + 1\<rparr> else q)"

inductive switch_step :: "switch_page \<Rightarrow> switch_event \<Rightarrow> switch_page \<Rightarrow> bool" where
  notify_on: "visible p ''#notify_enable'' \<Longrightarrow> switch_step p Clicked_Notify_Enable (click_notify_enable p)"
| notify_off: "visible p ''#notify_disable'' \<Longrightarrow>
    switch_step p Clicked_Notify_Disable (do_it (\<lambda>b. fst (disableNotifications b)) p)"
| keys_on: "visible p ''#keys_enable'' \<Longrightarrow> switch_step p Clicked_Keys_Enable (do_it enableKeys p)"
| keys_off: "visible p ''#keys_disable'' \<Longrightarrow> switch_step p Clicked_Keys_Disable (do_it disableKeys p)"
| answer: "0 < asked p \<Longrightarrow> switch_step p (Permission_Given a)
    (do_it (\<lambda>b. fst (permission_callback a (permission_answered a b))) (p\<lparr>asked := asked p - 1\<rparr>))"
| notified: "switch_step p (Notified t opts) (do_it (sendNotification t opts) p)"
| next_page: "switch_step p (Next_Page j) (load_page (p\<lparr>for_jury := j\<rparr>))"

inductive_cases switch_stepE: "switch_step p e q"

section \<open>The menu shows what is on\<close>





lemma do_it_keeps [simp]:
  "browser_of (do_it f p) = f (browser_of p)" "for_jury (do_it f p) = for_jury p" "asked (do_it f p) = asked p"
  by (simp_all add: do_it_def Let_def)

lemma shown_laws [simp]:
  "page_hidden (page_exec (JqShow s) d) t = (if t = s then False else page_hidden d t)"
  "page_hidden (page_exec (JqHide s) d) t = (if t = s then True else page_hidden d t)"
  "page_hidden (page_exec (JqRemoveClass s c) d) t = page_hidden d t"
  "page_has_class (page_exec (JqShow s) d) t k = page_has_class d t k"
  "page_has_class (page_exec (JqHide s) d) t k = page_has_class d t k"
  "page_has_class (page_exec (JqRemoveClass s c) d) t k = (if t = s \<and> k = c then False else page_has_class d t k)"
  by (auto simp: page_hidden_def page_has_class_def)



lemma sendNotification_quiet:
  "\<exists>es. effects (sendNotification t opts b) = effects b @ es \<and> list_all (\<lambda>e. \<not> page_call e) es"
  "cookies (sendNotification t opts b) = cookies b"
  "notification_api (sendNotification t opts b) = notification_api b"
  by (auto simp: sendNotification_def setItem_def emit_def page_call_def Let_def split: jsv.split)


lemma switch_frames [simp]:
  "notification_api (enableKeys b) = notification_api b" "notification_api (disableKeys b) = notification_api b"
  "notification_api (fst (disableNotifications b)) = notification_api b"
  "notification_api (notifications_granted b) = notification_api b"
  by (simp_all add: enableKeys_def disableKeys_def disableNotifications_def notifications_granted_def
      show_disable_button_def sendNotification_quiet emit_def setCookie_def)

lemma other_cookie:
  assumes "jar_ok b" "cookie_name n" "cookie_name m" "n \<noteq> m"
  shows "getCookie m (setCookie n v b) = getCookie m b"
  using assms by simp

declare page_exec.simps [simp del]

lemma page_exec_notification [simp]: "page_exec (ShowNotification n) d = d"
  by (simp add: page_exec.simps)










section \<open>Loading a page\<close>


lemma ready_frames [simp]:
  "cookies (notify_ready b) = cookies b" "notification_api (notify_ready b) = notification_api b"
  "cookies (keys_ready b) = cookies b" "notification_api (keys_ready b) = notification_api b"
  by (simp_all add: notify_ready_def keys_ready_def emit_def Let_def)


section \<open>Every page in use\<close>




section \<open>Examples for the theorems\<close>


end
