(* ===== verification/Generator.thy ===== *)
theory Generator
  imports Prelude
begin

text \<open>
  The helper \<open>__generator\<close> that the TypeScript compiler in \<open>tsWorker.js\<close> emits for generator functions (lines
  198 to 224). The compiler turns the function into a body that is called again and again and that jumps
  to a label; the helper holds the label, the \<open>try\<close> regions the body is in and the completions that a
  \<open>finally\<close> block has put off. The body, and an iterator that \<open>yield*\<close> delegates to, are parameters: what
  they do to a state \<open>'s\<close> of their own, and what they give back.
\<close>

section \<open>The state of a generator\<close>

text \<open>\<open>[start, catch, finally, end]\<close>, pushed by the body at the start of a \<open>try\<close>; two of them may be left out.\<close>

record region =
  r_start :: nat
  r_catch :: "nat option"
  r_final :: "nat option"
  r_end :: nat

text \<open>The operations, numbered from 0 to 7; a thrown value is a value.\<close>

datatype ('v, 'd) op =
    Next 'v | Throw 'v | Return 'v | Break nat | Yield 'v | Delegate 'd | Caught 'v | EndFinally

text \<open>\<open>_\<close>: the label, and the stacks \<open>trys\<close> and \<open>ops\<close>, here with the last element first.\<close>

record ('v, 'd) frame =
  label :: nat
  trys :: "region list"
  ops :: "('v, 'd) op list"

text \<open>\<open>g\<close> until the first call, \<open>_\<close> until the end, \<open>y\<close>, and \<open>f\<close>.\<close>

record ('v, 'd) gen =
  fresh :: bool
  frame :: "('v, 'd) frame option"
  delegate :: "'d option"
  running :: bool

text \<open>What \<open>sent()\<close> gives the body; after a jump no body asks for it.\<close>

datatype 'v sent = Value 'v | Raise 'v | Jumped

type_synonym ('s, 'v, 'd) body =
  "'s \<Rightarrow> ('v, 'd) frame \<Rightarrow> 'v sent \<Rightarrow> 's \<times> ('v, 'd) frame \<times> ('v + ('v, 'd) op)"

text \<open>A method of an iterator: it throws, or gives a value and whether it is done.\<close>

type_synonym ('s, 'v) iter_call = "'v \<Rightarrow> 's \<Rightarrow> 's \<times> ('v + 'v \<times> bool)"

record ('s, 'v) delegatee =
  d_next :: "('s, 'v) iter_call option"
  d_throw :: "('s, 'v) iter_call option"
  d_return :: "('s, 'v) iter_call option"

text \<open>What the code of one generator function uses, with \<open>undefined\<close> and the errors of the language.\<close>

record ('s, 'v, 'd) code =
  body :: "('s, 'v, 'd) body"
  methods :: "'d \<Rightarrow> ('s, 'v) delegatee"
  undef :: 'v
  type_error :: 'v

datatype 'v outcome = Yielded 'v | Finished 'v | Thrown 'v | AlreadyExecuting

section \<open>\<open>step\<close>\<close>

text \<open>
  With an iterator to delegate to: its method is called. Not done, it gives the outcome; done, the operation
  becomes \<open>next\<close> or \<open>return\<close> with its value; without the method the operation stays, but when \<open>throw\<close> is
  missing, \<open>return\<close> is called first, without an argument.
\<close>

datatype ('v, 'd) delegated = Passed 'v | Goes "('v, 'd) op"

definition call_method ::
  "('s, 'v) iter_call \<Rightarrow> 'v \<Rightarrow> ('v \<Rightarrow> ('v, 'd) op) \<Rightarrow> 's \<Rightarrow> 's \<times> ('v, 'd) delegated" where
  "call_method m v go s = (case m v s of
       (s, Inl e) \<Rightarrow> (s, Goes (Caught e))
     | (s, Inr (w, fin)) \<Rightarrow> (s, if fin then Goes (go w) else Passed w))"

definition delegate_round ::
  "('s, 'v, 'd) code \<Rightarrow> 'd \<Rightarrow> ('v, 'd) op \<Rightarrow> 's \<Rightarrow> 's \<times> ('v, 'd) delegated" where
  "delegate_round c d op s = (case op of
       Next v \<Rightarrow> (case d_next (methods c d) of Some m \<Rightarrow> call_method m v Next s | None \<Rightarrow> (s, Goes op))
     | Return v \<Rightarrow> (case d_return (methods c d) of Some m \<Rightarrow> call_method m v Return s | None \<Rightarrow> (s, Goes op))
     | Throw v \<Rightarrow> (case d_throw (methods c d) of
           Some m \<Rightarrow> call_method m v Next s
         | None \<Rightarrow> (case d_return (methods c d) of
               None \<Rightarrow> (s, Goes op)
             | Some m \<Rightarrow> (case m (undef c) s of (s, Inl e) \<Rightarrow> (s, Goes (Caught e)) | (s, Inr _) \<Rightarrow> (s, Goes op))))
     | _ \<Rightarrow> (s, Goes op))"

definition below :: "nat \<Rightarrow> nat option \<Rightarrow> bool" where
  "below l t = (case t of None \<Rightarrow> False | Some k \<Rightarrow> l < k)"

text \<open>One pass of the \<open>switch\<close>: go to the body, go on with another operation, end, or give a value.\<close>

datatype ('v, 'd) switched =
    ToBody "('v, 'd) frame" "'v sent"
  | Again "('v, 'd) frame" "'d option" "('v, 'd) op"
  | Ends
  | Gives "('v, 'd) frame" 'v

text \<open>The \<open>default\<close> part, with the last region \<open>t\<close> if there is one.\<close>

definition unwind :: "('v, 'd) frame \<Rightarrow> ('v, 'd) op \<Rightarrow> ('v, 'd) switched" where
  "unwind fr op = (case trys fr of
       [] \<Rightarrow> (case op of Break k \<Rightarrow> ToBody (fr\<lparr>label := k\<rparr>) Jumped | _ \<Rightarrow> Ends)
     | t # ts \<Rightarrow>
         let finally = (if below (label fr) (r_final t)
               then ToBody (fr\<lparr>label := the (r_final t), ops := op # ops fr\<rparr>) Jumped
               else Again (fr\<lparr>trys := ts, ops := (if r_final t \<noteq> None then tl (ops fr) else ops fr)\<rparr>) None op)
         in (case op of
               Break k \<Rightarrow> if r_start t < k \<and> k < r_end t then ToBody (fr\<lparr>label := k\<rparr>) Jumped else finally
             | Caught e \<Rightarrow> if below (label fr) (r_catch t)
                 then ToBody (fr\<lparr>label := the (r_catch t)\<rparr>) (Value e) else finally
             | _ \<Rightarrow> finally))"

text \<open>With no completion put off, \<open>ops.pop()\<close> is \<open>undefined\<close> and the next look at it throws.\<close>

definition switch :: "('s, 'v, 'd) code \<Rightarrow> ('v, 'd) frame \<Rightarrow> ('v, 'd) op \<Rightarrow> ('v, 'd) switched" where
  "switch c fr op = (case op of
       Next v \<Rightarrow> ToBody fr (Value v)
     | Throw v \<Rightarrow> ToBody fr (Raise v)
     | Yield v \<Rightarrow> Gives (fr\<lparr>label := label fr + 1\<rparr>) v
     | Delegate d \<Rightarrow> Again (fr\<lparr>label := label fr + 1\<rparr>) (Some d) (Next (undef c))
     | EndFinally \<Rightarrow> Again (fr\<lparr>trys := tl (trys fr), ops := tl (ops fr)\<rparr>) None
         (case ops fr of [] \<Rightarrow> Caught (type_error c) | p # _ \<Rightarrow> p)
     | _ \<Rightarrow> unwind fr op)"

text \<open>Behind the loop; only the first three operations and an error get here.\<close>

definition finish :: "('s, 'v, 'd) code \<Rightarrow> ('v, 'd) op \<Rightarrow> 'v outcome" where
  "finish c op = (case op of
       Throw v \<Rightarrow> Thrown v | Caught v \<Rightarrow> Thrown v | Return v \<Rightarrow> Finished v | Next _ \<Rightarrow> Finished (undef c)
     | _ \<Rightarrow> Thrown (undef c))"

type_synonym ('s, 'v, 'd) run_state = "'s \<times> ('v, 'd) gen \<times> ('v, 'd) op"

definition after_body ::
  "('v, 'd) gen \<Rightarrow> 's \<times> ('v, 'd) frame \<times> ('v + ('v, 'd) op) \<Rightarrow> ('s, 'v, 'd) run_state" where
  "after_body g r = (case r of (s, fr, res) \<Rightarrow>
     (s, g\<lparr>frame := Some fr, delegate := None, running := False\<rparr>, case res of Inl e \<Rightarrow> Caught e | Inr op \<Rightarrow> op))"

text \<open>One pass of the loop of a generator that has not ended.\<close>

definition switch_round ::
  "('s, 'v, 'd) code \<Rightarrow> 's \<Rightarrow> ('v, 'd) gen \<Rightarrow> ('v, 'd) frame \<Rightarrow> ('v, 'd) op \<Rightarrow>
   ('s, 'v, 'd) run_state + ('s \<times> ('v, 'd) gen \<times> 'v outcome)" where
  "switch_round c s g fr op = (case switch c fr op of
       ToBody fr' sent \<Rightarrow> Inl (after_body g (body c s fr' sent))
     | Again fr' d op' \<Rightarrow> Inl (s, g\<lparr>frame := Some fr', delegate := d, running := False\<rparr>, op')
     | Ends \<Rightarrow> Inl (s, g\<lparr>frame := None, delegate := None, running := False\<rparr>, op)
     | Gives fr' v \<Rightarrow> Inr (s, g\<lparr>frame := Some fr', delegate := None, running := False\<rparr>, Yielded v))"

definition gen_round ::
  "('s, 'v, 'd) code \<Rightarrow> ('s, 'v, 'd) run_state \<Rightarrow>
   ('s, 'v, 'd) run_state + ('s \<times> ('v, 'd) gen \<times> 'v outcome)" where
  "gen_round c st = (case st of (s, g, op) \<Rightarrow> (case frame g of
       None \<Rightarrow> Inr (s, g, finish c op)
     | Some fr \<Rightarrow> (case delegate g of
           None \<Rightarrow> switch_round c s g fr op
         | Some d \<Rightarrow> (case delegate_round c d op s of
               (s, Passed v) \<Rightarrow> Inr (s, g\<lparr>running := False\<rparr>, Yielded v)
             | (s, Goes (Caught e)) \<Rightarrow> Inl (s, g\<lparr>delegate := None, running := False\<rparr>, Caught e)
             | (s, Goes op') \<Rightarrow> switch_round c s g fr op'))))"

partial_function (option) gen_loop ::
  "('s, 'v, 'd) code \<Rightarrow> ('s, 'v, 'd) run_state \<Rightarrow> ('s \<times> ('v, 'd) gen \<times> 'v outcome) option" where
  "gen_loop c st = (case gen_round c st of Inl st' \<Rightarrow> gen_loop c st' | Inr r \<Rightarrow> Some r)"

text \<open>Before the loop: the first call, unless it is \<open>next\<close>, ends the generator.\<close>

definition gen_start :: "('v, 'd) gen \<Rightarrow> ('v, 'd) op \<Rightarrow> ('v, 'd) gen" where
  "gen_start g op =
     (if fresh g then g\<lparr>fresh := False, frame := (case op of Next _ \<Rightarrow> frame g | _ \<Rightarrow> None)\<rparr> else g)"

definition gen_step ::
  "('s, 'v, 'd) code \<Rightarrow> 's \<Rightarrow> ('v, 'd) gen \<Rightarrow> ('v, 'd) op \<Rightarrow> ('s \<times> ('v, 'd) gen \<times> 'v outcome) option" where
  "gen_step c s g op = (if running g then Some (s, g, AlreadyExecuting) else gen_loop c (s, gen_start g op, op))"

definition js_generator :: "('v, 'd) gen" where
  "js_generator = \<lparr>fresh = True, frame = Some \<lparr>label = 0, trys = [], ops = []\<rparr>, delegate = None, running = False\<rparr>"

section \<open>Completions leave the regions they are in\<close>

text \<open>Does a region of the label \<open>l\<close> take the operation: with its \<open>catch\<close>, its \<open>finally\<close> or as the target's home?\<close>

definition lands :: "nat \<Rightarrow> ('v, 'd) op \<Rightarrow> region \<Rightarrow> bool" where
  "lands l op t = (below l (r_final t) \<or> (case op of
       Break k \<Rightarrow> r_start t < k \<and> k < r_end t
     | Caught e \<Rightarrow> below l (r_catch t)
     | _ \<Rightarrow> False))"

text \<open>
  The reference: the innermost region that takes the operation is entered, all regions inside of it are left,
  and each of these that has a \<open>finally\<close>, which is then already running, drops the completion it had put off.
\<close>

definition leave :: "('v, 'd) frame \<Rightarrow> ('v, 'd) op \<Rightarrow> ('v, 'd) frame" where
  "leave fr op = (let out = takeWhile (\<lambda>t. \<not> lands (label fr) op t) (trys fr)
     in fr\<lparr>trys := drop (length out) (trys fr),
           ops := drop (length (filter (\<lambda>t. r_final t \<noteq> None) out)) (ops fr)\<rparr>)"

definition enter :: "('v, 'd) frame \<Rightarrow> ('v, 'd) op \<Rightarrow> (('v, 'd) frame \<times> 'v sent) option" where
  "enter fr op = (case (op, trys fr) of
       (Break k, []) \<Rightarrow> Some (fr\<lparr>label := k\<rparr>, Jumped)
     | (_, []) \<Rightarrow> None
     | (op, t # _) \<Rightarrow> Some (case op of
           Break k \<Rightarrow> if r_start t < k \<and> k < r_end t then (fr\<lparr>label := k\<rparr>, Jumped)
             else (fr\<lparr>label := the (r_final t), ops := op # ops fr\<rparr>, Jumped)
         | Caught e \<Rightarrow> if below (label fr) (r_catch t) then (fr\<lparr>label := the (r_catch t)\<rparr>, Value e)
             else (fr\<lparr>label := the (r_final t), ops := op # ops fr\<rparr>, Jumped)
         | _ \<Rightarrow> (fr\<lparr>label := the (r_final t), ops := op # ops fr\<rparr>, Jumped)))"

definition unwinding :: "('v, 'd) op \<Rightarrow> bool" where
  "unwinding op = (case op of Return _ \<Rightarrow> True | Break _ \<Rightarrow> True | Caught _ \<Rightarrow> True | _ \<Rightarrow> False)"

definition ended :: "('v, 'd) gen \<Rightarrow> ('v, 'd) gen" where
  "ended g = g\<lparr>frame := None, delegate := None, running := False\<rparr>"

lemma gen_loop_again: "gen_round c st = Inl st' \<Longrightarrow> gen_loop c st = gen_loop c st'"
  by (subst gen_loop.simps) simp

lemma gen_loop_gives: "gen_round c st = Inr r \<Longrightarrow> gen_loop c st = Some r"
  by (subst gen_loop.simps) simp

lemma switch_unwinding: "unwinding op \<Longrightarrow> switch c fr op = unwind fr op"
  by (simp add: unwinding_def switch_def split: op.splits)

lemma unwind_out:
  "unwinding op \<Longrightarrow> trys fr = t # ts \<Longrightarrow> \<not> lands (label fr) op t \<Longrightarrow>
    unwind fr op = Again (fr\<lparr>trys := ts, ops := (if r_final t \<noteq> None then tl (ops fr) else ops fr)\<rparr>) None op"
  by (auto simp: unwinding_def unwind_def lands_def split: op.splits)

lemma unwind_in:
  "unwinding op \<Longrightarrow> trys fr = t # ts \<Longrightarrow> lands (label fr) op t \<Longrightarrow>
    (case enter fr op of Some (fr', sent) \<Rightarrow> unwind fr op = ToBody fr' sent | None \<Rightarrow> False)"
  by (auto simp: unwinding_def unwind_def enter_def lands_def split: op.splits)

lemma unwind_none:
  "unwinding op \<Longrightarrow> trys fr = [] \<Longrightarrow>
    unwind fr op = (case enter fr op of Some (fr', sent) \<Rightarrow> ToBody fr' sent | None \<Rightarrow> Ends)"
  by (auto simp: unwinding_def unwind_def enter_def split: op.splits)

lemma leave_stays: "trys fr = t # ts \<Longrightarrow> lands (label fr) op t \<Longrightarrow> leave fr op = fr"
  by (simp add: leave_def)

lemma leave_nil: "trys fr = [] \<Longrightarrow> leave fr op = fr"
  by (simp add: leave_def)

lemma leave_out:
  "trys fr = t # ts \<Longrightarrow> \<not> lands (label fr) op t \<Longrightarrow>
    leave fr op = leave (fr\<lparr>trys := ts, ops := (if r_final t \<noteq> None then tl (ops fr) else ops fr)\<rparr>) op"
  by (simp add: leave_def Let_def drop_Suc)

lemma round_to_body:
  "frame g = Some fr \<Longrightarrow> delegate g = None \<Longrightarrow> switch c fr op = ToBody fr' sent \<Longrightarrow>
    gen_round c (s, g, op) = Inl (after_body g (body c s fr' sent))"
  by (simp add: gen_round_def switch_round_def)

lemma loop_to_body:
  "frame g = Some fr \<Longrightarrow> delegate g = None \<Longrightarrow> switch c fr op = ToBody fr' sent \<Longrightarrow>
    gen_loop c (s, g, op) = gen_loop c (after_body g (body c s fr' sent))"
  by (simp add: gen_loop_again round_to_body)

lemma after_body_frame [simp]: "after_body (g\<lparr>frame := a\<rparr>) r = after_body g r"
  by (simp add: after_body_def split: prod.split)

lemma ended_frame [simp]: "ended (g\<lparr>frame := a\<rparr>) = ended g"
  by (simp add: ended_def)

lemma loop_ends:
  "frame g = Some fr \<Longrightarrow> delegate g = None \<Longrightarrow> switch c fr op = Ends \<Longrightarrow>
    gen_loop c (s, g, op) = Some (s, ended g, finish c op)"
  by (subst gen_loop.simps) (simp add: gen_round_def switch_round_def ended_def gen_loop_gives)

text \<open>C27. An error, a \<open>return\<close> or a jump goes to the innermost region that takes it, with every region inside left
  and the completions put off there dropped, and the body goes on there. When no region takes it, an error or a
  \<open>return\<close> ends the generator with it, while a jump goes to its own label, outside of all the regions left.\<close>

theorem completions_unwind:
  assumes "frame g = Some fr" and "delegate g = None" and "\<not> running g" and "unwinding op"
  shows "gen_loop c (s, g, op) = (case enter (leave fr op) op of
      Some (fr', sent) \<Rightarrow> gen_loop c (after_body g (body c s fr' sent))
    | None \<Rightarrow> Some (s, ended g, finish c op))"
  using assms
proof (induction "trys fr" arbitrary: g fr)
  case Nil
  then show ?case
    using unwind_none [of op fr]
    by (simp add: leave_nil switch_unwinding loop_to_body loop_ends split: option.split)
next
  case (Cons t ts)
  show ?case
  proof (cases "lands (label fr) op t")
    case True
    with Cons show ?thesis
      using unwind_in [of op fr t ts] Cons.hyps(2) [symmetric]
      by (auto simp: leave_stays switch_unwinding loop_to_body split: option.splits)
  next
    case False
    let ?fr = "fr\<lparr>trys := ts, ops := (if r_final t \<noteq> None then tl (ops fr) else ops fr)\<rparr>"
    let ?g = "g\<lparr>frame := Some ?fr\<rparr>"
    have t: "trys fr = t # ts"
      using Cons.hyps(2) by simp
    have "gen_round c (s, g, op) = Inl (s, ?g, op)"
      using Cons.prems unwind_out [OF Cons.prems(4) t False]
      by (cases g) (simp add: gen_round_def switch_round_def switch_unwinding)
    then have "gen_loop c (s, g, op) = gen_loop c (s, ?g, op)"
      by (rule gen_loop_again)
    also have "\<dots> = (case enter (leave ?fr op) op of
        Some (fr', sent) \<Rightarrow> gen_loop c (after_body ?g (body c s fr' sent))
      | None \<Rightarrow> Some (s, ended ?g, finish c op))"
      using Cons.prems by (intro Cons.hyps(1)) simp_all
    finally show ?thesis
      unfolding leave_out [OF t False] after_body_frame ended_frame .
  qed
qed

section \<open>The life of a generator\<close>

text \<open>A sequence of calls of \<open>next\<close>, \<open>throw\<close> and \<open>return\<close>.\<close>

fun resume_all ::
  "('s, 'v, 'd) code \<Rightarrow> 's \<Rightarrow> ('v, 'd) gen \<Rightarrow> ('v, 'd) op list \<Rightarrow> ('s \<times> ('v, 'd) gen \<times> 'v outcome list) option" where
  "resume_all c s g [] = Some (s, g, [])"
| "resume_all c s g (op # rest) = (case gen_step c s g op of
       None \<Rightarrow> None
     | Some (s, g, r) \<Rightarrow> map_option (\<lambda>(s, g, rs). (s, g, r # rs)) (resume_all c s g rest))"

definition over :: "('v, 'd) gen \<Rightarrow> bool" where
  "over g \<longleftrightarrow> \<not> fresh g \<and> frame g = None \<and> delegate g = None \<and> \<not> running g"

lemma over_step: "over g \<Longrightarrow> gen_step c s g op = Some (s, g, finish c op)"
  by (simp add: over_def gen_step_def gen_start_def gen_loop_gives gen_round_def)

lemma over_all: "over g \<Longrightarrow> resume_all c s g xs = Some (s, g, map (finish c) xs)"
  by (induction xs) (simp_all add: over_step)

lemma first_call_ends:
  "(case op of Next _ \<Rightarrow> False | _ \<Rightarrow> True) \<Longrightarrow>
    \<exists>g. over g \<and> gen_step c s js_generator op = Some (s, g, finish c op)"
  by (cases op) (auto simp: over_def gen_step_def gen_start_def js_generator_def gen_loop_gives gen_round_def)

text \<open>A generator whose first call is \<open>throw\<close> or \<open>return\<close> ends at once; its body never runs, the error and
  every later one come back to their callers, and so do the values of \<open>return\<close>; \<open>next\<close> gives \<open>undefined\<close>.\<close>

theorem ends_before_start:
  "map_option (\<lambda>(s, g, rs). (s, rs)) (resume_all c s js_generator (Throw e # xs)) =
      Some (s, Thrown e # map (finish c) xs) \<and>
   map_option (\<lambda>(s, g, rs). (s, rs)) (resume_all c s js_generator (Return v # xs)) =
      Some (s, Finished v # map (finish c) xs)"
  using first_call_ends [of "Throw e" c s] first_call_ends [of "Return v" c s]
  by (auto simp: over_all finish_def)

section \<open>\<open>yield*\<close>\<close>

text \<open>What an iterator that is never done makes of the values it is sent.\<close>

inductive passes :: "('s, 'v) iter_call \<Rightarrow> 's \<Rightarrow> ('v \<times> 'v) list \<Rightarrow> 's \<Rightarrow> bool" for m where
  passes_Nil: "passes m s [] s"
| passes_Cons: "m v s = (s', Inr (w, False)) \<Longrightarrow> passes m s' xs t \<Longrightarrow> passes m s ((v, w) # xs) t"

definition delegating :: "('s, 'v, 'd) code \<Rightarrow> ('v, 'd) gen \<Rightarrow> ('s, 'v) iter_call \<Rightarrow> bool" where
  "delegating c g m \<longleftrightarrow> \<not> fresh g \<and> \<not> running g \<and> frame g \<noteq> None \<and>
     (case delegate g of None \<Rightarrow> False | Some d \<Rightarrow> d_next (methods c d) = Some m)"

lemma delegating_step:
  "delegating c g m \<Longrightarrow> m v s = (s', Inr (w, False)) \<Longrightarrow> gen_step c s g (Next v) = Some (s', g, Yielded w)"
  by (cases g) (auto simp: delegating_def gen_step_def gen_start_def gen_round_def delegate_round_def
      call_method_def split: option.splits intro!: gen_loop_gives)

lemma delegating_all:
  "passes m s xs t \<Longrightarrow> delegating c g m \<Longrightarrow>
    resume_all c s g (map (\<lambda>x. Next (fst x)) xs) = Some (t, g, map (\<lambda>x. Yielded (snd x)) xs)"
  by (induction rule: passes.induct) (simp_all add: delegating_step)

lemma delegating_done:
  "delegating c g m \<Longrightarrow> m v s = (s', Inr (w, True)) \<Longrightarrow>
    gen_step c s g (Next v) = gen_loop c (after_body g (body c s' (the (frame g)) (Value w)))"
  by (auto simp: delegating_def gen_step_def gen_start_def gen_round_def delegate_round_def switch_round_def
      call_method_def switch_def split: option.splits intro!: gen_loop_again)

text \<open>While the iterator of a \<open>yield*\<close> is not done, every value sent goes to it and every value it gives comes
  out, and the generator does not change; the value it is done with is the value of \<open>yield*\<close> in the body.\<close>

theorem yield_star_passes_on:
  assumes "delegating c g m" and "passes m s xs t" and "m v t = (u, Inr (w, True))"
  shows "resume_all c s g (map (\<lambda>x. Next (fst x)) xs) = Some (t, g, map (\<lambda>x. Yielded (snd x)) xs) \<and>
    gen_step c t g (Next v) = gen_loop c (after_body g (body c u (the (frame g)) (Value w)))"
  using assms by (simp add: delegating_all delegating_done)

section \<open>A \<open>finally\<close> block runs once\<close>

text \<open>
  The body the compiler makes of \<open>try { yield x; ... } finally { note }\<close>: the \<open>i\<close>-th value is given at the
  label \<open>i\<close>, the \<open>finally\<close> block is at the label after the last one.
\<close>

definition try_body :: "'v \<Rightarrow> 'v list \<Rightarrow> ('s \<Rightarrow> 's) \<Rightarrow> ('s, 'v, 'd) body" where
  "try_body u xs note s fr sent = (let n = length xs; l = label fr in
     if l < n \<or> l = n then
       (case (if l = 0 then Jumped else sent) of
          Raise e \<Rightarrow> (s, fr, Inl e)
        | _ \<Rightarrow> (s, if l = 0 then fr\<lparr>trys := \<lparr>r_start = 0, r_catch = None, r_final = Some (n + 1), r_end = n + 2\<rparr> # trys fr\<rparr> else fr,
                Inr (if l < n then Yield (xs ! l) else Break (n + 2))))
     else if l = n + 1 then (note s, fr, Inr EndFinally)
     else (s, fr, Inr (Return u)))"

definition try_code :: "'v \<Rightarrow> 'v \<Rightarrow> 'v list \<Rightarrow> ('s \<Rightarrow> 's) \<Rightarrow> ('s, 'v, 'd) code" where
  "try_code u te xs note = \<lparr>body = try_body u xs note,
     methods = (\<lambda>_. \<lparr>d_next = None, d_throw = None, d_return = None\<rparr>), undef = u, type_error = te\<rparr>"

text \<open>The generator after the first \<open>k > 0\<close> values.\<close>

definition in_try :: "'v list \<Rightarrow> nat \<Rightarrow> ('v, 'd) gen" where
  "in_try xs k = \<lparr>fresh = False, frame = Some \<lparr>label = k, trys =
     [\<lparr>r_start = 0, r_catch = None, r_final = Some (length xs + 1), r_end = length xs + 2\<rparr>], ops = []\<rparr>,
     delegate = None, running = False\<rparr>"

lemmas gen_defs = gen_step_def gen_start_def js_generator_def in_try_def gen_round_def switch_round_def
  switch_def unwind_def after_body_def try_code_def try_body_def below_def finish_def Let_def

lemma try_first: "xs \<noteq> [] \<Longrightarrow>
    gen_step (try_code u te xs note) s js_generator (Next v) = Some (s, in_try xs 1, Yielded (xs ! 0))"
  unfolding gen_defs by (subst gen_loop.simps, simp add: gen_defs)+

lemma try_next: "0 < k \<Longrightarrow> k < length xs \<Longrightarrow>
    gen_step (try_code u te xs note) s (in_try xs k) (Next v) = Some (s, in_try xs (Suc k), Yielded (xs ! k))"
  unfolding gen_defs by (subst gen_loop.simps, simp add: gen_defs)+

text \<open>The ways to leave the block: a value for the last \<open>yield\<close>, or an error or a \<open>return\<close> at any of them.\<close>

definition leaves_try :: "'v list \<Rightarrow> nat \<Rightarrow> ('v, 'd) op \<Rightarrow> bool" where
  "leaves_try xs k op = (case op of Next _ \<Rightarrow> k = length xs | Throw _ \<Rightarrow> True | Return _ \<Rightarrow> True | _ \<Rightarrow> False)"

lemma try_leaves:
  "0 < k \<Longrightarrow> k \<le> length xs \<Longrightarrow> leaves_try xs k op \<Longrightarrow>
    gen_step (try_code u te xs note) s (in_try xs k) op =
      Some (note s, ended (in_try xs k), finish (try_code u te xs note) op)"
  by (cases op; simp add: leaves_try_def ended_def; unfold gen_defs; (subst gen_loop.simps, simp add: gen_defs)+)

lemma over_ended: "over (ended (in_try xs k))"
  by (simp add: over_def ended_def in_try_def)

lemma try_rest:
  "0 < k \<Longrightarrow> k + length vs \<le> length xs \<Longrightarrow> leaves_try xs (k + length vs) op \<Longrightarrow>
    map_option (\<lambda>(s, g, rs). (s, rs)) (resume_all (try_code u te xs note) s (in_try xs k) (map Next vs @ op # rest)) =
      Some (note s, map Yielded (take (length vs) (drop k xs)) @ map (finish (try_code u te xs note)) (op # rest))"
proof (induction vs arbitrary: k)
  case Nil
  then show ?case by (simp add: try_leaves over_all over_ended)
next
  case (Cons v vs)
  then have "map_option (\<lambda>(s, g, rs). (s, rs))
      (resume_all (try_code u te xs note) s (in_try xs (Suc k)) (map Next vs @ op # rest)) =
    Some (note s, map Yielded (take (length vs) (drop (Suc k) xs)) @ map (finish (try_code u te xs note)) (op # rest))"
    by (intro Cons.IH) simp_all
  moreover have "take (Suc (length vs)) (drop k xs) = xs ! k # take (length vs) (drop (Suc k) xs)"
    using Cons.prems by (simp add: Cons_nth_drop_Suc [symmetric])
  ultimately show ?case
    using Cons.prems by (auto simp: try_next option.map_comp comp_def case_prod_beta)
qed

text \<open>However a \<open>try { yield x; ... } finally { note }\<close> is left after its first values have been given, by its end,
  an error or a \<open>return\<close>, the \<open>finally\<close> block runs exactly once, before the caller has the outcome, and
  whatever is called after that changes nothing.\<close>

theorem finally_runs_once:
  assumes "length vs < length xs" and "leaves_try xs (Suc (length vs)) op"
  shows "map_option (\<lambda>(s, g, rs). (s, rs))
      (resume_all (try_code u te xs note) s js_generator (Next v # map Next vs @ op # rest)) =
    Some (note s, map Yielded (take (Suc (length vs)) xs) @ map (finish (try_code u te xs note)) (op # rest))"
proof -
  have "take (Suc (length vs)) xs = xs ! 0 # take (length vs) (drop 1 xs)"
    using assms(1) by (cases xs) simp_all
  moreover have "xs \<noteq> []"
    using assms(1) by auto
  ultimately show ?thesis
    using assms try_rest [of 1 vs xs op u te "note" s rest]
    by (auto simp: try_first option.map_comp comp_def case_prod_beta)
qed

theorem finally_runs_once_witness:
  "map_option (\<lambda>(s, g, rs). (s, rs)) (resume_all (try_code 0 99 [7, 8 :: nat] Suc) 0 js_generator
      [Next 0, Throw 5, Next 1 :: (nat, unit) op]) =
    Some (1, [Yielded 7, Thrown 5, Finished 0])"
  using finally_runs_once [of "[]" "[7, 8]" "Throw 5 :: (nat, unit) op" 0 99 Suc 0 0 "[Next 1]"]
  by (simp add: leaves_try_def finish_def try_code_def del: resume_all.simps)

theorem completions_unwind_witness:
  "gen_loop (try_code 0 99 [7] Suc) (0, js_generator\<lparr>frame := Some \<lparr>label = 5, trys =
      [\<lparr>r_start = 0, r_catch = Some 2, r_final = Some 4, r_end = 9\<rparr>], ops = [Break 9]\<rparr>\<rparr>, Caught 8) =
    Some (0, ended (js_generator :: (nat, unit) gen), Thrown 8)"
  using completions_unwind [of "js_generator\<lparr>frame := Some \<lparr>label = 5, trys =
      [\<lparr>r_start = 0, r_catch = Some 2, r_final = Some 4, r_end = 9\<rparr>], ops = [Break 9]\<rparr>\<rparr> :: (nat, unit) gen"
      _ "Caught 8" "try_code 0 99 [7] Suc" 0]
  by (simp add: js_generator_def unwinding_def leave_def lands_def below_def enter_def finish_def ended_def)

text \<open>An iterator that gives 5 and is then done with 6, at the first \<open>yield*\<close> of a body.\<close>

definition two_steps :: "(nat, nat) iter_call" where
  "two_steps v s = (if s = 0 then (1, Inr (5, False)) else (2, Inr (6, True)))"

theorem yield_star_passes_on_witness:
  "let c = (try_code 0 99 [7] Suc)\<lparr>methods := \<lambda>_. \<lparr>d_next = Some two_steps, d_throw = None, d_return = None\<rparr>\<rparr>;
     g = (in_try [7] 1)\<lparr>delegate := Some ()\<rparr>
   in resume_all c 0 g [Next 3] = Some (1, g, [Yielded 5]) \<and>
     gen_step c 1 g (Next 4) = gen_loop c (after_body g (body c 2 (the (frame g)) (Value 6)))"
proof -
  let ?c = "(try_code 0 99 [7] Suc)\<lparr>methods := \<lambda>_. \<lparr>d_next = Some two_steps, d_throw = None, d_return = None\<rparr>\<rparr>
    :: (nat, nat, unit) code"
  let ?g = "(in_try [7] 1)\<lparr>delegate := Some ()\<rparr> :: (nat, unit) gen"
  have "delegating ?c ?g two_steps"
    by (simp add: delegating_def in_try_def)
  moreover have "passes two_steps 0 [(3, 5)] 1"
    by (rule passes_Cons [OF _ passes_Nil]) (simp add: two_steps_def)
  moreover have "two_steps 4 1 = (2, Inr (6, True))"
    by (simp add: two_steps_def)
  ultimately show ?thesis
    using yield_star_passes_on [of ?c ?g two_steps 0 "[(3, 5)]" 1 4 2 6] by (simp del: resume_all.simps)
qed

end
