(* ===== verification/AsyncGenerator.thy ===== *)
theory AsyncGenerator
  imports Prelude
begin

text \<open>
  The helper \<open>__asyncGenerator\<close> that the TypeScript compiler in \<open>tsWorker.js\<close> emits for \<open>async function*\<close> (lines 91
  to 102): requests wait in a queue for one generator, which may await promises between its answers.
  The generator is a parameter, what it does to its state and whether it answers or awaits; the settling of a
  promise it awaits, and of an argument given to \<open>return\<close>, are events.
\<close>

section \<open>The state\<close>

datatype verb = VNext | VThrow | VReturn

text \<open>How the promise of a request is settled: with a value and \<open>done\<close>, or an error.\<close>

datatype 'v answer = Fulfilled 'v bool | Rejected 'v

text \<open>\<open>g[n](v)\<close>: an object that holds an \<open>__await\<close>; or another result, or an error thrown.\<close>

datatype 'v reply = Awaits | Answers "'v answer"

type_synonym ('s, 'v) generator = "verb \<Rightarrow> 'v \<Rightarrow> 's \<Rightarrow> 's \<times> 'v reply"

text \<open>An entry of \<open>q\<close>; its number stands for the two functions that settle its promise.\<close>

type_synonym 'v request = "nat \<times> verb \<times> 'v"

text \<open>
  \<open>answers\<close> are the promises settled so far; \<open>awaited\<close> counts the promises with \<open>fulfill\<close> and \<open>reject\<close> as handlers,
  \<open>returning\<close> the arguments of \<open>return\<close> not settled yet, \<open>broken\<close> the calls of \<open>resume\<close> that ended in a
  \<open>TypeError\<close>, for there was no \<open>q[0]\<close>.
\<close>

record ('s, 'v) async_gen =
  gen_state :: 's
  queue :: "'v request list"
  answers :: "(nat \<times> 'v answer) list"
  asked :: nat
  awaited :: nat
  returning :: nat
  broken :: nat

definition start :: "'s \<Rightarrow> ('s, 'v) async_gen" where
  "start s = \<lparr>gen_state = s, queue = [], answers = [], asked = 0, awaited = 0, returning = 0, broken = 0\<rparr>"

section \<open>\<open>resume\<close>, \<open>step\<close>, \<open>settle\<close>\<close>

text \<open>
  With a request at the head of the queue: \<open>settle\<close> goes on with the next one, until the generator awaits
  or the queue is empty. The result: the state, the queue, the answers, and whether a promise is awaited.
\<close>

fun resume_queue ::
  "('s, 'v) generator \<Rightarrow> 's \<Rightarrow> verb \<Rightarrow> 'v \<Rightarrow> 'v request \<Rightarrow> 'v request list \<Rightarrow>
   's \<times> 'v request list \<times> (nat \<times> 'v answer) list \<times> bool" where
  "resume_queue g s n v r q = (case g n v s of
       (s, Awaits) \<Rightarrow> (s, r # q, [], True)
     | (s, Answers a) \<Rightarrow> (case q of
             [] \<Rightarrow> (s, [], [(fst r, a)], False)
           | (i, m, w) # q' \<Rightarrow>
               (case resume_queue g s m w (i, m, w) q' of (s, q, as, t) \<Rightarrow> (s, q, (fst r, a) # as, t))))"

definition resume :: "('s, 'v) generator \<Rightarrow> verb \<Rightarrow> 'v \<Rightarrow> ('s, 'v) async_gen \<Rightarrow> ('s, 'v) async_gen" where
  "resume g n v st = (case queue st of
       [] \<Rightarrow> (case g n v (gen_state st) of
           (s, Awaits) \<Rightarrow> st\<lparr>gen_state := s, awaited := awaited st + 1\<rparr>
         | (s, Answers _) \<Rightarrow> st\<lparr>gen_state := s, broken := broken st + 1\<rparr>)
     | r # q \<Rightarrow> (case resume_queue g (gen_state st) n v r q of
           (s, q', as, t) \<Rightarrow> st\<lparr>gen_state := s, queue := q', answers := answers st @ as,
             awaited := awaited st + (if t then 1 else 0)\<rparr>))"

text \<open>The function made by \<open>verb\<close>: the request is pushed, and served if it is alone.\<close>

definition request :: "('s, 'v) generator \<Rightarrow> verb \<Rightarrow> 'v \<Rightarrow> ('s, 'v) async_gen \<Rightarrow> ('s, 'v) async_gen" where
  "request g n v st = (let st' = st\<lparr>queue := queue st @ [(asked st, n, v)], asked := asked st + 1\<rparr>
     in if length (queue st') > 1 then st' else resume g n v st')"

section \<open>Events\<close>

text \<open>
  \<open>next\<close> and \<open>throw\<close> are called; \<open>return\<close> is called, and its argument is fulfilled (\<open>f\<close> is called) or rejected
  (\<open>reject\<close> is called); the promise that the generator awaits is settled.
\<close>

datatype 'v event =
    CallNext 'v | CallThrow 'v | CallReturn | ReturnReady 'v | ReturnFails 'v | AwaitDone 'v | AwaitFails 'v

definition async_event :: "('s, 'v) generator \<Rightarrow> 'v event \<Rightarrow> ('s, 'v) async_gen \<Rightarrow> ('s, 'v) async_gen option" where
  "async_event g ev st = (case ev of
       CallNext v \<Rightarrow> Some (request g VNext v st)
     | CallThrow v \<Rightarrow> Some (request g VThrow v st)
     | CallReturn \<Rightarrow> Some (st\<lparr>returning := returning st + 1\<rparr>)
     | ReturnReady v \<Rightarrow> if returning st = 0 then None
         else Some (request g VReturn v (st\<lparr>returning := returning st - 1\<rparr>))
     | ReturnFails e \<Rightarrow> if returning st = 0 then None
         else Some (resume g VThrow e (st\<lparr>returning := returning st - 1\<rparr>))
     | AwaitDone v \<Rightarrow> if awaited st = 0 then None else Some (resume g VNext v (st\<lparr>awaited := awaited st - 1\<rparr>))
     | AwaitFails e \<Rightarrow> if awaited st = 0 then None else Some (resume g VThrow e (st\<lparr>awaited := awaited st - 1\<rparr>)))"

fun async_events :: "('s, 'v) generator \<Rightarrow> 'v event list \<Rightarrow> ('s, 'v) async_gen \<Rightarrow> ('s, 'v) async_gen option" where
  "async_events g [] st = Some st"
| "async_events g (ev # evs) st = (case async_event g ev st of None \<Rightarrow> None | Some st' \<Rightarrow> async_events g evs st')"

lemma async_events_append:
  "async_events g (xs @ ys) st = (case async_events g xs st of None \<Rightarrow> None | Some st' \<Rightarrow> async_events g ys st')"
  by (induction xs arbitrary: st) (auto split: option.split)

declare resume_queue.simps [simp del]

section \<open>The server that answers one request after the other\<close>

text \<open>
  The reference: the requests in their order, the outcomes of the awaited promises in theirs. The result: the
  state, the answers, the request that is being served with those behind it, and the outcomes not used.
\<close>

function serve ::
  "('s, 'v) generator \<Rightarrow> 's \<Rightarrow> 'v request list \<Rightarrow> (verb \<times> 'v) list \<Rightarrow>
   's \<times> (nat \<times> 'v answer) list \<times> (nat \<times> 'v request list) option \<times> (verb \<times> 'v) list" where
  "serve g s [] ws = (s, [], None, ws)"
| "serve g s ((i, n, v) # rs) ws = (case g n v s of
       (s, Awaits) \<Rightarrow> (case ws of [] \<Rightarrow> (s, [], Some (i, rs), []) | (m, w) # ws \<Rightarrow> serve g s ((i, m, w) # rs) ws)
     | (s, Answers a) \<Rightarrow> (case serve g s rs ws of (s, as, p) \<Rightarrow> (s, (i, a) # as, p)))"
  by pat_completeness auto
termination
  by (relation "measure (\<lambda>(g, s, rs, ws). length rs + length ws)") auto

definition requests :: "'v event list \<Rightarrow> (verb \<times> 'v) list" where
  "requests evs = concat (map (\<lambda>ev. case ev of
     CallNext v \<Rightarrow> [(VNext, v)] | CallThrow v \<Rightarrow> [(VThrow, v)] | ReturnReady v \<Rightarrow> [(VReturn, v)] | _ \<Rightarrow> []) evs)"

definition settlements :: "'v event list \<Rightarrow> (verb \<times> 'v) list" where
  "settlements evs = concat (map (\<lambda>ev. case ev of
     AwaitDone v \<Rightarrow> [(VNext, v)] | AwaitFails v \<Rightarrow> [(VThrow, v)] | _ \<Rightarrow> []) evs)"

definition numbered :: "(verb \<times> 'v) list \<Rightarrow> 'v request list" where
  "numbered rs = enumerate 0 rs"

text \<open>What \<open>serve\<close> says of a queue.\<close>

definition pending :: "'v request list \<Rightarrow> (nat \<times> 'v request list) option" where
  "pending q = (case q of [] \<Rightarrow> None | x # rs \<Rightarrow> Some (fst x, rs))"

lemma pending_simps [simp]: "pending [] = None" "pending (x # q) = Some (fst x, q)"
  by (simp_all add: pending_def)

lemma serve_awaits: "g n v s = (s', Awaits) \<Longrightarrow> serve g s ((i, n, v) # rs) [] = (s', [], Some (i, rs), [])"
  "g n v s = (s', Awaits) \<Longrightarrow> serve g s ((i, n, v) # rs) ((m, w) # ws) = serve g s' ((i, m, w) # rs) ws"
  by simp_all

lemma serve_answers: "g n v s = (s', Answers a) \<Longrightarrow>
    serve g s ((i, n, v) # rs) ws = (case serve g s' rs ws of (t, as, p) \<Rightarrow> (t, (i, a) # as, p))"
  by simp

lemma queue_awaits: "g n v s = (s', Awaits) \<Longrightarrow> resume_queue g s n v r q = (s', r # q, [], True)"
  by (simp add: resume_queue.simps)

lemma queue_answers: "g n v s = (s', Answers a) \<Longrightarrow> resume_queue g s n v r [] = (s', [], [(fst r, a)], False)"
  "g n v s = (s', Answers a) \<Longrightarrow> resume_queue g s n v r ((i, m, w) # q) =
    (case resume_queue g s' m w (i, m, w) q of (t, q', as, b) \<Rightarrow> (t, q', (fst r, a) # as, b))"
  by (simp_all add: resume_queue.simps)

declare serve.simps(2) [simp del]

lemma reply_cases: obtains s' where "x = (s', Awaits)" | s' a where "x = (s', Answers a)"
  by (metis reply.exhaust surj_pair)

lemma resume_queue_serves:
  "resume_queue g s n v r q = (t, q', as, w) \<Longrightarrow>
    serve g s ((fst r, n, v) # q) [] = (t, as, pending q', []) \<and> (w \<longleftrightarrow> q' \<noteq> [])"
proof (induction q arbitrary: s n v r t q' as w)
  case Nil
  show ?case
    by (rule reply_cases [of "g n v s"]) (use Nil in \<open>auto simp: serve_awaits queue_awaits serve_answers queue_answers\<close>)
next
  case (Cons x q)
  obtain i m u where x: "x = (i, m, u)"
    by (cases x) auto
  show ?case
  proof (rule reply_cases [of "g n v s"])
    fix s' assume "g n v s = (s', Awaits)"
    then show ?thesis
      using Cons.prems by (auto simp: serve_awaits queue_awaits)
  next
    fix s' a assume a: "g n v s = (s', Answers a)"
    obtain as' where "resume_queue g s' m u x q = (t, q', as', w)" and "as = (fst r, a) # as'"
      using Cons.prems a x by (auto simp: queue_answers split: prod.splits)
    from Cons.IH [OF this(1)] this(2) show ?thesis
      using a x by (simp add: serve_answers)
  qed
qed

text \<open>The step of the induction over \<open>serve\<close>.\<close>

lemma serve_induct [case_names none stops goes_on answers]:
  assumes "\<And>s ws. P s [] ws"
    and "\<And>s s' i n v rs. g n v s = (s', Awaits) \<Longrightarrow> P s ((i, n, v) # rs) []"
    and "\<And>s s' i n v rs m w ws. g n v s = (s', Awaits) \<Longrightarrow> P s' ((i, m, w) # rs) ws \<Longrightarrow> P s ((i, n, v) # rs) ((m, w) # ws)"
    and "\<And>s s' a i n v rs ws. g n v s = (s', Answers a) \<Longrightarrow> P s' rs ws \<Longrightarrow> P s ((i, n, v) # rs) ws"
  shows "P s rs ws"
proof (induction "length rs + length ws" arbitrary: s rs ws rule: less_induct)
  case less
  show ?case
  proof (cases rs)
    case Nil
    then show ?thesis using assms(1) by simp
  next
    case (Cons x rest)
    obtain i n v where x: "x = (i, n, v)"
      by (cases x) auto
    show ?thesis
    proof (rule reply_cases [of "g n v s"])
      fix s' assume a: "g n v s = (s', Awaits)"
      show ?thesis
      proof (cases ws)
        case Nil
        then show ?thesis using assms(2) [OF a] Cons x by simp
      next
        case (Cons y ws')
        then show ?thesis
          using assms(3) [OF a] less \<open>rs = x # rest\<close> x by (cases y) simp
      qed
    next
      fix s' a assume a: "g n v s = (s', Answers a)"
      show ?thesis
        using assms(4) [OF a] less Cons x by simp
    qed
  qed
qed

lemma serve_more:
  "serve g s rs ws = (t, as, p, ws') \<Longrightarrow> serve g s (rs @ rs2) ws = (case p of
      None \<Rightarrow> (case serve g t rs2 ws' of (u, as2, q) \<Rightarrow> (u, as @ as2, q))
    | Some (i, rest) \<Rightarrow> (t, as, Some (i, rest @ rs2), ws'))"
proof (induction s rs ws arbitrary: t as p ws' rule: serve_induct [where g = g])
  case (answers s s' a i n v rs ws)
  obtain as' where as': "serve g s' rs ws = (t, as', p, ws')" "as = (i, a) # as'"
    using answers.prems answers.hyps(1) by (auto simp: serve_answers split: prod.splits)
  then show ?case
    using answers.hyps(1) answers.IH [OF as'(1)] by (simp add: serve_answers split: prod.splits option.splits)
qed (simp_all add: serve_awaits split: prod.splits)

lemma serve_settled:
  "serve g s rs ws = (t, as, Some (j, rest), ws') \<Longrightarrow> serve g s rs (ws @ [(m, w)]) =
    (case serve g t ((j, m, w) # rest) [] of (u, as2, q) \<Rightarrow> (u, as @ as2, q))"
proof (induction s rs ws arbitrary: t as rule: serve_induct [where g = g])
  case (answers s s' a i n v rs ws)
  obtain as' where as': "serve g s' rs ws = (t, as', Some (j, rest), ws')" "as = (i, a) # as'"
    using answers.prems answers.hyps(1) by (auto simp: serve_answers split: prod.splits)
  then show ?case
    using answers.hyps(1) answers.IH [OF as'(1)] by (simp add: serve_answers split: prod.splits)
qed (simp_all add: serve_awaits split: prod.splits)

lemma serve_numbers:
  "serve g s rs ws = (t, as, p, ws') \<Longrightarrow>
    map fst as @ (case p of None \<Rightarrow> [] | Some (i, rest) \<Rightarrow> i # map fst rest) = map fst rs"
proof (induction s rs ws arbitrary: t as p rule: serve_induct [where g = g])
  case (answers s s' a i n v rs ws)
  obtain as' where as': "serve g s' rs ws = (t, as', p, ws')" "as = (i, a) # as'"
    using answers.prems answers.hyps(1) by (auto simp: serve_answers split: prod.splits)
  then show ?case
    using answers.IH [OF as'(1)] by simp
qed (auto simp: serve_awaits split: prod.splits)

section \<open>The requests are served one after the other\<close>

text \<open>As long as no argument of \<open>return\<close> is rejected.\<close>

definition serves :: "('s, 'v) generator \<Rightarrow> 's \<Rightarrow> 'v event list \<Rightarrow> ('s, 'v) async_gen \<Rightarrow> bool" where
  "serves g s evs st \<longleftrightarrow>
     serve g s (numbered (requests evs)) (settlements evs) = (gen_state st, answers st, pending (queue st), []) \<and>
     asked st = length (requests evs) \<and> awaited st = (if queue st = [] then 0 else 1) \<and> broken st = 0"

definition fails_return :: "'v event \<Rightarrow> bool" where
  "fails_return ev = (case ev of ReturnFails _ \<Rightarrow> True | _ \<Rightarrow> False)"

lemma requests_append: "requests (xs @ ys) = requests xs @ requests ys"
  by (simp add: requests_def)

lemma settlements_append: "settlements (xs @ ys) = settlements xs @ settlements ys"
  by (simp add: settlements_def)

lemma numbered_snoc: "numbered (rs @ [r]) = numbered rs @ [(length rs, fst r, snd r)]"
  by (simp add: numbered_def enumerate_append_eq)

lemma request_serves:
  assumes "serves g s evs st" and "requests evs' = requests evs @ [(n, v)]" and "settlements evs' = settlements evs"
  shows "serves g s evs' (request g n v (st\<lparr>returning := k\<rparr>))"
proof (cases "queue st")
  case Nil
  obtain t q as w where r: "resume_queue g (gen_state st) n v (asked st, n, v) [] = (t, q, as, w)"
    by (metis surj_pair)
  from resume_queue_serves [OF r] show ?thesis
    using assms Nil r serve_more [of g s "numbered (requests evs)" "settlements evs"]
    by (simp add: serves_def request_def resume_def numbered_snoc)
next
  case (Cons x q)
  then show ?thesis
    using assms serve_more [of g s "numbered (requests evs)" "settlements evs"]
    by (simp add: serves_def request_def numbered_snoc Let_def)
qed

lemma settled_serves:
  assumes "serves g s evs st" and "requests evs' = requests evs" and "settlements evs' = settlements evs @ [(m, w)]"
    and "awaited st \<noteq> 0"
  shows "serves g s evs' (resume g m w (st\<lparr>awaited := awaited st - 1\<rparr>))"
proof -
  obtain x q where x: "queue st = x # q"
    using assms(1,4) by (cases "queue st") (auto simp: serves_def)
  obtain t q' as b where r: "resume_queue g (gen_state st) m w x q = (t, q', as, b)"
    by (metis surj_pair)
  from resume_queue_serves [OF r] show ?thesis
    using assms x r serve_settled [of g s "numbered (requests evs)" "settlements evs" "gen_state st" "answers st"
        "fst x" q "[]" m w]
    by (simp add: serves_def resume_def)
qed

lemma event_serves:
  assumes "serves g s evs st" and "async_event g ev st = Some st'" and "\<not> fails_return ev"
  shows "serves g s (evs @ [ev]) st'"
proof -
  have "requests (evs @ [ev]) = requests evs @ requests [ev]" "settlements (evs @ [ev]) = settlements evs @ settlements [ev]"
    by (simp_all add: requests_append settlements_append)
  then show ?thesis
    using assms request_serves [OF assms(1), of "evs @ [ev]" _ _ "returning st"]
      request_serves [OF assms(1), of "evs @ [ev]" _ _ "returning st - 1"]
      settled_serves [OF assms(1), of "evs @ [ev]"]
    by (cases ev) (auto simp: async_event_def fails_return_def requests_def settlements_def serves_def split: if_splits)
qed

lemma start_serves: "serves g s [] (start s)"
  by (simp add: serves_def start_def numbered_def requests_def settlements_def)

lemma events_serve:
  "async_events g evs (start s) = Some st \<Longrightarrow> \<not> list_ex fails_return evs \<Longrightarrow> serves g s evs st"
proof (induction evs arbitrary: st rule: rev_induct)
  case Nil
  then show ?case using start_serves [of g s] by simp
next
  case (snoc ev evs)
  then show ?case
    by (auto simp: async_events_append event_serves split: option.splits)
qed

text \<open>C28. Whenever the calls come and the awaited promises settle, the requests are served one after the other in
  the order they enter the queue (a \<open>return\<close> when its argument is fulfilled): each is answered once, none while an earlier one waits, and answers, state and queue
  are those of a server that takes all requests and all outcomes in order. This is so as long as no
  argument of \<open>return\<close> is rejected.\<close>

theorem requests_served_in_order:
  assumes "async_events g evs (start s) = Some st" and "\<not> list_ex fails_return evs"
  shows "serve g s (numbered (requests evs)) (settlements evs) = (gen_state st, answers st, pending (queue st), []) \<and>
    map fst (answers st) @ map fst (queue st) = [0..<length (requests evs)] \<and>
    awaited st = (if queue st = [] then 0 else 1) \<and> broken st = 0"
  using events_serve [OF assms] serve_numbers [of g s "numbered (requests evs)" "settlements evs"]
  by (cases "queue st") (auto simp: serves_def numbered_def)

text \<open>A generator that awaits once before each answer.\<close>

definition waits_once :: "(nat, nat) generator" where
  "waits_once n v s = (if even s then (s + 1, Awaits) else (s + 1, Answers (Fulfilled v False)))"

theorem requests_served_in_order_witness:
  "\<exists>st. async_events waits_once [CallNext 1, CallNext 2, AwaitDone 3] (start 0) = Some st \<and>
    map fst (answers st) @ map fst (queue st) = [0, 1] \<and> awaited st = 1 \<and> broken st = 0"
proof -
  define evs :: "nat event list" where "evs = [CallNext 1, CallNext 2, AwaitDone 3]"
  obtain st where st: "async_events waits_once evs (start 0) = Some st" and q: "queue st \<noteq> []"
    by (simp add: evs_def async_event_def request_def resume_def start_def waits_once_def resume_queue.simps)
  have "length (requests evs) = 2" and "\<not> list_ex fails_return evs"
    by (simp_all add: evs_def requests_def fails_return_def)
  then show ?thesis
    using requests_served_in_order [OF st] st q by (auto simp: evs_def upt_rec)
qed

text \<open>When the argument of \<open>return\<close> is rejected and no request waits, the error is thrown into the generator,
  but what it answers reaches nobody: no promise is settled, and \<open>resume\<close> ends in a \<open>TypeError\<close>.\<close>

theorem rejected_return_breaks:
  "map_option (\<lambda>st. (gen_state st, answers st, broken st)) (async_events g [CallReturn, ReturnFails e] (start s)) =
    Some (case g VThrow e s of (t, Awaits) \<Rightarrow> (t, [], 0) | (t, Answers _) \<Rightarrow> (t, [], 1))"
  by (simp add: async_event_def resume_def start_def split: prod.split reply.split)

end
