(* ===== verification/Iteration.thy ===== *)
theory Iteration
  imports Prelude
begin

text \<open>
  The helpers \<open>__values\<close>, \<open>__read\<close> and \<open>__spreadArray\<close> that the TypeScript compiler in \<open>tsWorker.js\<close> emits
  for loops, destructuring and spreading (lines 155 to 197). An iterator is what its methods do to a state of
  its own; reading all of an iterator may not return, so the loop is a partial function.
\<close>

section \<open>Iterators\<close>

text \<open>\<open>next\<close> throws, is done, or gives a value; \<open>return\<close>, if there is one, may throw.\<close>

record ('s, 'v, 'e) iterator =
  it_next :: "'s \<Rightarrow> 's \<times> ('e + 'v option)"
  it_return :: "('s \<Rightarrow> 's \<times> 'e option) option"

text \<open>The values an iterator gives from a state on, and the state it is in after them.\<close>

inductive yields :: "('s, 'v, 'e) iterator \<Rightarrow> 's \<Rightarrow> 'v list \<Rightarrow> 's \<Rightarrow> bool" for it where
  none: "yields it s [] s"
| more: "it_next it s = (s', Inr (Some v)) \<Longrightarrow> yields it s' vs t \<Longrightarrow> yields it s (v # vs) t"

inductive_cases yields_NilE: "yields it s [] t"
inductive_cases yields_ConsE: "yields it s (v # vs) t"

section \<open>\<open>__values\<close>\<close>

text \<open>The closure over an array-like object: the object, until it is used up, and the index.\<close>

definition values_next :: "'v list option \<times> nat \<Rightarrow> ('v list option \<times> nat) \<times> ('e + 'v option)" where
  "values_next st = (case st of (o', i) \<Rightarrow>
     let o' = (case o' of Some xs \<Rightarrow> if i \<ge> length xs then None else Some xs | None \<Rightarrow> None)
     in (case o' of
           None \<Rightarrow> ((None, i), Inr None)
         | Some xs \<Rightarrow> ((Some xs, Suc i), Inr (Some (xs ! i)))))"

definition array_values :: "('v list option \<times> nat, 'v, 'e) iterator" where
  "array_values = \<lparr>it_next = values_next, it_return = None\<rparr>"

text \<open>What \<open>__values\<close> is given: an iterable, with its iterator; an object with a length; or neither.\<close>

datatype ('i, 'v) iteratee = Iterable 'i | ArrayLike "'v list" | NotIterable

datatype iteration_error = NotAnIterable

definition js_values :: "('i, 'v) iteratee \<Rightarrow> iteration_error + ('i + 'v list option \<times> nat)" where
  "js_values x = (case x of
       Iterable i \<Rightarrow> Inr (Inl i)
     | ArrayLike xs \<Rightarrow> Inr (Inr (Some xs, 0))
     | NotIterable \<Rightarrow> Inl NotAnIterable)"

section \<open>\<open>__read\<close>\<close>

text \<open>The variable \<open>r\<close>: not set yet, a result with a value, or one that is done.\<close>

datatype last_result = Unset | Open | Done

text \<open>\<open>n\<close> counts down, or is undefined; the last component is the error that \<open>next\<close> threw.\<close>

partial_function (option) read_loop ::
  "('s, 'v, 'e) iterator \<Rightarrow> nat option \<Rightarrow> 's \<Rightarrow> 'v list \<Rightarrow> last_result \<Rightarrow>
   ('s \<times> 'v list \<times> last_result \<times> 'e option) option" where
  "read_loop it n s ar r =
     (if n = Some 0 then Some (s, ar, r, None)
      else (case it_next it s of (s, res) \<Rightarrow>
        (case res of
           Inl e \<Rightarrow> Some (s, ar, r, Some e)
         | Inr None \<Rightarrow> Some (s, ar, Done, None)
         | Inr (Some v) \<Rightarrow> read_loop it (map_option (\<lambda>k. k - 1) n) s (ar @ [v]) Open)))"

text \<open>The \<open>finally\<close> part: an iterator left open is closed; an error of \<open>next\<close> goes before one of \<open>return\<close>.\<close>

definition read_finally ::
  "('s, 'v, 'e) iterator \<Rightarrow> 's \<times> 'v list \<times> last_result \<times> 'e option \<Rightarrow> 's \<times> ('e + 'v list)" where
  "read_finally it st = (case st of (s, ar, r, e) \<Rightarrow>
     let (s, closing) = (if r = Open then (case it_return it of None \<Rightarrow> (s, None) | Some m \<Rightarrow> m s) else (s, None))
     in (s, case e of Some err \<Rightarrow> Inl err | None \<Rightarrow> (case closing of Some err \<Rightarrow> Inl err | None \<Rightarrow> Inr ar)))"

definition js_read :: "('s, 'v, 'e) iterator \<Rightarrow> nat option \<Rightarrow> 's \<Rightarrow> ('s \<times> ('e + 'v list)) option" where
  "js_read it n s = map_option (read_finally it) (read_loop it n s [] Unset)"

section \<open>\<open>__spreadArray\<close>\<close>

text \<open>
  An array is the list of its slots, \<open>None\<close> for a hole. \<open>ar\<close> is the copy that is made once a hole has been
  met; a hole is read as \<open>undefined\<close>, which the parameter \<open>u\<close> stands for.
\<close>

definition read_slot :: "'v \<Rightarrow> 'v option list \<Rightarrow> nat \<Rightarrow> 'v" where
  "read_slot u xs i = (if i < length xs then (case xs ! i of Some v \<Rightarrow> v | None \<Rightarrow> u) else u)"

text \<open>\<open>ar[i] = v\<close>: a write past the end fills up with holes.\<close>

definition put_slot :: "'v option list \<Rightarrow> nat \<Rightarrow> 'v \<Rightarrow> 'v option list" where
  "put_slot ar i v = (if i < length ar then ar[i := Some v]
     else ar @ replicate (i - length ar) None @ [Some v])"

definition fill_step :: "'v \<Rightarrow> 'v option list \<Rightarrow> 'v option list option \<Rightarrow> nat \<Rightarrow> 'v option list option" where
  "fill_step u from' ar i =
     (if ar \<noteq> None \<or> from' ! i = None
      then Some (put_slot (case ar of None \<Rightarrow> take i from' | Some a \<Rightarrow> a) i (read_slot u from' i))
      else ar)"

definition spreadArray :: "'v \<Rightarrow> 'v option list \<Rightarrow> 'v option list \<Rightarrow> bool \<Rightarrow> bool \<Rightarrow> 'v option list" where
  "spreadArray u to from' pack two_args =
     (let ar = (if pack \<or> two_args then foldl (fill_step u from') None [0..<length from'] else None)
      in to @ (case ar of Some a \<Rightarrow> a | None \<Rightarrow> from'))"

text \<open>The abstract result: every hole is filled.\<close>

definition filled :: "'v \<Rightarrow> 'v option list \<Rightarrow> 'v option list" where
  "filled u = map (\<lambda>x. case x of None \<Rightarrow> Some u | Some v \<Rightarrow> Some v)"

lemma filled_no_holes: "None \<notin> set xs \<Longrightarrow> filled u xs = xs"
  unfolding filled_def by (rule map_idI) (metis option.case(2) option.exhaust)

lemma fill_loop:
  "k \<le> length xs \<Longrightarrow> foldl (fill_step u xs) None [0..<k] =
    (if None \<in> set (take k xs) then Some (filled u (take k xs)) else None)"
proof (induction k)
  case (Suc k)
  have "length (filled u (take k xs)) = k"
    using Suc.prems by (simp add: filled_def)
  then show ?case
    using Suc by (cases "xs ! k") (auto simp: fill_step_def put_slot_def read_slot_def take_Suc_conv_app_nth
        filled_no_holes filled_def filled_no_holes [unfolded filled_def, symmetric])
qed simp

text \<open>\<open>__spreadArray\<close> puts the second array after the first; when it packs, each hole of the second is
  \<open>undefined\<close>, when it does not, the holes stay; the first array is never changed.\<close>

theorem spread_fills_holes:
  "spreadArray u to from' pack two_args = to @ (if pack \<or> two_args then filled u from' else from')"
  using fill_loop [of "length from'" from' u] by (simp add: spreadArray_def filled_no_holes)

section \<open>What is read\<close>

lemma read_loop_yields:
  "yields it s vs t \<Longrightarrow> (case n of None \<Rightarrow> True | Some k \<Rightarrow> length vs \<le> k) \<Longrightarrow>
    read_loop it n s ar r = read_loop it (map_option (\<lambda>k. k - length vs) n) t (ar @ vs) (if vs = [] then r else Open)"
proof (induction arbitrary: n ar r rule: yields.induct)
  case (none s)
  then show ?case by (cases n) simp_all
next
  case (more s s' v vs t)
  let ?n = "map_option (\<lambda>k. k - 1) n"
  have n: "n \<noteq> Some 0" "case ?n of None \<Rightarrow> True | Some k \<Rightarrow> length vs \<le> k"
    using more.prems by (cases n; auto)+
  have "read_loop it n s ar r = read_loop it ?n s' (ar @ [v]) Open"
    using n(1) more.hyps(1) by (subst read_loop.simps) simp
  also have "\<dots> = read_loop it (map_option (\<lambda>k. k - length vs) ?n) t ((ar @ [v]) @ vs) (if vs = [] then Open else Open)"
    by (rule more.IH [OF n(2)])
  finally show ?case by (simp add: option.map_comp comp_def)
qed

lemma read_loop_done:
  "it_next it t = (t', Inr None) \<Longrightarrow> read_loop it None t ar r = Some (t', ar, Done, None)"
  by (subst read_loop.simps) simp

lemma read_loop_zero: "read_loop it (Some 0) t ar r = Some (t, ar, r, None)"
  by (subst read_loop.simps) simp

lemma read_loop_throws:
  "it_next it t = (t', Inl e) \<Longrightarrow> n \<noteq> Some 0 \<Longrightarrow> read_loop it n t ar r = Some (t', ar, r, Some e)"
  by (subst read_loop.simps) simp

lemma read_to_end:
  assumes "yields it s vs t" and "it_next it t = (t', Inr None)"
  shows "js_read it None s = Some (t', Inr vs)"
  using read_loop_yields [OF assms(1), of None "[]" Unset] read_loop_done [OF assms(2)]
  by (simp add: js_read_def read_finally_def)

text \<open>How a closing ends: without \<open>return\<close> it does nothing.\<close>

definition closed :: "('s, 'v, 'e) iterator \<Rightarrow> 's \<Rightarrow> 's \<times> 'e option" where
  "closed it t = (case it_return it of None \<Rightarrow> (t, None) | Some m \<Rightarrow> m t)"

lemma read_some:
  assumes "yields it s vs t" and "vs \<noteq> []"
  shows "js_read it (Some (length vs)) s =
    Some (case closed it t of (u, None) \<Rightarrow> (u, Inr vs) | (u, Some e) \<Rightarrow> (u, Inl e))"
  using read_loop_yields [OF assms(1), of "Some (length vs)" "[]" Unset] assms(2)
  by (simp add: read_loop_zero js_read_def read_finally_def closed_def split: option.split prod.split)

lemma read_fails:
  assumes "yields it s vs t" and "it_next it t = (t', Inl e)"
  shows "js_read it None s = Some (if vs = [] then t' else fst (closed it t'), Inl e)"
  using read_loop_yields [OF assms(1), of None "[]" Unset] read_loop_throws [OF assms(2), of None]
  by (simp add: js_read_def read_finally_def closed_def split: option.split prod.split)

text \<open>Reading an iterator to its end gives all its values and never closes it; reading the \<open>n > 0\<close> values
  it gives closes it once, and an error of \<open>return\<close> comes through; when \<open>next\<close> throws, the error comes
  through, but an iterator that has given a value before is closed all the same.\<close>

theorem read_closes:
  assumes "yields it s vs t"
  shows "(it_next it t = (t', Inr None) \<longrightarrow> js_read it None s = Some (t', Inr vs)) \<and>
    (vs \<noteq> [] \<longrightarrow> js_read it (Some (length vs)) s =
      Some (case closed it t of (u, None) \<Rightarrow> (u, Inr vs) | (u, Some e) \<Rightarrow> (u, Inl e))) \<and>
    (it_next it t = (t', Inl err) \<longrightarrow>
      js_read it None s = Some (if vs = [] then t' else fst (closed it t'), Inl err))"
  using read_to_end [OF assms] read_some [OF assms] read_fails [OF assms] by blast

text \<open>An array-like object that \<open>__values\<close> is given is walked through in order.\<close>

lemma array_yields: "i + k \<le> length xs \<Longrightarrow> yields (array_values :: (_, _, 'e) iterator) (Some xs, i) (take k (drop i xs)) (Some xs, i + k)"
proof (induction k arbitrary: i)
  case 0
  show ?case by (simp add: yields.none)
next
  case (Suc k)
  then have "take (Suc k) (drop i xs) = xs ! i # take k (drop (Suc i) xs)"
    by (simp add: take_Suc_conv_app_nth Cons_nth_drop_Suc [symmetric])
  moreover have "yields (array_values :: (_, _, 'e) iterator) (Some xs, Suc i) (take k (drop (Suc i) xs)) (Some xs, Suc i + k)"
    using Suc.prems by (intro Suc.IH) simp
  moreover have "it_next (array_values :: (_, _, 'e) iterator) (Some xs, i) = ((Some xs, Suc i), Inr (Some (xs ! i)))"
    using Suc.prems by (simp add: array_values_def values_next_def)
  ultimately show ?case by (simp add: yields.more)
qed

theorem read_closes_witness:
  "js_read (array_values :: (nat list option \<times> nat, nat, string) iterator) (Some (Suc (Suc 0))) (Some [7, 8, 9], 0) =
    Some ((Some [7, 8, 9], 2), Inr [7, 8])"
  using read_closes [OF array_yields [of 0 2 "[7, 8, 9 :: nat]"], THEN conjunct2, THEN conjunct1]
  by (simp add: array_values_def closed_def numeral_2_eq_2)

text \<open>What \<open>__values\<close> makes of an object with a length is read back as the values of the object, without holes.\<close>

theorem values_read_back:
  "(case js_values (ArrayLike xs) of
      Inr (Inr st) \<Rightarrow> map_option snd (js_read (array_values :: (_, _, 'e) iterator) None st)
    | _ \<Rightarrow> None) = Some (Inr xs)"
proof -
  have "it_next (array_values :: (_, _, 'e) iterator) (Some xs, length xs) = ((None, length xs), Inr None)"
    by (simp add: array_values_def values_next_def)
  moreover have "yields (array_values :: (_, _, 'e) iterator) (Some xs, 0) xs (Some xs, length xs)"
    using array_yields [of 0 "length xs" xs] by simp
  ultimately show ?thesis by (simp add: js_values_def read_to_end)
qed

end
