(* ===== verification/AsyncDelegator.thy ===== *)
theory AsyncDelegator
  imports AsyncGenerator Iteration
begin

text \<open>
  The helpers \<open>__asyncDelegator\<close> and \<open>__asyncValues\<close> that the TypeScript compiler in \<open>tsWorker.js\<close> emits for
  \<open>yield*\<close> in an \<open>async function*\<close> and for \<open>for await\<close> (lines 103 to 114). The methods of the object delegated to
  return promises, whose settling is a parameter; a result of an iterator is a value, of which \<open>done\<close> and
  \<open>value\<close> are read.
\<close>

section \<open>\<open>__asyncDelegator\<close>\<close>

text \<open>
  What a method of the delegator does: it returns a result that holds an \<open>__await\<close> of the promise of
  \<open>o[n](v)\<close>, or its argument; or it throws.
\<close>

datatype 'v delegator_reply = AwaitsCall verb 'v | GivesBack 'v | Throws 'v

text \<open>
  \<open>has n\<close>: the object delegated to has a method \<open>n\<close>. Without one, the method of the delegator is the second
  argument of \<open>verb\<close>, a function that throws for \<open>throw\<close> and undefined for the others (\<open>None\<close>).
\<close>

definition verb_fallback :: "verb \<Rightarrow> ('v \<Rightarrow> 'v delegator_reply) option" where
  "verb_fallback n = (if n = VThrow then Some Throws else None)"

definition delegator_method :: "(verb \<Rightarrow> bool) \<Rightarrow> verb \<Rightarrow> (bool \<Rightarrow> 'v \<Rightarrow> bool \<times> 'v delegator_reply) option" where
  "delegator_method has n =
     (if has n then Some (\<lambda>p v.
        let p = (\<not> p) in
        if p then (p, AwaitsCall n v)
        else (p, case verb_fallback n of Some f \<Rightarrow> f v | None \<Rightarrow> GivesBack v))
      else map_option (\<lambda>f p v. (p, f v)) (verb_fallback n))"

section \<open>\<open>yield*\<close> over the delegator\<close>

text \<open>
  What becomes of a request while a \<open>yield*\<close> is under way: the generator yields a value; the \<open>yield*\<close> ends with
  a value, and the body goes on; the body returns; or it throws.
\<close>

datatype 'v completion = Yields 'v | Ends 'v | Returns 'v | Raises 'v

definition object_result :: "('v \<Rightarrow> bool) \<Rightarrow> ('v \<Rightarrow> 'v) \<Rightarrow> verb \<Rightarrow> 'v \<Rightarrow> 'v completion" where
  "object_result dn val n r =
     (if dn r then (if n = VReturn then Returns (val r) else Ends (val r)) else Yields (val r))"

text \<open>
  One call of \<open>yield*\<close> on the object \<open>i\<close> that the helper made. A method \<open>return\<close> that is missing lets the body
  return. \<open>Inl\<close>: the result holds an \<open>__await\<close>.
\<close>

definition yield_star_call ::
  "('v \<Rightarrow> bool) \<Rightarrow> ('v \<Rightarrow> 'v) \<Rightarrow> (verb \<Rightarrow> bool) \<Rightarrow> bool \<Rightarrow> verb \<Rightarrow> 'v \<Rightarrow> bool \<times> (verb \<times> 'v + 'v completion)" where
  "yield_star_call dn val has p n v =
     (case delegator_method has n of
        None \<Rightarrow> (p, Inr (Returns v))
      | Some m \<Rightarrow>
          (case m p v of
             (p, AwaitsCall k w) \<Rightarrow> (p, Inl (k, w))
           | (p, GivesBack r) \<Rightarrow> (p, Inr (object_result dn val n r))
           | (p, Throws e) \<Rightarrow> (p, Inr (Raises e))))"

text \<open>
  A request: the helper \<open>__asyncGenerator\<close> waits for the promise that the result holds and resumes the
  generator with \<open>next\<close> or \<open>throw\<close>. \<open>call\<close> says how the promise of \<open>o[n](v)\<close> is settled.
\<close>

definition delegated_request ::
  "('v \<Rightarrow> bool) \<Rightarrow> ('v \<Rightarrow> 'v) \<Rightarrow> (verb \<Rightarrow> bool) \<Rightarrow> (verb \<Rightarrow> 'v \<Rightarrow> 'v + 'v) \<Rightarrow> bool \<Rightarrow> verb \<Rightarrow> 'v \<Rightarrow> (bool \<times> 'v completion) option" where
  "delegated_request dn val has call p n v =
     (case yield_star_call dn val has p n v of
        (p, Inr c) \<Rightarrow> Some (p, c)
      | (p, Inl (k, w)) \<Rightarrow>
          (case (case call k w of
                   Inr r \<Rightarrow> yield_star_call dn val has p VNext r
                 | Inl e \<Rightarrow> yield_star_call dn val has p VThrow e) of
             (p, Inr c) \<Rightarrow> Some (p, c)
           | (p, Inl _) \<Rightarrow> None))"

text \<open>The requests of a consumer, with how each is answered by the object, while the \<open>yield*\<close> is under way.\<close>

fun delegated_requests ::
  "('v \<Rightarrow> bool) \<Rightarrow> ('v \<Rightarrow> 'v) \<Rightarrow> (verb \<Rightarrow> bool) \<Rightarrow> bool \<Rightarrow> (verb \<times> 'v \<times> ('v + 'v)) list \<Rightarrow> 'v completion list option" where
  "delegated_requests dn val has p [] = Some []"
| "delegated_requests dn val has p ((n, v, a) # rs) =
     (case delegated_request dn val has (\<lambda>_ _. a) p n v of
        None \<Rightarrow> None
      | Some (p, Yields x) \<Rightarrow> map_option (\<lambda>cs. Yields x # cs) (delegated_requests dn val has p rs)
      | Some (p, c) \<Rightarrow> Some [c])"

section \<open>\<open>yield*\<close> of the language\<close>

text \<open>
  The reference: \<open>yield*\<close> of an async generator, which awaits the promise of the method itself. Without a
  method \<open>throw\<close> it closes the object and throws a \<open>TypeError\<close>.
\<close>

definition yield_star :: "('v \<Rightarrow> bool) \<Rightarrow> ('v \<Rightarrow> 'v) \<Rightarrow> 'v \<Rightarrow> (verb \<Rightarrow> bool) \<Rightarrow> verb \<Rightarrow> 'v \<Rightarrow> 'v + 'v \<Rightarrow> 'v completion" where
  "yield_star dn val type_error has n v a =
     (if has n then (case a of Inl e \<Rightarrow> Raises e | Inr r \<Rightarrow> object_result dn val n r)
      else if n = VThrow then Raises type_error else Returns v)"

fun yield_stars ::
  "('v \<Rightarrow> bool) \<Rightarrow> ('v \<Rightarrow> 'v) \<Rightarrow> 'v \<Rightarrow> (verb \<Rightarrow> bool) \<Rightarrow> (verb \<times> 'v \<times> ('v + 'v)) list \<Rightarrow> 'v completion list" where
  "yield_stars dn val te has [] = []"
| "yield_stars dn val te has ((n, v, a) # rs) =
     (case yield_star dn val te has n v a of
        Yields x \<Rightarrow> Yields x # yield_stars dn val te has rs
      | c \<Rightarrow> [c])"

section \<open>Where they agree\<close>

lemma delegated_request_next_throw:
  assumes "has VNext" "n \<noteq> VReturn" "has n"
  shows "delegated_request dn val has call False n v =
    Some (case call n v of Inl e \<Rightarrow> (\<not> has VThrow, Raises e) | Inr r \<Rightarrow> (False, object_result dn val VNext r))"
  using assms
  by (cases n) (auto simp: delegated_request_def yield_star_call_def delegator_method_def verb_fallback_def
      split: sum.split)

lemma delegated_request_return:
  assumes "has VNext" "has VReturn"
  shows "delegated_request dn val has call False VReturn v =
    Some (case call VReturn v of Inl e \<Rightarrow> (\<not> has VThrow, Raises e) | Inr r \<Rightarrow> (False, object_result dn val VNext r))"
  using assms
  by (auto simp: delegated_request_def yield_star_call_def delegator_method_def verb_fallback_def split: sum.split)

lemma delegated_request_missing:
  "\<not> has n \<Longrightarrow> n \<noteq> VThrow \<Longrightarrow> delegated_request dn val has call p n v = Some (p, Returns v)"
  "\<not> has VThrow \<Longrightarrow> delegated_request dn val has call p VThrow v = Some (p, Raises v)"
  by (simp_all add: delegated_request_def yield_star_call_def delegator_method_def verb_fallback_def)

text \<open>The two cases in which they differ: a \<open>return\<close> that ends the object, and a \<open>throw\<close> it has no method for.\<close>

definition differs :: "('v \<Rightarrow> bool) \<Rightarrow> (verb \<Rightarrow> bool) \<Rightarrow> verb \<times> 'v \<times> ('v + 'v) \<Rightarrow> bool" where
  "differs dn has q =
     (case q of (n, v, a) \<Rightarrow>
        if n = VReturn \<and> has n then (case a of Inl e \<Rightarrow> False | Inr r \<Rightarrow> dn r) else n = VThrow \<and> \<not> has n)"

lemma delegated_request_agrees:
  assumes "has VNext" "\<not> differs dn has (n, v, a)"
  shows "\<exists>p. delegated_request dn val has (\<lambda>_ _. a) False n v = Some (p, yield_star dn val te has n v a) \<and>
    (p \<longrightarrow> (\<exists>e. yield_star dn val te has n v a = Raises e))"
proof (cases "has n")
  case True
  show ?thesis
  proof (cases "n = VReturn")
    case ret: True
    then show ?thesis using assms True delegated_request_return [of has dn val "\<lambda>_ _. a" v]
      by (cases a) (auto simp: yield_star_def differs_def object_result_def)
  next
    case False
    then show ?thesis using assms True delegated_request_next_throw [of has n dn val "\<lambda>_ _. a" v]
      by (cases a) (auto simp: yield_star_def object_result_def)
  qed
next
  case False
  then show ?thesis using assms delegated_request_missing(1) [of has n dn val "\<lambda>_ _. a" False v]
    by (auto simp: yield_star_def differs_def)
qed

text \<open>
  C29. A consumer that sends any requests through a \<open>yield*\<close> that the compiler has lowered gets, for each, what
  \<open>yield*\<close> of the language would give, and no result is taken for a promise or the other way round, as
  long as no request is a \<open>return\<close> that ends the object or a \<open>throw\<close> that it has no method for.
\<close>

theorem delegation_agrees:
  assumes "has VNext" "list_all (\<lambda>q. \<not> differs dn has q) rs"
  shows "delegated_requests dn val has False rs = Some (yield_stars dn val te has rs)"
  using assms(2)
proof (induction rs)
  case (Cons q rs)
  obtain n v a where q: "q = (n, v, a)" by (cases q)
  obtain p where p: "delegated_request dn val has (\<lambda>_ _. a) False n v = Some (p, yield_star dn val te has n v a)"
    "p \<longrightarrow> (\<exists>e. yield_star dn val te has n v a = Raises e)"
    using delegated_request_agrees [where has = has, OF assms(1), of dn n v a val te] Cons.prems q by auto
  then show ?case using Cons by (cases "yield_star dn val te has n v a") (simp_all add: q)
qed simp

text \<open>
  In the two other cases they do differ: after a \<open>return\<close> that ends the object the body goes on behind the
  \<open>yield*\<close> instead of returning, and a \<open>throw\<close> without a method throws the argument and leaves the object
  open.
\<close>

theorem delegation_differs:
  assumes "has VNext" "differs dn has (n, v, a)"
  shows "delegated_request dn val has (\<lambda>_ _. a) False n v =
    Some (False, case n of VThrow \<Rightarrow> Raises v | _ \<Rightarrow> (case a of Inl e \<Rightarrow> Raises e | Inr r \<Rightarrow> Ends (val r)))"
proof (cases "n = VReturn")
  case True
  then show ?thesis using assms delegated_request_return [of has dn val "\<lambda>_ _. a" v]
    by (cases a) (auto simp: differs_def object_result_def split: if_splits)
next
  case False
  then have "n = VThrow" "\<not> has VThrow" using assms(2) by (auto simp: differs_def)
  then show ?thesis using delegated_request_missing(2) [of has dn val "\<lambda>_ _. a" False v] by simp
qed

section \<open>\<open>__asyncValues\<close>\<close>

text \<open>
  An object with an iterator of its own kind is taken as it is; of another the method \<open>next\<close> of its iterator
  is called in a promise, which is rejected if that throws, and otherwise settled as the value is.
\<close>

datatype ('a, 'i) async_iteratee = Async_Iterable 'a | Sync_Iterable 'i

definition async_values_next ::
  "('p \<Rightarrow> 'v + 'v) \<Rightarrow> ('v \<Rightarrow> bool \<Rightarrow> 'v) \<Rightarrow> 'v \<Rightarrow> ('s, 'p, 'v) iterator \<Rightarrow> 's \<Rightarrow> 's \<times> ('v + 'v)" where
  "async_values_next settle mk undef it s =
     (case it_next it s of
        (s, Inl e) \<Rightarrow> (s, Inl e)
      | (s, Inr None) \<Rightarrow> (s, Inr (mk undef True))
      | (s, Inr (Some q)) \<Rightarrow> (s, case settle q of Inr x \<Rightarrow> Inr (mk x False) | Inl e \<Rightarrow> Inl e))"

definition async_values ::
  "('p \<Rightarrow> 'v + 'v) \<Rightarrow> ('v \<Rightarrow> bool \<Rightarrow> 'v) \<Rightarrow> 'v \<Rightarrow> ('s \<Rightarrow> 's \<times> ('v + 'v), ('s, 'p, 'v) iterator) async_iteratee \<Rightarrow>
   's \<Rightarrow> 's \<times> ('v + 'v)" where
  "async_values settle mk undef x = (case x of
     Async_Iterable m \<Rightarrow> m | Sync_Iterable it \<Rightarrow> async_values_next settle mk undef it)"

text \<open>The methods of the object made of an iterator: \<open>next\<close>, and \<open>return\<close> if the iterator has it.\<close>

definition async_values_has :: "('s, 'p, 'v) iterator \<Rightarrow> verb \<Rightarrow> bool" where
  "async_values_has it n = (case n of VNext \<Rightarrow> True | VThrow \<Rightarrow> False | VReturn \<Rightarrow> it_return it \<noteq> None)"

text \<open>What the first calls of \<open>next\<close> give.\<close>

fun async_nexts :: "('s \<Rightarrow> 's \<times> 'r) \<Rightarrow> nat \<Rightarrow> 's \<Rightarrow> 'r list" where
  "async_nexts f 0 s = []"
| "async_nexts f (Suc k) s = (case f s of (s, r) \<Rightarrow> r # async_nexts f k s)"

section \<open>An array of promises\<close>

lemma array_of_promises:
  assumes "i \<le> length ps"
  shows "async_nexts (async_values settle mk undef (Sync_Iterable array_values)) (Suc (length ps - i)) (Some ps, i) =
    map (\<lambda>q. case settle q of Inr x \<Rightarrow> Inr (mk x False) | Inl e \<Rightarrow> Inl e) (drop i ps) @ [Inr (mk undef True)]"
  using assms
proof (induction "length ps - i" arbitrary: i)
  case 0
  then show ?case by (simp add: async_values_def async_values_next_def array_values_def values_next_def)
next
  case (Suc k)
  have "drop i ps = ps ! i # drop (Suc i) ps" using Suc(2,3) by (intro Cons_nth_drop_Suc [symmetric]) simp
  moreover have "async_values settle mk undef (Sync_Iterable array_values) (Some ps, i) =
      ((Some ps, Suc i), case settle (ps ! i) of Inr x \<Rightarrow> Inr (mk x False) | Inl e \<Rightarrow> Inl e)"
    using Suc(2) by (simp add: async_values_def async_values_next_def array_values_def values_next_def)
  moreover have "Suc (length ps - i) = Suc (Suc (length ps - Suc i))" using Suc(2) by simp
  ultimately show ?case using Suc(1) [of "Suc i"] Suc(2,3) by simp
qed

fun until_rejected :: "'v \<Rightarrow> ('v + 'v) list \<Rightarrow> 'v completion list" where
  "until_rejected undef [] = [Ends undef]"
| "until_rejected undef (Inr x # xs) = Yields x # until_rejected undef xs"
| "until_rejected undef (Inl e # xs) = [Raises e]"

text \<open>
  A \<open>yield*\<close> over an array of promises, with both helpers and \<open>__values\<close>: a consumer that only asks for the
  next value gets the values of the promises in their order, and then the end; or, at the first promise
  that is rejected, its error.
\<close>

theorem promises_delegated:
  fixes ps :: "'p list" and undef :: 'v
  assumes "\<And>x b. dn (mk x b) = b" "\<And>x b. val (mk x b) = x"
  shows "delegated_requests dn val (async_values_has (array_values :: ('p list option \<times> nat, 'p, 'v) iterator)) False
      (map (\<lambda>a. (VNext, undef, a))
        (async_nexts (async_values settle mk undef (Sync_Iterable array_values)) (Suc (length ps)) (Some ps, 0))) =
    Some (until_rejected undef (map settle ps))"
proof -
  let ?has = "async_values_has (array_values :: ('p list option \<times> nat, 'p, 'v) iterator)"
  let ?q = "\<lambda>q. case settle q of Inr x \<Rightarrow> Inr (mk x False) | Inl e \<Rightarrow> Inl e"
  have has: "?has VNext" "\<not> ?has VThrow" by (simp_all add: async_values_has_def)
  have one: "delegated_request dn val ?has (\<lambda>_ _. a) False VNext undef =
      Some (case a of Inl e \<Rightarrow> (True, Raises e) | Inr r \<Rightarrow> (False, object_result dn val VNext r))" for a
    using delegated_request_next_throw [of ?has VNext dn val "\<lambda>_ _. a" undef] has
    by (cases a) simp_all
  have "delegated_requests dn val ?has False (map (\<lambda>a. (VNext, undef, a)) (map ?q qs @ [Inr (mk undef True)])) =
      Some (until_rejected undef (map settle qs))" for qs
  proof (induction qs)
    case Nil
    show ?case by (simp add: one object_result_def assms)
  next
    case (Cons q qs)
    then show ?case by (cases "settle q") (simp_all add: one object_result_def assms)
  qed
  then show ?thesis using array_of_promises [of 0 ps settle mk undef] by simp
qed

section \<open>Examples for the theorems\<close>

text \<open>Values that are numbers or results.\<close>

datatype example_value = Num nat | Res example_value bool

fun ex_done :: "example_value \<Rightarrow> bool" where
  "ex_done (Res x b) = b"
| "ex_done (Num n) = False"

fun ex_value :: "example_value \<Rightarrow> example_value" where
  "ex_value (Res x b) = x"
| "ex_value (Num n) = Num 0"

theorem delegation_agrees_witness:
  "delegated_requests ex_done ex_value (\<lambda>n. n \<noteq> VThrow) False
     [(VNext, Num 0, Inr (Res (Num 1) False)), (VReturn, Num 2, Inr (Res (Num 3) False)), (VNext, Num 0, Inl (Num 4))] =
   Some [Yields (Num 1), Yields (Num 3), Raises (Num 4)]"
  using delegation_agrees [of "\<lambda>n. n \<noteq> VThrow" ex_done
      "[(VNext, Num 0, Inr (Res (Num 1) False)), (VReturn, Num 2, Inr (Res (Num 3) False)), (VNext, Num 0, Inl (Num 4))]"
      ex_value "Num 9"]
  by (simp add: differs_def yield_star_def object_result_def)

theorem delegation_differs_witness:
  "delegated_request ex_done ex_value (\<lambda>n. True) (\<lambda>_ _. Inr (Res (Num 3) True)) False VReturn (Num 2) =
   Some (False, Ends (Num 3))"
  using delegation_differs [of "\<lambda>n. True" ex_done VReturn "Num 2" "Inr (Res (Num 3) True)" ex_value]
  by (simp add: differs_def)

theorem promises_delegated_witness:
  "delegated_requests ex_done ex_value (async_values_has (array_values :: (nat list option \<times> nat, nat, example_value) iterator)) False
     (map (\<lambda>a. (VNext, Num 0, a))
       (async_nexts (async_values (\<lambda>n. if n = 5 then Inl (Num 6) else Inr (Num n)) Res (Num 0)
         (Sync_Iterable array_values)) 4 (Some [1 :: nat, 5, 2], 0))) =
   Some [Yields (Num 1), Raises (Num 6)]"
  using promises_delegated [of ex_done Res ex_value "Num 0" "\<lambda>n. if n = 5 then Inl (Num 6) else Inr (Num n)" "[1, 5, 2]"]
  by (simp add: numeral_nat del: async_nexts.simps)

end
