(* ===== verification/Awaiter.thy ===== *)
theory Awaiter
  imports Generator
begin

text \<open>
  The helper \<open>__awaiter\<close> that the TypeScript compiler in \<open>tsWorker.js\<close> emits for \<open>async\<close> functions (lines 126 to
  134), over the generators of \<open>__generator\<close>: what the generator yields is adopted as a promise, and the
  settling of that promise, an event, resumes the generator.
\<close>

section \<open>The promise of an \<open>async\<close> function\<close>

text \<open>Waiting for an adopted value, resolved or rejected; \<open>None\<close> in the functions below: the body does not return.\<close>

datatype 'v async_promise = WaitsFor 'v | Resolved 'v | Rejected 'v

record ('s, 'v, 'd) async_call =
  world :: 's
  machine :: "('v, 'd) gen"
  promise :: "'v async_promise"

text \<open>\<open>step\<close>, in a \<open>try\<close> that rejects the promise: in \<open>fulfilled\<close>, in \<open>rejected\<close> and at the start.\<close>

definition await_step ::
  "('s, 'v, 'd) code \<Rightarrow> 's \<times> ('v, 'd) gen \<times> 'v outcome \<Rightarrow> ('s, 'v, 'd) async_call" where
  "await_step c r = (case r of (s, g, res) \<Rightarrow> \<lparr>world = s, machine = g, promise = (case res of
       Yielded p \<Rightarrow> WaitsFor p | Finished v \<Rightarrow> Resolved v | Thrown e \<Rightarrow> Rejected e
     | AlreadyExecuting \<Rightarrow> Rejected (type_error c))\<rparr>)"

definition js_awaiter :: "('s, 'v, 'd) code \<Rightarrow> 's \<Rightarrow> ('s, 'v, 'd) async_call option" where
  "js_awaiter c s = map_option (await_step c) (gen_step c s js_generator (Next (undef c)))"

text \<open>The promise waited for is fulfilled with a value or rejected with an error.\<close>

datatype 'v settlement = Fulfilled 'v | Failed 'v

definition settled :: "('s, 'v, 'd) code \<Rightarrow> 'v settlement \<Rightarrow> ('s, 'v, 'd) async_call \<Rightarrow> ('s, 'v, 'd) async_call option" where
  "settled c ev a = (case promise a of
       WaitsFor _ \<Rightarrow> map_option (await_step c)
         (gen_step c (world a) (machine a) (case ev of Fulfilled v \<Rightarrow> Next v | Failed e \<Rightarrow> Throw e))
     | _ \<Rightarrow> Some a)"

fun settle_all :: "('s, 'v, 'd) code \<Rightarrow> 'v settlement list \<Rightarrow> ('s, 'v, 'd) async_call option \<Rightarrow> ('s, 'v, 'd) async_call option" where
  "settle_all c [] a = a"
| "settle_all c (ev # evs) a = settle_all c evs (case a of None \<Rightarrow> None | Some a \<Rightarrow> settled c ev a)"

section \<open>What becomes of the promise\<close>

definition call_of :: "'v settlement \<Rightarrow> ('v, 'd) op" where
  "call_of ev = (case ev of Fulfilled v \<Rightarrow> Next v | Failed e \<Rightarrow> Throw e)"

definition yields_value :: "'v outcome \<Rightarrow> bool" where
  "yields_value r = (case r of Yielded _ \<Rightarrow> True | _ \<Rightarrow> False)"

lemma settled_waiting:
  "promise a = WaitsFor p \<Longrightarrow>
    settled c ev a = map_option (await_step c) (gen_step c (world a) (machine a) (call_of ev))"
  by (simp add: settled_def call_of_def)

lemma await_step_simps [simp]:
  "world (await_step c (s, g, r)) = s" "machine (await_step c (s, g, r)) = g"
  "promise (await_step c (s, g, Yielded p)) = WaitsFor p"
  by (simp_all add: await_step_def)

lemma settle_over: "(case promise a of WaitsFor _ \<Rightarrow> False | _ \<Rightarrow> True) \<Longrightarrow> settle_all c evs (Some a) = Some a"
  by (induction evs) (auto simp: settled_def split: async_promise.splits)

lemma ended_over: "\<not> yields_value r \<Longrightarrow> settle_all c evs (Some (await_step c (s, g, r))) = Some (await_step c (s, g, r))"
  by (rule settle_over) (auto simp: yields_value_def await_step_def split: outcome.splits)

lemma settle_resume:
  "promise a = WaitsFor p \<Longrightarrow> \<not> yields_value r \<Longrightarrow>
    resume_all c (world a) (machine a) (map call_of evs) = Some (s, g, map Yielded ps @ [r]) \<Longrightarrow>
    settle_all c (evs @ rest) (Some a) = Some (await_step c (s, g, r))"
proof (induction evs arbitrary: a p ps)
  case (Cons ev evs)
  obtain t h q rs where q: "gen_step c (world a) (machine a) (call_of ev) = Some (t, h, q)"
    "resume_all c t h (map call_of evs) = Some (s, g, rs)" "q # rs = map Yielded ps @ [r]"
    using Cons.prems(3) by (auto split: option.splits)
  have a: "settled c ev a = Some (await_step c (t, h, q))"
    using Cons.prems(1) q(1) by (simp add: settled_waiting)
  show ?case
  proof (cases ps)
    case Nil
    then have "rs = []" and "q = r"
      using q(3) by simp_all
    moreover from this have "evs = []"
      using q(2) by (cases evs) (auto split: option.splits)
    ultimately show ?thesis
      using a q(2) Cons.prems(2) by (simp add: ended_over)
  next
    case (Cons x ps')
    then have "q = Yielded x" and "rs = map Yielded ps' @ [r]"
      using q(3) by simp_all
    then show ?thesis
      using a q(2) Cons.IH [of "await_step c (t, h, q)" x ps'] Cons.prems(2) by simp
  qed
qed simp

lemma awaiter_runs:
  assumes "resume_all c s js_generator (Next (undef c) # map call_of evs) = Some (t, g, map Yielded ps @ [r])"
    and "\<not> yields_value r"
  shows "settle_all c (evs @ rest) (js_awaiter c s) = Some (await_step c (t, g, r))"
proof -
  obtain u h q rs where q: "gen_step c s js_generator (Next (undef c)) = Some (u, h, q)"
    "resume_all c u h (map call_of evs) = Some (t, g, rs)" "q # rs = map Yielded ps @ [r]"
    using assms(1) by (auto split: option.splits)
  have a: "js_awaiter c s = Some (await_step c (u, h, q))"
    using q(1) by (simp add: js_awaiter_def)
  show ?thesis
  proof (cases ps)
    case Nil
    then have "rs = []" and "q = r"
      using q(3) by simp_all
    moreover from this have "evs = []"
      using q(2) by (cases evs) (auto split: option.splits)
    ultimately show ?thesis
      using a q(2) assms(2) by (simp add: ended_over)
  next
    case (Cons x ps')
    then show ?thesis
      using a q settle_resume [of "await_step c (u, h, q)" x r c evs t g ps'] assms(2) by simp
  qed
qed

text \<open>The promise of an \<open>async\<close> function is settled by what the generator does when it is resumed with the
  outcomes of the promises it yields, in their order: with its result when it ends, its error when it throws;
  whatever is settled later changes nothing.\<close>

theorem awaiter_follows_generator:
  assumes "resume_all c s js_generator (Next (undef c) # map call_of evs) = Some (t, g, map Yielded ps @ [r])"
    and "\<not> yields_value r"
  shows "settle_all c (evs @ rest) (js_awaiter c s) = Some (await_step c (t, g, r))"
  by (rule awaiter_runs [OF assms])

text \<open>An \<open>async\<close> function that awaits in a \<open>try\<close> runs its \<open>finally\<close> block once before its promise is settled:
  resolved when all that it awaits is fulfilled, rejected with the first error otherwise.\<close>

theorem async_finally:
  assumes "length vs < length xs" and "case ev of Fulfilled _ \<Rightarrow> Suc (length vs) = length xs | Failed _ \<Rightarrow> True"
  shows "map_option (\<lambda>a. (world a, promise a))
      (settle_all (try_code u te xs note) (map Fulfilled vs @ ev # rest) (js_awaiter (try_code u te xs note :: ('s, 'v, 'd) code) s)) =
    Some (note s, case ev of Fulfilled _ \<Rightarrow> Resolved u | Failed e \<Rightarrow> Rejected e)"
proof -
  let ?c = "try_code u te xs note :: ('s, 'v, 'd) code" and ?op = "call_of ev :: ('v, 'd) op"
  have "leaves_try xs (Suc (length vs)) ?op"
    using assms(2) by (simp add: leaves_try_def call_of_def split: settlement.splits)
  then obtain g where "resume_all ?c s (in_try xs 1) (map Next vs @ [?op]) =
      Some (note s, g, map Yielded (take (length vs) (drop 1 xs)) @ [finish ?c ?op])"
    using try_rest [of 1 vs xs ?op u te "note" s "[]"] assms(1) by auto
  moreover have "xs \<noteq> []"
    using assms(1) by auto
  ultimately have "resume_all ?c s js_generator (Next (undef ?c) # map call_of (map Fulfilled vs @ [ev])) =
      Some (note s, g, map Yielded (xs ! 0 # take (length vs) (drop 1 xs)) @ [finish ?c ?op])"
    by (simp add: try_first comp_def call_of_def [of "Fulfilled _"])
  from awaiter_runs [OF this, of rest] show ?thesis
    by (simp add: await_step_def finish_def call_of_def yields_value_def try_code_def split: settlement.splits)
qed

theorem async_finally_witness:
  "map_option (\<lambda>a. (world a, promise a))
      (settle_all (try_code 0 99 [7, 8] Suc) [Fulfilled 1, Failed 5] (js_awaiter (try_code 0 99 [7, 8] Suc :: (nat, nat, unit) code) 0)) =
    Some (1, Rejected 5)"
  using async_finally [of "[1]" "[7, 8 :: nat]" "Failed 5" 0 99 Suc "[]" 0] by (simp del: settle_all.simps)

theorem awaiter_follows_generator_witness:
  "settle_all (try_code 0 99 [7] Suc) [Failed 5] (js_awaiter (try_code 0 99 [7] Suc :: (nat, nat, unit) code) 0) =
    Some (await_step (try_code 0 99 [7] Suc) (1, ended (in_try [7] 1), Thrown 5))"
proof -
  let ?c = "try_code 0 99 [7] Suc :: (nat, nat, unit) code"
  have "resume_all ?c 0 js_generator (Next (undef ?c) # map call_of [Failed 5]) =
      Some (1, ended (in_try [7] 1), map Yielded [7] @ [Thrown 5])"
    by (simp add: try_first try_leaves call_of_def leaves_try_def finish_def)
  from awaiter_follows_generator [OF this, of "[]"] show ?thesis
    by (simp add: yields_value_def)
qed

end
