(* ===== verification/ClassHelpers.thy ===== *)
theory ClassHelpers
  imports Prelude
begin

text \<open>
  The helpers for classes and for tagged templates that the TypeScript compiler in \<open>tsWorker.js\<close> emits:
  \<open>__extends\<close> (lines 135 to 150), \<open>__makeTemplateObject\<close> (151 to 154), \<open>__propKey\<close> (180 to 182) and
  \<open>__setFunctionName\<close> (183 to 186). Objects live in a heap, with their prototypes; their properties hold values
  that can be written, no accessors.
\<close>

section \<open>Objects and prototypes\<close>

datatype cvalue = VUndef | VNull | VText string | VObject nat

record cobject =
  proto :: "nat option"
  is_function :: bool
  props :: "(string \<times> cvalue) list"    \<comment> \<open>own properties in their order, all enumerable but \<open>prototype\<close>\<close>

record cheap =
  objects :: "cobject list"             \<comment> \<open>an object is its position\<close>
  object_prototype :: nat               \<comment> \<open>\<open>Object.prototype\<close>\<close>

definition proto_of :: "cheap \<Rightarrow> nat \<Rightarrow> nat option" where
  "proto_of h a = (if a < length (objects h) then proto (objects h ! a) else None)"

definition own_prop :: "cheap \<Rightarrow> nat \<Rightarrow> string \<Rightarrow> cvalue option" where
  "own_prop h a k = (if a < length (objects h) then map_of (props (objects h ! a)) k else None)"

text \<open>\<open>o[k]\<close>; along prototypes that come back to the start it would not return.\<close>

partial_function (option) get_member :: "cheap \<Rightarrow> nat \<Rightarrow> string \<Rightarrow> cvalue option" where
  "get_member h a k = (case own_prop h a k of
       Some v \<Rightarrow> Some v
     | None \<Rightarrow> (case proto_of h a of None \<Rightarrow> Some VUndef | Some b \<Rightarrow> get_member h b k))"

text \<open>An assignment of an own property, in its place or as a new one.\<close>

fun put_prop :: "string \<Rightarrow> cvalue \<Rightarrow> (string \<times> cvalue) list \<Rightarrow> (string \<times> cvalue) list" where
  "put_prop k v [] = [(k, v)]"
| "put_prop k v ((k', w) # ps) = (if k' = k then (k, v) # ps else (k', w) # put_prop k v ps)"

definition set_member :: "nat \<Rightarrow> string \<Rightarrow> cvalue \<Rightarrow> cheap \<Rightarrow> cheap" where
  "set_member a k v h =
     h\<lparr>objects := (objects h)[a := (objects h ! a)\<lparr>props := put_prop k v (props (objects h ! a))\<rparr>]\<rparr>"

definition set_proto :: "nat \<Rightarrow> nat option \<Rightarrow> cheap \<Rightarrow> cheap" where
  "set_proto a p h = h\<lparr>objects := (objects h)[a := (objects h ! a)\<lparr>proto := p\<rparr>]\<rparr>"

definition new_object :: "nat option \<Rightarrow> cheap \<Rightarrow> nat \<times> cheap" where
  "new_object p h = (length (objects h),
     h\<lparr>objects := objects h @ [\<lparr>proto = p, is_function = False, props = []\<rparr>]\<rparr>)"

section \<open>\<open>__extends\<close>\<close>

datatype class_error = Not_A_Constructor | Cyclic_Prototype

text \<open>
  \<open>Object.setPrototypeOf\<close> refuses a prototype that has the object among its own; one step more than there
  are objects sees all of them.
\<close>

fun on_chain :: "nat \<Rightarrow> cheap \<Rightarrow> nat \<Rightarrow> nat \<Rightarrow> bool" where
  "on_chain 0 h d b = False"
| "on_chain (Suc n) h d b = (b = d \<or> (case proto_of h b of None \<Rightarrow> False | Some c \<Rightarrow> on_chain n h d c))"

definition setPrototypeOf :: "nat \<Rightarrow> nat option \<Rightarrow> cheap \<Rightarrow> class_error + cheap" where
  "setPrototypeOf d b h = (case b of
       None \<Rightarrow> Inr (set_proto d None h)
     | Some a \<Rightarrow> if on_chain (Suc (length (objects h))) h d a then Inl Cyclic_Prototype else Inr (set_proto d (Some a) h))"

text \<open>
  What the host offers decides what \<open>extendStatics\<close> becomes on its first call: the function itself, an
  assignment of \<open>__proto__\<close>, which does the same, or a loop that copies.
\<close>

datatype host_statics = Has_SetPrototypeOf | Has_Proto | Copies

fun copy_statics :: "nat \<Rightarrow> nat \<Rightarrow> string list \<Rightarrow> cheap \<Rightarrow> cheap" where
  "copy_statics d b [] h = h"
| "copy_statics d b (p # ps) h = copy_statics d b ps
     (if p = ''prototype'' then h
      else (case own_prop h b p of None \<Rightarrow> h | Some v \<Rightarrow> set_member d p v h))"

definition extendStatics :: "host_statics \<Rightarrow> nat \<Rightarrow> nat option \<Rightarrow> cheap \<Rightarrow> class_error + cheap" where
  "extendStatics host d b h = (case host of
       Has_SetPrototypeOf \<Rightarrow> setPrototypeOf d b h
     | Has_Proto \<Rightarrow> setPrototypeOf d b h
     | Copies \<Rightarrow> Inr (case b of None \<Rightarrow> h | Some a \<Rightarrow> copy_statics d a (map fst (props (objects h ! a))) h))"

text \<open>\<open>new __()\<close>: an object whose prototype is \<open>b.prototype\<close>, or \<open>Object.prototype\<close> if that is no object.\<close>

definition link_proto :: "cheap \<Rightarrow> cvalue \<Rightarrow> nat" where
  "link_proto h pv = (case pv of VObject q \<Rightarrow> q | _ \<Rightarrow> object_prototype h)"

definition new_link :: "nat \<Rightarrow> cvalue \<Rightarrow> cheap \<Rightarrow> nat \<times> cheap" where
  "new_link d pv h =
     (case new_object (Some (link_proto h pv)) h of
        (a, h) \<Rightarrow> (a, set_member a ''constructor'' (VObject d) h))"

definition js_extends :: "host_statics \<Rightarrow> nat \<Rightarrow> cvalue \<Rightarrow> cheap \<Rightarrow> (class_error + cheap) option" where
  "js_extends host d b h = (case b of
       VNull \<Rightarrow> (case extendStatics host d None h of
           Inl e \<Rightarrow> Some (Inl e)
         | Inr h \<Rightarrow> (case new_object None h of (a, h) \<Rightarrow> Some (Inr (set_member d ''prototype'' (VObject a) h))))
     | VObject c \<Rightarrow>
         if \<not> is_function (objects h ! c) then Some (Inl Not_A_Constructor)
         else (case extendStatics host d (Some c) h of
             Inl e \<Rightarrow> Some (Inl e)
           | Inr h \<Rightarrow> (case get_member h c ''prototype'' of
               None \<Rightarrow> None
             | Some pv \<Rightarrow> (case new_link d pv h of
                 (a, h) \<Rightarrow> Some (Inr (set_member d ''prototype'' (VObject a) h)))))
     | _ \<Rightarrow> Some (Inl Not_A_Constructor))"

section \<open>The other helpers\<close>

text \<open>The keys of computed members: a symbol stays, anything else becomes a text.\<close>

datatype 'y prop_key = Symbol 'y | Text string

definition propKey :: "('x \<Rightarrow> string) \<Rightarrow> ('x, 'y) sum \<Rightarrow> 'y prop_key" where
  "propKey to_text x = (case x of Inr y \<Rightarrow> Symbol y | Inl v \<Rightarrow> Text (to_text v))"

text \<open>The name of a function: of a symbol the description in brackets, then the prefix (\<open>get\<close>, \<open>set\<close>), if any.\<close>

definition function_name :: "('y \<Rightarrow> string option) \<Rightarrow> 'y prop_key \<Rightarrow> string option \<Rightarrow> string" where
  "function_name description name prefix =
     (let name = (case name of
            Symbol y \<Rightarrow> (case description y of
                Some (c # cs) \<Rightarrow> ''['' @ (c # cs) @ '']''
              | _ \<Rightarrow> [])
          | Text s \<Rightarrow> s)
      in case prefix of Some (p # ps) \<Rightarrow> (p # ps) @ '' '' @ name | _ \<Rightarrow> name)"

text \<open>The object of a tagged template: the array of the cooked texts, with those as written as its \<open>raw\<close>.\<close>

definition makeTemplateObject :: "nat \<Rightarrow> nat \<Rightarrow> cheap \<Rightarrow> nat \<times> cheap" where
  "makeTemplateObject cooked raw h = (cooked, set_member cooked ''raw'' (VObject raw) h)"

section \<open>Chains of prototypes\<close>

definition protos :: "cheap \<Rightarrow> (nat \<times> nat) set" where
  "protos h = {(a, b). proto_of h a = Some b}"

text \<open>A value that is an object is one of the heap.\<close>

fun value_ok :: "cheap \<Rightarrow> cvalue \<Rightarrow> bool" where
  "value_ok h (VObject a) = (a < length (objects h))"
| "value_ok h v = True"

lemma protos_subset: "protos h \<subseteq> (\<lambda>a. (a, the (proto_of h a))) ` {..<length (objects h)}"
  by (auto simp: protos_def proto_of_def split: if_splits)

lemma finite_protos: "finite (protos h)"
  by (rule finite_subset [OF protos_subset]) simp

lemma card_protos: "card (protos h) \<le> length (objects h)"
proof -
  have "card (protos h) \<le> card ((\<lambda>a. (a, the (proto_of h a))) ` {..<length (objects h)})"
    by (intro card_mono protos_subset) simp
  also have "\<dots> \<le> length (objects h)" using card_image_le [of "{..<length (objects h)}"] by auto
  finally show ?thesis .
qed

lemma on_chain_relpow: "on_chain n h d b \<longleftrightarrow> (\<exists>m<n. (b, d) \<in> protos h ^^ m)"
proof (induction n arbitrary: b)
  case (Suc n)
  have "(\<exists>m<Suc n. (b, d) \<in> protos h ^^ m) \<longleftrightarrow> b = d \<or> (\<exists>m<n. (b, d) \<in> protos h ^^ Suc m)"
    unfolding Ex_less_Suc2 by auto
  also have "\<dots> \<longleftrightarrow> b = d \<or> (\<exists>c. proto_of h b = Some c \<and> (\<exists>m<n. (c, d) \<in> protos h ^^ m))"
    unfolding relpow_commute [symmetric] relpow.simps by (auto simp: protos_def relcomp_unfold relpow_commute)
  finally show ?case using Suc.IH by (auto split: option.split)
qed simp

lemma on_chain_reaches: "on_chain (Suc (length (objects h))) h d b \<longleftrightarrow> (b, d) \<in> (protos h)\<^sup>*"
proof
  assume "(b, d) \<in> (protos h)\<^sup>*"
  then obtain m where "m \<le> card (protos h)" "(b, d) \<in> protos h ^^ m"
    using rtrancl_finite_eq_relpow [OF finite_protos] by auto
  then show "on_chain (Suc (length (objects h))) h d b"
    unfolding on_chain_relpow using card_protos [of h] by (intro exI [of _ m]) simp
qed (auto simp: on_chain_relpow dest: relpow_imp_rtrancl)

lemma get_member_ends: "acyclic (protos h) \<Longrightarrow> \<exists>v. get_member h a k = Some v"
proof -
  assume "acyclic (protos h)"
  then have "wf ((protos h)\<inverse>)" by (rule finite_acyclic_wf_converse [OF finite_protos])
  then show ?thesis
  proof (induction a rule: wf_induct_rule)
    case (less a)
    then show ?case
      by (subst get_member.simps) (auto simp: protos_def split: option.split)
  qed
qed

section \<open>What the operations change\<close>

lemma map_of_put_prop: "map_of (put_prop k v ps) j = (if j = k then Some v else map_of ps j)"
  by (induction k v ps rule: put_prop.induct) auto

lemma put_prop_values: "p \<in> set (put_prop k v ps) \<Longrightarrow> p = (k, v) \<or> p \<in> set ps"
  by (induction k v ps rule: put_prop.induct) (auto split: if_splits)

lemma length_objects [simp]:
  "length (objects (set_member a k v h)) = length (objects h)"
  "length (objects (set_proto a p h)) = length (objects h)"
  "object_prototype (set_member a k v h) = object_prototype h"
  "object_prototype (set_proto a p h) = object_prototype h"
  by (simp_all add: set_member_def set_proto_def)

lemma set_member_reads [simp]:
  "proto_of (set_member a k v h) b = proto_of h b"
  "own_prop (set_member a k v h) b j = (if b = a \<and> a < length (objects h) \<and> j = k then Some v else own_prop h b j)"
  "is_function (objects (set_member a k v h) ! b) = is_function (objects h ! b)"
  by (cases "b < length (objects h)"; cases "a < length (objects h)";
      auto simp: set_member_def proto_of_def own_prop_def nth_list_update map_of_put_prop list_update_beyond)+

lemma set_proto_reads [simp]:
  "proto_of (set_proto a p h) b = (if b = a \<and> a < length (objects h) then p else proto_of h b)"
  "own_prop (set_proto a p h) b j = own_prop h b j"
  "is_function (objects (set_proto a p h) ! b) = is_function (objects h ! b)"
  by (cases "b < length (objects h)"; cases "a < length (objects h)";
      auto simp: set_proto_def proto_of_def own_prop_def nth_list_update list_update_beyond)+

definition grown :: "nat option \<Rightarrow> cheap \<Rightarrow> cheap" where
  "grown p h = snd (new_object p h)"

lemma new_object_grown: "new_object p h = (length (objects h), grown p h)"
  by (simp add: grown_def new_object_def)

lemma grown_reads [simp]:
  "proto_of (grown p h) b = (if b = length (objects h) then p else proto_of h b)"
  "own_prop (grown p h) b j = own_prop h b j"
  "length (objects (grown p h)) = Suc (length (objects h))"
  "object_prototype (grown p h) = object_prototype h"
  by (auto simp: grown_def new_object_def proto_of_def own_prop_def nth_append less_Suc_eq)

lemma protos_changes:
  "protos (set_member a k v h) = protos h"
  "protos (set_proto a (Some b) h) \<subseteq> insert (a, b) (protos h)"
  "protos (set_proto a None h) \<subseteq> protos h"
  "protos (grown None h) \<subseteq> protos h"
  "protos (grown (Some q) h) \<subseteq> insert (length (objects h), q) (protos h)"
  by (auto simp: protos_def split: if_splits)

text \<open>The links of a heap stay within it, so that nothing leads to an object that is new.\<close>

definition links_ok :: "cheap \<Rightarrow> bool" where
  "links_ok h = (\<forall>a b. proto_of h a = Some b \<longrightarrow> b < length (objects h))"

definition values_ok :: "cheap \<Rightarrow> bool" where
  "values_ok h = (\<forall>a k b. own_prop h a k = Some (VObject b) \<longrightarrow> b < length (objects h))"

text \<open>Moreover no prototypes come back to their start.\<close>

definition sound :: "cheap \<Rightarrow> bool" where
  "sound h = (object_prototype h < length (objects h) \<and> links_ok h \<and> values_ok h \<and> acyclic (protos h))"

lemma sound_set_member: "sound h \<Longrightarrow> value_ok h v \<Longrightarrow> sound (set_member a k v h)"
  by (auto simp: sound_def links_ok_def values_ok_def protos_changes(1) split: if_splits)

lemma sound_setPrototypeOf:
  assumes "sound h" "setPrototypeOf d b h = Inr h'" "case b of None \<Rightarrow> True | Some c \<Rightarrow> c < length (objects h)"
  shows "sound h'" "h' = set_proto d b h"
proof -
  show h': "h' = set_proto d b h"
    using assms(2) by (auto simp: setPrototypeOf_def split: option.splits if_splits)
  have "acyclic (protos (set_proto d b h))"
  proof (cases b)
    case None
    then show ?thesis using assms(1) acyclic_subset [OF _ protos_changes(3)] by (auto simp: sound_def)
  next
    case (Some c)
    then have "(c, d) \<notin> (protos h)\<^sup>*"
      using assms(2) by (auto simp: setPrototypeOf_def on_chain_reaches simp del: on_chain.simps split: if_splits)
    then have "acyclic (insert (d, c) (protos h))" using assms(1) by (simp add: sound_def acyclic_insert)
    then show ?thesis unfolding Some by (rule acyclic_subset [OF _ protos_changes(2)])
  qed
  then show "sound h'"
    using assms(1,3) unfolding h' by (auto simp: sound_def links_ok_def values_ok_def split: if_splits)
qed

lemma sound_grown:
  assumes "sound h" "case p of None \<Rightarrow> True | Some q \<Rightarrow> q < length (objects h)"
  shows "sound (grown p h)"
proof -
  have no: "(q, length (objects h)) \<notin> (protos h)\<^sup>*" if "q < length (objects h)" for q
  proof
    assume "(q, length (objects h)) \<in> (protos h)\<^sup>*"
    then show False using that assms(1)
      by (cases rule: rtranclE) (auto simp: sound_def links_ok_def protos_def)
  qed
  have "acyclic (protos (grown p h))"
  proof (cases p)
    case None
    then show ?thesis using assms(1) acyclic_subset [OF _ protos_changes(4)] by (auto simp: sound_def)
  next
    case (Some q)
    then have "acyclic (insert (length (objects h), q) (protos h))"
      using assms no by (simp add: sound_def acyclic_insert)
    then show ?thesis unfolding Some by (rule acyclic_subset [OF _ protos_changes(5)])
  qed
  then show ?thesis using assms by (auto simp: sound_def links_ok_def values_ok_def less_Suc_eq split: if_splits)
qed

section \<open>What a class inherits\<close>

lemma get_member_cong:
  assumes "acyclic (protos h)"
    and "\<And>x. (a, x) \<in> (protos h)\<^sup>* \<Longrightarrow> proto_of g x = proto_of h x \<and> own_prop g x k = own_prop h x k"
  shows "get_member g a k = get_member h a k"
proof -
  have "wf ((protos h)\<inverse>)" using assms(1) by (rule finite_acyclic_wf_converse [OF finite_protos])
  then show ?thesis using assms(2)
  proof (induction a rule: wf_induct_rule)
    case (less a)
    have here: "proto_of g a = proto_of h a" "own_prop g a k = own_prop h a k" using less.prems by auto
    have "get_member g b k = get_member h b k" if "proto_of h a = Some b" for b
    proof (rule less.IH)
      show ab: "(b, a) \<in> (protos h)\<inverse>" using that by (simp add: protos_def)
      show "proto_of g x = proto_of h x \<and> own_prop g x k = own_prop h x k" if "(b, x) \<in> (protos h)\<^sup>*" for x
        using less.prems ab that by (meson converseD converse_rtrancl_into_rtrancl)
    qed
    then show ?case unfolding get_member.simps [of g a] get_member.simps [of h a] here
      by (auto split: option.split)
  qed
qed

lemma link_proto_set [simp]: "link_proto (set_proto a p h) pv = link_proto h pv"
  by (cases pv) (simp_all add: link_proto_def)

text \<open>With prototypes for the statics, the heap after \<open>__extends\<close> is this one.\<close>

lemma js_extends_heap:
  assumes "js_extends host d (VObject c) h = Some (Inr h')" "host \<noteq> Copies"
  obtains pv where "setPrototypeOf d (Some c) h = Inr (set_proto d (Some c) h)"
    "get_member (set_proto d (Some c) h) c ''prototype'' = Some pv"
    "h' = set_member d ''prototype'' (VObject (length (objects h))) (set_member (length (objects h)) ''constructor'' (VObject d)
       (grown (Some (link_proto h pv)) (set_proto d (Some c) h)))"
proof -
  have "extendStatics host d (Some c) h = setPrototypeOf d (Some c) h"
    using assms(2) by (cases host) (simp_all add: extendStatics_def)
  then show ?thesis using assms(1) that
    by (auto simp: js_extends_def new_link_def new_object_grown setPrototypeOf_def simp del: on_chain.simps
        split: if_splits option.splits)
qed

lemma get_member_value_ok:
  assumes "sound h" "get_member h a k = Some v"
  shows "value_ok h v"
proof -
  have "wf ((protos h)\<inverse>)" using assms(1) by (auto simp: sound_def intro: finite_acyclic_wf_converse [OF finite_protos])
  then show ?thesis using assms(2)
  proof (induction a rule: wf_induct_rule)
    case (less a)
    show ?case
    proof (cases "own_prop h a k")
      case (Some w)
      then have "v = w" using less.prems by (subst (asm) get_member.simps) simp
      then show ?thesis using Some assms(1) by (cases w) (auto simp: sound_def values_ok_def)
    next
      case None
      then show ?thesis using less by (subst (asm) (2) get_member.simps) (auto simp: protos_def split: option.splits)
    qed
  qed
qed

text \<open>
  C30. A class \<open>d\<close> that extends a class \<open>c\<close>, on a host that can set the prototype of an object (by
  \<open>Object.setPrototypeOf\<close> or \<open>__proto__\<close>), when nothing throws: its own static members stay and hide those
  of \<open>c\<close>, all others are those of \<open>c\<close>; its new prototype has \<open>d\<close> as the constructor and takes everything
  else from the prototype of \<open>c\<close>, or from \<open>Object.prototype\<close> if \<open>c\<close> has none that is an object.
\<close>

theorem class_inherits:
  assumes "sound h" "d < length (objects h)" "c < length (objects h)" "host \<noteq> Copies"
    and "js_extends host d (VObject c) h = Some (Inr h')"
  shows "get_member h' d ''prototype'' = Some (VObject (length (objects h))) \<and>
    (if k = ''prototype'' then True
     else get_member h' d k = (case own_prop h d k of Some v \<Rightarrow> Some v | None \<Rightarrow> get_member h' c k)) \<and>
    get_member h' (length (objects h)) k =
      (if k = ''constructor'' then Some (VObject d)
       else case get_member h' c ''prototype'' of
         Some (VObject q) \<Rightarrow> get_member h' q k
       | _ \<Rightarrow> get_member h' (object_prototype h) k)"
proof -
  obtain pv where set: "setPrototypeOf d (Some c) h = Inr (set_proto d (Some c) h)"
    and pv: "get_member (set_proto d (Some c) h) c ''prototype'' = Some pv"
    and h': "h' = set_member d ''prototype'' (VObject (length (objects h))) (set_member (length (objects h)) ''constructor''
       (VObject d) (grown (Some (link_proto h pv)) (set_proto d (Some c) h)))"
    by (rule js_extends_heap [OF assms(5,4)])
  let ?g = "set_proto d (Some c) h"
  have g: "sound ?g" using sound_setPrototypeOf(1) [OF assms(1) set] assms(3) by simp
  have dc: "(d, c) \<in> protos ?g" using assms(2) by (simp add: protos_def)
  have ne: "x \<noteq> d \<and> x \<noteq> length (objects h)" if "(c, x) \<in> (protos ?g)\<^sup>*" for x
  proof
    show "x \<noteq> d" using rtrancl_into_trancl2 [OF dc that] g by (auto simp: sound_def acyclic_def)
    show "x \<noteq> length (objects h)" using that
    proof (cases rule: rtranclE)
      case base
      then show ?thesis using assms(3) by simp
    next
      case (step y)
      then have "x < length (objects ?g)" using g unfolding sound_def links_ok_def protos_def by blast
      then show ?thesis by simp
    qed
  qed
  have "get_member h' c ''prototype'' = get_member ?g c ''prototype''"
  proof (rule get_member_cong)
    show "acyclic (protos ?g)" using g by (simp add: sound_def)
    show "proto_of h' x = proto_of ?g x \<and> own_prop h' x ''prototype'' = own_prop ?g x ''prototype''"
      if "(c, x) \<in> (protos ?g)\<^sup>*" for x
      using ne [OF that] by (auto simp: h')
  qed
  then have proto: "get_member h' c ''prototype'' = Some pv" using pv by simp
  have "own_prop h (length (objects h)) j = None" for j by (simp add: own_prop_def)
  then have reads: "own_prop h' d j = (if j = ''prototype'' then Some (VObject (length (objects h))) else own_prop h d j)"
    "own_prop h' (length (objects h)) j = (if j = ''constructor'' then Some (VObject d) else None)"
    "proto_of h' d = Some c" "proto_of h' (length (objects h)) = Some (link_proto h pv)" for j
    using assms(2) by (simp_all add: h')
  have "get_member h' d ''prototype'' = Some (VObject (length (objects h)))"
    by (subst get_member.simps) (simp add: reads)
  moreover have "get_member h' d k = (case own_prop h d k of Some v \<Rightarrow> Some v | None \<Rightarrow> get_member h' c k)"
    if "k \<noteq> ''prototype''"
    using that by (subst get_member.simps) (simp add: reads split: option.split)
  moreover have "get_member h' (length (objects h)) k =
      (if k = ''constructor'' then Some (VObject d) else get_member h' (link_proto h pv) k)"
    by (subst get_member.simps) (simp add: reads)
  ultimately show ?thesis unfolding proto by (simp add: link_proto_def split: cvalue.split)
qed

section \<open>Lookups end\<close>

lemma own_value_ok: "sound h \<Longrightarrow> own_prop h a k = Some v \<Longrightarrow> value_ok h v"
  by (cases v) (auto simp: sound_def values_ok_def)

lemma sound_copy_statics:
  "sound h \<Longrightarrow> sound (copy_statics d b ps h) \<and> length (objects (copy_statics d b ps h)) = length (objects h)"
proof (induction ps arbitrary: h)
  case (Cons p ps)
  let ?h = "if p = ''prototype'' then h else (case own_prop h b p of None \<Rightarrow> h | Some v \<Rightarrow> set_member d p v h)"
  have "sound ?h" "length (objects ?h) = length (objects h)"
    using Cons.prems by (auto intro: sound_set_member own_value_ok split: option.split)
  then show ?case using Cons.IH [of ?h] by simp
qed simp

lemma extendStatics_sound:
  assumes "sound h" "extendStatics host d b h = Inr h'" "case b of None \<Rightarrow> True | Some c \<Rightarrow> c < length (objects h)"
  shows "sound h' \<and> length (objects h') = length (objects h)"
proof (cases "host = Copies")
  case False
  then have set: "setPrototypeOf d b h = Inr h'" using assms(2) by (cases host) (simp_all add: extendStatics_def)
  then show ?thesis using sound_setPrototypeOf [OF assms(1) set assms(3)] by simp
next
  case True
  then show ?thesis using assms sound_copy_statics [OF assms(1)]
    by (auto simp: extendStatics_def split: option.splits)
qed

text \<open>The declarations of classes in their order, each of which adds an object; the first error ends all.\<close>

fun extend_all :: "host_statics \<Rightarrow> (nat \<times> cvalue) list \<Rightarrow> cheap \<Rightarrow> (class_error + cheap) option" where
  "extend_all host [] h = Some (Inr h)"
| "extend_all host ((d, b) # cs) h = (case js_extends host d b h of
       Some (Inr h) \<Rightarrow> extend_all host cs h
     | r \<Rightarrow> r)"

lemma grown_member_sound:
  assumes "sound h" "d < length (objects h)" "case p of None \<Rightarrow> True | Some q \<Rightarrow> q < length (objects h)"
  shows "sound (set_member d k (VObject (length (objects h))) (grown p h))"
    "sound (set_member d k (VObject (length (objects h))) (set_member (length (objects h)) j (VObject d) (grown p h)))"
  using sound_grown [OF assms(1,3)] assms(2) by (auto intro!: sound_set_member)

lemma js_extends_sound:
  assumes "sound h" "d < length (objects h)" "value_ok h b"
  shows "(case js_extends host d b h of None \<Rightarrow> False
    | Some (Inl e) \<Rightarrow> True | Some (Inr h') \<Rightarrow> sound h' \<and> length (objects h') = Suc (length (objects h)))"
proof (cases b)
  case VNull
  show ?thesis
  proof (cases "extendStatics host d None h")
    case (Inr g)
    then have "sound g \<and> length (objects g) = length (objects h)" using extendStatics_sound [OF assms(1) Inr] by simp
    then show ?thesis using VNull Inr assms(2) grown_member_sound(1) [of g d None]
      by (simp add: js_extends_def new_object_grown)
  qed (use VNull in \<open>simp add: js_extends_def\<close>)
next
  case (VObject c)
  show ?thesis
  proof (cases "extendStatics host d (Some c) h")
    case (Inr g)
    then have g: "sound g" "length (objects g) = length (objects h)"
      using extendStatics_sound [OF assms(1) Inr] assms(3) VObject by simp_all
    obtain pv where pv: "get_member g c ''prototype'' = Some pv"
      using get_member_ends [of g c "''prototype''"] g(1) unfolding sound_def by blast
    have "value_ok g pv" by (rule get_member_value_ok [OF g(1) pv])
    then have "link_proto g pv < length (objects g)" using g(1) by (cases pv) (simp_all add: link_proto_def sound_def)
    then show ?thesis using VObject Inr pv g assms(2) grown_member_sound(2) [of g d "Some (link_proto g pv)"]
      by (simp add: js_extends_def new_link_def new_object_grown)
  qed (use VObject in \<open>simp add: js_extends_def\<close>)
qed (simp_all add: js_extends_def)

text \<open>
  After any declarations of classes, with any of the three kinds of hosts, each lookup of a member of any
  object ends; a declaration itself always returns, with the class or an error; and no prototypes come
  back to their start.
\<close>

theorem class_lookups_end:
  assumes "sound h" "list_all (\<lambda>(d, b). d < length (objects h) \<and> value_ok h b) cs"
  shows "(case extend_all host cs h of None \<Rightarrow> False | Some (Inl e) \<Rightarrow> True
    | Some (Inr h') \<Rightarrow> acyclic (protos h') \<and> get_member h' a k \<noteq> None)"
  using assms
proof (induction cs arbitrary: h)
  case Nil
  then show ?case using get_member_ends [of h a k] by (auto simp: sound_def)
next
  case (Cons q cs)
  obtain d b where q: "q = (d, b)" by (cases q)
  have step: "case js_extends host d b h of None \<Rightarrow> False
      | Some (Inl e) \<Rightarrow> True | Some (Inr g) \<Rightarrow> sound g \<and> length (objects g) = Suc (length (objects h))"
    using js_extends_sound [of h d b host] Cons.prems q by simp
  have "value_ok h w \<Longrightarrow> length (objects g) = Suc (length (objects h)) \<Longrightarrow> value_ok g w" for g w
    by (cases w) simp_all
  then have rest: "list_all (\<lambda>(d, b). d < length (objects g) \<and> value_ok g b) cs"
    if "length (objects g) = Suc (length (objects h))" for g
    using Cons.prems(2) that by (fastforce simp: list_all_iff)
  show ?case
  proof (cases "js_extends host d b h")
    case (Some r)
    show ?thesis
    proof (cases r)
      case (Inr g)
      then have "sound g" "length (objects g) = Suc (length (objects h))" using step Some by simp_all
      then show ?thesis using Cons.IH [OF _ rest] Some Inr by (simp add: q)
    qed (simp add: q Some)
  qed (use step in \<open>simp add: q\<close>)
qed

section \<open>Examples for the theorems\<close>

text \<open>\<open>Object.prototype\<close>, a class with its prototype, and a function that is to extend it.\<close>

definition two_classes :: cheap where
  "two_classes = \<lparr>objects =
     [\<lparr>proto = None, is_function = False, props = [(''toString'', VText ''[object]'')]\<rparr>,
      \<lparr>proto = None, is_function = True, props = [(''prototype'', VObject 2), (''version'', VText ''1'')]\<rparr>,
      \<lparr>proto = Some 0, is_function = False, props = [(''constructor'', VObject 1), (''area'', VText ''area'')]\<rparr>,
      \<lparr>proto = None, is_function = True, props = []\<rparr>],
     object_prototype = 0\<rparr>"

lemma sound_two_classes: "sound two_classes"
proof -
  have p: "proto_of two_classes a = (if a = 2 then Some 0 else None)" for a
    by (auto simp: proto_of_def two_classes_def less_Suc_eq nth_Cons' numeral_eq_Suc)
  have "acyclic (protos two_classes)"
    by (rule acyclicI_order [where f = id]) (auto simp: protos_def p split: if_splits)
  moreover have "links_ok two_classes" unfolding links_ok_def p by (simp add: two_classes_def)
  moreover have "values_ok two_classes"
    by (auto simp: values_ok_def own_prop_def two_classes_def less_Suc_eq split: if_splits)
  ultimately show ?thesis by (simp add: sound_def two_classes_def)
qed

theorem class_inherits_witness:
  "(case js_extends Has_SetPrototypeOf 3 (VObject 1) two_classes of
      Some (Inr h) \<Rightarrow> get_member h 4 ''constructor'' = Some (VObject 3)
    | _ \<Rightarrow> False)"
proof -
  have "on_chain n two_classes 3 1 = False" for n
    by (cases n; cases "n - 1") (auto simp: proto_of_def two_classes_def)
  then have "extendStatics Has_SetPrototypeOf 3 (Some 1) two_classes = Inr (set_proto 3 (Some 1) two_classes)"
    by (simp add: extendStatics_def setPrototypeOf_def del: on_chain.simps)
  moreover have "is_function (objects two_classes ! 1)" by (simp add: two_classes_def)
  ultimately obtain h where h: "js_extends Has_SetPrototypeOf 3 (VObject 1) two_classes = Some (Inr h)"
    using js_extends_sound [OF sound_two_classes, of 3 "VObject 1" Has_SetPrototypeOf]
    by (cases "get_member (set_proto 3 (Some 1) two_classes) 1 ''prototype''")
      (simp_all add: js_extends_def new_link_def new_object_grown two_classes_def [THEN arg_cong, of "\<lambda>h. length (objects h)"])
  have "length (objects two_classes) = 4" by (simp add: two_classes_def)
  then show ?thesis
    using class_inherits [OF sound_two_classes _ _ _ h, of "''constructor''"] unfolding h by simp
qed

theorem class_lookups_end_witness:
  "(case extend_all Has_SetPrototypeOf [(3, VObject 1), (1, VObject 3)] two_classes of None \<Rightarrow> False | Some r \<Rightarrow> True)"
proof -
  have "list_all (\<lambda>(d, b). d < length (objects two_classes) \<and> value_ok two_classes b) [(3, VObject 1), (1, VObject 3)]"
    by (simp add: two_classes_def)
  from class_lookups_end [OF sound_two_classes this, where host = Has_SetPrototypeOf] show ?thesis
    by (cases "extend_all Has_SetPrototypeOf [(3, VObject 1), (1, VObject 3)] two_classes") (simp_all del: extend_all.simps)
qed

end
