(* ===== verification/ModuleInterop.thy ===== *)
theory ModuleInterop
  imports Prelude "HOL-Library.AList"
begin

text \<open>
  The helpers that the TypeScript compiler in \<open>tsWorker.js\<close> emits for modules (lines 225 to 253):
  \<open>__createBinding\<close>, \<open>__setModuleDefault\<close>, \<open>__importStar\<close>, \<open>__importDefault\<close> and \<open>__exportStar\<close>, on a host that has
  \<open>Object.create\<close>. Objects live in a heap; what a getter written by a user computes is a parameter.
\<close>

section \<open>Objects\<close>

text \<open>Values; a primitive has no properties of its own that \<open>for-in\<close> lists (strings as modules are left out).\<close>

datatype 'p val = VUndefined | VNull | VPrim 'p bool \<comment> \<open>is it truthy?\<close> | VObj nat

text \<open>The getter of a user, or one that \<open>__createBinding\<close> made for \<open>m[k]\<close>, with a number, for each is a new function.\<close>

datatype ('g, 'k) getter = UserGetter 'g | Live nat nat 'k

datatype ('g, 'k, 'p) content = Data "'p val" bool \<comment> \<open>writable?\<close> | Accessor "('g, 'k) getter"

record ('g, 'k, 'p) slot =
  content :: "('g, 'k, 'p) content"
  enumerable :: bool
  configurable :: bool

text \<open>Own properties in their order, and the prototypes, the nearest first.\<close>

record ('g, 'k, 'p) obj =
  own :: "('k \<times> ('g, 'k, 'p) slot) list"
  chain :: "nat list"

record ('g, 'k, 'p) heap =
  objs :: "nat \<Rightarrow> ('g, 'k, 'p) obj"
  made :: nat  \<comment> \<open>the getters made so far\<close>

record ('g, 'k, 'p) names =
  k_default :: 'k
  k_esModule :: 'k
  eval :: "'g \<Rightarrow> ('g, 'k, 'p) heap \<Rightarrow> nat \<Rightarrow> 'p val option"

definition own_slot :: "('g, 'k, 'p) heap \<Rightarrow> nat \<Rightarrow> 'k \<Rightarrow> ('g, 'k, 'p) slot option" where
  "own_slot h o' k = map_of (own (objs h o')) k"

fun find_slot :: "('g, 'k, 'p) heap \<Rightarrow> nat list \<Rightarrow> 'k \<Rightarrow> ('g, 'k, 'p) slot option" where
  "find_slot h [] k = None"
| "find_slot h (o' # os) k = (case own_slot h o' k of Some s \<Rightarrow> Some s | None \<Rightarrow> find_slot h os k)"

text \<open>\<open>o[k]\<close>; bindings that lead back to themselves never give a value, which is \<open>None\<close>.\<close>

partial_function (option) get_prop ::
  "('g, 'k, 'p) names \<Rightarrow> ('g, 'k, 'p) heap \<Rightarrow> nat \<Rightarrow> 'k \<Rightarrow> 'p val option" where
  "get_prop nm h o' k = (case find_slot h (o' # chain (objs h o')) k of
       None \<Rightarrow> Some VUndefined
     | Some s \<Rightarrow> (case content s of
           Data v _ \<Rightarrow> Some v
         | Accessor (UserGetter g) \<Rightarrow> eval nm g h o'
         | Accessor (Live _ m j) \<Rightarrow> get_prop nm h m j))"

definition truthy :: "'p val \<Rightarrow> bool" where
  "truthy v = (case v of VUndefined \<Rightarrow> False | VNull \<Rightarrow> False | VPrim _ t \<Rightarrow> t | VObj _ \<Rightarrow> True)"

text \<open>The keys that \<open>for-in\<close> lists: an own property hides one of a prototype, even when it is not enumerable.\<close>

definition listed :: "('g, 'k, 'p) heap \<Rightarrow> nat \<Rightarrow> 'k list" where
  "listed h o' = filter (\<lambda>k. case find_slot h (o' # chain (objs h o')) k of Some s \<Rightarrow> enumerable s | None \<Rightarrow> False)
     (rev (remdups (rev (concat (map (\<lambda>p. map fst (own (objs h p))) (o' # chain (objs h o')))))))"

section \<open>\<open>Object.defineProperty\<close>\<close>

text \<open>A descriptor that says nothing about \<open>configurable\<close> is one with a new getter or a new value.\<close>

record ('g, 'k, 'p) descriptor =
  d_content :: "('g, 'k, 'p) content"
  d_enumerable :: bool
  d_configurable :: "bool option"

definition writable :: "('g, 'k, 'p) content \<Rightarrow> bool" where
  "writable c = (case c of Data _ w \<Rightarrow> w | Accessor _ \<Rightarrow> False)"

definition is_data :: "('g, 'k, 'p) content \<Rightarrow> bool" where
  "is_data c = (case c of Data _ _ \<Rightarrow> True | Accessor _ \<Rightarrow> False)"

definition may_redefine :: "('g, 'k, 'p) slot \<Rightarrow> ('g, 'k, 'p) descriptor \<Rightarrow> bool" where
  "may_redefine s d \<longleftrightarrow> configurable s \<or>
     (d_configurable d = Some False \<and> enumerable s = d_enumerable d \<and>
      (content s = d_content d \<or> writable (content s) \<and> is_data (d_content d)))"

datatype define_error = CannotRedefine

definition set_own :: "('g, 'k, 'p) heap \<Rightarrow> nat \<Rightarrow> 'k \<Rightarrow> ('g, 'k, 'p) slot \<Rightarrow> ('g, 'k, 'p) heap" where
  "set_own h o' k s = h\<lparr>objs := (objs h)(o' := objs h o'\<lparr>own := AList.update k s (own (objs h o'))\<rparr>)\<rparr>"

definition defineProperty ::
  "('g, 'k, 'p) heap \<Rightarrow> nat \<Rightarrow> 'k \<Rightarrow> ('g, 'k, 'p) descriptor \<Rightarrow> define_error + ('g, 'k, 'p) heap" where
  "defineProperty h o' k d = (case own_slot h o' k of
       None \<Rightarrow> Inr (set_own h o' k \<lparr>content = d_content d, enumerable = d_enumerable d,
         configurable = (d_configurable d = Some True)\<rparr>)
     | Some s \<Rightarrow> if may_redefine s d
         then Inr (set_own h o' k \<lparr>content = d_content d, enumerable = d_enumerable d,
           configurable = (case d_configurable d of None \<Rightarrow> configurable s | Some c \<Rightarrow> c)\<rparr>)
         else Inl CannotRedefine)"

section \<open>\<open>__createBinding\<close>\<close>

definition es_module :: "('g, 'k, 'p) names \<Rightarrow> ('g, 'k, 'p) heap \<Rightarrow> nat \<Rightarrow> bool option" where
  "es_module nm h m = map_option truthy (get_prop nm h m (k_esModule nm))"

text \<open>The descriptor of \<open>m[k]\<close> is not used as it is: it is missing, a getter of a module that is no ES module, or a value that may change.\<close>

definition rebinds ::
  "('g, 'k, 'p) names \<Rightarrow> ('g, 'k, 'p) heap \<Rightarrow> nat \<Rightarrow> ('g, 'k, 'p) slot option \<Rightarrow> bool option" where
  "rebinds nm h m desc = (case desc of
       None \<Rightarrow> Some True
     | Some s \<Rightarrow> (case content s of
           Accessor _ \<Rightarrow> map_option Not (es_module nm h m)
         | Data _ w \<Rightarrow> Some (w \<or> configurable s)))"

definition createBinding ::
  "('g, 'k, 'p) names \<Rightarrow> ('g, 'k, 'p) heap \<Rightarrow> nat \<Rightarrow> nat \<Rightarrow> 'k \<Rightarrow> 'k option \<Rightarrow>
   (define_error + ('g, 'k, 'p) heap) option" where
  "createBinding nm h o' m k k2 = (
     let k2 = (case k2 of None \<Rightarrow> k | Some k2 \<Rightarrow> k2); desc = own_slot h m k in
     map_option (\<lambda>r. case (if r then None else desc) of
         None \<Rightarrow> defineProperty (h\<lparr>made := made h + 1\<rparr>) o' k2
           \<lparr>d_content = Accessor (Live (made h) m k), d_enumerable = True, d_configurable = None\<rparr>
       | Some s \<Rightarrow> defineProperty h o' k2
           \<lparr>d_content = content s, d_enumerable = enumerable s, d_configurable = Some (configurable s)\<rparr>)
       (rebinds nm h m desc))"

text \<open>A loop over keys: the first error, or a reading that does not return, ends it.\<close>

fun bind_keys ::
  "('g, 'k, 'p) names \<Rightarrow> ('k \<Rightarrow> ('g, 'k, 'p) heap \<Rightarrow> bool) \<Rightarrow> nat \<Rightarrow> nat \<Rightarrow> 'k list \<Rightarrow> ('g, 'k, 'p) heap \<Rightarrow>
   (define_error + ('g, 'k, 'p) heap) option" where
  "bind_keys nm wanted o' m [] h = Some (Inr h)"
| "bind_keys nm wanted o' m (k # ks) h =
     (if wanted k h then (case createBinding nm h o' m k None of
        None \<Rightarrow> None
      | Some (Inl e) \<Rightarrow> Some (Inl e)
      | Some (Inr h') \<Rightarrow> bind_keys nm wanted o' m ks h')
      else bind_keys nm wanted o' m ks h)"

section \<open>\<open>__exportStar\<close>, \<open>__importStar\<close> and \<open>__importDefault\<close>\<close>

definition exportStar ::
  "('g, 'k, 'p) names \<Rightarrow> nat \<Rightarrow> nat \<Rightarrow> ('g, 'k, 'p) heap \<Rightarrow> (define_error + ('g, 'k, 'p) heap) option" where
  "exportStar nm m exports h =
     bind_keys nm (\<lambda>p h. p \<noteq> k_default nm \<and> own_slot h exports p = None) exports m (listed h m) h"

definition setModuleDefault ::
  "('g, 'k, 'p) names \<Rightarrow> nat \<Rightarrow> 'p val \<Rightarrow> ('g, 'k, 'p) heap \<Rightarrow> define_error + ('g, 'k, 'p) heap" where
  "setModuleDefault nm o' v h = defineProperty h o' (k_default nm)
     \<lparr>d_content = Data v False, d_enumerable = True, d_configurable = None\<rparr>"

definition bound_to :: "(define_error + ('g, 'k, 'p) heap) option \<Rightarrow>
    (('g, 'k, 'p) heap \<Rightarrow> define_error + ('g, 'k, 'p) heap) \<Rightarrow> (define_error + ('g, 'k, 'p) heap) option" where
  "bound_to r f = map_option (\<lambda>x. case x of Inl e \<Rightarrow> Inl e | Inr h \<Rightarrow> f h) r"

text \<open>The value imported and the heap; \<open>a\<close> is the address of the new object, \<open>protos\<close> its prototypes.\<close>

definition importStar ::
  "('g, 'k, 'p) names \<Rightarrow> nat \<Rightarrow> nat list \<Rightarrow> 'p val \<Rightarrow> ('g, 'k, 'p) heap \<Rightarrow>
   ('p val \<times> (define_error + ('g, 'k, 'p) heap)) option" where
  "importStar nm a protos mod' h = (
     let fresh = h\<lparr>objs := (objs h)(a := \<lparr>own = [], chain = protos\<rparr>)\<rparr> in
     (case mod' of
        VObj m \<Rightarrow> (case es_module nm h m of
            None \<Rightarrow> None
          | Some True \<Rightarrow> Some (mod', Inr h)
          | Some False \<Rightarrow> map_option (\<lambda>r. (VObj a, r))
              (bound_to (bind_keys nm (\<lambda>k h. k \<noteq> k_default nm \<and> own_slot h m k \<noteq> None) a m (listed fresh m) fresh)
                (setModuleDefault nm a mod')))
      | _ \<Rightarrow> Some (VObj a, setModuleDefault nm a mod' fresh)))"

definition importDefault ::
  "('g, 'k, 'p) names \<Rightarrow> nat \<Rightarrow> nat list \<Rightarrow> 'p val \<Rightarrow> ('g, 'k, 'p) heap \<Rightarrow> ('p val \<times> ('g, 'k, 'p) heap) option" where
  "importDefault nm a protos mod' h = (
     let fresh = h\<lparr>objs := (objs h)(a := \<lparr>own =
       [(k_default nm, \<lparr>content = Data mod' True, enumerable = True, configurable = True\<rparr>)], chain = protos\<rparr>)\<rparr> in
     (case mod' of
        VObj m \<Rightarrow> map_option (\<lambda>b. if b then (mod', h) else (VObj a, fresh)) (es_module nm h m)
      | _ \<Rightarrow> Some (VObj a, fresh)))"

section \<open>Bindings\<close>

text \<open>Heaps that differ in one object, and in how many getters were made.\<close>

definition changes :: "nat \<Rightarrow> ('g, 'k, 'p) heap \<Rightarrow> ('g, 'k, 'p) heap \<Rightarrow> bool" where
  "changes o' h h' \<longleftrightarrow> (\<forall>x. x \<noteq> o' \<longrightarrow> objs h' x = objs h x)"

lemma changes_refl [simp]: "changes o' h h"
  by (simp add: changes_def)

lemma changes_trans: "changes o' h h1 \<Longrightarrow> changes o' h1 h2 \<Longrightarrow> changes o' h h2"
  by (fastforce simp: changes_def)

lemma changes_own_slot: "changes o' h h' \<Longrightarrow> x \<noteq> o' \<Longrightarrow> own_slot h' x k = own_slot h x k"
  by (auto simp: changes_def own_slot_def)

lemma own_slot_set_own:
  "own_slot (set_own h o' k s) x j = (if x = o' \<and> j = k then Some s else own_slot h x j)"
  by (simp add: own_slot_def set_own_def update_conv)

lemma set_own_changes: "changes o' h (set_own h o' k s)"
  by (simp add: changes_def set_own_def)

lemma made_own_slot [simp]: "own_slot (h\<lparr>made := n\<rparr>) x k = own_slot h x k"
  by (simp add: own_slot_def)

lemma made_changes [simp]: "changes o' (h\<lparr>made := n\<rparr>) h' = changes o' h h'"
  by (simp add: changes_def)

text \<open>The flag \<open>__esModule\<close> is a plain value, or there is none.\<close>

definition plain_flag :: "('g, 'k, 'p) names \<Rightarrow> ('g, 'k, 'p) heap \<Rightarrow> nat \<Rightarrow> bool" where
  "plain_flag nm h m = (case find_slot h (m # chain (objs h m)) (k_esModule nm) of
     None \<Rightarrow> True | Some s \<Rightarrow> is_data (content s))"

lemma changes_find_slot: "changes o' h h' \<Longrightarrow> o' \<notin> set os \<Longrightarrow> find_slot h' os k = find_slot h os k"
  by (induction os) (auto simp: changes_own_slot split: option.split)

lemma es_module_plain:
  "plain_flag nm h m \<Longrightarrow> es_module nm h m = Some (case find_slot h (m # chain (objs h m)) (k_esModule nm) of
     Some s \<Rightarrow> (case content s of Data v _ \<Rightarrow> truthy v | _ \<Rightarrow> False) | None \<Rightarrow> False)"
  unfolding es_module_def by (subst get_prop.simps)
    (auto simp: plain_flag_def is_data_def truthy_def split: option.splits content.splits)

lemma changes_plain_flag:
  assumes "changes o' h h'" and "o' \<notin> set (m # chain (objs h m))"
  shows "plain_flag nm h' m = plain_flag nm h m"
    and "plain_flag nm h m \<Longrightarrow> es_module nm h' m = es_module nm h m"
proof -
  have "find_slot h' (m # chain (objs h' m)) = find_slot h (m # chain (objs h m))"
    using assms changes_find_slot [OF assms] by (intro ext) (simp add: changes_def)
  then show "plain_flag nm h' m = plain_flag nm h m"
    and "plain_flag nm h m \<Longrightarrow> es_module nm h' m = es_module nm h m"
    by (simp_all add: es_module_plain plain_flag_def)
qed

lemma rebinds_plain: "plain_flag nm h m \<Longrightarrow> \<exists>r. rebinds nm h m s = Some r"
  using es_module_plain [of nm h m] by (auto simp: rebinds_def split: option.split content.split)

text \<open>What a binding for \<open>m[k]\<close> is: a getter for it, or, where that is as good, the slot itself.\<close>

definition mirrors ::
  "('g, 'k, 'p) names \<Rightarrow> ('g, 'k, 'p) heap \<Rightarrow> nat \<Rightarrow> 'k \<Rightarrow> ('g, 'k, 'p) slot option \<Rightarrow> bool" where
  "mirrors nm h m k s = (if rebinds nm h m (own_slot h m k) = Some True
     then (\<exists>n. s = Some \<lparr>content = Accessor (Live n m k), enumerable = True, configurable = False\<rparr>)
     else s = own_slot h m k)"

lemma changes_mirrors:
  assumes "changes o' h h'" and "o' \<notin> set (m # chain (objs h m))" and "plain_flag nm h m"
  shows "mirrors nm h' m k s = mirrors nm h m k s"
proof -
  have "own_slot h' m k = own_slot h m k"
    using assms(1,2) by (simp add: changes_own_slot)
  moreover have "rebinds nm h' m t = rebinds nm h m t" for t
    using changes_plain_flag(2) [OF assms] by (simp add: rebinds_def cong: option.case_cong content.case_cong)
  ultimately show ?thesis
    by (simp add: mirrors_def)
qed

lemma binding_new:
  assumes "own_slot h o' k = None" and "plain_flag nm h m" and "o' \<noteq> m"
  shows "\<exists>h'. createBinding nm h o' m k None = Some (Inr h') \<and> changes o' h h' \<and> mirrors nm h m k (own_slot h' o' k) \<and>
    (\<forall>j. j \<noteq> k \<longrightarrow> own_slot h' o' j = own_slot h o' j)"
proof -
  obtain r where r: "rebinds nm h m (own_slot h m k) = Some r"
    using rebinds_plain [OF assms(2)] by blast
  show ?thesis
  proof (cases r)
    case True
    then show ?thesis
      using assms(1) r by (auto simp: createBinding_def defineProperty_def own_slot_set_own mirrors_def
          intro: set_own_changes [of o' "h\<lparr>made := n\<rparr>" for n, simplified])
  next
    case False
    then obtain s where "own_slot h m k = Some s"
      using r by (cases "own_slot h m k") (auto simp: rebinds_def)
    then show ?thesis
      using assms(1) r False by (auto simp: createBinding_def defineProperty_def own_slot_set_own mirrors_def
          intro: set_own_changes)
  qed
qed

lemma bind_keys_binds:
  assumes "plain_flag nm h m" and "o' \<notin> set (m # chain (objs h m))" and "distinct ks"
    and "\<And>k h'. changes o' h h' \<Longrightarrow> k \<in> set ks \<Longrightarrow> own_slot h' o' k = own_slot h o' k \<Longrightarrow> wanted k h' = w k"
    and "\<And>k. w k \<Longrightarrow> k \<in> set ks \<Longrightarrow> own_slot h o' k = None"
  shows "\<exists>h'. bind_keys nm wanted o' m ks h = Some (Inr h') \<and> changes o' h h' \<and>
    (\<forall>k. if k \<in> set ks \<and> w k then mirrors nm h m k (own_slot h' o' k) else own_slot h' o' k = own_slot h o' k)"
  using assms
proof (induction ks arbitrary: h)
  case Nil
  then show ?case by (intro exI [of _ h]) simp
next
  case (Cons k ks)
  have w: "wanted k h = w k"
    by (rule Cons.prems(4)) simp_all
  show ?case
  proof (cases "w k")
    case False
    have "\<exists>h'. bind_keys nm wanted o' m ks h = Some (Inr h') \<and> changes o' h h' \<and>
      (\<forall>k. if k \<in> set ks \<and> w k then mirrors nm h m k (own_slot h' o' k) else own_slot h' o' k = own_slot h o' k)"
      using Cons.prems by (intro Cons.IH) simp_all
    then show ?thesis
      using False w by auto
  next
    case True
    obtain h1 where h1: "createBinding nm h o' m k None = Some (Inr h1)" "changes o' h h1"
      "mirrors nm h m k (own_slot h1 o' k)" "\<And>j. j \<noteq> k \<Longrightarrow> own_slot h1 o' j = own_slot h o' j"
      using binding_new [of h o' k nm m] Cons.prems True by auto
    have "\<exists>h'. bind_keys nm wanted o' m ks h1 = Some (Inr h') \<and> changes o' h1 h' \<and>
      (\<forall>j. if j \<in> set ks \<and> w j then mirrors nm h1 m j (own_slot h' o' j) else own_slot h' o' j = own_slot h1 o' j)"
    proof (rule Cons.IH)
      show "plain_flag nm h1 m" "o' \<notin> set (m # chain (objs h1 m))" "distinct ks"
        using Cons.prems(1-3) h1(2) changes_plain_flag(1) [OF h1(2) Cons.prems(2)] by (simp_all add: changes_def)
    next
      fix j h' assume "changes o' h1 h'" "j \<in> set ks" "own_slot h' o' j = own_slot h1 o' j"
      moreover from this have "j \<noteq> k"
        using Cons.prems(3) by auto
      ultimately show "wanted j h' = w j"
        using h1(4) changes_trans [OF h1(2)] by (intro Cons.prems(4)) auto
    next
      fix j assume "w j" "j \<in> set ks"
      moreover from this have "j \<noteq> k"
        using Cons.prems(3) by auto
      ultimately show "own_slot h1 o' j = None"
        using Cons.prems(5) h1(4) by simp
    qed
    then obtain h' where "bind_keys nm wanted o' m ks h1 = Some (Inr h')" and h': "changes o' h1 h'"
      and slots: "\<And>j. if j \<in> set ks \<and> w j then mirrors nm h1 m j (own_slot h' o' j) else own_slot h' o' j = own_slot h1 o' j"
      by blast
    then have "bind_keys nm wanted o' m (k # ks) h = Some (Inr h')"
      using h1(1) w True by simp
    moreover have "if j \<in> set (k # ks) \<and> w j then mirrors nm h m j (own_slot h' o' j) else own_slot h' o' j = own_slot h o' j" for j
      using slots [of j] h1(3,4) Cons.prems(3) True changes_mirrors [OF h1(2) Cons.prems(2,1)]
      by (cases "j = k") (auto split: if_splits)
    ultimately show ?thesis
      using changes_trans [OF h1(2) h'] by blast
  qed
qed

section \<open>Star exports and star imports\<close>

lemma distinct_listed: "distinct (listed h m)"
  by (simp add: listed_def)

lemma export_star_slots:
  assumes "plain_flag nm h m" and "exports \<notin> set (m # chain (objs h m))"
  shows "\<exists>h'. exportStar nm m exports h = Some (Inr h') \<and> changes exports h h' \<and>
    (\<forall>k. if k \<in> set (listed h m) \<and> k \<noteq> k_default nm \<and> own_slot h exports k = None
      then mirrors nm h m k (own_slot h' exports k) else own_slot h' exports k = own_slot h exports k)"
  unfolding exportStar_def
  using bind_keys_binds [OF assms distinct_listed [of h m], where
      wanted = "\<lambda>p h. p \<noteq> k_default nm \<and> own_slot h exports p = None" and
      w = "\<lambda>k. k \<noteq> k_default nm \<and> own_slot h exports k = None"] by simp

text \<open>\<open>export *\<close> never fails, leaves every other object alone and every export there is as it is, and adds a
  binding for each other key the module lists, except \<open>default\<close>; the first of two modules wins.\<close>

theorem export_star_adds:
  assumes "plain_flag nm h m" and "exports \<notin> set (m # chain (objs h m))"
  shows "case exportStar nm m exports h of
      Some (Inr h') \<Rightarrow> changes exports h h' \<and>
        (\<forall>k. if k \<in> set (listed h m) \<and> k \<noteq> k_default nm \<and> own_slot h exports k = None
          then mirrors nm h m k (own_slot h' exports k) else own_slot h' exports k = own_slot h exports k)
    | _ \<Rightarrow> False"
  using export_star_slots [OF assms] by auto

text \<open>A binding that is a getter is read through, whatever has changed in the module since.\<close>

lemma live_read:
  "own_slot h o' k = Some s \<Longrightarrow> content s = Accessor (Live n m j) \<Longrightarrow> get_prop nm h o' k = get_prop nm h m j"
  by (subst get_prop.simps) simp

lemma changeable_rebinds:
  "(case own_slot h m k of
        None \<Rightarrow> True
      | Some s \<Rightarrow> (case content s of
          Data v w \<Rightarrow> w \<or> configurable s
        | Accessor _ \<Rightarrow> map_option truthy (get_prop nm h m (k_esModule nm)) = Some False))
    \<Longrightarrow> rebinds nm h m (own_slot h m k) = Some True"
  by (auto simp: rebinds_def es_module_def split: option.splits content.splits)

text \<open>C31. A name re-exported by \<open>export *\<close> (from an object whose \<open>__esModule\<close>, if any, is a value) is a live binding if
  the module may still change it: if the property is
  not the module's own, or a value that can be written or configured, or a getter of an object that is not
  marked as an ES module, reading the name from the exports at any later time, whatever has been done to the
  module since, gives what reading it from the module gives then (as long as the binding itself, which
  cannot be configured, is there).\<close>

theorem star_exports_are_live:
  assumes "plain_flag nm h m" and "exports \<notin> set (m # chain (objs h m))"
    and "k \<in> set (listed h m)" and "k \<noteq> k_default nm" and "own_slot h exports k = None"
    and "case own_slot h m k of
        None \<Rightarrow> True
      | Some s \<Rightarrow> (case content s of
          Data v w \<Rightarrow> w \<or> configurable s
        | Accessor _ \<Rightarrow> map_option truthy (get_prop nm h m (k_esModule nm)) = Some False)"
    and "exportStar nm m exports h = Some (Inr h')" and "own_slot h2 exports k = own_slot h' exports k"
  shows "get_prop nm h2 exports k = get_prop nm h2 m k"
proof -
  have "mirrors nm h m k (own_slot h' exports k)"
    using export_star_slots [OF assms(1,2)] assms(3-5,7) by auto
  then obtain n where "own_slot h' exports k =
      Some \<lparr>content = Accessor (Live n m k), enumerable = True, configurable = False\<rparr>"
    using changeable_rebinds [OF assms(6)] by (auto simp: mirrors_def)
  then show ?thesis
    using assms(8) by (simp add: live_read)
qed

lemma default_new:
  "own_slot h a (k_default nm) = None \<Longrightarrow> setModuleDefault nm a v h = Inr (set_own h a (k_default nm)
    \<lparr>content = Data v False, enumerable = True, configurable = False\<rparr>)"
  by (simp add: setModuleDefault_def defineProperty_def)

lemma changes_listed:
  assumes "changes o' h h'" and "o' \<notin> set (m # chain (objs h m))"
  shows "listed h' m = listed h m"
proof -
  have "find_slot h' (m # chain (objs h' m)) = find_slot h (m # chain (objs h m))"
    using assms changes_find_slot [OF assms] by (intro ext) (simp add: changes_def)
  moreover have "map (\<lambda>p. map fst (own (objs h' p))) (m # chain (objs h' m)) =
      map (\<lambda>p. map fst (own (objs h p))) (m # chain (objs h m))"
    using assms by (auto simp: changes_def)
  ultimately show ?thesis
    by (simp add: listed_def)
qed

lemma import_star_slots:
  assumes "plain_flag nm h m" and "a \<notin> set (m # chain (objs h m))" and "es_module nm h m \<noteq> Some True"
  shows "\<exists>h'. importStar nm a protos (VObj m) h = Some (VObj a, Inr h') \<and> changes a h h' \<and>
    get_prop nm h' a (k_default nm) = Some (VObj m) \<and>
    (\<forall>k. k \<noteq> k_default nm \<longrightarrow> (if k \<in> set (listed h m) \<and> own_slot h m k \<noteq> None
      then mirrors nm h m k (own_slot h' a k) else own_slot h' a k = None))"
proof -
  define fresh where "fresh = h\<lparr>objs := (objs h)(a := \<lparr>own = [], chain = protos\<rparr>)\<rparr>"
  have fresh: "changes a h fresh" "\<And>k. own_slot fresh a k = None"
    by (simp_all add: fresh_def changes_def own_slot_def)
  have m: "a \<notin> set (m # chain (objs fresh m))"
    using assms(2) fresh(1) by (simp add: changes_def)
  have pf: "plain_flag nm fresh m"
    using changes_plain_flag(1) [OF fresh(1) assms(2)] assms(1) by simp
  obtain h1 where h1: "bind_keys nm (\<lambda>k h. k \<noteq> k_default nm \<and> own_slot h m k \<noteq> None) a m (listed h m) fresh = Some (Inr h1)"
    "changes a fresh h1" and slots: "\<And>k. if k \<in> set (listed h m) \<and> k \<noteq> k_default nm \<and> own_slot h m k \<noteq> None
      then mirrors nm fresh m k (own_slot h1 a k) else own_slot h1 a k = own_slot fresh a k"
    using bind_keys_binds [OF pf m distinct_listed [of h m], where
        wanted = "\<lambda>k h. k \<noteq> k_default nm \<and> own_slot h m k \<noteq> None" and
        w = "\<lambda>k. k \<noteq> k_default nm \<and> own_slot h m k \<noteq> None"]
      fresh(2) changes_own_slot [OF changes_trans [OF fresh(1)], of _ m] assms(2) by (auto 0 4)
  let ?s = "\<lparr>content = Data (VObj m) False, enumerable = True, configurable = False\<rparr>"
  have "own_slot h1 a (k_default nm) = None"
    using slots [of "k_default nm"] fresh(2) by simp
  then have "importStar nm a protos (VObj m) h = Some (VObj a, Inr (set_own h1 a (k_default nm) ?s))"
    using h1(1) assms(1,3) es_module_plain [OF assms(1)] changes_listed [OF fresh(1) assms(2)]
    by (auto simp: importStar_def fresh_def [symmetric] bound_to_def default_new split: option.splits if_splits)
  moreover have "get_prop nm (set_own h1 a (k_default nm) ?s) a (k_default nm) = Some (VObj m)"
    by (subst get_prop.simps) (simp add: own_slot_set_own)
  moreover have "changes a h (set_own h1 a (k_default nm) ?s)"
    using changes_trans [OF changes_trans [OF fresh(1) h1(2)] set_own_changes] .
  moreover have "if k \<in> set (listed h m) \<and> own_slot h m k \<noteq> None
      then mirrors nm h m k (own_slot (set_own h1 a (k_default nm) ?s) a k)
      else own_slot (set_own h1 a (k_default nm) ?s) a k = None" if "k \<noteq> k_default nm" for k
    using slots [of k] that fresh(2) changes_mirrors [OF fresh(1) assms(2,1)]
    by (auto simp: own_slot_set_own split: if_splits)
  ultimately show ?thesis
    by blast
qed

text \<open>\<open>import *\<close> of an ES module is the module itself; of any other object it is a new object that has the object as
  its \<open>default\<close>, and a binding for each other key of its own that the object lists, and nothing else.\<close>

theorem import_star_object:
  assumes "plain_flag nm h m" and "a \<notin> set (m # chain (objs h m))"
  shows "if es_module nm h m = Some True then importStar nm a protos (VObj m) h = Some (VObj m, Inr h)
    else (case importStar nm a protos (VObj m) h of
      Some (VObj r, Inr h') \<Rightarrow> r = a \<and> changes a h h' \<and>
        get_prop nm h' a (k_default nm) = Some (VObj m) \<and>
        (\<forall>k. k \<noteq> k_default nm \<longrightarrow> (if k \<in> set (listed h m) \<and> own_slot h m k \<noteq> None
          then mirrors nm h m k (own_slot h' a k) else own_slot h' a k = None))
    | _ \<Rightarrow> False)"
proof (cases "es_module nm h m = Some True")
  case True
  then show ?thesis by (simp add: importStar_def)
next
  case False
  then show ?thesis
    using import_star_slots [OF assms False, of protos] by (auto simp del: not_Some_eq)
qed

section \<open>A module with one name\<close>

definition a_names :: "(unit, nat, nat) names" where
  "a_names = \<lparr>k_default = 0, k_esModule = 1, eval = (\<lambda>_ _ _. None)\<rparr>"

definition a_value :: "nat \<Rightarrow> (unit, nat, nat) slot" where
  "a_value n = \<lparr>content = Data (VPrim n True) True, enumerable = True, configurable = True\<rparr>"

text \<open>The object 1 exports the name 2; the object 0 has no exports yet.\<close>

definition a_heap :: "(unit, nat, nat) heap" where
  "a_heap = \<lparr>objs = (\<lambda>x. \<lparr>own = (if x = 1 then [(0, a_value 7), (2, a_value 8)] else []), chain = []\<rparr>), made = 0\<rparr>"

lemma a_heap_facts: "plain_flag a_names a_heap 1" "2 \<in> set (listed a_heap 1)" "own_slot a_heap 1 2 = Some (a_value 8)"
  "rebinds a_names a_heap 1 (own_slot a_heap 1 2) = Some True" "own_slot a_heap 0 k = None" "chain (objs a_heap x) = []"
  by (simp_all add: plain_flag_def a_heap_def own_slot_def a_names_def listed_def a_value_def rebinds_def)

theorem export_star_adds_witness:
  "case exportStar a_names 1 0 a_heap of
     Some (Inr h') \<Rightarrow> mirrors a_names a_heap 1 2 (own_slot h' 0 2) | _ \<Rightarrow> False"
  using export_star_adds [of a_names a_heap 1 0] a_heap_facts
  by (auto simp: a_names_def split: option.splits sum.splits if_splits dest: spec [of _ 2])

theorem star_exports_are_live_witness:
  "\<exists>h'. exportStar a_names 1 0 a_heap = Some (Inr h') \<and>
    get_prop a_names (set_own h' 1 2 (a_value 9)) 0 2 = get_prop a_names (set_own h' 1 2 (a_value 9)) 1 2"
proof -
  obtain h' where "exportStar a_names 1 0 a_heap = Some (Inr h')"
    using export_star_slots [of a_names a_heap 1 0] a_heap_facts by auto
  then show ?thesis
    using star_exports_are_live [of a_names a_heap 1 0 2 h' "set_own h' 1 2 (a_value 9)"] a_heap_facts
    by (simp add: own_slot_set_own a_names_def a_value_def)
qed

theorem import_star_object_witness:
  "case importStar a_names 5 [] (VObj 1) a_heap of
     Some (VObj r, Inr h') \<Rightarrow> r = 5 \<and> get_prop a_names h' 5 0 = Some (VObj 1) \<and>
       mirrors a_names a_heap 1 2 (own_slot h' 5 2)
   | _ \<Rightarrow> False"
  using import_star_object [of a_names a_heap 1 5 "[]"] a_heap_facts
  by (auto simp: es_module_plain a_names_def a_heap_def own_slot_def
      split: option.splits val.splits sum.splits if_splits dest: spec [of _ 2])

end
