(* ===== verification/Decorators.thy ===== *)
theory Decorators
  imports Prelude
begin

text \<open>
  The helpers \<open>__decorate\<close> (lines 33 to 38), \<open>__esDecorate\<close> (45 to 71) and \<open>__runInitializers\<close> (72 to 78) that the
  TypeScript compiler in \<open>tsWorker.js\<close> emits for decorators. A decorator is a parameter: what it does to the
  world, the initializers it adds, and what it returns or throws.
\<close>

section \<open>\<open>__esDecorate\<close>\<close>

datatype kind = KClass | KMethod | KGetter | KSetter | KField | KAccessor

text \<open>A value where a function is expected: \<open>undefined\<close>, a function, or anything else (\<open>null\<close> too).\<close>

datatype 'f given = Undefined | Function 'f | NoFunction

text \<open>What a decorator returns.\<close>

datatype 'f returned =
    RUndefined | RFunction 'f
  | RObject "'f given" "'f given" "'f given"  \<comment> \<open>its \<open>get\<close>, \<open>set\<close> and \<open>init\<close>\<close>
  | ROther

datatype 'e decorate_error = FunctionExpected | ObjectExpected | Late | Thrown 'e

record 'f slots =
  s_get :: "'f option"
  s_set :: "'f option"
  s_value :: "'f option"

text \<open>What a decorator is called with: the two functions of an accessor, or the value; and the kind.\<close>

datatype 'f argument = AccessorArg "'f option" "'f option" | ValueArg "'f option"

text \<open>
  A decorator calls \<open>addInitializer\<close> with some values and then returns or throws; it does not catch the error of
  \<open>addInitializer\<close>, so that nothing follows a value that is no function.
\<close>

type_synonym ('s, 'f, 'e) decorator =
  "'f argument \<Rightarrow> kind \<Rightarrow> 's \<Rightarrow> 's \<times> 'f given list \<times> ('e + 'f returned)"

record ('s, 'f) decorating =
  world :: 's
  descriptor :: "'f slots"
  initializers :: "'f list"
  extra :: "'f list"

definition js_accept :: "'f given \<Rightarrow> 'e decorate_error + 'f option" where
  "js_accept f = (case f of Undefined \<Rightarrow> Inr None | Function f \<Rightarrow> Inr (Some f) | NoFunction \<Rightarrow> Inl FunctionExpected)"

text \<open>\<open>addInitializer(f)\<close>: \<open>undefined\<close> becomes \<open>null\<close>, and that is no function; after the decoration it is too late.\<close>

definition addInitializer :: "bool \<Rightarrow> 'f given \<Rightarrow> 'f list \<Rightarrow> 'e decorate_error + 'f list" where
  "addInitializer fin f xs = (if fin then Inl Late
     else case f of Function f \<Rightarrow> Inr (xs @ [f]) | _ \<Rightarrow> Inl FunctionExpected)"

fun add_all :: "'f given list \<Rightarrow> 'f list \<Rightarrow> 'e decorate_error + 'f list" where
  "add_all [] xs = Inr xs"
| "add_all (f # fs) xs = (case addInitializer False f xs of Inl e \<Rightarrow> Inl e | Inr xs \<Rightarrow> add_all fs xs)"

text \<open>The property of the descriptor that the kind is about.\<close>

definition key_value :: "kind \<Rightarrow> 'f slots \<Rightarrow> 'f option" where
  "key_value k d = (case k of KGetter \<Rightarrow> s_get d | KSetter \<Rightarrow> s_set d | _ \<Rightarrow> s_value d)"

definition set_key :: "kind \<Rightarrow> 'f \<Rightarrow> 'f slots \<Rightarrow> 'f slots" where
  "set_key k f d = (case k of KGetter \<Rightarrow> d\<lparr>s_get := Some f\<rparr> | KSetter \<Rightarrow> d\<lparr>s_set := Some f\<rparr> | _ \<Rightarrow> d\<lparr>s_value := Some f\<rparr>)"

definition or_else :: "'a option \<Rightarrow> 'a option \<Rightarrow> 'a option" where
  "or_else x y = (case x of Some v \<Rightarrow> Some v | None \<Rightarrow> y)"

definition take_accessor ::
  "'f returned \<Rightarrow> ('s, 'f) decorating \<Rightarrow> 'e decorate_error + ('s, 'f) decorating" where
  "take_accessor r st = (case r of
       RUndefined \<Rightarrow> Inr st
     | RObject g s i \<Rightarrow> (case js_accept g of Inl e \<Rightarrow> Inl e | Inr g \<Rightarrow>
         (case js_accept s of Inl e \<Rightarrow> Inl e | Inr s \<Rightarrow>
         (case js_accept i of Inl e \<Rightarrow> Inl e | Inr i \<Rightarrow>
           Inr (st\<lparr>descriptor := (descriptor st)\<lparr>s_get := or_else g (s_get (descriptor st)),
                     s_set := or_else s (s_set (descriptor st))\<rparr>,
                   initializers := (case i of None \<Rightarrow> [] | Some f \<Rightarrow> [f]) @ initializers st\<rparr>))))
     | _ \<Rightarrow> Inl ObjectExpected)"

definition take_value ::
  "kind \<Rightarrow> 'f returned \<Rightarrow> ('s, 'f) decorating \<Rightarrow> 'e decorate_error + ('s, 'f) decorating" where
  "take_value k r st = (case r of
       RUndefined \<Rightarrow> Inr st
     | RFunction f \<Rightarrow> Inr (if k = KField then st\<lparr>initializers := f # initializers st\<rparr>
         else st\<lparr>descriptor := set_key k f (descriptor st)\<rparr>)
     | _ \<Rightarrow> Inl FunctionExpected)"

text \<open>One decorator; with an error the class is not made, and only the world is left.\<close>

definition decorate_step ::
  "kind \<Rightarrow> ('s, 'f, 'e) decorator \<Rightarrow> ('s, 'f) decorating \<Rightarrow> 's \<times> ('e decorate_error + ('s, 'f) decorating)" where
  "decorate_step k dec st = (
     let arg = (if k = KAccessor then AccessorArg (s_get (descriptor st)) (s_set (descriptor st))
                else ValueArg (key_value k (descriptor st)))
     in case dec arg k (world st) of (s, added, res) \<Rightarrow>
       (s, case add_all added (extra st) of
             Inl e \<Rightarrow> Inl e
           | Inr xs \<Rightarrow> (case res of
                 Inl e \<Rightarrow> Inl (Thrown e)
               | Inr r \<Rightarrow> (if k = KAccessor then take_accessor r else take_value k r)
                   (st\<lparr>world := s, extra := xs\<rparr>))))"

text \<open>\<open>for (var i = decorators.length - 1; i >= 0; i--)\<close>, with \<open>n\<close> for \<open>i + 1\<close>.\<close>

fun decorate_loop ::
  "kind \<Rightarrow> ('s, 'f, 'e) decorator list \<Rightarrow> nat \<Rightarrow> ('s, 'f) decorating \<Rightarrow> 's \<times> ('e decorate_error + ('s, 'f) decorating)" where
  "decorate_loop k decs 0 st = (world st, Inr st)"
| "decorate_loop k decs (Suc i) st = (case decorate_step k (decs ! i) st of
       (s, Inl e) \<Rightarrow> (s, Inl e)
     | (_, Inr st') \<Rightarrow> decorate_loop k decs i st')"

text \<open>The result: the descriptor for the target, and the two lists.\<close>

definition esDecorate ::
  "kind \<Rightarrow> ('s, 'f, 'e) decorator list \<Rightarrow> 'f slots \<Rightarrow> 'f list \<Rightarrow> 'f list \<Rightarrow> 's \<Rightarrow>
   's \<times> ('e decorate_error + ('s, 'f) decorating)" where
  "esDecorate k decs desc inits ext s = decorate_loop k decs (length decs)
     \<lparr>world = s, descriptor = desc, initializers = inits, extra = ext\<rparr>"

section \<open>\<open>__runInitializers\<close>\<close>

text \<open>\<open>useValue\<close> is whether a value was given; \<open>call\<close> is what a call of an initializer does.\<close>

fun run_loop :: "('f \<Rightarrow> 'v option \<Rightarrow> 's \<Rightarrow> 's \<times> ('e + 'v)) \<Rightarrow> bool \<Rightarrow> 'f list \<Rightarrow> 'v option \<Rightarrow> 's \<Rightarrow> 's \<times> ('e + 'v option)" where
  "run_loop call use [] v s = (s, Inr v)"
| "run_loop call use (f # fs) v s = (case call f (if use then v else None) s of
       (s, Inl e) \<Rightarrow> (s, Inl e)
     | (s, Inr w) \<Rightarrow> run_loop call use fs (Some w) s)"

definition runInitializers ::
  "('f \<Rightarrow> 'v option \<Rightarrow> 's \<Rightarrow> 's \<times> ('e + 'v)) \<Rightarrow> 'f list \<Rightarrow> 'v option \<Rightarrow> 's \<Rightarrow> 's \<times> ('e + 'v option)" where
  "runInitializers call fs v s = (case run_loop call (v \<noteq> None) fs v s of
       (s, Inl e) \<Rightarrow> (s, Inl e)
     | (s, Inr w) \<Rightarrow> (s, Inr (if v \<noteq> None then w else None)))"

section \<open>\<open>__decorate\<close>\<close>

text \<open>
  The decorators of a class, a method or a property before the standard; \<open>None\<close> is a falsy value. A decorator of a
  class is given the class, one of a method the descriptor, one of a property nothing.
\<close>

datatype 'v arity = ClassOf 'v | MethodOf "'v option" | PropertyOf

fun legacy_loop :: "bool \<Rightarrow> ('v option \<Rightarrow> 's \<Rightarrow> 's \<times> ('e + 'v option)) option list \<Rightarrow> nat \<Rightarrow> 'v option \<Rightarrow> 's \<Rightarrow>
    's \<times> ('e + 'v option)" where
  "legacy_loop gives_r decs 0 r s = (s, Inr r)"
| "legacy_loop gives_r decs (Suc i) r s = (case decs ! i of
       None \<Rightarrow> legacy_loop gives_r decs i r s
     | Some d \<Rightarrow> (case d (if gives_r then r else None) s of
           (s, Inl e) \<Rightarrow> (s, Inl e)
         | (s, Inr v) \<Rightarrow> legacy_loop gives_r decs i (or_else v r) s))"

text \<open>The result, and the descriptor that is defined on the target, if any.\<close>

definition js_decorate :: "('v option \<Rightarrow> 's \<Rightarrow> 's \<times> ('e + 'v option)) option list \<Rightarrow> 'v arity \<Rightarrow> 's \<Rightarrow>
    's \<times> ('e + 'v option \<times> 'v option)" where
  "js_decorate decs a s = (
     let r = (case a of ClassOf c \<Rightarrow> Some c | MethodOf d \<Rightarrow> d | PropertyOf \<Rightarrow> None)
     in case legacy_loop (a \<noteq> PropertyOf) decs (length decs) r s of
          (s, Inl e) \<Rightarrow> (s, Inl e)
        | (s, Inr r) \<Rightarrow> (s, Inr (r, case a of MethodOf _ \<Rightarrow> r | _ \<Rightarrow> None)))"

section \<open>The last decorator comes first\<close>

text \<open>The reference: the decorators behind the first one have their turn before it.\<close>

fun inner_first ::
  "kind \<Rightarrow> ('s, 'f, 'e) decorator list \<Rightarrow> ('s, 'f) decorating \<Rightarrow> 's \<times> ('e decorate_error + ('s, 'f) decorating)" where
  "inner_first k [] st = (world st, Inr st)"
| "inner_first k (d # ds) st = (case inner_first k ds st of
       (s, Inl e) \<Rightarrow> (s, Inl e)
     | (_, Inr st') \<Rightarrow> decorate_step k d st')"

lemma inner_first_world: "inner_first k ds st = (s, Inr st') \<Longrightarrow> s = world st'"
proof (cases ds)
  case (Cons d rest)
  then show "inner_first k ds st = (s, Inr st') \<Longrightarrow> s = world st'"
    by (auto simp: decorate_step_def take_accessor_def take_value_def Let_def
        split: prod.splits sum.splits returned.splits if_splits)
qed auto

lemma inner_first_snoc:
  "inner_first k (ds @ [d]) st = (case decorate_step k d st of
       (s, Inl e) \<Rightarrow> (s, Inl e)
     | (_, Inr st') \<Rightarrow> inner_first k ds st')"
proof (induction ds)
  case Nil
  show ?case
    using inner_first_world [of k "[d]" st] by (auto split: prod.splits sum.splits)
next
  case (Cons a ds)
  then show ?case
    by (auto split: prod.splits sum.splits)
qed

lemma decorate_loop_inner: "n \<le> length decs \<Longrightarrow> decorate_loop k decs n st = inner_first k (take n decs) st"
  by (induction n arbitrary: st)
    (auto simp: take_Suc_conv_app_nth inner_first_snoc split: prod.split sum.split)

lemma esDecorate_inner:
  "esDecorate k decs desc inits ext s =
    inner_first k decs \<lparr>world = s, descriptor = desc, initializers = inits, extra = ext\<rparr>"
  by (simp add: esDecorate_def decorate_loop_inner)

text \<open>Decorators that neither fail nor touch the world: they add initializers, and replace the value or not.\<close>

record 'f pure =
  adds :: "'f list"
  replaces :: "'f option \<Rightarrow> 'f option"

definition as_decorator :: "'f pure \<Rightarrow> ('s, 'f, 'e) decorator" where
  "as_decorator p arg k s = (s, map Function (adds p), Inr (case arg of
     ValueArg v \<Rightarrow> (case replaces p v of Some w \<Rightarrow> RFunction w | None \<Rightarrow> RUndefined)
   | AccessorArg _ _ \<Rightarrow> RUndefined))"

definition wrapped :: "'f pure list \<Rightarrow> 'f option \<Rightarrow> 'f option" where
  "wrapped ps v = foldr (\<lambda>p v. or_else (replaces p v) v) ps v"

lemma add_all_functions: "add_all (map Function fs) xs = Inr (xs @ fs)"
  by (induction fs arbitrary: xs) (simp_all add: addInitializer_def)

text \<open>Decorators of a method wrap its function from the last to the first, each given what those after it made of
  it, and the initializers they add are kept in that order.\<close>

theorem method_decorators_wrap:
  "esDecorate KMethod (map as_decorator ps) desc inits ext s =
    (s, Inr \<lparr>world = s, descriptor = desc\<lparr>s_value := wrapped ps (s_value desc)\<rparr>, initializers = inits,
      extra = ext @ concat (map adds (rev ps))\<rparr>)"
  by (induction ps)
    (auto simp: esDecorate_inner decorate_step_def take_value_def add_all_functions as_decorator_def
      key_value_def set_key_def wrapped_def or_else_def split: option.split)

text \<open>The initializers that decorators of a field give, in the order of the decorators.\<close>

definition field_inits :: "'f pure list \<Rightarrow> 'f list" where
  "field_inits ps = List.map_filter (\<lambda>p. replaces p None) ps"

lemma map_filter_Cons:
  "List.map_filter f (x # xs) = (case f x of None \<Rightarrow> [] | Some y \<Rightarrow> [y]) @ List.map_filter f xs"
  by (simp add: List.map_filter_def split: option.split)

lemma run_values:
  "run_loop (\<lambda>f v s. (s, Inr (app f (the v)))) True fs (Some v) s = (s, Inr (Some (fold app fs v)))"
  by (induction fs arbitrary: v) simp_all

definition no_slots :: "'f slots" where
  "no_slots = \<lparr>s_get = None, s_set = None, s_value = None\<rparr>"

lemma field_decorated:
  "esDecorate KField (map as_decorator ps) no_slots inits ext s =
    (s, Inr \<lparr>world = s, descriptor = no_slots, initializers = field_inits ps @ inits,
      extra = ext @ concat (map adds (rev ps))\<rparr>)"
  by (induction ps)
    (auto simp: esDecorate_inner decorate_step_def take_value_def add_all_functions as_decorator_def no_slots_def
      key_value_def field_inits_def map_filter_Cons List.map_filter_simps split: option.split)

text \<open>The initial value of a decorated field goes through the initializers its decorators returned in the order of
  the decorators, the first one first, although the last decorator was called first.\<close>

theorem field_initializers_run:
  "case esDecorate KField (map as_decorator ps) no_slots [] [] s of
      (t, Inr st) \<Rightarrow> t = s \<and>
        runInitializers (\<lambda>f v s. (s, Inr (app f (the v)))) (initializers st) (Some v) s =
          (s, Inr (Some (fold app (field_inits ps) v)))
    | _ \<Rightarrow> False"
  by (simp add: field_decorated runInitializers_def run_values)

text \<open>When a decorator throws, or returns neither a function nor \<open>undefined\<close>, no decorator before it is called.\<close>

theorem decoration_stops:
  "esDecorate k ds desc inits ext s = (t, Inl e) \<Longrightarrow> esDecorate k (before @ ds) desc inits ext s = (t, Inl e)"
  by (induction before) (simp_all add: esDecorate_inner)

section \<open>\<open>__metadata\<close> and \<open>__param\<close>\<close>

text \<open>
  Two more entries of the list that \<open>__decorate\<close> is given: a decorator from \<open>Reflect.metadata\<close>, if the host has
  that, or nothing; and a function that calls the decorator of a parameter with its index and returns nothing.
\<close>

definition js_metadata :: "('k \<Rightarrow> 'w \<Rightarrow> 'd) option \<Rightarrow> 'k \<Rightarrow> 'w \<Rightarrow> 'd option" where
  "js_metadata reflect k v = (case reflect of Some f \<Rightarrow> Some (f k v) | None \<Rightarrow> None)"

definition js_param :: "nat \<Rightarrow> (nat \<Rightarrow> 's \<Rightarrow> 's \<times> 'e option) \<Rightarrow> 'v option \<Rightarrow> 's \<Rightarrow> 's \<times> ('e + 'v option)" where
  "js_param paramIndex dec r s = (case dec paramIndex s of
       (s, Some e) \<Rightarrow> (s, Inl e)
     | (s, None) \<Rightarrow> (s, Inr None))"

fun params_last_first :: "(nat \<times> (nat \<Rightarrow> 's \<Rightarrow> 's \<times> 'e option)) list \<Rightarrow> 's \<Rightarrow> 's \<times> 'e option" where
  "params_last_first [] s = (s, None)"
| "params_last_first ((i, f) # ps) s = (case params_last_first ps s of
       (s, Some e) \<Rightarrow> (s, Some e)
     | (s, None) \<Rightarrow> f i s)"

lemma params_last_first_snoc:
  "params_last_first (ps @ [(i, f)]) s = (case f i s of (s, Some e) \<Rightarrow> (s, Some e) | (s, None) \<Rightarrow> params_last_first ps s)"
proof (induction ps)
  case (Cons q ps)
  then show ?case by (cases q) (auto split: prod.splits option.splits)
qed (auto split: prod.splits option.splits)

lemma legacy_loop_params:
  fixes r :: "'v option"
  shows "n \<le> length ps \<Longrightarrow> legacy_loop g (map (\<lambda>p. Some (js_param (fst p) (snd p))) ps @ ds) n r s =
    (case params_last_first (take n ps) s of (s, Some e) \<Rightarrow> (s, Inl e) | (s, None) \<Rightarrow> (s, Inr r))"
proof (induction n arbitrary: s)
  case (Suc n)
  have "params_last_first (take (Suc n) ps) s = (case snd (ps ! n) (fst (ps ! n)) s of
      (s, Some e) \<Rightarrow> (s, Some e) | (s, None) \<Rightarrow> params_last_first (take n ps) s)"
    using Suc.prems params_last_first_snoc [of "take n ps" "fst (ps ! n)" "snd (ps ! n)" s]
    by (simp add: take_Suc_conv_app_nth)
  moreover have "(map (\<lambda>p. Some (js_param (fst p) (snd p))) ps @ ds) ! n = Some (js_param (fst (ps ! n)) (snd (ps ! n)))"
    using Suc.prems by (simp add: nth_append)
  moreover have "legacy_loop g (map (\<lambda>p. Some (js_param (fst p) (snd p))) ps @ ds) n r s' =
      (case params_last_first (take n ps) s' of (s, Some e) \<Rightarrow> (s, Inl e) | (s, None) \<Rightarrow> (s, Inr r))" for s'
    using Suc by simp
  moreover have "js_param (fst (ps ! n)) (snd (ps ! n)) x s = (case snd (ps ! n) (fst (ps ! n)) s of
      (s, Some e) \<Rightarrow> (s, Inl e) | (s, None) \<Rightarrow> (s, Inr (None :: 'v option)))" for x
    by (simp add: js_param_def)
  ultimately show ?case
    by (cases "snd (ps ! n) (fst (ps ! n)) s") (simp add: or_else_def split: option.split)
qed simp

text \<open>
  The decorators of the parameters of a constructor, with metadata that the host does not know: they are called
  from the last to the first and leave the class as it is, or the first one to throw ends all.
\<close>

theorem parameter_decorators:
  "js_decorate (map (\<lambda>p. Some (js_param (fst p) (snd p))) ps @ [js_metadata None k v]) (ClassOf c) s =
    (case params_last_first ps s of (s, Some e) \<Rightarrow> (s, Inl e) | (s, None) \<Rightarrow> (s, Inr (Some c, None)))"
  using legacy_loop_params [of "length ps" ps True "[None]" "Some c" s]
  by (auto simp: js_decorate_def js_metadata_def nth_append Let_def split: prod.splits option.splits)

end
