(* ===== verification/ObjectHelpers.thy ===== *)
theory ObjectHelpers
  imports Prelude "HOL-Library.AList"
begin

text \<open>
  The helpers \<open>__assign\<close> (lines 79 to 89, the part for a host without \<open>Object.assign\<close>) and \<open>__rest\<close> (115 to 125) that
  the TypeScript compiler in \<open>tsWorker.js\<close> emits for object spread and object rest. What a getter computes is
  taken as the value of its property.
\<close>

section \<open>Objects that are read and written\<close>

datatype key = Str string | Sym nat

text \<open>Own properties with their value and whether they are enumerable; enumerable names on the prototypes.\<close>

record 'v source =
  props :: "(key \<times> 'v \<times> bool) list"
  inherited :: "string list"

text \<open>The object made: its own properties, and the prototype it was given, if any.\<close>

record 'v made =
  made_own :: "(key \<times> 'v) list"
  made_proto :: "'v option"

definition proto_key :: key where
  "proto_key = Str ''__proto__''"

definition is_own :: "'v source \<Rightarrow> key \<Rightarrow> bool" where
  "is_own s k = (map_of (props s) k \<noteq> None)"

definition property_enumerable :: "'v source \<Rightarrow> key \<Rightarrow> bool" where
  "property_enumerable s k = (case map_of (props s) k of Some (_, e) \<Rightarrow> e | None \<Rightarrow> False)"

definition value_of :: "'v source \<Rightarrow> key \<Rightarrow> 'v option" where
  "value_of s k = map_option fst (map_of (props s) k)"

definition is_name :: "key \<Rightarrow> bool" where
  "is_name k = (case k of Str _ \<Rightarrow> True | Sym _ \<Rightarrow> False)"

text \<open>The names \<open>for-in\<close> lists; one of a prototype is hidden by an own property.\<close>

definition for_in :: "'v source \<Rightarrow> key list" where
  "for_in s = filter (\<lambda>k. is_name k \<and> property_enumerable s k) (map fst (props s)) @
     filter (\<lambda>k. \<not> is_own s k) (map Str (inherited s))"

definition own_symbols :: "'v source \<Rightarrow> key list" where
  "own_symbols s = filter (\<lambda>k. \<not> is_name k) (map fst (props s))"

text \<open>\<open>t[p] = v\<close>: a write to \<open>__proto__\<close> sets the prototype when \<open>v\<close> can be one, and makes no property.\<close>

definition put :: "('v \<Rightarrow> bool) \<Rightarrow> key \<Rightarrow> 'v \<Rightarrow> 'v made \<Rightarrow> 'v made" where
  "put is_proto p v t = (if p = proto_key then (if is_proto v then t\<lparr>made_proto := Some v\<rparr> else t)
     else t\<lparr>made_own := AList.update p v (made_own t)\<rparr>)"

definition copy :: "('v \<Rightarrow> bool) \<Rightarrow> 'v source \<Rightarrow> key \<Rightarrow> 'v made \<Rightarrow> 'v made" where
  "copy is_proto s p t = (case value_of s p of Some v \<Rightarrow> put is_proto p v t | None \<Rightarrow> t)"

section \<open>\<open>__assign\<close>\<close>

text \<open>One argument after the first; \<open>None\<close> is \<open>null\<close> or \<open>undefined\<close>, over which \<open>for-in\<close> does nothing.\<close>

definition assign_from :: "('v \<Rightarrow> bool) \<Rightarrow> 'v source option \<Rightarrow> 'v made \<Rightarrow> 'v made" where
  "assign_from is_proto s t = (case s of
       None \<Rightarrow> t
     | Some s \<Rightarrow> fold (\<lambda>p t. if is_own s p then copy is_proto s p t else t) (for_in s) t)"

definition js_assign :: "('v \<Rightarrow> bool) \<Rightarrow> 'v made \<Rightarrow> 'v source option list \<Rightarrow> 'v made" where
  "js_assign is_proto t args = fold (assign_from is_proto) args t"

section \<open>\<open>__rest\<close>\<close>

definition empty_object :: "'v made" where
  "empty_object = \<lparr>made_own = [], made_proto = None\<rparr>"

definition js_rest :: "('v \<Rightarrow> bool) \<Rightarrow> 'v source option \<Rightarrow> key list \<Rightarrow> 'v made" where
  "js_rest is_proto s e = (case s of
       None \<Rightarrow> empty_object
     | Some s \<Rightarrow>
         let t = fold (\<lambda>p t. if is_own s p \<and> p \<notin> set e then copy is_proto s p t else t) (for_in s) empty_object
         in fold (\<lambda>p t. if p \<notin> set e \<and> property_enumerable s p then copy is_proto s p t else t) (own_symbols s) t)"

section \<open>What is copied\<close>

lemma put_own: "map_of (made_own (put is_proto p v t)) k =
    (if k = p \<and> p \<noteq> proto_key then Some v else map_of (made_own t) k)"
  by (simp add: put_def update_conv)

lemma copy_own: "map_of (made_own (copy is_proto s p t)) k =
    (if k = p \<and> p \<noteq> proto_key \<and> is_own s p then value_of s p else map_of (made_own t) k)"
  by (auto simp: copy_def put_own value_of_def is_own_def split: option.split)

lemma copies_own:
  "map_of (made_own (fold (\<lambda>p t. if c p then copy is_proto s p t else t) ks t)) k =
    (if k \<in> set ks \<and> c k \<and> k \<noteq> proto_key \<and> is_own s k then value_of s k else map_of (made_own t) k)"
  by (induction ks arbitrary: t) (auto simp: copy_own)

text \<open>The properties that spread and rest are about.\<close>

definition copied :: "'v source \<Rightarrow> key \<Rightarrow> bool" where
  "copied s k = (property_enumerable s k \<and> k \<noteq> proto_key)"

lemma own_key: "property_enumerable s k \<Longrightarrow> is_own s k" "property_enumerable s k \<Longrightarrow> k \<in> set (map fst (props s))"
  by (auto simp: property_enumerable_def is_own_def split: option.splits dest: map_of_SomeD intro: image_eqI [rotated])

lemma for_in_own: "is_own s k \<Longrightarrow> k \<in> set (for_in s) \<longleftrightarrow> is_name k \<and> property_enumerable s k"
  using own_key(2) [of s k] by (auto simp: for_in_def)

lemma own_symbols_own: "k \<in> set (own_symbols s) \<and> property_enumerable s k \<longleftrightarrow> \<not> is_name k \<and> property_enumerable s k"
  using own_key(2) [of s k] by (auto simp: own_symbols_def)

text \<open>\<open>__rest\<close> takes exactly the own enumerable properties, named or symbols, that were not taken before, with
  their values; so the names taken and the rest share the object out between them.\<close>

theorem rest_shares_out:
  "map_of (made_own (js_rest is_proto (Some s) e)) k =
    (if copied s k \<and> k \<notin> set e then value_of s k else None)"
  using own_key(1) [of s k] for_in_own [of s k] own_symbols_own [of k s]
  by (cases "is_own s k") (auto simp: js_rest_def copies_own copied_def empty_object_def)

text \<open>The last of the sources that has a property decides.\<close>

fun last_value :: "'v source option list \<Rightarrow> key \<Rightarrow> 'v option" where
  "last_value [] k = None"
| "last_value (s # ss) k = (case last_value ss k of
       Some v \<Rightarrow> Some v
     | None \<Rightarrow> (case s of None \<Rightarrow> None | Some s \<Rightarrow> if copied s k \<and> is_name k then value_of s k else None))"

lemma assign_from_own:
  "map_of (made_own (assign_from is_proto (Some s) t)) k =
    (if copied s k \<and> is_name k then value_of s k else map_of (made_own t) k)"
  using own_key(1) [of s k] for_in_own [of s k]
  by (cases "is_own s k") (auto simp: assign_from_def copies_own copied_def)

lemma copied_value: "copied s k \<Longrightarrow> value_of s k \<noteq> None"
  by (auto simp: copied_def property_enumerable_def value_of_def split: option.splits)

text \<open>After \<open>__assign\<close> each name has the value that the last argument which has it gives it, and what no argument
  has is as it was; missing arguments are skipped.\<close>

theorem assign_last_wins:
  "map_of (made_own (js_assign is_proto t args)) k =
    (case last_value args k of Some v \<Rightarrow> Some v | None \<Rightarrow> map_of (made_own t) k)"
proof (induction args arbitrary: t)
  case (Cons s ss)
  then show ?case
    by (cases s) (auto simp: js_assign_def assign_from_own assign_from_def [of _ None] dest: copied_value split: option.split)
qed (simp add: js_assign_def)

lemma copies_proto:
  "made_proto (fold (\<lambda>p t. if c p then copy is_proto s p t else t) ks t) =
    (case value_of s proto_key of
       Some v \<Rightarrow> if proto_key \<in> set ks \<and> c proto_key \<and> is_proto v then Some v else made_proto t
     | None \<Rightarrow> made_proto t)"
  by (induction ks arbitrary: t) (auto simp: copy_def put_def split: option.splits)

text \<open>An own property called \<open>__proto__\<close> is never copied by \<open>__rest\<close>: if its value is an object, that becomes the
  prototype of the new object.\<close>

theorem rest_sets_prototype:
  "made_proto (js_rest is_proto (Some s) e) = (case value_of s proto_key of
      Some v \<Rightarrow> if property_enumerable s proto_key \<and> proto_key \<notin> set e \<and> is_proto v then Some v else None
    | None \<Rightarrow> None) \<and>
   map_of (made_own (js_rest is_proto (Some s) e)) proto_key = None"
proof -
  have "is_name proto_key"
    by (simp add: is_name_def proto_key_def)
  moreover have "value_of s proto_key \<noteq> None \<Longrightarrow> is_own s proto_key"
    by (simp add: value_of_def is_own_def)
  ultimately show ?thesis
    using for_in_own [of s proto_key]
    by (auto simp: js_rest_def copies_proto copies_own own_symbols_def empty_object_def split: option.split)
qed

end
