(* ===== verification/PrivateFields.thy ===== *)
theory PrivateFields
  imports Prelude
begin

text \<open>
  The helpers \<open>__classPrivateFieldGet\<close>, \<open>__classPrivateFieldSet\<close> and \<open>__classPrivateFieldIn\<close> that the
  TypeScript compiler in \<open>tsWorker.js\<close> emits for \<open>#private\<close> members (lines 254 to 268). The state behind a
  member is a weak map or set, or, for a static member, the class itself; a static field is a box.
\<close>

datatype 'o receiver = RNull | RPrimitive | RObject 'o

datatype kind = KMethod | KAccessor | KField

text \<open>The argument \<open>f\<close>: none, a function (a method, getter or setter), or the box of a static field.\<close>

datatype 'fn extra = FAbsent | FFun 'fn | FBox

text \<open>\<open>class_of\<close>: the class, when the state is a function; \<open>weak\<close>: what the weak map holds; \<open>box\<close>: \<open>f.value\<close>.\<close>

record ('o, 'v) private_state =
  class_of :: "'o option"
  weak :: "'o \<Rightarrow> 'v option"
  box :: 'v

datatype field_error = NoGetter | NoSetter | NotWritable | CannotRead | CannotWrite | NotAnObject

text \<open>What reading gives: the method itself, the result of calling the getter, or the value.\<close>

datatype ('fn, 'o, 'v) got = GotMethod "'fn option" | GotCall 'fn "'o receiver" | GotValue 'v

definition has_receiver :: "('o, 'v) private_state \<Rightarrow> 'o receiver \<Rightarrow> bool" where
  "has_receiver st r = (case r of RObject o' \<Rightarrow> weak st o' \<noteq> None | _ \<Rightarrow> False)"

text \<open>The brand check both helpers start with: \<open>typeof state === "function" ? receiver !== state || !f : !state.has(receiver)\<close>.\<close>

definition wrong_brand :: "('o, 'v) private_state \<Rightarrow> 'o receiver \<Rightarrow> 'fn extra \<Rightarrow> bool" where
  "wrong_brand st r f = (case class_of st of
       Some c \<Rightarrow> r \<noteq> RObject c \<or> f = FAbsent
     | None \<Rightarrow> \<not> has_receiver st r)"

definition stored :: "('o, 'v) private_state \<Rightarrow> 'o receiver \<Rightarrow> 'v option" where
  "stored st r = (case r of RObject o' \<Rightarrow> weak st o' | _ \<Rightarrow> None)"

definition fun_of :: "'fn extra \<Rightarrow> 'fn option" where
  "fun_of f = (case f of FFun g \<Rightarrow> Some g | _ \<Rightarrow> None)"

definition classPrivateFieldGet ::
  "'o receiver \<Rightarrow> ('o, 'v) private_state \<Rightarrow> kind \<Rightarrow> 'fn extra \<Rightarrow> field_error + ('fn, 'o, 'v) got" where
  "classPrivateFieldGet r st kind f =
     (if kind = KAccessor \<and> f = FAbsent then Inl NoGetter
      else if wrong_brand st r f then Inl CannotRead
      else (case kind of
          KMethod \<Rightarrow> Inr (GotMethod (fun_of f))
        | KAccessor \<Rightarrow> (case f of FFun g \<Rightarrow> Inr (GotCall g r) | _ \<Rightarrow> Inl NoGetter)
        | KField \<Rightarrow> (case (f, stored st r) of
            (FAbsent, Some v) \<Rightarrow> Inr (GotValue v)
          | (FAbsent, None) \<Rightarrow> Inl CannotRead
          | _ \<Rightarrow> Inr (GotValue (box st)))))"

text \<open>
  Writing gives the new state and, for an accessor, the call of the setter; its result is the value.
\<close>

definition classPrivateFieldSet ::
  "'o receiver \<Rightarrow> ('o, 'v) private_state \<Rightarrow> 'v \<Rightarrow> kind \<Rightarrow> 'fn extra \<Rightarrow>
   field_error + ('o, 'v) private_state \<times> ('fn \<times> 'o receiver \<times> 'v) option \<times> 'v" where
  "classPrivateFieldSet r st val kind f =
     (if kind = KMethod then Inl NotWritable
      else if kind = KAccessor \<and> f = FAbsent then Inl NoSetter
      else if wrong_brand st r f then Inl CannotWrite
      else (case (kind, f) of
          (KAccessor, FFun g) \<Rightarrow> Inr (st, Some (g, r, val), val)
        | (KField, FAbsent) \<Rightarrow> (case r of RObject o' \<Rightarrow> Inr (st\<lparr>weak := (weak st)(o' \<mapsto> val)\<rparr>, None, val)
                               | _ \<Rightarrow> Inl CannotWrite)
        | _ \<Rightarrow> Inr (st\<lparr>box := val\<rparr>, None, val)))"

definition classPrivateFieldIn :: "('o, 'v) private_state \<Rightarrow> 'o receiver \<Rightarrow> field_error + bool" where
  "classPrivateFieldIn st r = (case r of
       RObject o' \<Rightarrow> Inr (case class_of st of Some c \<Rightarrow> o' = c | None \<Rightarrow> has_receiver st r)
     | _ \<Rightarrow> Inl NotAnObject)"

section \<open>A field is a variable of the objects that have it\<close>

text \<open>How the compiler calls the helpers for a field: with the box exactly if the field is static.\<close>

definition field_arg :: "('o, 'v) private_state \<Rightarrow> 'fn extra" where
  "field_arg st = (case class_of st of None \<Rightarrow> FAbsent | Some c \<Rightarrow> FBox)"

lemma brand_is_in: "wrong_brand st r (field_arg st) \<longleftrightarrow> classPrivateFieldIn st r \<noteq> Inr True"
  by (cases r) (auto simp: wrong_brand_def field_arg_def classPrivateFieldIn_def has_receiver_def split: option.split)

text \<open>
  On objects for which \<open>#field in object\<close> holds, and on no others, the field can be read and written;
  what is written is read, on this object (for a static field, on the class), with every other object
  left as it was; and writing neither gives the field to an object nor takes it away.
\<close>

theorem private_field:
  "(if classPrivateFieldIn st r = Inr True
    then (\<exists>st'. classPrivateFieldSet r st val KField (field_arg st) = Inr (st', None, val) \<and>
        classPrivateFieldGet r st' KField (field_arg st') = Inr (GotValue val) \<and>
        (\<forall>q. classPrivateFieldIn st' q = classPrivateFieldIn st q) \<and>
        (\<forall>q. q = r \<or>
           classPrivateFieldGet q st' KField (field_arg st') = classPrivateFieldGet q st KField (field_arg st)))
    else classPrivateFieldSet r st val KField (field_arg st) = Inl CannotWrite \<and>
         classPrivateFieldGet r st KField (field_arg st) = Inl CannotRead)"
proof (cases "classPrivateFieldIn st r = Inr True")
  case True
  show ?thesis
  proof (cases "class_of st")
    case None
    then obtain o' where r: "r = RObject o'" "weak st o' \<noteq> None"
      using True by (cases r) (auto simp: classPrivateFieldIn_def has_receiver_def)
    with True None show ?thesis
      by (auto simp: classPrivateFieldSet_def classPrivateFieldGet_def classPrivateFieldIn_def field_arg_def
          wrong_brand_def has_receiver_def stored_def split: receiver.splits)
  next
    case (Some c)
    with True show ?thesis
      by (cases r) (auto simp: classPrivateFieldSet_def classPrivateFieldGet_def classPrivateFieldIn_def
          field_arg_def wrong_brand_def split: receiver.splits)
  qed
next
  case False
  then show ?thesis by (simp add: classPrivateFieldSet_def classPrivateFieldGet_def brand_is_in)
qed

text \<open>
  Methods cannot be written, accessors call the function they were given and leave the fields alone,
  and an accessor without that function is an error before the object is looked at.
\<close>

theorem private_members:
  "classPrivateFieldSet r st val KMethod f = Inl NotWritable \<and>
   classPrivateFieldGet r st KAccessor FAbsent = Inl NoGetter \<and>
   classPrivateFieldSet r st val KAccessor FAbsent = Inl NoSetter \<and>
   classPrivateFieldSet r st val KAccessor (FFun g) =
     (if wrong_brand st r (FFun g) then Inl CannotWrite else Inr (st, Some (g, r, val), val)) \<and>
   classPrivateFieldGet r st KMethod (FFun g) =
     (if wrong_brand st r (FFun g) then Inl CannotRead else Inr (GotMethod (Some g)))"
  by (simp add: classPrivateFieldSet_def classPrivateFieldGet_def fun_of_def)

end
