(* ===== verification/Disposables.thy ===== *)
theory Disposables
  imports Prelude
begin

text \<open>
  The helpers \<open>__addDisposableResource\<close> and \<open>__disposeResources\<close> that the TypeScript compiler in
  \<open>tsWorker.js\<close> emits for \<open>using\<close> declarations (the texts at lines 269 to 313). A block keeps its
  resources on a stack and disposes of them when it is left. What a disposer does is a parameter: it
  changes the world, and returns, throws, or returns a promise that will be rejected.
\<close>

section \<open>The environment of a block\<close>

text \<open>A property read from a value: missing, a function, or something that is no function.\<close>

datatype 'f property = PUndefined | PFunction 'f | POther

text \<open>A value: \<open>null\<close> or \<open>undefined\<close>, no object, or an object with its two disposers.\<close>

datatype 'f target = Nullish | Primitive | Object "'f property" "'f property"

text \<open>An error, or one that suppresses an earlier one (\<open>SuppressedError\<close>).\<close>

datatype 'e failure = Raised 'e | Suppressed "'e failure" "'e failure"

record 'f entry =
  entry_dispose :: "'f option"
  entry_async :: bool

record ('f, 'e) env =
  env_stack :: "'f entry list"      \<comment> \<open>the last one was pushed last\<close>
  env_error :: "'e failure option"  \<comment> \<open>\<open>error\<close>, when \<open>hasError\<close>\<close>

datatype add_error = ObjectExpected | NoAsyncDispose | NoDispose | NotDisposable

text \<open>Does the host have \<open>Symbol.asyncDispose\<close>, and \<open>Symbol.dispose\<close>?\<close>

record symbols =
  has_async_dispose :: bool
  has_dispose :: bool

section \<open>\<open>__addDisposableResource\<close>\<close>

definition push_entry :: "'f entry \<Rightarrow> ('f, 'e) env \<Rightarrow> ('f, 'e) env" where
  "push_entry r env = env\<lparr>env_stack := env_stack env @ [r]\<rparr>"

definition find_disposer :: "symbols \<Rightarrow> 'f property \<Rightarrow> 'f property \<Rightarrow> bool \<Rightarrow> add_error + 'f" where
  "find_disposer syms asyncDispose syncDispose async =
     (if async \<and> \<not> has_async_dispose syms then Inl NoAsyncDispose
      else
        let dispose = (if async then asyncDispose else PUndefined)
        in if dispose = PUndefined \<and> \<not> has_dispose syms then Inl NoDispose
           else case (if dispose = PUndefined then syncDispose else dispose) of
             PFunction f \<Rightarrow> Inr f
           | _ \<Rightarrow> Inl NotDisposable)"

definition addDisposableResource :: "symbols \<Rightarrow> ('f, 'e) env \<Rightarrow> 'f target \<Rightarrow> bool \<Rightarrow> add_error + ('f, 'e) env" where
  "addDisposableResource syms env val async = (case val of
       Nullish \<Rightarrow> Inr (if async then push_entry \<lparr>entry_dispose = None, entry_async = True\<rparr> env else env)
     | Primitive \<Rightarrow> Inl ObjectExpected
     | Object a s \<Rightarrow> (case find_disposer syms a s async of
           Inl err \<Rightarrow> Inl err
         | Inr f \<Rightarrow> Inr (push_entry \<lparr>entry_dispose = Some f, entry_async = async\<rparr> env)))"

section \<open>\<open>__disposeResources\<close>\<close>

datatype 'e call = Returns | Throws 'e | Rejects 'e

text \<open>\<open>fail\<close>: a later error suppresses an earlier one.\<close>

definition fail :: "'e \<Rightarrow> 'e failure option \<Rightarrow> 'e failure option" where
  "fail e err = Some (case err of None \<Rightarrow> Raised e | Some old \<Rightarrow> Suppressed (Raised e) old)"

text \<open>\<open>next\<close> runs until the stack is empty or a promise has to be waited for (\<open>Waiting\<close>, with its rejection).\<close>

datatype 'e progress = Finished | Waiting "'e option"

definition call_entry :: "('f \<Rightarrow> 'w \<Rightarrow> 'w \<times> 'e call) \<Rightarrow> 'f entry \<Rightarrow> 'w \<Rightarrow> 'w \<times> 'e call" where
  "call_entry run r w = (case entry_dispose r of None \<Rightarrow> (w, Returns) | Some f \<Rightarrow> run f w)"

function next_resource :: "('f \<Rightarrow> 'w \<Rightarrow> 'w \<times> 'e call) \<Rightarrow> ('f, 'e) env \<Rightarrow> 'w \<Rightarrow> ('f, 'e) env \<times> 'w \<times> 'e progress" where
  "next_resource run env w =
     (if env_stack env = [] then (env, w, Finished)
      else
        let r = last (env_stack env);
            env = env\<lparr>env_stack := butlast (env_stack env)\<rparr>;
            (w, result) = call_entry run r w
        in case result of
             Throws e \<Rightarrow> next_resource run (env\<lparr>env_error := fail e (env_error env)\<rparr>) w
           | Returns \<Rightarrow> if entry_async r then (env, w, Waiting None) else next_resource run env w
           | Rejects e \<Rightarrow> if entry_async r then (env, w, Waiting (Some e)) else next_resource run env w)"
  by pat_completeness auto
termination
  by (relation "measure (\<lambda>(run, env, w). length (env_stack env))") auto

declare next_resource.simps [simp del]

lemma next_resource_le: "next_resource run env w = (env', w', p) \<Longrightarrow>
    length (env_stack env') \<le> length (env_stack env) \<and> (p \<noteq> Finished \<longrightarrow> length (env_stack env') < length (env_stack env))"
proof (induction run env w arbitrary: env' w' p rule: next_resource.induct)
  case (1 run env w)
  show ?case
  proof (cases "env_stack env = []")
    case True
    with "1.prems" show ?thesis by (simp add: next_resource.simps [of run env w])
  next
    case False
    obtain v c where vc: "call_entry run (last (env_stack env)) w = (v, c)" by fastforce
    note ih = "1.IH" [OF False refl refl vc [symmetric] refl]
    from False "1.prems" vc ih show ?thesis
      by (cases c) (fastforce simp: next_resource.simps [of run env w] Let_def split: if_splits)+
  qed
qed

text \<open>
  The whole disposal: each time a promise has been settled, \<open>then\<close> goes on with \<open>next\<close>, after \<open>fail\<close> if
  it was rejected. The second component counts the promises that were waited for.
\<close>

function disposeResources :: "('f \<Rightarrow> 'w \<Rightarrow> 'w \<times> 'e call) \<Rightarrow> ('f, 'e) env \<Rightarrow> 'w \<Rightarrow> 'w \<times> nat \<times> ('e failure + unit)" where
  "disposeResources run env w = (case next_resource run env w of
       (env, w, Finished) \<Rightarrow> (w, 0, case env_error env of None \<Rightarrow> Inr () | Some e \<Rightarrow> Inl e)
     | (env, w, Waiting rejected) \<Rightarrow>
         (case disposeResources run (case rejected of None \<Rightarrow> env
              | Some e \<Rightarrow> env\<lparr>env_error := fail e (env_error env)\<rparr>) w of
            (w, n, r) \<Rightarrow> (w, Suc n, r)))"
  by pat_completeness auto
termination
  by (relation "measure (\<lambda>(run, env, w). length (env_stack env))")
    (auto split: option.split dest!: sym [THEN next_resource_le])

declare disposeResources.simps [simp del]

section \<open>Every resource is disposed of, the last one first\<close>

text \<open>What one entry does: the error it adds, and whether it is waited for.\<close>

definition entry_error :: "('f \<Rightarrow> 'e call) \<Rightarrow> 'f entry \<Rightarrow> 'e option" where
  "entry_error out r = (case entry_dispose r of None \<Rightarrow> None | Some f \<Rightarrow>
     (case out f of Throws e \<Rightarrow> Some e | Rejects e \<Rightarrow> if entry_async r then Some e else None | Returns \<Rightarrow> None))"

definition entry_waits :: "('f \<Rightarrow> 'e call) \<Rightarrow> 'f entry \<Rightarrow> bool" where
  "entry_waits out r = (entry_async r \<and> (case entry_dispose r of None \<Rightarrow> True | Some f \<Rightarrow> \<not> (\<exists>e. out f = Throws e)))"

text \<open>The reference: the entries from the last to the first.\<close>

definition collect_errors :: "('f \<Rightarrow> 'e call) \<Rightarrow> 'f entry list \<Rightarrow> 'e failure option \<Rightarrow> 'e failure option" where
  "collect_errors out rs err = fold (\<lambda>r err. case entry_error out r of None \<Rightarrow> err | Some e \<Rightarrow> fail e err) rs err"

text \<open>Disposers whose outcome depends on the disposer only; the world is the list of those called.\<close>

definition logged :: "('f \<Rightarrow> 'e call) \<Rightarrow> 'f \<Rightarrow> 'f list \<Rightarrow> 'f list \<times> 'e call" where
  "logged out f w = (w @ [f], out f)"

lemma next_resource_Nil: "env_stack env = [] \<Longrightarrow> next_resource run env w = (env, w, Finished)"
  by (simp add: next_resource.simps [of run env w])

lemma next_resource_snoc:
  assumes "env_stack env = rs @ [r]" "call_entry run r w = (v, c)"
  shows "next_resource run env w = (let env = env\<lparr>env_stack := rs\<rparr> in case c of
       Throws e \<Rightarrow> next_resource run (env\<lparr>env_error := fail e (env_error env)\<rparr>) v
     | Returns \<Rightarrow> if entry_async r then (env, v, Waiting None) else next_resource run env v
     | Rejects e \<Rightarrow> if entry_async r then (env, v, Waiting (Some e)) else next_resource run env v)"
  using assms by (cases c) (simp_all add: next_resource.simps [of run env w] Let_def)

text \<open>One entry more on the stack: it is called, and what it did is noted.\<close>

lemma dispose_snoc:
  assumes stack: "env_stack env = rs @ [r]"
  shows "disposeResources (logged out) env w =
    (let env' = env\<lparr>env_stack := rs, env_error := (case entry_error out r of None \<Rightarrow> env_error env
           | Some e \<Rightarrow> fail e (env_error env))\<rparr>;
         w' = w @ (case entry_dispose r of None \<Rightarrow> [] | Some f \<Rightarrow> [f])
     in if entry_waits out r
        then (case disposeResources (logged out) env' w' of (w, n, res) \<Rightarrow> (w, Suc n, res))
        else disposeResources (logged out) env' w')"
proof -
  define w' where "w' = w @ (case entry_dispose r of None \<Rightarrow> [] | Some f \<Rightarrow> [f])"
  define c where "c = (case entry_dispose r of None \<Rightarrow> Returns | Some f \<Rightarrow> out f)"
  have call: "call_entry (logged out) r w = (w', c)"
    by (simp add: call_entry_def logged_def w'_def c_def split: option.split)
  have err: "entry_error out r = (case c of Throws e \<Rightarrow> Some e
      | Rejects e \<Rightarrow> if entry_async r then Some e else None | Returns \<Rightarrow> None)"
    and wait: "entry_waits out r \<longleftrightarrow> entry_async r \<and> (\<forall>e. c \<noteq> Throws e)"
    by (auto simp: entry_error_def entry_waits_def c_def split: option.split)
  note nx = next_resource_snoc [OF stack call]
  have same: "env\<lparr>env_stack := rs, env_error := env_error env\<rparr> = env\<lparr>env_stack := rs\<rparr>" by simp
  show ?thesis
  proof (cases "entry_waits out r")
    case True
    with wait nx err show ?thesis
      by (cases c) (simp_all add: disposeResources.simps [of _ env w] Let_def w'_def [symmetric] same)
  next
    case False
    with wait err nx have "next_resource (logged out) env w = next_resource (logged out)
        (env\<lparr>env_stack := rs, env_error := (case entry_error out r of None \<Rightarrow> env_error env
           | Some e \<Rightarrow> fail e (env_error env))\<rparr>) w'"
      by (cases c) (simp_all add: Let_def same)
    with False show ?thesis
      by (simp add: disposeResources.simps [of _ env w] disposeResources.simps [of _ _ w'] Let_def w'_def [symmetric])
  qed
qed

text \<open>
  Whatever the disposers do, each resource of the block is disposed of exactly once, the last one
  first; as many promises are waited for as there are asynchronous entries that do not throw; and the
  block ends with the error that collects every failure, each later one suppressing those before it.
\<close>

theorem disposal_order:
  "disposeResources (logged out) \<lparr>env_stack = rs, env_error = err\<rparr> w =
     (w @ List.map_filter entry_dispose (rev rs), length (filter (entry_waits out) rs),
      case collect_errors out (rev rs) err of None \<Rightarrow> Inr () | Some e \<Rightarrow> Inl e)"
proof (induction rs arbitrary: err w rule: rev_induct)
  case Nil
  show ?case
    by (subst disposeResources.simps) (simp add: next_resource_Nil collect_errors_def List.map_filter_def)
next
  case (snoc r rs)
  let ?env = "\<lparr>env_stack = rs @ [r], env_error = err\<rparr>"
  have step: "disposeResources (logged out) ?env w =
    (let e' = (case entry_error out r of None \<Rightarrow> err | Some e \<Rightarrow> fail e err);
         res = disposeResources (logged out) \<lparr>env_stack = rs, env_error = e'\<rparr>
           (w @ (case entry_dispose r of None \<Rightarrow> [] | Some f \<Rightarrow> [f]))
     in if entry_waits out r then (case res of (w, n, x) \<Rightarrow> (w, Suc n, x)) else res)"
    using dispose_snoc [of ?env rs r out w] by (cases "entry_error out r") (simp_all add: Let_def)
  show ?case unfolding step snoc.IH
    by (simp add: Let_def collect_errors_def List.map_filter_def split: option.split)
qed

section \<open>What is added is disposed of\<close>

text \<open>
  Adding a resource puts exactly one entry on top, whose disposer is the asynchronous one if it was
  asked for and is there, else the synchronous one; \<open>null\<close> needs none, but an \<open>await using\<close> of it still
  waits once; and a value without a disposer is refused, with the stack unchanged.
\<close>

theorem resource_added:
  "addDisposableResource \<lparr>has_async_dispose = True, has_dispose = True\<rparr> env val async =
     (case val of
        Primitive \<Rightarrow> Inl ObjectExpected
      | Nullish \<Rightarrow> Inr (env\<lparr>env_stack := env_stack env @ (if async then [\<lparr>entry_dispose = None, entry_async = True\<rparr>] else [])\<rparr>)
      | Object a s \<Rightarrow>
          (case (if async \<and> a \<noteq> PUndefined then a else s) of
             PFunction f \<Rightarrow> Inr (env\<lparr>env_stack := env_stack env @ [\<lparr>entry_dispose = Some f, entry_async = async\<rparr>]\<rparr>)
           | _ \<Rightarrow> Inl NotDisposable))"
  by (simp add: addDisposableResource_def find_disposer_def push_entry_def Let_def
      split: target.split property.split)

end
