(* ===== verification/Declarations.thy ===== *)
theory Declarations
  imports Prelude
begin

text \<open>
  The declaration files that \<open>tsWorker.js\<close> carries (its table \<open>libFileMap\<close>, the texts \<open>lib.*.d.ts\<close>)
  as data: an interface or a declared object is a list of its members, in the order of the file. Here
  are the reading of a member by its name, and the order of names that lets large declarations be
  compared in one pass. Compare \<open>LibTags\<close> and \<open>LibWebGL\<close>, which hold the declarations.
\<close>

section \<open>Members by name\<close>

fun member :: "string \<Rightarrow> (string \<times> 'a) list \<Rightarrow> 'a option" where
  "member n [] = None"
| "member n ((k, v) # ms) = (if k = n then Some v else member n ms)"

text \<open>Evaluation looks at the head of a declaration only.\<close>

lemma member_head: "n = n' \<Longrightarrow> member n ms = member n' ms"
  by simp

lemma member_append: "member n (xs @ ys) = (case member n xs of None \<Rightarrow> member n ys | Some v \<Rightarrow> Some v)"
  by (induction n xs rule: member.induct) auto

lemma member_None: "member n ms = None \<longleftrightarrow> n \<notin> fst ` set ms"
  by (induction n ms rule: member.induct) auto

lemma member_key: "member n ms = Some v \<Longrightarrow> n \<in> fst ` set ms"
  using member_None [of n ms] by auto

lemma member_SomeD: "member n ms = Some v \<Longrightarrow> (n, v) \<in> set ms"
  by (induction n ms rule: member.induct) (auto split: if_splits)

lemma member_distinct: "distinct (map fst ms) \<Longrightarrow> (n, v) \<in> set ms \<Longrightarrow> member n ms = Some v"
  by (induction n ms rule: member.induct) force+

section \<open>Declarations in the order of their names\<close>

fun before :: "string \<Rightarrow> string \<Rightarrow> bool" where
  "before s [] = False"
| "before [] (d # t) = True"
| "before (c # s) (d # t) = ((of_char c :: nat) < of_char d \<or> c = d \<and> before s t)"

lemma before_irrefl: "\<not> before s s"
  by (induction s) auto

lemma before_trans: "before s t \<Longrightarrow> before t u \<Longrightarrow> before s u"
proof (induction s t arbitrary: u rule: before.induct)
  case (3 c s d t)
  then show ?case by (cases u) auto
qed (auto elim: before.elims)

fun in_order :: "(string \<times> 'a) list \<Rightarrow> bool" where
  "in_order (x # y # ms) = (before (fst x) (fst y) \<and> in_order (y # ms))"
| "in_order ms = True"

lemma in_order_step: "in_order (x # y # ms) \<longleftrightarrow> before (fst x) (fst y) \<and> in_order (y # ms)"
  by simp

lemma in_order_head: "in_order ms = in_order ms"
  by (rule refl)

lemma in_order_Cons: "in_order (x # ms) \<longleftrightarrow> in_order ms \<and> (\<forall>y \<in> set ms. before (fst x) (fst y))"
proof (induction ms arbitrary: x)
  case (Cons y ms)
  then show ?case using before_trans by auto
qed simp

lemma in_order_distinct: "in_order ms \<Longrightarrow> distinct (map fst ms)"
proof (induction ms)
  case (Cons x ms)
  then show ?case using before_irrefl by (auto simp: in_order_Cons)
qed simp

text \<open>The names two ordered declarations share, in one pass over both.\<close>

fun common :: "(string \<times> 'a) list \<Rightarrow> (string \<times> 'b) list \<Rightarrow> string list" where
  "common ((k, v) # xs) ((l, w) # ys) =
     (if k = l then k # common xs ys
      else if before k l then common xs ((l, w) # ys) else common ((k, v) # xs) ys)"
| "common xs ys = []"

lemma common_head: "common xs ys = common xs ys"
  by (rule refl)

lemma before_total: "s \<noteq> t \<Longrightarrow> \<not> before s t \<Longrightarrow> before t s"
proof (induction s t rule: before.induct)
  case (1 s)
  then show ?case by (cases s) auto
qed auto

lemma before_all_notin: "in_order ys \<Longrightarrow> ys = y # zs \<Longrightarrow> before k (fst y) \<Longrightarrow> k \<notin> fst ` set ys"
proof
  assume a: "in_order ys" "ys = y # zs" "before k (fst y)" "k \<in> fst ` set ys"
  then consider "k = fst y" | z where "z \<in> set zs" "k = fst z" by auto
  then show False
  proof cases
    case 1
    with a(3) show False using before_irrefl by simp
  next
    case 2
    from a(1,2) 2 have "before (fst y) k" by (simp add: in_order_Cons)
    from before_trans [OF a(3) this] show False using before_irrefl by simp
  qed
qed

lemma common_set: "in_order xs \<Longrightarrow> in_order ys \<Longrightarrow> set (common xs ys) = fst ` set xs \<inter> fst ` set ys"
proof (induction xs ys rule: common.induct)
  case (1 k v xs l w ys)
  have order: "in_order xs" "in_order ys" using "1.prems" by (simp_all add: in_order_Cons)
  show ?case
  proof (cases "k = l")
    case True
    have "k \<notin> fst ` set xs" "k \<notin> fst ` set ys"
      using "1.prems" True before_irrefl by (force simp: in_order_Cons)+
    then show ?thesis using "1.IH"(1) [OF True order] True by auto
  next
    case ne: False
    show ?thesis
    proof (cases "before k l")
      case True
      have "k \<notin> fst ` set ((l, w) # ys)"
        using before_all_notin [OF "1.prems"(2) refl] True by simp
      then show ?thesis using "1.IH"(2) [OF ne True order(1) "1.prems"(2)] ne True by auto
    next
      case False
      have "l \<notin> fst ` set ((k, v) # xs)"
        using before_all_notin [OF "1.prems"(1) refl] before_total [OF ne False] by simp
      then show ?thesis using "1.IH"(3) [OF ne False "1.prems"(1) order(2)] ne False by auto
    qed
  qed
qed auto

end
