(* ===== verification/TsHost.thy ===== *)
theory TsHost
  imports Declarations JsString
begin

text \<open>
  The TypeScript worker of \<open>tsWorker.js\<close> (the class at line 51312) as the host of the language service: which files
  there are, their texts and versions, the default library, and what a request for a library file gives. The
  libraries are the table \<open>libFileMap\<close> (lines 393 to 51312): here the names of its files in their order, each
  with the libraries its \<open>/// <reference lib=.../>\<close> lines ask for; their texts are a parameter.
\<close>

section \<open>The libraries\<close>

definition lib_files :: "(string \<times> string list) list" where
  "lib_files =
  [
   (''lib.d.ts'', [''es5'', ''dom'', ''webworker.importscripts'', ''scripthost'']),
   (''lib.decorators.d.ts'', []), (''lib.decorators.legacy.d.ts'', []), (''lib.dom.asynciterable.d.ts'', []),
   (''lib.dom.d.ts'', []), (''lib.dom.iterable.d.ts'', []), (''lib.es2015.collection.d.ts'', []),
   (''lib.es2015.core.d.ts'', []),
   (''lib.es2015.d.ts'', [''es5'', ''es2015.core'', ''es2015.collection'', ''es2015.iterable'', ''es2015.generator'', ''es2015.promise'', ''es2015.proxy'', ''es2015.reflect'', ''es2015.symbol'', ''es2015.symbol.wellknown'']),
   (''lib.es2015.generator.d.ts'', [''es2015.iterable'']), (''lib.es2015.iterable.d.ts'', [''es2015.symbol'']),
   (''lib.es2015.promise.d.ts'', []), (''lib.es2015.proxy.d.ts'', []), (''lib.es2015.reflect.d.ts'', []),
   (''lib.es2015.symbol.d.ts'', []), (''lib.es2015.symbol.wellknown.d.ts'', [''es2015.symbol'']),
   (''lib.es2016.array.include.d.ts'', []),
   (''lib.es2016.d.ts'', [''es2015'', ''es2016.array.include'', ''es2016.intl'']),
   (''lib.es2016.full.d.ts'', [''es2016'', ''dom'', ''webworker.importscripts'', ''scripthost'', ''dom.iterable'']),
   (''lib.es2016.intl.d.ts'', []),
   (''lib.es2017.d.ts'', [''es2016'', ''es2017.object'', ''es2017.sharedmemory'', ''es2017.string'', ''es2017.intl'', ''es2017.typedarrays'', ''es2017.date'']),
   (''lib.es2017.date.d.ts'', []),
   (''lib.es2017.full.d.ts'', [''es2017'', ''dom'', ''webworker.importscripts'', ''scripthost'', ''dom.iterable'']),
   (''lib.es2017.intl.d.ts'', []), (''lib.es2017.object.d.ts'', []),
   (''lib.es2017.sharedmemory.d.ts'', [''es2015.symbol'', ''es2015.symbol.wellknown'']),
   (''lib.es2017.string.d.ts'', []), (''lib.es2017.typedarrays.d.ts'', []),
   (''lib.es2018.asyncgenerator.d.ts'', [''es2018.asynciterable'']),
   (''lib.es2018.asynciterable.d.ts'', [''es2015.symbol'', ''es2015.iterable'']),
   (''lib.es2018.d.ts'', [''es2017'', ''es2018.asynciterable'', ''es2018.asyncgenerator'', ''es2018.promise'', ''es2018.regexp'', ''es2018.intl'']),
   (''lib.es2018.full.d.ts'', [''es2018'', ''dom'', ''webworker.importscripts'', ''scripthost'', ''dom.iterable'', ''dom.asynciterable'']),
   (''lib.es2018.intl.d.ts'', []), (''lib.es2018.promise.d.ts'', []), (''lib.es2018.regexp.d.ts'', []),
   (''lib.es2019.array.d.ts'', []),
   (''lib.es2019.d.ts'', [''es2018'', ''es2019.array'', ''es2019.object'', ''es2019.string'', ''es2019.symbol'', ''es2019.intl'']),
   (''lib.es2019.full.d.ts'', [''es2019'', ''dom'', ''webworker.importscripts'', ''scripthost'', ''dom.iterable'', ''dom.asynciterable'']),
   (''lib.es2019.intl.d.ts'', []), (''lib.es2019.object.d.ts'', [''es2015.iterable'']),
   (''lib.es2019.string.d.ts'', []), (''lib.es2019.symbol.d.ts'', []),
   (''lib.es2020.bigint.d.ts'', [''es2020.intl'']),
   (''lib.es2020.d.ts'', [''es2019'', ''es2020.bigint'', ''es2020.date'', ''es2020.number'', ''es2020.promise'', ''es2020.sharedmemory'', ''es2020.string'', ''es2020.symbol.wellknown'', ''es2020.intl'']),
   (''lib.es2020.date.d.ts'', [''es2020.intl'']),
   (''lib.es2020.full.d.ts'', [''es2020'', ''dom'', ''webworker.importscripts'', ''scripthost'', ''dom.iterable'', ''dom.asynciterable'']),
   (''lib.es2020.intl.d.ts'', [''es2018.intl'']), (''lib.es2020.number.d.ts'', [''es2020.intl'']),
   (''lib.es2020.promise.d.ts'', []), (''lib.es2020.sharedmemory.d.ts'', []),
   (''lib.es2020.string.d.ts'', [''es2015.iterable'']),
   (''lib.es2020.symbol.wellknown.d.ts'', [''es2015.iterable'', ''es2015.symbol'']),
   (''lib.es2021.d.ts'', [''es2020'', ''es2021.promise'', ''es2021.string'', ''es2021.weakref'', ''es2021.intl'']),
   (''lib.es2021.full.d.ts'', [''es2021'', ''dom'', ''webworker.importscripts'', ''scripthost'', ''dom.iterable'', ''dom.asynciterable'']),
   (''lib.es2021.intl.d.ts'', []), (''lib.es2021.promise.d.ts'', []), (''lib.es2021.string.d.ts'', []),
   (''lib.es2021.weakref.d.ts'', []), (''lib.es2022.array.d.ts'', []),
   (''lib.es2022.d.ts'', [''es2021'', ''es2022.array'', ''es2022.error'', ''es2022.intl'', ''es2022.object'', ''es2022.sharedmemory'', ''es2022.string'', ''es2022.regexp'']),
   (''lib.es2022.error.d.ts'', []),
   (''lib.es2022.full.d.ts'', [''es2022'', ''dom'', ''webworker.importscripts'', ''scripthost'', ''dom.iterable'', ''dom.asynciterable'']),
   (''lib.es2022.intl.d.ts'', []), (''lib.es2022.object.d.ts'', []), (''lib.es2022.regexp.d.ts'', []),
   (''lib.es2022.sharedmemory.d.ts'', []), (''lib.es2022.string.d.ts'', []), (''lib.es2023.array.d.ts'', []),
   (''lib.es2023.collection.d.ts'', []),
   (''lib.es2023.d.ts'', [''es2022'', ''es2023.array'', ''es2023.collection'']),
   (''lib.es2023.full.d.ts'', [''es2023'', ''dom'', ''webworker.importscripts'', ''scripthost'', ''dom.iterable'', ''dom.asynciterable'']),
   (''lib.es5.d.ts'', [''decorators'', ''decorators.legacy'']),
   (''lib.es6.d.ts'', [''es2015'', ''dom'', ''dom.iterable'', ''webworker.importscripts'', ''scripthost'']),
   (''lib.esnext.collection.d.ts'', []),
   (''lib.esnext.d.ts'', [''es2023'', ''esnext.intl'', ''esnext.decorators'', ''esnext.disposable'', ''esnext.promise'', ''esnext.object'', ''esnext.collection'']),
   (''lib.esnext.decorators.d.ts'', [''es2015.symbol'', ''decorators'']),
   (''lib.esnext.disposable.d.ts'', [''es2015.symbol'']),
   (''lib.esnext.full.d.ts'', [''esnext'', ''dom'', ''webworker.importscripts'', ''scripthost'', ''dom.iterable'', ''dom.asynciterable'']),
   (''lib.esnext.intl.d.ts'', []), (''lib.esnext.object.d.ts'', []), (''lib.esnext.promise.d.ts'', []),
   (''lib.scripthost.d.ts'', []), (''lib.webworker.asynciterable.d.ts'', []), (''lib.webworker.d.ts'', []),
   (''lib.webworker.importscripts.d.ts'', []), (''lib.webworker.iterable.d.ts'', [])]"

text \<open>The file that a reference, or an entry of the option \<open>lib\<close>, stands for.\<close>

definition lib_name :: "string \<Rightarrow> string" where
  "lib_name r = ''lib.'' @ r @ ''.d.ts''"

text \<open>The table is a plain object, so that \<open>in\<close> and \<open>[]\<close> find the members of \<open>Object.prototype\<close> too.\<close>

definition object_names :: "string list" where
  "object_names = [''constructor'', ''__defineGetter__'', ''__defineSetter__'', ''hasOwnProperty'',
     ''__lookupGetter__'', ''__lookupSetter__'', ''isPrototypeOf'', ''propertyIsEnumerable'', ''toString'', ''valueOf'',
     ''__proto__'', ''toLocaleString'']"

definition is_lib :: "string \<Rightarrow> bool" where
  "is_lib n = (member n lib_files \<noteq> None)"

section \<open>The host\<close>

text \<open>A model that the editor mirrors: its URI as text, encoded and not, the path of it, and the document.\<close>

record model =
  m_uri :: string
  m_raw_uri :: string
  m_path :: string
  m_version :: nat
  m_value :: string

record extra_lib =
  x_content :: string
  x_version :: int

record host =
  models :: "model list"
  extra_libs :: "(string \<times> extra_lib) list"
  allow_js :: bool
  target :: "nat option"
  lib_text :: "string \<Rightarrow> string"

text \<open>A text, or something found on \<open>Object.prototype\<close> that is none.\<close>

datatype script = Text string | NoText

definition getModel :: "host \<Rightarrow> string \<Rightarrow> model option" where
  "getModel h n = find (\<lambda>m. m_uri m = n \<or> m_raw_uri m = n) (models h)"

definition in_libs :: "string \<Rightarrow> bool" where
  "in_libs n = (is_lib n \<or> n \<in> set object_names)"

definition lib_entry :: "host \<Rightarrow> string \<Rightarrow> script" where
  "lib_entry h n = (if is_lib n then Text (lib_text h n) else NoText)"

definition in_extra :: "host \<Rightarrow> string \<Rightarrow> bool" where
  "in_extra h n = (member n (extra_libs h) \<noteq> None \<or> n \<in> set object_names)"

definition extra_entry :: "host \<Rightarrow> string \<Rightarrow> script" where
  "extra_entry h n = (case member n (extra_libs h) of Some x \<Rightarrow> Text (x_content x) | None \<Rightarrow> NoText)"

definition getScriptText :: "host \<Rightarrow> string \<Rightarrow> script option" where
  "getScriptText h n = (case getModel h n of
       Some m \<Rightarrow> Some (Text (m_value m))
     | None \<Rightarrow>
         if in_libs n then Some (lib_entry h n)
         else if in_libs (lib_name n) then Some (lib_entry h (lib_name n))
         else if in_extra h n then Some (extra_entry h n)
         else None)"

text \<open>\<open>substring\<close> on the text: the positions are put in order and cut to the length.\<close>

definition substring :: "string \<Rightarrow> nat \<Rightarrow> nat \<Rightarrow> string" where
  "substring s i j = take (max i j - min i j) (drop (min i j) s)"

definition fileExists :: "host \<Rightarrow> string \<Rightarrow> bool" where
  "fileExists h n = (getScriptText h n \<noteq> None)"

text \<open>\<open>target\<close> 99 is \<open>ESNext\<close>, 0 and 1 are before 2015; the year is 2013 more than the target.\<close>

definition year_lib :: "nat option \<Rightarrow> string" where
  "year_lib t = ''lib.es'' @ show_nat (2013 + (case t of None \<Rightarrow> 99 | Some k \<Rightarrow> k)) @ ''.full.d.ts''"

definition getDefaultLibFileName :: "host \<Rightarrow> nat option \<Rightarrow> string" where
  "getDefaultLibFileName h t = (
     if t = Some 99 \<and> (in_libs ''lib.esnext.full.d.ts'' \<or> in_extra h ''lib.esnext.full.d.ts'')
     then ''lib.esnext.full.d.ts''
     else if t = Some 0 \<or> t = Some 1 then ''lib.d.ts''
     else if in_libs (year_lib t) \<or> in_extra h (year_lib t) then year_lib t
     else ''lib.es6.d.ts'')"

definition isDefaultLibFileName :: "host \<Rightarrow> string \<Rightarrow> bool" where
  "isDefaultLibFileName h n = (n = getDefaultLibFileName h (target h))"

definition getScriptVersion :: "host \<Rightarrow> string \<Rightarrow> string" where
  "getScriptVersion h n = (case getModel h n of
       Some m \<Rightarrow> show_nat (m_version m)
     | None \<Rightarrow>
         if isDefaultLibFileName h n then ''1''
         else (case member n (extra_libs h) of
               Some x \<Rightarrow> show_int (x_version x)
             | None \<Rightarrow> if n \<in> set object_names then ''undefined'' else []))"

datatype script_kind = JS | JSX | TS | TSX

definition getScriptKind :: "host \<Rightarrow> string \<Rightarrow> script_kind" where
  "getScriptKind h n = (
     let ext = (case last_index_of CHR ''.'' n of None \<Rightarrow> n | Some i \<Rightarrow> drop (Suc i) n)
     in if ext = ''ts'' then TS else if ext = ''tsx'' then TSX else if ext = ''js'' then JS
        else if ext = ''jsx'' then JSX else if allow_js h then JS else TS)"

section \<open>Library files and requests\<close>

text \<open>\<open>!!libFileMap[n]\<close>: an empty text would not count.\<close>

definition lib_truthy :: "host \<Rightarrow> string \<Rightarrow> bool" where
  "lib_truthy h n = (is_lib n \<and> lib_text h n \<noteq> [] \<or> n \<in> set object_names)"

definition is_lib_uri :: "host \<Rightarrow> string \<Rightarrow> bool" where
  "is_lib_uri h s = (take 8 s = ''file:///'' \<and> lib_truthy h (drop 8 s))"

definition is_lib_model :: "host \<Rightarrow> model \<Rightarrow> bool" where
  "is_lib_model h m = (take 5 (m_path m) = ''/lib.'' \<and> lib_truthy h (drop 1 (m_path m)))"

definition getScriptFileNames :: "host \<Rightarrow> string list" where
  "getScriptFileNames h =
     map m_uri (filter (\<lambda>m. \<not> is_lib_model h m) (models h)) @ map fst (extra_libs h)"

datatype request =
    SyntacticDiagnostics | SemanticDiagnostics | SuggestionDiagnostics | CompilerOptionsDiagnostics
  | CompletionsAtPosition | CompletionEntryDetails | SignatureHelpItems | QuickInfoAtPosition | DocumentHighlights
  | DefinitionAtPosition | ReferencesAtPosition | NavigationTree | FormattingEditsForDocument
  | FormattingEditsForRange | FormattingEditsAfterKeystroke | RenameLocations | RenameInfo | EmitOutput
  | CodeFixesAtPosition | InlayHints

text \<open>An answer of the worker: nothing, an empty list, the two special ones for library files, or what the service gave.\<close>

datatype 'a answer = Nothing | EmptyList | CannotRename | EmitSkipped | Given 'a | Cleared 'a

definition lib_answer :: "request \<Rightarrow> 'a answer" where
  "lib_answer q = (case q of
       CompletionsAtPosition \<Rightarrow> Nothing | SignatureHelpItems \<Rightarrow> Nothing | QuickInfoAtPosition \<Rightarrow> Nothing
     | DocumentHighlights \<Rightarrow> Nothing | DefinitionAtPosition \<Rightarrow> Nothing | ReferencesAtPosition \<Rightarrow> Nothing
     | NavigationTree \<Rightarrow> Nothing | RenameLocations \<Rightarrow> Nothing
     | RenameInfo \<Rightarrow> CannotRename | EmitOutput \<Rightarrow> EmitSkipped | _ \<Rightarrow> EmptyList)"

text \<open>The diagnostics are cut down to what can be sent to the editor; two requests give an empty list for an error.\<close>

definition clears :: "request \<Rightarrow> bool" where
  "clears q = (q \<in> {SyntacticDiagnostics, SemanticDiagnostics, SuggestionDiagnostics, CompilerOptionsDiagnostics, EmitOutput})"

definition respond :: "host \<Rightarrow> (request \<Rightarrow> string \<Rightarrow> 'e + 'a) \<Rightarrow> request \<Rightarrow> string \<Rightarrow> 'e + 'a answer" where
  "respond h service q n = (
     if q \<noteq> CompletionEntryDetails \<and> is_lib_uri h n then Inr (lib_answer q)
     else (case service q n of
         Inl e \<Rightarrow> if q = CodeFixesAtPosition \<or> q = InlayHints then Inr EmptyList else Inl e
       | Inr a \<Rightarrow> Inr (if clears q then Cleared a else Given a)))"

section \<open>Every file that is listed exists\<close>

lemma getModel_listed: "m \<in> set (models h) \<Longrightarrow> getModel h (m_uri m) \<noteq> None"
  by (auto simp: getModel_def find_None_iff)

text \<open>The language service is given a text for each file it is told of, be it a model or an extra library, and
  a version that is not empty.\<close>

theorem listed_files_exist:
  "list_all (\<lambda>n. fileExists h n \<and> getScriptVersion h n \<noteq> []) (getScriptFileNames h)"
proof -
  have "fileExists h (m_uri m) \<and> getScriptVersion h (m_uri m) \<noteq> []" if "m \<in> set (models h)" for m
    using getModel_listed [OF that] by (auto simp: fileExists_def getScriptText_def getScriptVersion_def)
  moreover have "fileExists h n \<and> getScriptVersion h n \<noteq> []" if listed: "n \<in> fst ` set (extra_libs h)" for n
  proof -
    obtain x where "member n (extra_libs h) = Some x"
      using member_None [of n "extra_libs h"] listed by (cases "member n (extra_libs h)") auto
    then show ?thesis
      by (auto simp: fileExists_def getScriptText_def getScriptVersion_def in_extra_def show_int_def split: option.split)
  qed
  ultimately show ?thesis
    by (auto simp: list_all_iff getScriptFileNames_def)
qed

section \<open>Versions and texts\<close>

text \<open>
  Where the text of a name comes from. An editor changes the version of a model with its text, and an extra library
  is replaced under a new version: \<open>follows\<close> says this of two states of the host.
\<close>

datatype origin = FromModel string | FromLib | FromExtra | Nowhere

definition origin :: "host \<Rightarrow> string \<Rightarrow> origin" where
  "origin h n = (case getModel h n of
       Some m \<Rightarrow> FromModel (m_uri m)
     | None \<Rightarrow> if in_libs n \<or> in_libs (lib_name n) then FromLib else if in_extra h n then FromExtra else Nowhere)"

definition follows :: "host \<Rightarrow> host \<Rightarrow> bool" where
  "follows h h' \<longleftrightarrow> lib_text h' = lib_text h \<and>
     (\<forall>m \<in> set (models h). \<forall>m' \<in> set (models h').
        m_uri m' = m_uri m \<and> m_version m' = m_version m \<longrightarrow> m_value m' = m_value m) \<and>
     (\<forall>n x x'. member n (extra_libs h) = Some x \<longrightarrow> member n (extra_libs h') = Some x' \<longrightarrow>
        x_version x' = x_version x \<longrightarrow> x_content x' = x_content x)"

definition no_default :: "host \<Rightarrow> string \<Rightarrow> bool" where
  "no_default h n = (\<not> isDefaultLibFileName h n \<or> is_lib n)"

lemma getModel_in: "getModel h n = Some m \<Longrightarrow> m \<in> set (models h)"
  by (auto simp: getModel_def find_Some_iff)

lemma lib_texts: "lib_text h' = lib_text h \<Longrightarrow> lib_entry h' n = lib_entry h n"
  by (simp add: lib_entry_def)

lemma extra_member: "in_extra h n \<Longrightarrow> \<not> in_libs n \<Longrightarrow> \<exists>x. member n (extra_libs h) = Some x"
  by (auto simp: in_extra_def in_libs_def)

text \<open>As long as the text of a file comes from the same place, the version that the worker reports for it tells
  whether it has changed: the same version means the same text. (A default library that is an extra library
  is the exception: its version is always 1.)\<close>

theorem version_tells_text:
  assumes "follows h h'" and "origin h' n = origin h n" and "no_default h n" and "no_default h' n"
    and "getScriptVersion h' n = getScriptVersion h n"
  shows "getScriptText h' n = getScriptText h n"
proof (cases "getModel h n")
  case (Some m)
  then obtain m' where m': "getModel h' n = Some m'" "m_uri m' = m_uri m"
    using assms(2) by (auto simp: origin_def split: option.splits if_splits)
  then have "m_value m' = m_value m"
    using assms(1,5) Some getModel_in [of h n m] getModel_in [of h' n m']
    by (auto simp: follows_def getScriptVersion_def show_nat_inj)
  then show ?thesis
    using Some m' by (simp add: getScriptText_def)
next
  case None
  then have none: "getModel h' n = None"
    using assms(2) by (auto simp: origin_def split: option.splits if_splits)
  have libs: "lib_text h' = lib_text h"
    using assms(1) by (simp add: follows_def)
  show ?thesis
  proof (cases "in_libs n \<or> in_libs (lib_name n) \<or> \<not> in_extra h n")
    case True
    then show ?thesis
      using None none assms(2) lib_texts [OF libs] by (auto simp: getScriptText_def origin_def split: if_splits)
  next
    case False
    then have "in_extra h' n"
      using None none assms(2) by (auto simp: origin_def split: if_splits)
    with False obtain x x' where x: "member n (extra_libs h) = Some x" "member n (extra_libs h') = Some x'"
      using extra_member by blast
    have "\<not> isDefaultLibFileName h n" "\<not> isDefaultLibFileName h' n"
      using assms(3,4) False by (simp_all add: no_default_def in_libs_def)
    then have "x_version x' = x_version x"
      using assms(5) None none x by (simp add: getScriptVersion_def show_int_inj)
    then have "x_content x' = x_content x"
      using assms(1) x unfolding follows_def by blast
    then show ?thesis
      using None none False x by (simp add: getScriptText_def in_extra_def extra_entry_def)
  qed
qed

text \<open>A host with one extra library, and later a model of the same name.\<close>

definition with_extra :: "string \<Rightarrow> string \<Rightarrow> host" where
  "with_extra n a = \<lparr>models = [], extra_libs = [(n, \<lparr>x_content = a, x_version = 1\<rparr>)], allow_js = False,
     target = Some 7, lib_text = (\<lambda>_. ''//'')\<rparr>"

definition open_model :: "string \<Rightarrow> string \<Rightarrow> host \<Rightarrow> host" where
  "open_model n b h = h\<lparr>models := models h @ [\<lparr>m_uri = n, m_raw_uri = n, m_path = n, m_version = 1, m_value = b\<rparr>]\<rparr>"

lemma x_no_lib: "\<not> in_libs ''x.ts''" "\<not> in_libs (lib_name ''x.ts'')"
  unfolding in_libs_def is_lib_def lib_files_def object_names_def lib_name_def append.simps
  by (simp_all cong: member_head)

lemma show_1: "show_nat 1 = ''1''" "show_int 1 = ''1''"
  by (simp_all add: show_int_def show_nat.simps digit_char_def char_of_def bit_0)

text \<open>A model that is opened under the name of an extra library may have the version of the library, 1, so that
  the version stays and the text changes: the language service does not see the difference.\<close>

theorem model_hides_extra_lib:
  "getScriptVersion (open_model ''x.ts'' b (with_extra ''x.ts'' a)) ''x.ts'' =
     getScriptVersion (with_extra ''x.ts'' a) ''x.ts'' \<and>
   getScriptText (with_extra ''x.ts'' a) ''x.ts'' = Some (Text a) \<and>
   getScriptText (open_model ''x.ts'' b (with_extra ''x.ts'' a)) ''x.ts'' = Some (Text b)"
proof -
  have "getDefaultLibFileName (with_extra ''x.ts'' a) (Some 7) \<noteq> ''x.ts''"
    by (simp add: getDefaultLibFileName_def year_lib_def)
  then show ?thesis
    using x_no_lib show_1
    by (simp add: getScriptVersion_def getScriptText_def getModel_def with_extra_def open_model_def in_extra_def
        extra_entry_def isDefaultLibFileName_def in_libs_def object_names_def)
qed

lemma default_7: "getDefaultLibFileName h (Some 7) \<noteq> ''x.ts''" "''x.ts'' \<noteq> getDefaultLibFileName h (Some 7)"
  by (simp_all add: getDefaultLibFileName_def year_lib_def)

theorem version_tells_text_witness:
  "let h = with_extra ''x.ts'' ''a''; h' = h\<lparr>extra_libs := [(''x.ts'', \<lparr>x_content = ''a'', x_version = 1\<rparr>), (''y.ts'', \<lparr>x_content = ''b'', x_version = 1\<rparr>)]\<rparr>
   in getScriptText h' ''x.ts'' = getScriptText h ''x.ts''"
proof -
  let ?h = "with_extra ''x.ts'' ''a''"
  let ?h' = "?h\<lparr>extra_libs := [(''x.ts'', \<lparr>x_content = ''a'', x_version = 1\<rparr>), (''y.ts'', \<lparr>x_content = ''b'', x_version = 1\<rparr>)]\<rparr>"
  have "no_default ?h ''x.ts''" "no_default ?h' ''x.ts''"
    by (simp_all add: no_default_def isDefaultLibFileName_def with_extra_def default_7)
  moreover have "follows ?h ?h'"
    by (simp add: follows_def with_extra_def)
  moreover have "origin ?h' ''x.ts'' = origin ?h ''x.ts''"
    by (simp add: origin_def with_extra_def getModel_def in_extra_def)
  moreover have "getScriptVersion ?h' ''x.ts'' = getScriptVersion ?h ''x.ts''"
    by (simp add: getScriptVersion_def with_extra_def getModel_def isDefaultLibFileName_def default_7)
  ultimately show ?thesis
    using version_tells_text [of ?h ?h' "''x.ts''"] by simp
qed

text \<open>A file of the name of a member of \<open>Object.prototype\<close> exists without anyone having added it, though it has no
  text, and a document of such a name is taken for a library: no errors are shown for it.\<close>

theorem inherited_names_exist:
  "list_all (\<lambda>n. getScriptText (h\<lparr>models := []\<rparr>) n = Some NoText \<and>
      respond h service SemanticDiagnostics (''file:///'' @ n) = Inr EmptyList) object_names"
proof -
  have "list_all (\<lambda>n. \<not> is_lib n) object_names"
    unfolding is_lib_def lib_files_def object_names_def by (simp cong: member_head)
  then show ?thesis
    by (auto simp: list_all_iff getScriptText_def getModel_def in_libs_def lib_entry_def respond_def is_lib_uri_def
        lib_truthy_def lib_answer_def)
qed

section \<open>The default library and what it loads\<close>

lemma default_libs: "is_lib ''lib.d.ts''" "is_lib ''lib.es6.d.ts''" "is_lib ''lib.esnext.full.d.ts''"
  unfolding is_lib_def lib_files_def by (simp_all cong: member_head)

text \<open>Whatever the target and the extra libraries are, the default library the worker names exists.\<close>

theorem default_lib_exists:
  "fileExists h (getDefaultLibFileName h t)"
  using default_libs
  by (auto simp: fileExists_def getScriptText_def getDefaultLibFileName_def in_libs_def split: option.split)

text \<open>All files that a library asks for, level by level; \<open>None\<close> when one is missing or the levels are used up.\<close>

fun all_some :: "'a option list \<Rightarrow> 'a list option" where
  "all_some [] = Some []"
| "all_some (x # xs) = (case x of None \<Rightarrow> None | Some v \<Rightarrow> map_option ((#) v) (all_some xs))"

fun load_lib :: "nat \<Rightarrow> string \<Rightarrow> string list option" where
  "load_lib 0 n = None"
| "load_lib (Suc k) n = (case member n lib_files of
       None \<Rightarrow> None
     | Some rs \<Rightarrow> map_option (\<lambda>xs. n # concat xs) (all_some (map (\<lambda>r. load_lib k (lib_name r)) rs)))"

lemma all_some_found: "(\<And>x. x \<in> set xs \<Longrightarrow> x \<noteq> None) \<Longrightarrow> \<exists>ys. all_some xs = Some ys"
proof (induction xs)
  case (Cons x xs)
  then show ?case by (cases x) auto
qed simp

text \<open>How deep the references of a library go; the others ask for nothing.\<close>

definition lib_ranks :: "(string \<times> nat) list" where
  "lib_ranks =
  [
   (''lib.d.ts'', 2), (''lib.es2015.d.ts'', 3), (''lib.es2015.generator.d.ts'', 2),
   (''lib.es2015.iterable.d.ts'', 1), (''lib.es2015.symbol.wellknown.d.ts'', 1), (''lib.es2016.d.ts'', 4),
   (''lib.es2016.full.d.ts'', 5), (''lib.es2017.d.ts'', 5), (''lib.es2017.full.d.ts'', 6),
   (''lib.es2017.sharedmemory.d.ts'', 2), (''lib.es2018.asyncgenerator.d.ts'', 3),
   (''lib.es2018.asynciterable.d.ts'', 2), (''lib.es2018.d.ts'', 6), (''lib.es2018.full.d.ts'', 7),
   (''lib.es2019.d.ts'', 7), (''lib.es2019.full.d.ts'', 8), (''lib.es2019.object.d.ts'', 2),
   (''lib.es2020.bigint.d.ts'', 2), (''lib.es2020.d.ts'', 8), (''lib.es2020.date.d.ts'', 2),
   (''lib.es2020.full.d.ts'', 9), (''lib.es2020.intl.d.ts'', 1), (''lib.es2020.number.d.ts'', 2),
   (''lib.es2020.string.d.ts'', 2), (''lib.es2020.symbol.wellknown.d.ts'', 2), (''lib.es2021.d.ts'', 9),
   (''lib.es2021.full.d.ts'', 10), (''lib.es2022.d.ts'', 10), (''lib.es2022.full.d.ts'', 11),
   (''lib.es2023.d.ts'', 11), (''lib.es2023.full.d.ts'', 12), (''lib.es5.d.ts'', 1), (''lib.es6.d.ts'', 4),
   (''lib.esnext.d.ts'', 12), (''lib.esnext.decorators.d.ts'', 1), (''lib.esnext.disposable.d.ts'', 1),
   (''lib.esnext.full.d.ts'', 13)]"

definition lib_rank :: "string \<Rightarrow> nat" where
  "lib_rank n = (case member n lib_ranks of Some k \<Rightarrow> k | None \<Rightarrow> 0)"

lemma found_0:
  "is_lib ''lib.decorators.d.ts''"
  "is_lib ''lib.decorators.legacy.d.ts''"
  "is_lib ''lib.dom.asynciterable.d.ts''"
  "is_lib ''lib.dom.d.ts''"
  "is_lib ''lib.dom.iterable.d.ts''"
  "is_lib ''lib.es2015.collection.d.ts''"
  "is_lib ''lib.es2015.core.d.ts''"
  "is_lib ''lib.es2015.d.ts''"
  "is_lib ''lib.es2015.generator.d.ts''"
  "is_lib ''lib.es2015.iterable.d.ts''"
  "is_lib ''lib.es2015.promise.d.ts''"
  "is_lib ''lib.es2015.proxy.d.ts''"
  unfolding is_lib_def lib_files_def by (simp_all cong: member_head)

lemma found_1:
  "is_lib ''lib.es2015.reflect.d.ts''"
  "is_lib ''lib.es2015.symbol.d.ts''"
  "is_lib ''lib.es2015.symbol.wellknown.d.ts''"
  "is_lib ''lib.es2016.array.include.d.ts''"
  "is_lib ''lib.es2016.d.ts''"
  "is_lib ''lib.es2016.intl.d.ts''"
  "is_lib ''lib.es2017.d.ts''"
  "is_lib ''lib.es2017.date.d.ts''"
  "is_lib ''lib.es2017.intl.d.ts''"
  "is_lib ''lib.es2017.object.d.ts''"
  "is_lib ''lib.es2017.sharedmemory.d.ts''"
  "is_lib ''lib.es2017.string.d.ts''"
  unfolding is_lib_def lib_files_def by (simp_all cong: member_head)

lemma found_2:
  "is_lib ''lib.es2017.typedarrays.d.ts''"
  "is_lib ''lib.es2018.asyncgenerator.d.ts''"
  "is_lib ''lib.es2018.asynciterable.d.ts''"
  "is_lib ''lib.es2018.d.ts''"
  "is_lib ''lib.es2018.intl.d.ts''"
  "is_lib ''lib.es2018.promise.d.ts''"
  "is_lib ''lib.es2018.regexp.d.ts''"
  "is_lib ''lib.es2019.array.d.ts''"
  "is_lib ''lib.es2019.d.ts''"
  "is_lib ''lib.es2019.intl.d.ts''"
  "is_lib ''lib.es2019.object.d.ts''"
  "is_lib ''lib.es2019.string.d.ts''"
  unfolding is_lib_def lib_files_def by (simp_all cong: member_head)

lemma found_3:
  "is_lib ''lib.es2019.symbol.d.ts''"
  "is_lib ''lib.es2020.bigint.d.ts''"
  "is_lib ''lib.es2020.d.ts''"
  "is_lib ''lib.es2020.date.d.ts''"
  "is_lib ''lib.es2020.intl.d.ts''"
  "is_lib ''lib.es2020.number.d.ts''"
  "is_lib ''lib.es2020.promise.d.ts''"
  "is_lib ''lib.es2020.sharedmemory.d.ts''"
  "is_lib ''lib.es2020.string.d.ts''"
  "is_lib ''lib.es2020.symbol.wellknown.d.ts''"
  "is_lib ''lib.es2021.d.ts''"
  "is_lib ''lib.es2021.intl.d.ts''"
  unfolding is_lib_def lib_files_def by (simp_all cong: member_head)

lemma found_4:
  "is_lib ''lib.es2021.promise.d.ts''"
  "is_lib ''lib.es2021.string.d.ts''"
  "is_lib ''lib.es2021.weakref.d.ts''"
  "is_lib ''lib.es2022.array.d.ts''"
  "is_lib ''lib.es2022.d.ts''"
  "is_lib ''lib.es2022.error.d.ts''"
  "is_lib ''lib.es2022.intl.d.ts''"
  "is_lib ''lib.es2022.object.d.ts''"
  "is_lib ''lib.es2022.regexp.d.ts''"
  "is_lib ''lib.es2022.sharedmemory.d.ts''"
  "is_lib ''lib.es2022.string.d.ts''"
  "is_lib ''lib.es2023.array.d.ts''"
  unfolding is_lib_def lib_files_def by (simp_all cong: member_head)

lemma found_5:
  "is_lib ''lib.es2023.collection.d.ts''"
  "is_lib ''lib.es2023.d.ts''"
  "is_lib ''lib.es5.d.ts''"
  "is_lib ''lib.esnext.collection.d.ts''"
  "is_lib ''lib.esnext.d.ts''"
  "is_lib ''lib.esnext.decorators.d.ts''"
  "is_lib ''lib.esnext.disposable.d.ts''"
  "is_lib ''lib.esnext.intl.d.ts''"
  "is_lib ''lib.esnext.object.d.ts''"
  "is_lib ''lib.esnext.promise.d.ts''"
  "is_lib ''lib.scripthost.d.ts''"
  "is_lib ''lib.webworker.importscripts.d.ts''"
  unfolding is_lib_def lib_files_def by (simp_all cong: member_head)

lemma rank_0:
  "lib_rank ''lib.d.ts'' = 2"
  "lib_rank ''lib.decorators.d.ts'' = 0"
  "lib_rank ''lib.decorators.legacy.d.ts'' = 0"
  "lib_rank ''lib.dom.asynciterable.d.ts'' = 0"
  "lib_rank ''lib.dom.d.ts'' = 0"
  "lib_rank ''lib.dom.iterable.d.ts'' = 0"
  "lib_rank ''lib.es2015.collection.d.ts'' = 0"
  "lib_rank ''lib.es2015.core.d.ts'' = 0"
  "lib_rank ''lib.es2015.d.ts'' = 3"
  "lib_rank ''lib.es2015.generator.d.ts'' = 2"
  "lib_rank ''lib.es2015.iterable.d.ts'' = 1"
  "lib_rank ''lib.es2015.promise.d.ts'' = 0"
  "lib_rank ''lib.es2015.proxy.d.ts'' = 0"
  "lib_rank ''lib.es2015.reflect.d.ts'' = 0"
  "lib_rank ''lib.es2015.symbol.d.ts'' = 0"
  unfolding lib_rank_def lib_ranks_def by (simp_all cong: member_head)

lemma rank_1:
  "lib_rank ''lib.es2015.symbol.wellknown.d.ts'' = 1"
  "lib_rank ''lib.es2016.array.include.d.ts'' = 0"
  "lib_rank ''lib.es2016.d.ts'' = 4"
  "lib_rank ''lib.es2016.full.d.ts'' = 5"
  "lib_rank ''lib.es2016.intl.d.ts'' = 0"
  "lib_rank ''lib.es2017.d.ts'' = 5"
  "lib_rank ''lib.es2017.date.d.ts'' = 0"
  "lib_rank ''lib.es2017.full.d.ts'' = 6"
  "lib_rank ''lib.es2017.intl.d.ts'' = 0"
  "lib_rank ''lib.es2017.object.d.ts'' = 0"
  "lib_rank ''lib.es2017.sharedmemory.d.ts'' = 2"
  "lib_rank ''lib.es2017.string.d.ts'' = 0"
  "lib_rank ''lib.es2017.typedarrays.d.ts'' = 0"
  "lib_rank ''lib.es2018.asyncgenerator.d.ts'' = 3"
  "lib_rank ''lib.es2018.asynciterable.d.ts'' = 2"
  unfolding lib_rank_def lib_ranks_def by (simp_all cong: member_head)

lemma rank_2:
  "lib_rank ''lib.es2018.d.ts'' = 6"
  "lib_rank ''lib.es2018.full.d.ts'' = 7"
  "lib_rank ''lib.es2018.intl.d.ts'' = 0"
  "lib_rank ''lib.es2018.promise.d.ts'' = 0"
  "lib_rank ''lib.es2018.regexp.d.ts'' = 0"
  "lib_rank ''lib.es2019.array.d.ts'' = 0"
  "lib_rank ''lib.es2019.d.ts'' = 7"
  "lib_rank ''lib.es2019.full.d.ts'' = 8"
  "lib_rank ''lib.es2019.intl.d.ts'' = 0"
  "lib_rank ''lib.es2019.object.d.ts'' = 2"
  "lib_rank ''lib.es2019.string.d.ts'' = 0"
  "lib_rank ''lib.es2019.symbol.d.ts'' = 0"
  "lib_rank ''lib.es2020.bigint.d.ts'' = 2"
  "lib_rank ''lib.es2020.d.ts'' = 8"
  "lib_rank ''lib.es2020.date.d.ts'' = 2"
  unfolding lib_rank_def lib_ranks_def by (simp_all cong: member_head)

lemma rank_3:
  "lib_rank ''lib.es2020.full.d.ts'' = 9"
  "lib_rank ''lib.es2020.intl.d.ts'' = 1"
  "lib_rank ''lib.es2020.number.d.ts'' = 2"
  "lib_rank ''lib.es2020.promise.d.ts'' = 0"
  "lib_rank ''lib.es2020.sharedmemory.d.ts'' = 0"
  "lib_rank ''lib.es2020.string.d.ts'' = 2"
  "lib_rank ''lib.es2020.symbol.wellknown.d.ts'' = 2"
  "lib_rank ''lib.es2021.d.ts'' = 9"
  "lib_rank ''lib.es2021.full.d.ts'' = 10"
  "lib_rank ''lib.es2021.intl.d.ts'' = 0"
  "lib_rank ''lib.es2021.promise.d.ts'' = 0"
  "lib_rank ''lib.es2021.string.d.ts'' = 0"
  "lib_rank ''lib.es2021.weakref.d.ts'' = 0"
  "lib_rank ''lib.es2022.array.d.ts'' = 0"
  "lib_rank ''lib.es2022.d.ts'' = 10"
  unfolding lib_rank_def lib_ranks_def by (simp_all cong: member_head)

lemma rank_4:
  "lib_rank ''lib.es2022.error.d.ts'' = 0"
  "lib_rank ''lib.es2022.full.d.ts'' = 11"
  "lib_rank ''lib.es2022.intl.d.ts'' = 0"
  "lib_rank ''lib.es2022.object.d.ts'' = 0"
  "lib_rank ''lib.es2022.regexp.d.ts'' = 0"
  "lib_rank ''lib.es2022.sharedmemory.d.ts'' = 0"
  "lib_rank ''lib.es2022.string.d.ts'' = 0"
  "lib_rank ''lib.es2023.array.d.ts'' = 0"
  "lib_rank ''lib.es2023.collection.d.ts'' = 0"
  "lib_rank ''lib.es2023.d.ts'' = 11"
  "lib_rank ''lib.es2023.full.d.ts'' = 12"
  "lib_rank ''lib.es5.d.ts'' = 1"
  "lib_rank ''lib.es6.d.ts'' = 4"
  "lib_rank ''lib.esnext.collection.d.ts'' = 0"
  "lib_rank ''lib.esnext.d.ts'' = 12"
  unfolding lib_rank_def lib_ranks_def by (simp_all cong: member_head)

lemma rank_5:
  "lib_rank ''lib.esnext.decorators.d.ts'' = 1"
  "lib_rank ''lib.esnext.disposable.d.ts'' = 1"
  "lib_rank ''lib.esnext.full.d.ts'' = 13"
  "lib_rank ''lib.esnext.intl.d.ts'' = 0"
  "lib_rank ''lib.esnext.object.d.ts'' = 0"
  "lib_rank ''lib.esnext.promise.d.ts'' = 0"
  "lib_rank ''lib.scripthost.d.ts'' = 0"
  "lib_rank ''lib.webworker.asynciterable.d.ts'' = 0"
  "lib_rank ''lib.webworker.d.ts'' = 0"
  "lib_rank ''lib.webworker.importscripts.d.ts'' = 0"
  "lib_rank ''lib.webworker.iterable.d.ts'' = 0"
  unfolding lib_rank_def lib_ranks_def by (simp_all cong: member_head)

lemmas found = found_0 found_1 found_2 found_3 found_4 found_5
lemmas ranks = rank_0 rank_1 rank_2 rank_3 rank_4 rank_5

lemma references_found: "list_all (\<lambda>(n, rs). list_all (\<lambda>r. is_lib (lib_name r)) rs) lib_files"
  unfolding lib_files_def by (simp add: lib_name_def found)

lemma references_deeper: "list_all (\<lambda>(n, rs). list_all (\<lambda>r. lib_rank (lib_name r) < lib_rank n) rs) lib_files"
  unfolding lib_files_def by (simp add: lib_name_def ranks)

lemma load_lib_ranked: "is_lib n \<Longrightarrow> lib_rank n < k \<Longrightarrow> load_lib k n \<noteq> None"
proof (induction k arbitrary: n)
  case (Suc k)
  obtain rs where rs: "member n lib_files = Some rs"
    using Suc.prems(1) by (auto simp: is_lib_def)
  have "load_lib k (lib_name r) \<noteq> None" if r: "r \<in> set rs" for r
  proof (rule Suc.IH)
    show "is_lib (lib_name r)"
      using references_found member_SomeD [OF rs] r by (auto simp: list_all_iff)
    have "lib_rank (lib_name r) < lib_rank n"
      using references_deeper member_SomeD [OF rs] r by (auto simp: list_all_iff)
    then show "lib_rank (lib_name r) < k"
      using Suc.prems(2) by simp
  qed
  then obtain ys where "all_some (map (\<lambda>r. load_lib k (lib_name r)) rs) = Some ys"
    using all_some_found [of "map (\<lambda>r. load_lib k (lib_name r)) rs"] by auto
  then show ?case
    using rs by simp
qed simp

lemma rank_bound: "lib_rank n < 14"
proof (cases "member n lib_ranks")
  case (Some k)
  have "list_all (\<lambda>(n, k). k < 14) lib_ranks"
    unfolding lib_ranks_def by simp
  then show ?thesis
    using member_SomeD [OF Some] Some by (auto simp: list_all_iff lib_rank_def)
qed (simp add: lib_rank_def)

text \<open>Following the references of any library ends after at most 14 levels, and every library that is asked for
  on the way is in the table: no reference is missing and none leads back.\<close>

theorem libraries_load:
  "list_all (\<lambda>(n, rs). load_lib 14 n \<noteq> None) lib_files"
proof -
  have "is_lib n" if "(n, rs) \<in> set lib_files" for n rs
    using that member_None [of n lib_files] by (force simp: is_lib_def)
  then show ?thesis
    using load_lib_ranked [OF _ rank_bound] by (auto simp: list_all_iff)
qed

text \<open>The libraries that come with one, itself included.\<close>

inductive comes_with :: "string \<Rightarrow> string \<Rightarrow> bool" where
  itself: "comes_with n n"
| asked: "member n lib_files = Some rs \<Longrightarrow> r \<in> set rs \<Longrightarrow> comes_with (lib_name r) m \<Longrightarrow> comes_with n m"

lemma comes_trans: "comes_with n m \<Longrightarrow> comes_with m k \<Longrightarrow> comes_with n k"
  by (induction rule: comes_with.induct) (auto intro: comes_with.intros)

lemma libs_mono:
  assumes "member a lib_files = Some rs" and "\<And>r. r \<in> set rs \<Longrightarrow> comes_with b (lib_name r)"
  shows "{m. comes_with a m} - {a} \<subseteq> {m. comes_with b m}"
proof
  fix m assume "m \<in> {m. comes_with a m} - {a}"
  then have "comes_with a m" "m \<noteq> a"
    by simp_all
  then obtain rs' r where "member a lib_files = Some rs'" "r \<in> set rs'" "comes_with (lib_name r) m"
    by (auto elim: comes_with.cases)
  then show "m \<in> {m. comes_with b m}"
    using assms comes_trans by auto
qed

definition default_lib :: "nat \<Rightarrow> string" where
  "default_lib t = getDefaultLibFileName (with_extra ''x.ts'' []) (Some t)"

lemma year_libs:
  "year_lib (Some 2) = ''lib.es2015.full.d.ts''" "year_lib (Some 3) = ''lib.es2016.full.d.ts''"
  "year_lib (Some 4) = ''lib.es2017.full.d.ts''" "year_lib (Some 5) = ''lib.es2018.full.d.ts''"
  "year_lib (Some 6) = ''lib.es2019.full.d.ts''" "year_lib (Some 7) = ''lib.es2020.full.d.ts''"
  "year_lib (Some 8) = ''lib.es2021.full.d.ts''" "year_lib (Some 9) = ''lib.es2022.full.d.ts''"
  "year_lib (Some 10) = ''lib.es2023.full.d.ts''"
  by (simp_all add: year_lib_def show_nat.simps digit_char_def char_of_def bit_0)

lemma full_libs:
  "is_lib ''lib.es2016.full.d.ts''" "is_lib ''lib.es2017.full.d.ts''" "is_lib ''lib.es2018.full.d.ts''"
  "is_lib ''lib.es2019.full.d.ts''" "is_lib ''lib.es2020.full.d.ts''" "is_lib ''lib.es2021.full.d.ts''"
  "is_lib ''lib.es2022.full.d.ts''" "is_lib ''lib.es2023.full.d.ts''" "\<not> is_lib ''lib.es2015.full.d.ts''"
  unfolding is_lib_def lib_files_def by (simp_all cong: member_head)

lemma default_names:
  "default_lib 1 = ''lib.d.ts''" "default_lib 2 = ''lib.es6.d.ts''" "default_lib 3 = ''lib.es2016.full.d.ts''"
  "default_lib 4 = ''lib.es2017.full.d.ts''" "default_lib 5 = ''lib.es2018.full.d.ts''"
  "default_lib 6 = ''lib.es2019.full.d.ts''" "default_lib 7 = ''lib.es2020.full.d.ts''"
  "default_lib 8 = ''lib.es2021.full.d.ts''" "default_lib 9 = ''lib.es2022.full.d.ts''"
  "default_lib 10 = ''lib.es2023.full.d.ts''" "default_lib 99 = ''lib.esnext.full.d.ts''"
  by (simp_all add: default_lib_def getDefaultLibFileName_def year_libs in_libs_def full_libs default_libs
      in_extra_def with_extra_def object_names_def)

lemma refs_0:
  "member ''lib.d.ts'' lib_files = Some [''es5'', ''dom'', ''webworker.importscripts'', ''scripthost'']"
  "member ''lib.es6.d.ts'' lib_files = Some [''es2015'', ''dom'', ''dom.iterable'', ''webworker.importscripts'', ''scripthost'']"
  "member ''lib.es2016.full.d.ts'' lib_files = Some [''es2016'', ''dom'', ''webworker.importscripts'', ''scripthost'', ''dom.iterable'']"
  "member ''lib.es2017.full.d.ts'' lib_files = Some [''es2017'', ''dom'', ''webworker.importscripts'', ''scripthost'', ''dom.iterable'']"
  "member ''lib.es2018.full.d.ts'' lib_files = Some [''es2018'', ''dom'', ''webworker.importscripts'', ''scripthost'', ''dom.iterable'', ''dom.asynciterable'']"
  "member ''lib.es2019.full.d.ts'' lib_files = Some [''es2019'', ''dom'', ''webworker.importscripts'', ''scripthost'', ''dom.iterable'', ''dom.asynciterable'']"
  "member ''lib.es2020.full.d.ts'' lib_files = Some [''es2020'', ''dom'', ''webworker.importscripts'', ''scripthost'', ''dom.iterable'', ''dom.asynciterable'']"
  unfolding lib_files_def by (simp_all cong: member_head)

lemma refs_1:
  "member ''lib.es2021.full.d.ts'' lib_files = Some [''es2021'', ''dom'', ''webworker.importscripts'', ''scripthost'', ''dom.iterable'', ''dom.asynciterable'']"
  "member ''lib.es2022.full.d.ts'' lib_files = Some [''es2022'', ''dom'', ''webworker.importscripts'', ''scripthost'', ''dom.iterable'', ''dom.asynciterable'']"
  "member ''lib.es2023.full.d.ts'' lib_files = Some [''es2023'', ''dom'', ''webworker.importscripts'', ''scripthost'', ''dom.iterable'', ''dom.asynciterable'']"
  "member ''lib.esnext.full.d.ts'' lib_files = Some [''esnext'', ''dom'', ''webworker.importscripts'', ''scripthost'', ''dom.iterable'', ''dom.asynciterable'']"
  "member ''lib.es2015.d.ts'' lib_files = Some [''es5'', ''es2015.core'', ''es2015.collection'', ''es2015.iterable'', ''es2015.generator'', ''es2015.promise'', ''es2015.proxy'', ''es2015.reflect'', ''es2015.symbol'', ''es2015.symbol.wellknown'']"
  "member ''lib.es2016.d.ts'' lib_files = Some [''es2015'', ''es2016.array.include'', ''es2016.intl'']"
  "member ''lib.es2017.d.ts'' lib_files = Some [''es2016'', ''es2017.object'', ''es2017.sharedmemory'', ''es2017.string'', ''es2017.intl'', ''es2017.typedarrays'', ''es2017.date'']"
  unfolding lib_files_def by (simp_all cong: member_head)

lemma refs_2:
  "member ''lib.es2018.d.ts'' lib_files = Some [''es2017'', ''es2018.asynciterable'', ''es2018.asyncgenerator'', ''es2018.promise'', ''es2018.regexp'', ''es2018.intl'']"
  "member ''lib.es2019.d.ts'' lib_files = Some [''es2018'', ''es2019.array'', ''es2019.object'', ''es2019.string'', ''es2019.symbol'', ''es2019.intl'']"
  "member ''lib.es2020.d.ts'' lib_files = Some [''es2019'', ''es2020.bigint'', ''es2020.date'', ''es2020.number'', ''es2020.promise'', ''es2020.sharedmemory'', ''es2020.string'', ''es2020.symbol.wellknown'', ''es2020.intl'']"
  "member ''lib.es2021.d.ts'' lib_files = Some [''es2020'', ''es2021.promise'', ''es2021.string'', ''es2021.weakref'', ''es2021.intl'']"
  "member ''lib.es2022.d.ts'' lib_files = Some [''es2021'', ''es2022.array'', ''es2022.error'', ''es2022.intl'', ''es2022.object'', ''es2022.sharedmemory'', ''es2022.string'', ''es2022.regexp'']"
  "member ''lib.es2023.d.ts'' lib_files = Some [''es2022'', ''es2023.array'', ''es2023.collection'']"
  "member ''lib.esnext.d.ts'' lib_files = Some [''es2023'', ''esnext.intl'', ''esnext.decorators'', ''esnext.disposable'', ''esnext.promise'', ''esnext.object'', ''esnext.collection'']"
  unfolding lib_files_def by (simp_all cong: member_head)


lemma libs_grow:
  assumes "member a lib_files = Some as" "member b lib_files = Some bs" "member c lib_files = Some cs"
    and "c \<in> lib_name ` set bs" and "set as \<subseteq> set bs \<union> set cs"
  shows "{m. comes_with a m} - {a} \<subseteq> {m. comes_with b m}"
proof (rule libs_mono [OF assms(1)])
  fix r assume "r \<in> set as"
  then consider "r \<in> set bs" | "r \<in> set cs"
    using assms(5) by auto
  then show "comes_with b (lib_name r)"
  proof cases
    case 1
    then show ?thesis using assms(2) itself by (blast intro: asked)
  next
    case 2
    then have "comes_with c (lib_name r)"
      using assms(3) itself by (blast intro: asked)
    then show ?thesis
      using assms(2,4) by (auto intro: asked)
  qed
qed

lemmas growing =
  libs_grow [OF refs_0(1) refs_0(2) refs_1(5)]
  libs_grow [OF refs_0(2) refs_0(3) refs_1(6)]
  libs_grow [OF refs_0(3) refs_0(4) refs_1(7)]
  libs_grow [OF refs_0(4) refs_0(5) refs_2(1)]
  libs_grow [OF refs_0(5) refs_0(6) refs_2(2)]
  libs_grow [OF refs_0(6) refs_0(7) refs_2(3)]
  libs_grow [OF refs_0(7) refs_1(1) refs_2(4)]
  libs_grow [OF refs_1(1) refs_1(2) refs_2(5)]
  libs_grow [OF refs_1(2) refs_1(3) refs_2(6)]
  libs_grow [OF refs_1(3) refs_1(4) refs_2(7)]

text \<open>A later target has all libraries of an earlier one: apart from the file itself, everything that comes with
  the default library of a target comes with that of the next.\<close>

theorem later_targets_have_more:
  "list_all (\<lambda>(t, u). {m. comes_with (default_lib t) m} - {default_lib t} \<subseteq> {m. comes_with (default_lib u) m})
    [(1, 2), (2, 3), (3, 4), (4, 5), (5, 6), (6, 7), (7, 8), (8, 9), (9, 10), (10, 99)]"
  by (simp only: list.pred_inject prod.case default_names)
    (intro conjI TrueI growing; simp add: lib_name_def)

end
