(* ===== verification/LibTags.thy ===== *)
theory LibTags
  imports Declarations "HOL-Library.Multiset"
begin

text \<open>
  From \<open>lib.dom.d.ts\<close>: the tables from tag names to element types, and the overloads of
  \<open>createElement\<close>, \<open>querySelector\<close> and \<open>getElementsByTagName\<close> that read them. A call with a literal tag
  has the type of the first overload whose table has the tag, else that of the last, untyped one.
\<close>

section \<open>The tables\<close>

definition htmlTags :: "(string \<times> string) list" where
  "htmlTags = [
    (''a'', ''HTMLAnchorElement''), (''abbr'', ''HTMLElement''), (''address'', ''HTMLElement''),
    (''area'', ''HTMLAreaElement''), (''article'', ''HTMLElement''), (''aside'', ''HTMLElement''),
    (''audio'', ''HTMLAudioElement''), (''b'', ''HTMLElement''), (''base'', ''HTMLBaseElement''),
    (''bdi'', ''HTMLElement''), (''bdo'', ''HTMLElement''), (''blockquote'', ''HTMLQuoteElement''),
    (''body'', ''HTMLBodyElement''), (''br'', ''HTMLBRElement''), (''button'', ''HTMLButtonElement''),
    (''canvas'', ''HTMLCanvasElement''), (''caption'', ''HTMLTableCaptionElement''),
    (''cite'', ''HTMLElement''), (''code'', ''HTMLElement''), (''col'', ''HTMLTableColElement''),
    (''colgroup'', ''HTMLTableColElement''), (''data'', ''HTMLDataElement''),
    (''datalist'', ''HTMLDataListElement''), (''dd'', ''HTMLElement''), (''del'', ''HTMLModElement''),
    (''details'', ''HTMLDetailsElement''), (''dfn'', ''HTMLElement''),
    (''dialog'', ''HTMLDialogElement''), (''div'', ''HTMLDivElement''), (''dl'', ''HTMLDListElement''),
    (''dt'', ''HTMLElement''), (''em'', ''HTMLElement''), (''embed'', ''HTMLEmbedElement''),
    (''fieldset'', ''HTMLFieldSetElement''), (''figcaption'', ''HTMLElement''),
    (''figure'', ''HTMLElement''), (''footer'', ''HTMLElement''), (''form'', ''HTMLFormElement''),
    (''h1'', ''HTMLHeadingElement''), (''h2'', ''HTMLHeadingElement''),
    (''h3'', ''HTMLHeadingElement''), (''h4'', ''HTMLHeadingElement''),
    (''h5'', ''HTMLHeadingElement''), (''h6'', ''HTMLHeadingElement''), (''head'', ''HTMLHeadElement''),
    (''header'', ''HTMLElement''), (''hgroup'', ''HTMLElement''), (''hr'', ''HTMLHRElement''),
    (''html'', ''HTMLHtmlElement''), (''i'', ''HTMLElement''), (''iframe'', ''HTMLIFrameElement''),
    (''img'', ''HTMLImageElement''), (''input'', ''HTMLInputElement''), (''ins'', ''HTMLModElement''),
    (''kbd'', ''HTMLElement''), (''label'', ''HTMLLabelElement''), (''legend'', ''HTMLLegendElement''),
    (''li'', ''HTMLLIElement''), (''link'', ''HTMLLinkElement''), (''main'', ''HTMLElement''),
    (''map'', ''HTMLMapElement''), (''mark'', ''HTMLElement''), (''menu'', ''HTMLMenuElement''),
    (''meta'', ''HTMLMetaElement''), (''meter'', ''HTMLMeterElement''), (''nav'', ''HTMLElement''),
    (''noscript'', ''HTMLElement''), (''object'', ''HTMLObjectElement''),
    (''ol'', ''HTMLOListElement''), (''optgroup'', ''HTMLOptGroupElement''),
    (''option'', ''HTMLOptionElement''), (''output'', ''HTMLOutputElement''),
    (''p'', ''HTMLParagraphElement''), (''picture'', ''HTMLPictureElement''),
    (''pre'', ''HTMLPreElement''), (''progress'', ''HTMLProgressElement''),
    (''q'', ''HTMLQuoteElement''), (''rp'', ''HTMLElement''), (''rt'', ''HTMLElement''),
    (''ruby'', ''HTMLElement''), (''s'', ''HTMLElement''), (''samp'', ''HTMLElement''),
    (''script'', ''HTMLScriptElement''), (''search'', ''HTMLElement''), (''section'', ''HTMLElement''),
    (''select'', ''HTMLSelectElement''), (''slot'', ''HTMLSlotElement''), (''small'', ''HTMLElement''),
    (''source'', ''HTMLSourceElement''), (''span'', ''HTMLSpanElement''), (''strong'', ''HTMLElement''),
    (''style'', ''HTMLStyleElement''), (''sub'', ''HTMLElement''), (''summary'', ''HTMLElement''),
    (''sup'', ''HTMLElement''), (''table'', ''HTMLTableElement''),
    (''tbody'', ''HTMLTableSectionElement''), (''td'', ''HTMLTableCellElement''),
    (''template'', ''HTMLTemplateElement''), (''textarea'', ''HTMLTextAreaElement''),
    (''tfoot'', ''HTMLTableSectionElement''), (''th'', ''HTMLTableCellElement''),
    (''thead'', ''HTMLTableSectionElement''), (''time'', ''HTMLTimeElement''),
    (''title'', ''HTMLTitleElement''), (''tr'', ''HTMLTableRowElement''),
    (''track'', ''HTMLTrackElement''), (''u'', ''HTMLElement''), (''ul'', ''HTMLUListElement''),
    (''var'', ''HTMLElement''), (''video'', ''HTMLVideoElement''), (''wbr'', ''HTMLElement'')]"

definition deprecatedTags :: "(string \<times> string) list" where
  "deprecatedTags = [
    (''acronym'', ''HTMLElement''), (''applet'', ''HTMLUnknownElement''),
    (''basefont'', ''HTMLElement''), (''bgsound'', ''HTMLUnknownElement''), (''big'', ''HTMLElement''),
    (''blink'', ''HTMLUnknownElement''), (''center'', ''HTMLElement''),
    (''dir'', ''HTMLDirectoryElement''), (''font'', ''HTMLFontElement''),
    (''frame'', ''HTMLFrameElement''), (''frameset'', ''HTMLFrameSetElement''),
    (''isindex'', ''HTMLUnknownElement''), (''keygen'', ''HTMLUnknownElement''),
    (''listing'', ''HTMLPreElement''), (''marquee'', ''HTMLMarqueeElement''),
    (''menuitem'', ''HTMLElement''), (''multicol'', ''HTMLUnknownElement''),
    (''nextid'', ''HTMLUnknownElement''), (''nobr'', ''HTMLElement''), (''noembed'', ''HTMLElement''),
    (''noframes'', ''HTMLElement''), (''param'', ''HTMLParamElement''),
    (''plaintext'', ''HTMLElement''), (''rb'', ''HTMLElement''), (''rtc'', ''HTMLElement''),
    (''spacer'', ''HTMLUnknownElement''), (''strike'', ''HTMLElement''), (''tt'', ''HTMLElement''),
    (''xmp'', ''HTMLPreElement'')]"

definition svgTags :: "(string \<times> string) list" where
  "svgTags = [
    (''a'', ''SVGAElement''), (''animate'', ''SVGAnimateElement''),
    (''animateMotion'', ''SVGAnimateMotionElement''),
    (''animateTransform'', ''SVGAnimateTransformElement''), (''circle'', ''SVGCircleElement''),
    (''clipPath'', ''SVGClipPathElement''), (''defs'', ''SVGDefsElement''),
    (''desc'', ''SVGDescElement''), (''ellipse'', ''SVGEllipseElement''),
    (''feBlend'', ''SVGFEBlendElement''), (''feColorMatrix'', ''SVGFEColorMatrixElement''),
    (''feComponentTransfer'', ''SVGFEComponentTransferElement''),
    (''feComposite'', ''SVGFECompositeElement''),
    (''feConvolveMatrix'', ''SVGFEConvolveMatrixElement''),
    (''feDiffuseLighting'', ''SVGFEDiffuseLightingElement''),
    (''feDisplacementMap'', ''SVGFEDisplacementMapElement''),
    (''feDistantLight'', ''SVGFEDistantLightElement''), (''feDropShadow'', ''SVGFEDropShadowElement''),
    (''feFlood'', ''SVGFEFloodElement''), (''feFuncA'', ''SVGFEFuncAElement''),
    (''feFuncB'', ''SVGFEFuncBElement''), (''feFuncG'', ''SVGFEFuncGElement''),
    (''feFuncR'', ''SVGFEFuncRElement''), (''feGaussianBlur'', ''SVGFEGaussianBlurElement''),
    (''feImage'', ''SVGFEImageElement''), (''feMerge'', ''SVGFEMergeElement''),
    (''feMergeNode'', ''SVGFEMergeNodeElement''), (''feMorphology'', ''SVGFEMorphologyElement''),
    (''feOffset'', ''SVGFEOffsetElement''), (''fePointLight'', ''SVGFEPointLightElement''),
    (''feSpecularLighting'', ''SVGFESpecularLightingElement''),
    (''feSpotLight'', ''SVGFESpotLightElement''), (''feTile'', ''SVGFETileElement''),
    (''feTurbulence'', ''SVGFETurbulenceElement''), (''filter'', ''SVGFilterElement''),
    (''foreignObject'', ''SVGForeignObjectElement''), (''g'', ''SVGGElement''),
    (''image'', ''SVGImageElement''), (''line'', ''SVGLineElement''),
    (''linearGradient'', ''SVGLinearGradientElement''), (''marker'', ''SVGMarkerElement''),
    (''mask'', ''SVGMaskElement''), (''metadata'', ''SVGMetadataElement''),
    (''mpath'', ''SVGMPathElement''), (''path'', ''SVGPathElement''),
    (''pattern'', ''SVGPatternElement''), (''polygon'', ''SVGPolygonElement''),
    (''polyline'', ''SVGPolylineElement''), (''radialGradient'', ''SVGRadialGradientElement''),
    (''rect'', ''SVGRectElement''), (''script'', ''SVGScriptElement''), (''set'', ''SVGSetElement''),
    (''stop'', ''SVGStopElement''), (''style'', ''SVGStyleElement''), (''svg'', ''SVGSVGElement''),
    (''switch'', ''SVGSwitchElement''), (''symbol'', ''SVGSymbolElement''),
    (''text'', ''SVGTextElement''), (''textPath'', ''SVGTextPathElement''),
    (''title'', ''SVGTitleElement''), (''tspan'', ''SVGTSpanElement''), (''use'', ''SVGUseElement''),
    (''view'', ''SVGViewElement'')]"

definition mathmlTags :: "(string \<times> string) list" where
  "mathmlTags = [
    (''annotation'', ''MathMLElement''), (''annotation-xml'', ''MathMLElement''),
    (''maction'', ''MathMLElement''), (''math'', ''MathMLElement''), (''merror'', ''MathMLElement''),
    (''mfrac'', ''MathMLElement''), (''mi'', ''MathMLElement''), (''mmultiscripts'', ''MathMLElement''),
    (''mn'', ''MathMLElement''), (''mo'', ''MathMLElement''), (''mover'', ''MathMLElement''),
    (''mpadded'', ''MathMLElement''), (''mphantom'', ''MathMLElement''),
    (''mprescripts'', ''MathMLElement''), (''mroot'', ''MathMLElement''), (''mrow'', ''MathMLElement''),
    (''ms'', ''MathMLElement''), (''mspace'', ''MathMLElement''), (''msqrt'', ''MathMLElement''),
    (''mstyle'', ''MathMLElement''), (''msub'', ''MathMLElement''), (''msubsup'', ''MathMLElement''),
    (''msup'', ''MathMLElement''), (''mtable'', ''MathMLElement''), (''mtd'', ''MathMLElement''),
    (''mtext'', ''MathMLElement''), (''mtr'', ''MathMLElement''), (''munder'', ''MathMLElement''),
    (''munderover'', ''MathMLElement''), (''semantics'', ''MathMLElement'')]"

section \<open>The overloads\<close>

text \<open>The first table that has the tag decides; \<open>d\<close> is the type of the overload for any text.\<close>

fun first_overload :: "(string \<times> string) list list \<Rightarrow> string \<Rightarrow> string \<Rightarrow> string" where
  "first_overload [] d tag = d"
| "first_overload (t # ts) d tag = (case member tag t of Some ty \<Rightarrow> ty | None \<Rightarrow> first_overload ts d tag)"

definition createElement_type :: "string \<Rightarrow> string" where
  "createElement_type = first_overload [htmlTags, deprecatedTags] ''HTMLElement''"

definition querySelector_type :: "string \<Rightarrow> string" where
  "querySelector_type = first_overload [htmlTags, svgTags, mathmlTags, deprecatedTags] ''Element''"

definition getElementsByTagName_type :: "string \<Rightarrow> string" where
  "getElementsByTagName_type = first_overload [htmlTags, svgTags, mathmlTags, deprecatedTags] ''Element''"

text \<open>
  The legacy type \<open>ElementTagNameMap\<close>: the HTML tags, and the SVG tags except (\<open>Exclude\<close>) those that are
  HTML tags too, picked (\<open>Pick\<close>) from the SVG table.
\<close>

definition Exclude :: "string list \<Rightarrow> string list \<Rightarrow> string list" where
  "Exclude ts us = filter (\<lambda>t. t \<notin> set us) ts"

definition Pick :: "(string \<times> 'a) list \<Rightarrow> string list \<Rightarrow> (string \<times> 'a) list" where
  "Pick t ks = filter (\<lambda>m. fst m \<in> set ks) t"

definition ElementTagNameMap :: "(string \<times> string) list" where
  "ElementTagNameMap = htmlTags @ Pick svgTags (Exclude (map fst svgTags) (map fst htmlTags))"

section \<open>The tables are in order, and what they share\<close>

lemma tags_in_order: "in_order htmlTags" "in_order deprecatedTags" "in_order svgTags" "in_order mathmlTags"
  unfolding htmlTags_def deprecatedTags_def svgTags_def mathmlTags_def
  by (simp_all cong: in_order_head)

lemmas tags_distinct = tags_in_order [THEN in_order_distinct]

lemma tags_common:
  "common htmlTags svgTags = [''a'', ''script'', ''style'', ''title'']"
  "common htmlTags mathmlTags = []"
  "common htmlTags deprecatedTags = []"
  "common svgTags mathmlTags = []"
  "common svgTags deprecatedTags = []"
  "common mathmlTags deprecatedTags = []"
  unfolding htmlTags_def deprecatedTags_def svgTags_def mathmlTags_def
  by (simp_all cong: common_head)

lemmas tags_shared = common_set [OF tags_in_order(1) tags_in_order(3)]
  common_set [OF tags_in_order(1) tags_in_order(4)] common_set [OF tags_in_order(1) tags_in_order(2)]
  common_set [OF tags_in_order(3) tags_in_order(4)] common_set [OF tags_in_order(3) tags_in_order(2)]
  common_set [OF tags_in_order(4) tags_in_order(2)]

section \<open>The order of the overloads\<close>

lemma first_overload_none: "(\<forall>t \<in> set ts. member tag t = None) \<Longrightarrow> first_overload ts d tag = d"
  by (induction ts) auto

lemma first_overload_unique:
  "\<forall>v \<in> set ts. member tag v \<in> {None, Some x} \<Longrightarrow> Some x \<in> member tag ` set ts \<Longrightarrow>
    first_overload ts d tag = x"
proof (induction ts)
  case (Cons v ts)
  show ?case
  proof (cases "member tag v")
    case None
    with Cons.prems(2) have "Some x \<in> member tag ` set ts" by simp
    with Cons None show ?thesis by simp
  next
    case (Some y)
    with Cons.prems(1) show ?thesis by simp
  qed
qed simp

lemma first_overload_order:
  assumes same: "set us = set ts"
    and one: "\<And>u v x y. u \<in> set ts \<Longrightarrow> v \<in> set ts \<Longrightarrow> member tag u = Some x \<Longrightarrow> member tag v = Some y \<Longrightarrow> x = y"
  shows "first_overload us d tag = first_overload ts d tag"
proof (cases "\<forall>t \<in> set ts. member tag t = None")
  case True
  with same show ?thesis by (simp add: first_overload_none)
next
  case False
  then obtain t x where t: "t \<in> set ts" "member tag t = Some x" by auto
  have a: "\<forall>v \<in> set ts. member tag v \<in> {None, Some x}"
  proof
    fix v assume "v \<in> set ts"
    from one [OF this t(1) _ t(2)] show "member tag v \<in> {None, Some x}" by (cases "member tag v") simp_all
  qed
  from t have b: "Some x \<in> member tag ` set ts" by (metis image_eqI)
  from first_overload_unique [OF a b] first_overload_unique [of us tag x] a b show ?thesis
    unfolding same by (metis same)
qed

text \<open>The tags that two of the tables list.\<close>

definition ambiguous_tags :: "string list" where
  "ambiguous_tags = [''a'', ''script'', ''style'', ''title'']"

lemma tags_disjoint:
  "tag \<notin> set ambiguous_tags \<Longrightarrow> tag \<notin> fst ` set htmlTags \<inter> fst ` set svgTags"
  "tag \<notin> fst ` set htmlTags \<inter> fst ` set mathmlTags"
  "tag \<notin> fst ` set htmlTags \<inter> fst ` set deprecatedTags"
  "tag \<notin> fst ` set svgTags \<inter> fst ` set mathmlTags"
  "tag \<notin> fst ` set svgTags \<inter> fst ` set deprecatedTags"
  "tag \<notin> fst ` set mathmlTags \<inter> fst ` set deprecatedTags"
  unfolding tags_shared [symmetric] tags_common ambiguous_tags_def by simp_all

lemma two_tables:
  assumes "tag \<notin> set ambiguous_tags"
    and u: "u \<in> set [htmlTags, svgTags, mathmlTags, deprecatedTags]"
    and v: "v \<in> set [htmlTags, svgTags, mathmlTags, deprecatedTags]"
  shows "u = v \<or> tag \<notin> fst ` set u \<or> tag \<notin> fst ` set v"
proof -
  note t = tags_disjoint [of tag, unfolded Int_iff de_Morgan_conj]
  note v' = v [unfolded list.set insert_iff empty_iff]
  from u [unfolded list.set insert_iff empty_iff] show ?thesis
  proof (elim disjE FalseE)
    assume u: "u = htmlTags"
    from v' t(1) [OF assms(1)] t(2,3) show ?thesis unfolding u by (elim disjE) (simp_all only: simp_thms)
  next
    assume u: "u = svgTags"
    from v' t(1) [OF assms(1)] t(4,5) show ?thesis unfolding u by (elim disjE) (simp_all only: simp_thms)
  next
    assume u: "u = mathmlTags"
    from v' t(2,4,6) show ?thesis unfolding u by (elim disjE) (simp_all only: simp_thms)
  next
    assume u: "u = deprecatedTags"
    from v' t(3,5,6) show ?thesis unfolding u by (elim disjE) (simp_all only: simp_thms)
  qed
qed

lemma one_table:
  assumes "tag \<notin> set ambiguous_tags" "u \<in> set [htmlTags, svgTags, mathmlTags, deprecatedTags]"
    "v \<in> set [htmlTags, svgTags, mathmlTags, deprecatedTags]" "member tag u = Some x" "member tag v = Some y"
  shows "x = y"
proof -
  from member_key [OF assms(4)] member_key [OF assms(5)] two_tables [OF assms(1-3)] have "u = v" by simp
  with assms(4,5) show ?thesis by simp
qed

text \<open>
  The order of the overloads of \<open>querySelector\<close> and \<open>getElementsByTagName\<close> matters for four tags only:
  for every tag but \<open>a\<close>, \<open>script\<close>, \<open>style\<close> and \<open>title\<close>, any order of the same overloads gives the
  same type; and a tag of the HTML table has the type \<open>createElement\<close> gives.
\<close>

theorem overload_order:
  assumes "set ts = set [htmlTags, svgTags, mathmlTags, deprecatedTags]" "tag \<notin> set ambiguous_tags"
  shows "first_overload ts ''Element'' tag = querySelector_type tag \<and>
    getElementsByTagName_type tag = querySelector_type tag \<and>
    (tag \<in> fst ` set htmlTags \<longrightarrow> createElement_type tag = first_overload ts ''Element'' tag)"
proof (intro conjI impI)
  show o: "first_overload ts ''Element'' tag = querySelector_type tag"
    unfolding querySelector_type_def by (rule first_overload_order [OF assms(1) one_table [OF assms(2)]])
  show "getElementsByTagName_type tag = querySelector_type tag"
    by (simp add: getElementsByTagName_type_def querySelector_type_def)
  assume "tag \<in> fst ` set htmlTags"
  then obtain ty where "member tag htmlTags = Some ty" using member_None [of tag htmlTags] by auto
  then show "createElement_type tag = first_overload ts ''Element'' tag"
    unfolding o by (simp add: createElement_type_def querySelector_type_def)
qed

lemma member_div: "member ''div'' htmlTags = Some ''HTMLDivElement''"
  unfolding htmlTags_def by (simp cong: member_head)

theorem overload_order_witness:
  "first_overload [deprecatedTags, svgTags, mathmlTags, htmlTags] ''Element'' ''div'' = ''HTMLDivElement'' \<and>
   createElement_type ''div'' = ''HTMLDivElement''"
proof -
  have "set [deprecatedTags, svgTags, mathmlTags, htmlTags] = set [htmlTags, svgTags, mathmlTags, deprecatedTags]"
    by (simp add: insert_commute)
  from overload_order [OF this, of "''div''"] show ?thesis
    using member_div member_key [OF member_div]
    by (simp add: ambiguous_tags_def querySelector_type_def)
qed

section \<open>What the types say\<close>

lemma html_types:
  "list_all (\<lambda>m. take 4 (snd m) = ''HTML'') htmlTags"
  "list_all (\<lambda>m. take 4 (snd m) = ''HTML'') deprecatedTags"
  unfolding htmlTags_def deprecatedTags_def by simp_all

lemma first_overload_all:
  "(\<forall>t \<in> set ts. list_all (\<lambda>m. P (snd m)) t) \<Longrightarrow> P d \<Longrightarrow> P (first_overload ts d tag)"
proof (induction ts)
  case (Cons t ts)
  then show ?case using member_SomeD [of tag t] by (force simp: list_all_iff split: option.split)
qed simp

lemma member_Pick: "member n (Pick t ks) = (if n \<in> set ks then member n t else None)"
proof (cases "n \<in> set ks")
  case True
  then show ?thesis unfolding Pick_def by (induction n t rule: member.induct) auto
next
  case False
  then show ?thesis using member_None [of n "Pick t ks"] by (auto simp: Pick_def)
qed

lemma member_legacy: "member tag ElementTagNameMap =
    (case member tag htmlTags of Some ty \<Rightarrow> Some ty | None \<Rightarrow> member tag svgTags)"
  using member_None [of tag htmlTags] member_None [of tag svgTags]
  by (auto simp: ElementTagNameMap_def member_append member_Pick Exclude_def split: option.split)

text \<open>
  \<open>createElement\<close> is never given an SVG or MathML type, whatever the tag. The legacy
  \<open>ElementTagNameMap\<close> has the types the first two overloads of \<open>querySelector\<close> give, its \<open>Exclude\<close>
  dropping exactly the four ambiguous tags of the SVG table, which is all the two tables share.
\<close>

theorem element_types:
  "take 4 (createElement_type tag) = ''HTML'' \<and>
   first_overload [htmlTags, svgTags] d tag =
     (case member tag ElementTagNameMap of Some ty \<Rightarrow> ty | None \<Rightarrow> d) \<and>
   fst ` set htmlTags \<inter> fst ` set svgTags = set ambiguous_tags"
proof (intro conjI)
  show "take 4 (createElement_type tag) = ''HTML''"
    unfolding createElement_type_def
    by (rule first_overload_all [where P = "\<lambda>t. take 4 t = ''HTML''"]) (simp_all add: html_types)
  show "first_overload [htmlTags, svgTags] d tag =
      (case member tag ElementTagNameMap of Some ty \<Rightarrow> ty | None \<Rightarrow> d)"
    by (simp add: member_legacy split: option.split)
  show "fst ` set htmlTags \<inter> fst ` set svgTags = set ambiguous_tags"
    using tags_shared(1) by (simp add: tags_common ambiguous_tags_def)
qed

end
