(* ===== verification/LibEvents.thy ===== *)
theory LibEvents
  imports Declarations
begin

text \<open>
  The events of documents, elements and windows as \<open>lib.dom.d.ts\<close> in \<open>tsWorker.js\<close> declares them, twice: in the
  interfaces \<open>...EventMap\<close>, which give \<open>addEventListener\<close> the type of event for a name, and in the handler
  properties \<open>on...\<close> of the interfaces themselves. Both follow the inheritance of the interfaces.
\<close>

section \<open>Event maps\<close>

text \<open>\<open>interface M extends P, ...\<close>: its own events, then those of the interfaces it extends.\<close>

definition extending :: "(string \<times> 'a) list \<Rightarrow> (string \<times> 'a) list list \<Rightarrow> (string \<times> 'a) list" where
  "extending own parents = own @ concat parents"

definition GlobalEventHandlersEventMap :: "(string \<times> string) list" where
  "GlobalEventHandlersEventMap =
  [
   (''abort'', ''UIEvent''), (''animationcancel'', ''AnimationEvent''), (''animationend'', ''AnimationEvent''),
   (''animationiteration'', ''AnimationEvent''), (''animationstart'', ''AnimationEvent''),
   (''auxclick'', ''MouseEvent''), (''beforeinput'', ''InputEvent''), (''beforetoggle'', ''Event''),
   (''blur'', ''FocusEvent''), (''cancel'', ''Event''), (''canplay'', ''Event''),
   (''canplaythrough'', ''Event''), (''change'', ''Event''), (''click'', ''MouseEvent''),
   (''close'', ''Event''), (''compositionend'', ''CompositionEvent''),
   (''compositionstart'', ''CompositionEvent''), (''compositionupdate'', ''CompositionEvent''),
   (''contextmenu'', ''MouseEvent''), (''copy'', ''ClipboardEvent''), (''cuechange'', ''Event''),
   (''cut'', ''ClipboardEvent''), (''dblclick'', ''MouseEvent''), (''drag'', ''DragEvent''),
   (''dragend'', ''DragEvent''), (''dragenter'', ''DragEvent''), (''dragleave'', ''DragEvent''),
   (''dragover'', ''DragEvent''), (''dragstart'', ''DragEvent''), (''drop'', ''DragEvent''),
   (''durationchange'', ''Event''), (''emptied'', ''Event''), (''ended'', ''Event''),
   (''error'', ''ErrorEvent''), (''focus'', ''FocusEvent''), (''focusin'', ''FocusEvent''),
   (''focusout'', ''FocusEvent''), (''formdata'', ''FormDataEvent''),
   (''gotpointercapture'', ''PointerEvent''), (''input'', ''Event''), (''invalid'', ''Event''),
   (''keydown'', ''KeyboardEvent''), (''keypress'', ''KeyboardEvent''), (''keyup'', ''KeyboardEvent''),
   (''load'', ''Event''), (''loadeddata'', ''Event''), (''loadedmetadata'', ''Event''),
   (''loadstart'', ''Event''), (''lostpointercapture'', ''PointerEvent''), (''mousedown'', ''MouseEvent''),
   (''mouseenter'', ''MouseEvent''), (''mouseleave'', ''MouseEvent''), (''mousemove'', ''MouseEvent''),
   (''mouseout'', ''MouseEvent''), (''mouseover'', ''MouseEvent''), (''mouseup'', ''MouseEvent''),
   (''paste'', ''ClipboardEvent''), (''pause'', ''Event''), (''play'', ''Event''), (''playing'', ''Event''),
   (''pointercancel'', ''PointerEvent''), (''pointerdown'', ''PointerEvent''),
   (''pointerenter'', ''PointerEvent''), (''pointerleave'', ''PointerEvent''),
   (''pointermove'', ''PointerEvent''), (''pointerout'', ''PointerEvent''),
   (''pointerover'', ''PointerEvent''), (''pointerup'', ''PointerEvent''), (''progress'', ''ProgressEvent''),
   (''ratechange'', ''Event''), (''reset'', ''Event''), (''resize'', ''UIEvent''), (''scroll'', ''Event''),
   (''scrollend'', ''Event''), (''securitypolicyviolation'', ''SecurityPolicyViolationEvent''),
   (''seeked'', ''Event''), (''seeking'', ''Event''), (''select'', ''Event''),
   (''selectionchange'', ''Event''), (''selectstart'', ''Event''), (''slotchange'', ''Event''),
   (''stalled'', ''Event''), (''submit'', ''SubmitEvent''), (''suspend'', ''Event''),
   (''timeupdate'', ''Event''), (''toggle'', ''Event''), (''touchcancel'', ''TouchEvent''),
   (''touchend'', ''TouchEvent''), (''touchmove'', ''TouchEvent''), (''touchstart'', ''TouchEvent''),
   (''transitioncancel'', ''TransitionEvent''), (''transitionend'', ''TransitionEvent''),
   (''transitionrun'', ''TransitionEvent''), (''transitionstart'', ''TransitionEvent''),
   (''volumechange'', ''Event''), (''waiting'', ''Event''), (''webkitanimationend'', ''Event''),
   (''webkitanimationiteration'', ''Event''), (''webkitanimationstart'', ''Event''),
   (''webkittransitionend'', ''Event''), (''wheel'', ''WheelEvent'')]"

definition WindowEventHandlersEventMap :: "(string \<times> string) list" where
  "WindowEventHandlersEventMap =
  [
   (''afterprint'', ''Event''), (''beforeprint'', ''Event''), (''beforeunload'', ''BeforeUnloadEvent''),
   (''gamepadconnected'', ''GamepadEvent''), (''gamepaddisconnected'', ''GamepadEvent''),
   (''hashchange'', ''HashChangeEvent''), (''languagechange'', ''Event''), (''message'', ''MessageEvent''),
   (''messageerror'', ''MessageEvent''), (''offline'', ''Event''), (''online'', ''Event''),
   (''pagehide'', ''PageTransitionEvent''), (''pageshow'', ''PageTransitionEvent''),
   (''popstate'', ''PopStateEvent''), (''rejectionhandled'', ''PromiseRejectionEvent''),
   (''storage'', ''StorageEvent''), (''unhandledrejection'', ''PromiseRejectionEvent''), (''unload'', ''Event'')]"

definition ElementEventMap :: "(string \<times> string) list" where
  "ElementEventMap =
  [
   (''fullscreenchange'', ''Event''), (''fullscreenerror'', ''Event'')]"

definition Document_events :: "(string \<times> string) list" where
  "Document_events =
  [
   (''DOMContentLoaded'', ''Event''), (''fullscreenchange'', ''Event''), (''fullscreenerror'', ''Event''),
   (''pointerlockchange'', ''Event''), (''pointerlockerror'', ''Event''), (''readystatechange'', ''Event''),
   (''visibilitychange'', ''Event'')]"

definition DocumentEventMap :: "(string \<times> string) list" where
  "DocumentEventMap = extending Document_events [GlobalEventHandlersEventMap]"

definition HTMLElementEventMap :: "(string \<times> string) list" where
  "HTMLElementEventMap = extending [] [ElementEventMap, GlobalEventHandlersEventMap]"

definition MathMLElementEventMap :: "(string \<times> string) list" where
  "MathMLElementEventMap = extending [] [ElementEventMap, GlobalEventHandlersEventMap]"

definition SVGElementEventMap :: "(string \<times> string) list" where
  "SVGElementEventMap = extending [] [ElementEventMap, GlobalEventHandlersEventMap]"

definition HTMLBodyElementEventMap :: "(string \<times> string) list" where
  "HTMLBodyElementEventMap = extending [] [HTMLElementEventMap, WindowEventHandlersEventMap]"

definition HTMLFrameSetElementEventMap :: "(string \<times> string) list" where
  "HTMLFrameSetElementEventMap = extending [] [HTMLElementEventMap, WindowEventHandlersEventMap]"

definition HTMLMediaElement_events :: "(string \<times> string) list" where
  "HTMLMediaElement_events =
  [
   (''encrypted'', ''MediaEncryptedEvent''), (''waitingforkey'', ''Event'')]"

definition HTMLMediaElementEventMap :: "(string \<times> string) list" where
  "HTMLMediaElementEventMap = extending HTMLMediaElement_events [HTMLElementEventMap]"

definition HTMLVideoElement_events :: "(string \<times> string) list" where
  "HTMLVideoElement_events =
  [
   (''enterpictureinpicture'', ''Event''), (''leavepictureinpicture'', ''Event'')]"

definition HTMLVideoElementEventMap :: "(string \<times> string) list" where
  "HTMLVideoElementEventMap = extending HTMLVideoElement_events [HTMLMediaElementEventMap]"

definition SVGSVGElementEventMap :: "(string \<times> string) list" where
  "SVGSVGElementEventMap = extending [] [SVGElementEventMap, WindowEventHandlersEventMap]"

definition Window_events :: "(string \<times> string) list" where
  "Window_events =
  [
   (''DOMContentLoaded'', ''Event''), (''devicemotion'', ''DeviceMotionEvent''),
   (''deviceorientation'', ''DeviceOrientationEvent''),
   (''deviceorientationabsolute'', ''DeviceOrientationEvent''), (''gamepadconnected'', ''GamepadEvent''),
   (''gamepaddisconnected'', ''GamepadEvent''), (''orientationchange'', ''Event'')]"

definition WindowEventMap :: "(string \<times> string) list" where
  "WindowEventMap = extending Window_events [GlobalEventHandlersEventMap, WindowEventHandlersEventMap]"

section \<open>Handler properties\<close>

text \<open>The type of \<open>this\<close> and of the event of a handler; \<open>onerror\<close> has a type of its own.\<close>

datatype handler = Handler string string | OnErrorEventHandler

definition GlobalEventHandlers_0 :: "(string \<times> handler) list" where
  "GlobalEventHandlers_0 =
  [
   (''onabort'', Handler ''GlobalEventHandlers'' ''UIEvent''),
   (''onanimationcancel'', Handler ''GlobalEventHandlers'' ''AnimationEvent''),
   (''onanimationend'', Handler ''GlobalEventHandlers'' ''AnimationEvent''),
   (''onanimationiteration'', Handler ''GlobalEventHandlers'' ''AnimationEvent''),
   (''onanimationstart'', Handler ''GlobalEventHandlers'' ''AnimationEvent''),
   (''onauxclick'', Handler ''GlobalEventHandlers'' ''MouseEvent''),
   (''onbeforeinput'', Handler ''GlobalEventHandlers'' ''InputEvent''),
   (''onbeforetoggle'', Handler ''GlobalEventHandlers'' ''Event''),
   (''onblur'', Handler ''GlobalEventHandlers'' ''FocusEvent''),
   (''oncancel'', Handler ''GlobalEventHandlers'' ''Event''),
   (''oncanplay'', Handler ''GlobalEventHandlers'' ''Event''),
   (''oncanplaythrough'', Handler ''GlobalEventHandlers'' ''Event''),
   (''onchange'', Handler ''GlobalEventHandlers'' ''Event''),
   (''onclick'', Handler ''GlobalEventHandlers'' ''MouseEvent''),
   (''onclose'', Handler ''GlobalEventHandlers'' ''Event''),
   (''oncontextmenu'', Handler ''GlobalEventHandlers'' ''MouseEvent''),
   (''oncopy'', Handler ''GlobalEventHandlers'' ''ClipboardEvent''),
   (''oncuechange'', Handler ''GlobalEventHandlers'' ''Event''),
   (''oncut'', Handler ''GlobalEventHandlers'' ''ClipboardEvent''),
   (''ondblclick'', Handler ''GlobalEventHandlers'' ''MouseEvent''),
   (''ondrag'', Handler ''GlobalEventHandlers'' ''DragEvent''),
   (''ondragend'', Handler ''GlobalEventHandlers'' ''DragEvent''),
   (''ondragenter'', Handler ''GlobalEventHandlers'' ''DragEvent''),
   (''ondragleave'', Handler ''GlobalEventHandlers'' ''DragEvent''),
   (''ondragover'', Handler ''GlobalEventHandlers'' ''DragEvent''),
   (''ondragstart'', Handler ''GlobalEventHandlers'' ''DragEvent''),
   (''ondrop'', Handler ''GlobalEventHandlers'' ''DragEvent''),
   (''ondurationchange'', Handler ''GlobalEventHandlers'' ''Event''),
   (''onemptied'', Handler ''GlobalEventHandlers'' ''Event''),
   (''onended'', Handler ''GlobalEventHandlers'' ''Event''), (''onerror'', OnErrorEventHandler),
   (''onfocus'', Handler ''GlobalEventHandlers'' ''FocusEvent'')]"

definition GlobalEventHandlers_1 :: "(string \<times> handler) list" where
  "GlobalEventHandlers_1 =
  [
   (''onformdata'', Handler ''GlobalEventHandlers'' ''FormDataEvent''),
   (''ongotpointercapture'', Handler ''GlobalEventHandlers'' ''PointerEvent''),
   (''oninput'', Handler ''GlobalEventHandlers'' ''Event''),
   (''oninvalid'', Handler ''GlobalEventHandlers'' ''Event''),
   (''onkeydown'', Handler ''GlobalEventHandlers'' ''KeyboardEvent''),
   (''onkeypress'', Handler ''GlobalEventHandlers'' ''KeyboardEvent''),
   (''onkeyup'', Handler ''GlobalEventHandlers'' ''KeyboardEvent''),
   (''onload'', Handler ''GlobalEventHandlers'' ''Event''),
   (''onloadeddata'', Handler ''GlobalEventHandlers'' ''Event''),
   (''onloadedmetadata'', Handler ''GlobalEventHandlers'' ''Event''),
   (''onloadstart'', Handler ''GlobalEventHandlers'' ''Event''),
   (''onlostpointercapture'', Handler ''GlobalEventHandlers'' ''PointerEvent''),
   (''onmousedown'', Handler ''GlobalEventHandlers'' ''MouseEvent''),
   (''onmouseenter'', Handler ''GlobalEventHandlers'' ''MouseEvent''),
   (''onmouseleave'', Handler ''GlobalEventHandlers'' ''MouseEvent''),
   (''onmousemove'', Handler ''GlobalEventHandlers'' ''MouseEvent''),
   (''onmouseout'', Handler ''GlobalEventHandlers'' ''MouseEvent''),
   (''onmouseover'', Handler ''GlobalEventHandlers'' ''MouseEvent''),
   (''onmouseup'', Handler ''GlobalEventHandlers'' ''MouseEvent''),
   (''onpaste'', Handler ''GlobalEventHandlers'' ''ClipboardEvent''),
   (''onpause'', Handler ''GlobalEventHandlers'' ''Event''),
   (''onplay'', Handler ''GlobalEventHandlers'' ''Event''),
   (''onplaying'', Handler ''GlobalEventHandlers'' ''Event''),
   (''onpointercancel'', Handler ''GlobalEventHandlers'' ''PointerEvent''),
   (''onpointerdown'', Handler ''GlobalEventHandlers'' ''PointerEvent''),
   (''onpointerenter'', Handler ''GlobalEventHandlers'' ''PointerEvent''),
   (''onpointerleave'', Handler ''GlobalEventHandlers'' ''PointerEvent''),
   (''onpointermove'', Handler ''GlobalEventHandlers'' ''PointerEvent''),
   (''onpointerout'', Handler ''GlobalEventHandlers'' ''PointerEvent''),
   (''onpointerover'', Handler ''GlobalEventHandlers'' ''PointerEvent''),
   (''onpointerup'', Handler ''GlobalEventHandlers'' ''PointerEvent''),
   (''onprogress'', Handler ''GlobalEventHandlers'' ''ProgressEvent'')]"

definition GlobalEventHandlers_2 :: "(string \<times> handler) list" where
  "GlobalEventHandlers_2 =
  [
   (''onratechange'', Handler ''GlobalEventHandlers'' ''Event''),
   (''onreset'', Handler ''GlobalEventHandlers'' ''Event''),
   (''onresize'', Handler ''GlobalEventHandlers'' ''UIEvent''),
   (''onscroll'', Handler ''GlobalEventHandlers'' ''Event''),
   (''onscrollend'', Handler ''GlobalEventHandlers'' ''Event''),
   (''onsecuritypolicyviolation'', Handler ''GlobalEventHandlers'' ''SecurityPolicyViolationEvent''),
   (''onseeked'', Handler ''GlobalEventHandlers'' ''Event''),
   (''onseeking'', Handler ''GlobalEventHandlers'' ''Event''),
   (''onselect'', Handler ''GlobalEventHandlers'' ''Event''),
   (''onselectionchange'', Handler ''GlobalEventHandlers'' ''Event''),
   (''onselectstart'', Handler ''GlobalEventHandlers'' ''Event''),
   (''onslotchange'', Handler ''GlobalEventHandlers'' ''Event''),
   (''onstalled'', Handler ''GlobalEventHandlers'' ''Event''),
   (''onsubmit'', Handler ''GlobalEventHandlers'' ''SubmitEvent''),
   (''onsuspend'', Handler ''GlobalEventHandlers'' ''Event''),
   (''ontimeupdate'', Handler ''GlobalEventHandlers'' ''Event''),
   (''ontoggle'', Handler ''GlobalEventHandlers'' ''Event''),
   (''ontransitioncancel'', Handler ''GlobalEventHandlers'' ''TransitionEvent''),
   (''ontransitionend'', Handler ''GlobalEventHandlers'' ''TransitionEvent''),
   (''ontransitionrun'', Handler ''GlobalEventHandlers'' ''TransitionEvent''),
   (''ontransitionstart'', Handler ''GlobalEventHandlers'' ''TransitionEvent''),
   (''onvolumechange'', Handler ''GlobalEventHandlers'' ''Event''),
   (''onwaiting'', Handler ''GlobalEventHandlers'' ''Event''),
   (''onwebkitanimationend'', Handler ''GlobalEventHandlers'' ''Event''),
   (''onwebkitanimationiteration'', Handler ''GlobalEventHandlers'' ''Event''),
   (''onwebkitanimationstart'', Handler ''GlobalEventHandlers'' ''Event''),
   (''onwebkittransitionend'', Handler ''GlobalEventHandlers'' ''Event''),
   (''onwheel'', Handler ''GlobalEventHandlers'' ''WheelEvent'')]"

definition GlobalEventHandlers_handlers :: "(string \<times> handler) list" where
  "GlobalEventHandlers_handlers = GlobalEventHandlers_0 @ GlobalEventHandlers_1 @ GlobalEventHandlers_2"

definition WindowEventHandlers_handlers :: "(string \<times> handler) list" where
  "WindowEventHandlers_handlers =
  [
   (''onafterprint'', Handler ''WindowEventHandlers'' ''Event''),
   (''onbeforeprint'', Handler ''WindowEventHandlers'' ''Event''),
   (''onbeforeunload'', Handler ''WindowEventHandlers'' ''BeforeUnloadEvent''),
   (''ongamepadconnected'', Handler ''WindowEventHandlers'' ''GamepadEvent''),
   (''ongamepaddisconnected'', Handler ''WindowEventHandlers'' ''GamepadEvent''),
   (''onhashchange'', Handler ''WindowEventHandlers'' ''HashChangeEvent''),
   (''onlanguagechange'', Handler ''WindowEventHandlers'' ''Event''),
   (''onmessage'', Handler ''WindowEventHandlers'' ''MessageEvent''),
   (''onmessageerror'', Handler ''WindowEventHandlers'' ''MessageEvent''),
   (''onoffline'', Handler ''WindowEventHandlers'' ''Event''),
   (''ononline'', Handler ''WindowEventHandlers'' ''Event''),
   (''onpagehide'', Handler ''WindowEventHandlers'' ''PageTransitionEvent''),
   (''onpageshow'', Handler ''WindowEventHandlers'' ''PageTransitionEvent''),
   (''onpopstate'', Handler ''WindowEventHandlers'' ''PopStateEvent''),
   (''onrejectionhandled'', Handler ''WindowEventHandlers'' ''PromiseRejectionEvent''),
   (''onstorage'', Handler ''WindowEventHandlers'' ''StorageEvent''),
   (''onunhandledrejection'', Handler ''WindowEventHandlers'' ''PromiseRejectionEvent''),
   (''onunload'', Handler ''WindowEventHandlers'' ''Event'')]"

definition Element_handlers :: "(string \<times> handler) list" where
  "Element_handlers =
  [
   (''onfullscreenchange'', Handler ''Element'' ''Event''),
   (''onfullscreenerror'', Handler ''Element'' ''Event'')]"

definition Document_on :: "(string \<times> handler) list" where
  "Document_on =
  [
   (''onfullscreenchange'', Handler ''Document'' ''Event''),
   (''onfullscreenerror'', Handler ''Document'' ''Event''),
   (''onpointerlockchange'', Handler ''Document'' ''Event''),
   (''onpointerlockerror'', Handler ''Document'' ''Event''),
   (''onreadystatechange'', Handler ''Document'' ''Event''),
   (''onvisibilitychange'', Handler ''Document'' ''Event'')]"

definition Document_handlers :: "(string \<times> handler) list" where
  "Document_handlers = extending Document_on [GlobalEventHandlers_handlers]"

definition HTMLElement_handlers :: "(string \<times> handler) list" where
  "HTMLElement_handlers = extending [] [Element_handlers, GlobalEventHandlers_handlers]"

definition MathMLElement_handlers :: "(string \<times> handler) list" where
  "MathMLElement_handlers = extending [] [Element_handlers, GlobalEventHandlers_handlers]"

definition SVGElement_handlers :: "(string \<times> handler) list" where
  "SVGElement_handlers = extending [] [Element_handlers, GlobalEventHandlers_handlers]"

definition HTMLBodyElement_handlers :: "(string \<times> handler) list" where
  "HTMLBodyElement_handlers = extending [] [HTMLElement_handlers, WindowEventHandlers_handlers]"

definition HTMLFrameSetElement_handlers :: "(string \<times> handler) list" where
  "HTMLFrameSetElement_handlers = extending [] [HTMLElement_handlers, WindowEventHandlers_handlers]"

definition HTMLMediaElement_on :: "(string \<times> handler) list" where
  "HTMLMediaElement_on =
  [
   (''onencrypted'', Handler ''HTMLMediaElement'' ''MediaEncryptedEvent''),
   (''onwaitingforkey'', Handler ''HTMLMediaElement'' ''Event'')]"

definition HTMLMediaElement_handlers :: "(string \<times> handler) list" where
  "HTMLMediaElement_handlers = extending HTMLMediaElement_on [HTMLElement_handlers]"

definition HTMLVideoElement_on :: "(string \<times> handler) list" where
  "HTMLVideoElement_on =
  [
   (''onenterpictureinpicture'', Handler ''HTMLVideoElement'' ''Event''),
   (''onleavepictureinpicture'', Handler ''HTMLVideoElement'' ''Event'')]"

definition HTMLVideoElement_handlers :: "(string \<times> handler) list" where
  "HTMLVideoElement_handlers = extending HTMLVideoElement_on [HTMLMediaElement_handlers]"

definition SVGSVGElement_handlers :: "(string \<times> handler) list" where
  "SVGSVGElement_handlers = extending [] [SVGElement_handlers, WindowEventHandlers_handlers]"

definition Window_on :: "(string \<times> handler) list" where
  "Window_on =
  [
   (''ondevicemotion'', Handler ''Window'' ''DeviceMotionEvent''),
   (''ondeviceorientation'', Handler ''Window'' ''DeviceOrientationEvent''),
   (''ondeviceorientationabsolute'', Handler ''Window'' ''DeviceOrientationEvent''),
   (''onorientationchange'', Handler ''Window'' ''Event'')]"

definition Window_handlers :: "(string \<times> handler) list" where
  "Window_handlers = extending Window_on [GlobalEventHandlers_handlers, WindowEventHandlers_handlers]"

section \<open>The event of a listener\<close>

text \<open>
  What the event map gives a listener: the type of event of a name in it. Any other name is a plain string for
  \<open>addEventListener\<close>, whose listener is given an \<open>Event\<close>.
\<close>

definition listener_event :: "(string \<times> string) list \<Rightarrow> string \<Rightarrow> string" where
  "listener_event em type = (case member type em of Some ev \<Rightarrow> ev | None \<Rightarrow> ''Event'')"

text \<open>
  A handler property \<open>on...\<close> belongs to an event of the map. It is given the same type of event as a listener,
  but for \<open>OnErrorEventHandler\<close>: that is given an \<open>Event\<close> or a string (and four more arguments) where a listener
  is given an \<open>ErrorEvent\<close>.
\<close>

definition handled :: "(string \<times> string) list \<Rightarrow> string \<times> handler \<Rightarrow> bool" where
  "handled em p = (take 2 (fst p) = ''on'' \<and> member (drop 2 (fst p)) em \<noteq> None \<and>
     listener_event em (drop 2 (fst p)) = (case snd p of OnErrorEventHandler \<Rightarrow> ''ErrorEvent'' | Handler _ ev \<Rightarrow> ev))"

definition belongs :: "handler \<Rightarrow> string \<Rightarrow> bool" where
  "belongs h ev = (ev = (case h of OnErrorEventHandler \<Rightarrow> ''ErrorEvent'' | Handler _ ev' \<Rightarrow> ev'))"

text \<open>One pass over handlers and events in the same order.\<close>

fun covered :: "(string \<times> handler) list \<Rightarrow> (string \<times> string) list \<Rightarrow> bool" where
  "covered [] es = True"
| "covered (h # hs) [] = False"
| "covered ((n, h) # hs) ((k, ev) # es) =
     (if n = CHR ''o'' # CHR ''n'' # k then belongs h ev \<and> covered hs es else covered ((n, h) # hs) es)"

lemma covered_head: "covered hs es = covered hs es"
  by (rule refl)

definition matched :: "(string \<times> handler) list \<Rightarrow> (string \<times> string) list \<Rightarrow> bool" where
  "matched hs es \<longleftrightarrow> (\<forall>(n, h) \<in> set hs. \<exists>(k, ev) \<in> set es. n = ''on'' @ k \<and> belongs h ev)"

lemma covered_matched: "covered hs es \<Longrightarrow> matched hs es"
  by (induction hs es rule: covered.induct) (auto simp: matched_def split: if_splits)

text \<open>No name with two types of event, in one map or in two.\<close>

definition agree :: "(string \<times> 'a) list \<Rightarrow> (string \<times> 'a) list \<Rightarrow> bool" where
  "agree xs ys \<longleftrightarrow> (\<forall>n v w. (n, v) \<in> set xs \<longrightarrow> (n, w) \<in> set ys \<longrightarrow> v = w)"

lemma agree_sym: "agree xs ys \<Longrightarrow> agree ys xs"
  by (auto simp: agree_def)

lemma agree_extending:
  "agree (extending own ps) ys \<longleftrightarrow> agree own ys \<and> (\<forall>p \<in> set ps. agree p ys)"
  "agree ys (extending own ps) \<longleftrightarrow> agree ys own \<and> (\<forall>p \<in> set ps. agree ys p)"
  by (fastforce simp: agree_def extending_def)+

lemma agree_common:
  assumes "in_order xs" "in_order ys" "list_all (\<lambda>n. member n xs = member n ys) (common xs ys)"
  shows "agree xs ys"
proof -
  have "v = w" if "(n, v) \<in> set xs" "(n, w) \<in> set ys" for n v w
  proof -
    have "n \<in> set (common xs ys)"
      using that common_set [OF assms(1,2)] by force
    then have "member n xs = member n ys"
      using assms(3) by (simp add: list_all_iff)
    then show ?thesis
      using that assms(1,2) by (simp add: member_distinct in_order_distinct)
  qed
  then show ?thesis by (simp add: agree_def)
qed

lemma agree_refl: "in_order xs \<Longrightarrow> agree xs xs"
  using in_order_distinct [of xs] by (auto simp: agree_def dest: eq_key_imp_eq_value)

lemma agree_member: "agree em em \<Longrightarrow> (n, v) \<in> set em \<Longrightarrow> member n em = Some v"
proof (cases "member n em")
  case None
  then show "(n, v) \<in> set em \<Longrightarrow> ?thesis" by (force simp: member_None)
next
  case (Some w)
  then show "agree em em \<Longrightarrow> (n, v) \<in> set em \<Longrightarrow> ?thesis"
    using member_SomeD [of n em w] by (auto simp: agree_def)
qed

lemma belongs_handled: "agree em em \<Longrightarrow> (k, ev) \<in> set em \<Longrightarrow> belongs h ev \<Longrightarrow> handled em (''on'' @ k, h)"
  using agree_member [of em k ev] by (simp add: handled_def belongs_def listener_event_def)

lemma matched_handled: "matched hs em \<Longrightarrow> agree em em \<Longrightarrow> list_all (handled em) hs"
proof -
  assume m: "matched hs em" and em: "agree em em"
  have "handled em p" if p: "p \<in> set hs" for p
  proof (cases p)
    case (Pair n h)
    then obtain k ev where "(k, ev) \<in> set em" "n = ''on'' @ k" "belongs h ev"
      using m p unfolding matched_def by fastforce
    then show ?thesis using belongs_handled [OF em] unfolding Pair by blast
  qed
  then show ?thesis by (simp add: list_all_iff)
qed

lemma matched_mono: "matched hs es \<Longrightarrow> set es \<subseteq> set es' \<Longrightarrow> matched hs es'"
  by (fastforce simp: matched_def)

lemma matched_extending: "matched (extending own ps) es \<longleftrightarrow> matched own es \<and> (\<forall>p \<in> set ps. matched p es)"
  unfolding matched_def by (simp add: extending_def Ball_def Bex_def) blast

lemma set_extending: "set (extending own ps) = set own \<union> \<Union> (set ` set ps)"
  by (simp add: extending_def)

section \<open>The tables\<close>

lemmas own_events = GlobalEventHandlersEventMap_def WindowEventHandlersEventMap_def ElementEventMap_def
  Document_events_def HTMLMediaElement_events_def HTMLVideoElement_events_def Window_events_def

lemma events_in_order:
  "in_order GlobalEventHandlersEventMap" "in_order WindowEventHandlersEventMap" "in_order ElementEventMap"
  "in_order Document_events" "in_order HTMLMediaElement_events" "in_order HTMLVideoElement_events" "in_order Window_events"
  unfolding own_events by (simp_all cong: in_order_head)

lemma events_common:
  "common ElementEventMap GlobalEventHandlersEventMap = []"
  "common ElementEventMap WindowEventHandlersEventMap = []"
  "common WindowEventHandlersEventMap GlobalEventHandlersEventMap = []"
  "common Document_events GlobalEventHandlersEventMap = []"
  "common HTMLMediaElement_events GlobalEventHandlersEventMap = []"
  "common HTMLMediaElement_events ElementEventMap = []"
  "common HTMLVideoElement_events GlobalEventHandlersEventMap = []"
  "common HTMLVideoElement_events ElementEventMap = []"
  "common HTMLVideoElement_events HTMLMediaElement_events = []"
  "common Window_events GlobalEventHandlersEventMap = []"
  "common Window_events WindowEventHandlersEventMap = [''gamepadconnected'', ''gamepaddisconnected'']"
  unfolding own_events by (simp_all cong: common_head)

lemmas own_agree = events_in_order [THEN agree_refl]
  agree_common [OF events_in_order(3,1)] agree_common [OF events_in_order(3,2)] agree_common [OF events_in_order(2,1)]
  agree_common [OF events_in_order(4,1)] agree_common [OF events_in_order(5,1)] agree_common [OF events_in_order(5,3)]
  agree_common [OF events_in_order(6,1)] agree_common [OF events_in_order(6,3)] agree_common [OF events_in_order(6,5)]
  agree_common [OF events_in_order(7,1)]

lemma window_agree: "agree Window_events WindowEventHandlersEventMap"
  by (rule agree_common [OF events_in_order(7,2)], unfold events_common Window_events_def
      WindowEventHandlersEventMap_def) (simp cong: member_head)

lemmas maps = DocumentEventMap_def HTMLElementEventMap_def MathMLElementEventMap_def SVGElementEventMap_def
  HTMLBodyElementEventMap_def HTMLFrameSetElementEventMap_def HTMLMediaElementEventMap_def
  HTMLVideoElementEventMap_def SVGSVGElementEventMap_def WindowEventMap_def

lemma base_agree:
  "agree GlobalEventHandlersEventMap GlobalEventHandlersEventMap" "agree WindowEventHandlersEventMap WindowEventHandlersEventMap"
  "agree ElementEventMap ElementEventMap" "agree Document_events Document_events"
  "agree HTMLMediaElement_events HTMLMediaElement_events" "agree HTMLVideoElement_events HTMLVideoElement_events"
  "agree Window_events Window_events" "agree ElementEventMap GlobalEventHandlersEventMap"
  "agree ElementEventMap WindowEventHandlersEventMap" "agree WindowEventHandlersEventMap GlobalEventHandlersEventMap"
  "agree Document_events GlobalEventHandlersEventMap" "agree HTMLMediaElement_events GlobalEventHandlersEventMap"
  "agree HTMLMediaElement_events ElementEventMap" "agree HTMLVideoElement_events GlobalEventHandlersEventMap"
  "agree HTMLVideoElement_events ElementEventMap" "agree HTMLVideoElement_events HTMLMediaElement_events"
  "agree Window_events GlobalEventHandlersEventMap" "agree Window_events WindowEventHandlersEventMap"
  by (simp_all add: own_agree events_common window_agree)

text \<open>No event map gives one name two types, although most of them are put together from others.\<close>

lemma maps_agree:
  "agree DocumentEventMap DocumentEventMap" "agree HTMLElementEventMap HTMLElementEventMap"
  "agree MathMLElementEventMap MathMLElementEventMap" "agree SVGElementEventMap SVGElementEventMap"
  "agree HTMLBodyElementEventMap HTMLBodyElementEventMap" "agree HTMLFrameSetElementEventMap HTMLFrameSetElementEventMap"
  "agree HTMLMediaElementEventMap HTMLMediaElementEventMap" "agree HTMLVideoElementEventMap HTMLVideoElementEventMap"
  "agree SVGSVGElementEventMap SVGSVGElementEventMap" "agree WindowEventMap WindowEventMap"
  unfolding maps agree_extending by (simp_all add: agree_extending base_agree base_agree(8-) [THEN agree_sym] agree_def [of "[]"] agree_def [of _ "[]"])

lemma handlers_covered:
  "covered GlobalEventHandlers_handlers GlobalEventHandlersEventMap"
  "covered WindowEventHandlers_handlers WindowEventHandlersEventMap"
  "covered Element_handlers ElementEventMap" "covered Document_on Document_events"
  "covered HTMLMediaElement_on HTMLMediaElement_events" "covered HTMLVideoElement_on HTMLVideoElement_events"
  "covered Window_on Window_events"
  unfolding own_events GlobalEventHandlers_handlers_def GlobalEventHandlers_0_def GlobalEventHandlers_1_def
    GlobalEventHandlers_2_def WindowEventHandlers_handlers_def Element_handlers_def Document_on_def
    HTMLMediaElement_on_def HTMLVideoElement_on_def Window_on_def append.simps
  by (simp_all add: belongs_def cong: covered_head)

lemmas base_matched = handlers_covered [THEN covered_matched]

lemmas handler_tables = Document_handlers_def HTMLElement_handlers_def MathMLElement_handlers_def SVGElement_handlers_def
  HTMLBodyElement_handlers_def HTMLFrameSetElement_handlers_def HTMLMediaElement_handlers_def
  HTMLVideoElement_handlers_def SVGSVGElement_handlers_def Window_handlers_def

lemma matched_Nil: "matched [] es"
  by (simp add: matched_def)

lemma tables_matched:
  "matched Document_handlers DocumentEventMap" "matched HTMLElement_handlers HTMLElementEventMap"
  "matched MathMLElement_handlers MathMLElementEventMap" "matched SVGElement_handlers SVGElementEventMap"
  "matched HTMLBodyElement_handlers HTMLBodyElementEventMap" "matched HTMLFrameSetElement_handlers HTMLFrameSetElementEventMap"
  "matched HTMLMediaElement_handlers HTMLMediaElementEventMap" "matched HTMLVideoElement_handlers HTMLVideoElementEventMap"
  "matched SVGSVGElement_handlers SVGSVGElementEventMap" "matched Window_handlers WindowEventMap"
  unfolding handler_tables maps matched_extending
  by (auto simp: matched_extending matched_Nil set_extending intro: base_matched [THEN matched_mono])

text \<open>
  For the document, the window and all kinds of elements each \<open>on...\<close> property, inherited or not, has its event in
  the event map of the interface, with the type the property says; \<open>onerror\<close> is the only one with a type of its own,
  and stands for an \<open>ErrorEvent\<close>.
\<close>

theorem handlers_match_listeners:
  "list_all (\<lambda>(hs, em). list_all (handled em) hs)
    [(Document_handlers, DocumentEventMap), (Window_handlers, WindowEventMap),
     (HTMLElement_handlers, HTMLElementEventMap), (MathMLElement_handlers, MathMLElementEventMap),
     (SVGElement_handlers, SVGElementEventMap), (HTMLBodyElement_handlers, HTMLBodyElementEventMap),
     (HTMLFrameSetElement_handlers, HTMLFrameSetElementEventMap), (HTMLMediaElement_handlers, HTMLMediaElementEventMap),
     (HTMLVideoElement_handlers, HTMLVideoElementEventMap), (SVGSVGElement_handlers, SVGSVGElementEventMap)]"
  by (simp add: matched_handled tables_matched maps_agree)

lemma kept: "agree child child \<Longrightarrow> set parent \<subseteq> set child \<Longrightarrow> list_all (\<lambda>(n, ev). listener_event child n = ev) parent"
  by (force simp: list_all_iff listener_event_def agree_member)

text \<open>An interface that extends another keeps its events: a listener for a name of the parent's event map is
  given the same type of event by the child's.\<close>

theorem events_keep_types:
  "list_all (\<lambda>(parent, child). list_all (\<lambda>(n, ev). listener_event child n = ev) parent)
    [(GlobalEventHandlersEventMap, DocumentEventMap), (GlobalEventHandlersEventMap, WindowEventMap),
     (WindowEventHandlersEventMap, WindowEventMap), (ElementEventMap, HTMLElementEventMap),
     (GlobalEventHandlersEventMap, HTMLElementEventMap), (ElementEventMap, SVGElementEventMap),
     (GlobalEventHandlersEventMap, SVGElementEventMap), (HTMLElementEventMap, HTMLBodyElementEventMap),
     (WindowEventHandlersEventMap, HTMLBodyElementEventMap), (HTMLElementEventMap, HTMLFrameSetElementEventMap),
     (WindowEventHandlersEventMap, HTMLFrameSetElementEventMap), (HTMLElementEventMap, HTMLMediaElementEventMap),
     (HTMLMediaElementEventMap, HTMLVideoElementEventMap), (SVGElementEventMap, SVGSVGElementEventMap),
     (WindowEventHandlersEventMap, SVGSVGElementEventMap)]"
  unfolding list.pred_inject prod.case
  by (intro conjI TrueI kept maps_agree; simp add: maps set_extending subset_iff)

end
