(* ===== verification/Monarch.thy ===== *)
theory Monarch
  imports Prelude "HOL-Library.Sublist"
begin

text \<open>
  The part of Monaco's Monarch tokenizer that \<open>wgsl.js\<close> uses (in \<open>editor.main.js\<close>: the compilation of a
  language definition, line 120, and the tokenizer's loop over a line, lines 622 and 623): regular
  expressions as JavaScript matches them, rules, includes, the stack of states, and the loop, whose
  fuel stands for not returning. Characters are code points below 256.
\<close>

section \<open>Regular expressions\<close>

text \<open>
  \<open>Many\<close> and \<open>Opt\<close> are greedy. \<open>rests\<close> lists what a match can leave over, in the order in which
  backtracking tries the matches: the first one is JavaScript's.
\<close>

datatype regex =
    Cls "char \<Rightarrow> bool"
  | Many "char \<Rightarrow> bool"
  | Seq regex regex
  | Alt regex regex
  | Opt regex
  | Eol

fun many :: "(char \<Rightarrow> bool) \<Rightarrow> string \<Rightarrow> string list" where
  "many p [] = [[]]"
| "many p (c # s) = (if p c then many p s @ [c # s] else [c # s])"

fun rests :: "regex \<Rightarrow> string \<Rightarrow> string list" where
  "rests (Cls p) s = (case s of [] \<Rightarrow> [] | c # t \<Rightarrow> if p c then [t] else [])"
| "rests (Many p) s = many p s"
| "rests (Seq r q) s = concat (map (rests q) (rests r s))"
| "rests (Alt r q) s = rests r s @ rests q s"
| "rests (Opt r) s = rests r s @ [s]"
| "rests Eol s = (if s = [] then [s] else [])"

definition Lit :: "string \<Rightarrow> regex" where
  "Lit w = foldr (\<lambda>c r. Seq (Cls (\<lambda>x. x = c)) r) (butlast w) (Cls (\<lambda>x. x = last w))"

definition Plus :: "(char \<Rightarrow> bool) \<Rightarrow> regex" where
  "Plus p = Seq (Cls p) (Many p)"

text \<open>\<open>"^(?:...)"\<close> applied to the rest of the line: the text matched and what is left.\<close>

definition match_at :: "regex \<Rightarrow> string \<Rightarrow> (string \<times> string) option" where
  "match_at r s = (case rests r s of [] \<Rightarrow> None | t # _ \<Rightarrow> Some (take (length s - length t) s, t))"

section \<open>Language definitions\<close>

text \<open>
  The action of a rule: a token, the token of a bracket, or cases, each guarded by a table of words
  (\<open>"@table"\<close>), with a default. What follows: the stack stays, a named state is pushed, the state itself
  is pushed again (\<open>@push\<close>), or it is popped (\<open>@pop\<close>).
\<close>

datatype action = Token string | Brackets | Cases "(string list \<times> string) list" string

datatype goes = Stay | Enter string | Push | Pop

record rule =
  rule_regex :: regex
  rule_action :: action
  rule_next :: goes

datatype rule_item = Rule rule | Include string

record lexer =
  states :: "(string \<times> rule_item list) list"
  default_token :: string
  token_postfix :: string
  brackets :: "(string \<times> string \<times> string) list"
  max_stack :: nat

definition default_brackets :: "(string \<times> string \<times> string) list" where
  "default_brackets = [(''{'', ''}'', ''delimiter.curly''), (''['', '']'', ''delimiter.square''),
     (''('', '')'', ''delimiter.parenthesis''), (''<'', ''>'', ''delimiter.angle'')]"

text \<open>The rules of a state, with the rules of included states in place; \<open>n\<close> bounds the nesting.\<close>

fun rules_of :: "nat \<Rightarrow> (string \<times> rule_item list) list \<Rightarrow> rule_item list \<Rightarrow> rule list option" where
  "rules_of n sts [] = Some []"
| "rules_of n sts (Rule r # is) = map_option (Cons r) (rules_of n sts is)"
| "rules_of 0 sts (Include i # is) = None"
| "rules_of (Suc n) sts (Include i # is) = (case map_of sts i of
       None \<Rightarrow> None
     | Some js \<Rightarrow> (case (rules_of n sts js, rules_of (Suc n) sts is) of
         (Some rs, Some qs) \<Rightarrow> Some (rs @ qs)
       | _ \<Rightarrow> None))"

definition compiled :: "lexer \<Rightarrow> string \<Rightarrow> rule list option" where
  "compiled lx n = (case map_of (states lx) n of
       None \<Rightarrow> None
     | Some is \<Rightarrow> rules_of (length (states lx)) (states lx) is)"

section \<open>The loop over a line\<close>

datatype lex_error =
    NoState string          \<comment> \<open>tokenizer state is not defined\<close>
  | StackFull               \<comment> \<open>maximum tokenizer stack size reached\<close>
  | StackEmpty              \<comment> \<open>trying to pop an empty stack\<close>
  | NoProgress              \<comment> \<open>no progress in tokenizer\<close>
  | NoBracket string        \<comment> \<open>no bracket defined\<close>
  | OutOfFuel

fun find_rule :: "rule list \<Rightarrow> string \<Rightarrow> (string \<times> string \<times> rule) option" where
  "find_rule [] s = None"
| "find_rule (r # rs) s = (case match_at (rule_regex r) s of
       Some (x, t) \<Rightarrow> Some (x, t, r)
     | None \<Rightarrow> find_rule rs s)"

fun case_token :: "(string list \<times> string) list \<Rightarrow> string \<Rightarrow> string \<Rightarrow> string" where
  "case_token [] d x = d"
| "case_token ((ws, tok) # cs) d x = (if x \<in> set ws then tok else case_token cs d x)"

definition bracket_token :: "lexer \<Rightarrow> string \<Rightarrow> string option" where
  "bracket_token lx x = map_option (\<lambda>b. snd (snd b)) (List.find (\<lambda>b. fst b = x \<or> fst (snd b) = x) (brackets lx))"

definition type_of_token :: "lexer \<Rightarrow> action \<Rightarrow> string \<Rightarrow> lex_error + string" where
  "type_of_token lx a x = (case a of
       Token t \<Rightarrow> Inr (t @ token_postfix lx)
     | Brackets \<Rightarrow> (case bracket_token lx x of None \<Rightarrow> Inl (NoBracket x) | Some t \<Rightarrow> Inr t)
     | Cases cs d \<Rightarrow> Inr (case_token cs d x @ token_postfix lx))"

text \<open>The stack has the current state first; its depth is its length.\<close>

definition next_stack :: "lexer \<Rightarrow> goes \<Rightarrow> string list \<Rightarrow> lex_error + string list" where
  "next_stack lx g st = (case g of
       Stay \<Rightarrow> Inr st
     | Push \<Rightarrow> if length st \<ge> max_stack lx then Inl StackFull else Inr (hd st # st)
     | Pop \<Rightarrow> if length st \<le> 1 then Inl StackEmpty else Inr (tl st)
     | Enter n \<Rightarrow> if compiled lx n = None then Inl (NoState n) else Inr (n # st))"

text \<open>
  One round: the first rule that matches, or else one character with the default token. \<open>s\<close> is what
  is left of the line; the token is its text and type, \<open>None\<close> when nothing was matched.
\<close>

definition pick :: "lexer \<Rightarrow> rule list \<Rightarrow> string \<Rightarrow> string \<times> string \<times> action \<times> goes" where
  "pick lx rs s = (case find_rule rs s of
       Some (x, t, r) \<Rightarrow> (x, t, rule_action r, rule_next r)
     | None \<Rightarrow> (take 1 s, drop 1 s, Token (default_token lx), Stay))"

definition lex_round :: "lexer \<Rightarrow> bool \<Rightarrow> string \<Rightarrow> string list \<Rightarrow>
    lex_error + (string \<times> string) option \<times> string \<times> string list" where
  "lex_round lx empty_line s st =
     (case compiled lx (hd st) of
        None \<Rightarrow> Inl (NoState (hd st))
      | Some rs \<Rightarrow>
            let (x, t, a, g) = pick lx rs s
            in (case next_stack lx g st of
                  Inl e \<Rightarrow> Inl e
                | Inr st' \<Rightarrow>
                    if x = [] then
                      if empty_line \<or> length st' \<noteq> length st \<or> hd st' \<noteq> hd st then Inr (None, t, st')
                      else Inl NoProgress
                    else (case type_of_token lx a x of
                        Inl e \<Rightarrow> Inl e
                      | Inr ty \<Rightarrow> Inr (Some (x, ty), t, st'))))"

text \<open>The loop: at least one round, then until the line is used up.\<close>

fun lex_rounds :: "nat \<Rightarrow> lexer \<Rightarrow> bool \<Rightarrow> string \<Rightarrow> string list \<Rightarrow> lex_error + (string \<times> string) list \<times> string list" where
  "lex_rounds 0 lx e s st = Inl OutOfFuel"
| "lex_rounds (Suc n) lx e s st = (case lex_round lx e s st of
       Inl err \<Rightarrow> Inl err
     | Inr (tok, t, st') \<Rightarrow>
         if t = [] then Inr ((case tok of None \<Rightarrow> [] | Some k \<Rightarrow> [k]), st')
         else (case lex_rounds n lx e t st' of
             Inl err \<Rightarrow> Inl err
           | Inr (toks, st'') \<Rightarrow> Inr ((case tok of None \<Rightarrow> toks | Some k \<Rightarrow> k # toks), st'')))"

definition lex_line :: "nat \<Rightarrow> lexer \<Rightarrow> string \<Rightarrow> string list \<Rightarrow> lex_error + (string \<times> string) list \<times> string list" where
  "lex_line n lx s st = lex_rounds n lx (s = []) s st"

lemma lex_rounds_step:
  "lex_round lx e s st = Inr (Some k, t, st') \<Longrightarrow> t \<noteq> [] \<Longrightarrow> lex_rounds (Suc n) lx e s st =
    (case lex_rounds n lx e t st' of Inl err \<Rightarrow> Inl err | Inr (toks, st'') \<Rightarrow> Inr (k # toks, st''))"
  by (simp split: sum.split)

lemma lex_rounds_last: "lex_round lx e s st = Inr (Some k, [], st') \<Longrightarrow> lex_rounds (Suc n) lx e s st = Inr ([k], st')"
  by simp

lemma lex_rounds_error: "lex_round lx e s st = Inl err \<Longrightarrow> lex_rounds (Suc n) lx e s st = Inl err"
  by simp

section \<open>No text is lost\<close>

lemma many_suffix: "t \<in> set (many p s) \<Longrightarrow> suffix t s"
  by (induction p s rule: many.induct) (auto split: if_splits intro: suffix_ConsI)

lemma rests_suffix: "t \<in> set (rests r s) \<Longrightarrow> suffix t s"
proof (induction r arbitrary: s t)
  case (Seq r q)
  from Seq.prems obtain u where "u \<in> set (rests r s)" "t \<in> set (rests q u)" by auto
  with Seq.IH show ?case using suffix_order.trans by blast
next
  case (Cls p)
  then show ?case by (cases s) (auto split: if_splits intro: suffix_ConsI)
qed (auto split: if_splits dest: many_suffix)

lemma match_at_Some:
  assumes "match_at r s = Some (x, t)"
  shows "x @ t = s" "t \<in> set (rests r s)"
proof -
  from assms obtain ts where ts: "rests r s = t # ts" and x: "x = take (length s - length t) s"
    unfolding match_at_def by (auto split: list.splits)
  then show "t \<in> set (rests r s)" by simp
  from rests_suffix [OF this] obtain y where "s = y @ t" by (rule suffixE)
  with x show "x @ t = s" by simp
qed

lemma find_rule_Some:
  "find_rule rs s = Some (x, t, r) \<Longrightarrow> r \<in> set rs \<and> x @ t = s \<and> t \<in> set (rests (rule_regex r) s)"
  by (induction rs s rule: find_rule.induct) (auto split: option.splits dest: match_at_Some)

lemma pick_text: "pick lx rs s = (x, t, a, g) \<Longrightarrow> x @ t = s"
  unfolding pick_def by (auto split: option.splits dest: find_rule_Some)

text \<open>What a round without an error is.\<close>

lemma lex_roundE:
  assumes "lex_round lx e s st = Inr (tok, t, st')"
  obtains rs x a g where "compiled lx (hd st) = Some rs" "pick lx rs s = (x, t, a, g)"
    "next_stack lx g st = Inr st'" "x = [] \<Longrightarrow> tok = None"
    "x \<noteq> [] \<Longrightarrow> \<exists>ty. type_of_token lx a x = Inr ty \<and> tok = Some (x, ty)"
proof -
  from assms obtain rs where rs: "compiled lx (hd st) = Some rs"
    unfolding lex_round_def by (auto split: option.splits)
  obtain x t' a g where p: "pick lx rs s = (x, t', a, g)" by (metis prod_cases4)
  from assms rs p obtain st2 where n: "next_stack lx g st = Inr st2"
    unfolding lex_round_def by (auto split: sum.splits)
  show thesis
  proof (cases "x = []")
    case True
    with assms rs p n that show thesis unfolding lex_round_def by (auto split: if_splits)
  next
    case False
    with assms rs p n that show thesis unfolding lex_round_def by (auto split: sum.splits)
  qed
qed

definition token_text :: "(string \<times> string) option \<Rightarrow> string" where
  "token_text tok = (case tok of None \<Rightarrow> [] | Some k \<Rightarrow> fst k)"

lemma lex_round_text: "lex_round lx e s st = Inr (tok, t, st') \<Longrightarrow> token_text tok @ t = s"
proof (elim lex_roundE)
  fix rs x a g
  assume "pick lx rs s = (x, t, a, g)" "x = [] \<Longrightarrow> tok = None"
    "x \<noteq> [] \<Longrightarrow> \<exists>ty. type_of_token lx a x = Inr ty \<and> tok = Some (x, ty)"
  then show ?thesis using pick_text [of lx rs s x t a g] by (cases "x = []") (auto simp: token_text_def)
qed

lemma lex_rounds_text:
  "lex_rounds n lx e s st = Inr (toks, st') \<Longrightarrow> concat (map fst toks) = s"
proof (induction n lx e s st arbitrary: toks st' rule: lex_rounds.induct)
  case (2 n lx e s st)
  from "2.prems" obtain tok t st1 where r: "lex_round lx e s st = Inr (tok, t, st1)"
    by (auto split: sum.splits)
  from lex_round_text [OF r] have s: "token_text tok @ t = s" .
  show ?case
  proof (cases "t = []")
    case True
    with "2.prems" r s show ?thesis by (auto simp: token_text_def split: option.splits)
  next
    case False
    with "2.prems" r obtain ts st2 where l: "lex_rounds n lx e t st1 = Inr (ts, st2)"
        and toks: "toks = (case tok of None \<Rightarrow> ts | Some k \<Rightarrow> k # ts)"
      by (auto split: sum.splits)
    from "2.IH" [OF r refl refl False l] s toks show ?thesis
      by (auto simp: token_text_def split: option.splits)
  qed
qed simp

section \<open>Lexers that always return\<close>

text \<open>
  The conditions on a language definition: every state has rules; every match of a rule uses up text;
  the start state is only at the bottom of the stack and never pops or is pushed; a rule whose token
  is that of a bracket matches brackets only.
\<close>

locale productive_lexer =
  fixes lx :: lexer and root :: string and known :: "string set"
  assumes root: "root \<in> known"
    and compiles: "n \<in> known \<Longrightarrow> \<exists>rs. compiled lx n = Some rs"
    and progress: "n \<in> known \<Longrightarrow> compiled lx n = Some rs \<Longrightarrow> r \<in> set rs \<Longrightarrow>
      t \<in> set (rests (rule_regex r) s) \<Longrightarrow> length t < length s"
    and enters: "n \<in> known \<Longrightarrow> compiled lx n = Some rs \<Longrightarrow> r \<in> set rs \<Longrightarrow>
      rule_next r = Enter m \<Longrightarrow> m \<in> known - {root}"
    and pops: "compiled lx root = Some rs \<Longrightarrow> r \<in> set rs \<Longrightarrow> rule_next r \<noteq> Pop \<and> rule_next r \<noteq> Push"
    and brackets: "n \<in> known \<Longrightarrow> compiled lx n = Some rs \<Longrightarrow> r \<in> set rs \<Longrightarrow>
      rule_action r = Brackets \<Longrightarrow> match_at (rule_regex r) s = Some (x, t) \<Longrightarrow> bracket_token lx x \<noteq> None"
begin

definition stack_ok :: "string list \<Rightarrow> bool" where
  "stack_ok st \<longleftrightarrow> st \<noteq> [] \<and> last st = root \<and> set st \<subseteq> known \<and> root \<notin> set (butlast st)"

lemma stack_ok_cases:
  assumes "stack_ok st"
  obtains "st = [root]" | n st' where "st = n # st'" "n \<in> known" "n \<noteq> root" "stack_ok st'"
proof (cases st)
  case (Cons n st')
  show thesis
  proof (cases "st' = []")
    case True
    with assms Cons that(1) show thesis by (simp add: stack_ok_def)
  next
    case False
    with assms Cons have "n \<in> known" "n \<noteq> root" "stack_ok st'" by (auto simp: stack_ok_def)
    with Cons that(2) show thesis by blast
  qed
qed (use assms in \<open>simp add: stack_ok_def\<close>)

lemma stack_ok_push: "stack_ok st \<Longrightarrow> n \<in> known \<Longrightarrow> n \<noteq> root \<Longrightarrow> stack_ok (n # st)"
  by (auto simp: stack_ok_def)

lemma stack_ok_known: "stack_ok st \<Longrightarrow> hd st \<in> known"
  by (cases st) (auto simp: stack_ok_def)

text \<open>Where a rule of the current state goes: to a good stack, unless the stack is full.\<close>

lemma next_stack_ok:
  assumes st: "stack_ok st" and rs: "compiled lx (hd st) = Some rs" and r: "r \<in> set rs"
  shows "(\<exists>st'. next_stack lx (rule_next r) st = Inr st' \<and> stack_ok st') \<or>
    next_stack lx (rule_next r) st = Inl StackFull"
proof (cases "rule_next r")
  case (Enter m)
  with enters [OF stack_ok_known [OF st] rs r] have m: "m \<in> known" "m \<noteq> root" by auto
  with compiles stack_ok_push [OF st] Enter show ?thesis by (auto simp: next_stack_def)
next
  case Push
  from st show ?thesis
  proof (cases rule: stack_ok_cases)
    case 1
    with rs r pops Push show ?thesis by fastforce
  next
    case (2 n st')
    with Push stack_ok_push [OF st, of n] show ?thesis by (auto simp: next_stack_def)
  qed
next
  case Pop
  from st show ?thesis
  proof (cases rule: stack_ok_cases)
    case 1
    with rs r pops Pop show ?thesis by fastforce
  next
    case (2 n st')
    then have "length st > 1" by (cases st') (auto simp: stack_ok_def)
    with 2 Pop show ?thesis by (auto simp: next_stack_def)
  qed
qed (use st in \<open>simp add: next_stack_def\<close>)

lemma pick_cases:
  assumes "pick lx rs s = (x, t, a, g)"
  obtains (rule) r where "r \<in> set rs" "match_at (rule_regex r) s = Some (x, t)" "a = rule_action r" "g = rule_next r"
  | (char) "x = take 1 s" "t = drop 1 s" "a = Token (default_token lx)" "g = Stay"
proof -
  have "find_rule rs s = Some (x, t, r) \<Longrightarrow> match_at (rule_regex r) s = Some (x, t) \<and> r \<in> set rs" for r
    by (induction rs s rule: find_rule.induct) (auto split: option.splits)
  with assms that show thesis unfolding pick_def by (auto split: option.splits)
qed

text \<open>One round, on a line with text left or on an empty line.\<close>

lemma lex_round_ok:
  assumes st: "stack_ok st" and s: "s \<noteq> [] \<or> e"
  shows "(\<exists>tok t st'. lex_round lx e s st = Inr (tok, t, st') \<and> stack_ok st' \<and> (s \<noteq> [] \<longrightarrow> length t < length s) \<and>
      (s = [] \<longrightarrow> t = [])) \<or> lex_round lx e s st = Inl StackFull"
proof -
  from compiles [OF stack_ok_known [OF st]] obtain rs where rs: "compiled lx (hd st) = Some rs" ..
  obtain x t a g where p: "pick lx rs s = (x, t, a, g)" by (metis prod_cases4)
  have xt: "x @ t = s" using pick_text [OF p] .
  have both: "(x \<noteq> [] \<or> s = []) \<and>
      ((\<exists>st'. next_stack lx g st = Inr st' \<and> stack_ok st') \<or> next_stack lx g st = Inl StackFull) \<and>
      (x \<noteq> [] \<longrightarrow> (\<exists>ty. type_of_token lx a x = Inr ty))"
    using p
  proof (cases rule: pick_cases)
    case (rule r)
    from progress [OF stack_ok_known [OF st] rs rule(1) match_at_Some(2) [OF rule(2)]] xt have "x \<noteq> []" by auto
    moreover have "\<exists>ty. type_of_token lx a x = Inr ty"
      using brackets [OF stack_ok_known [OF st] rs rule(1) _ rule(2)] unfolding rule(3)
      by (cases "rule_action r") (auto simp: type_of_token_def)
    ultimately show ?thesis using next_stack_ok [OF st rs rule(1)] rule(4) by simp
  next
    case char
    with st show ?thesis by (cases s) (simp_all add: next_stack_def type_of_token_def)
  qed
  show ?thesis
  proof (cases "next_stack lx g st")
    case (Inl err)
    with both rs p show ?thesis by (auto simp: lex_round_def)
  next
    case (Inr st')
    with both have ok: "stack_ok st'" by simp
    show ?thesis
    proof (cases "x = []")
      case True
      with both s xt have "s = []" "e" "t = []" by auto
      with rs p Inr True ok show ?thesis by (auto simp: lex_round_def)
    next
      case False
      with both obtain ty where "type_of_token lx a x = Inr ty" by blast
      with rs p Inr False ok xt show ?thesis by (auto simp: lex_round_def)
    qed
  qed
qed

lemma lex_rounds_ok:
  "stack_ok st \<Longrightarrow> s \<noteq> [] \<or> e \<Longrightarrow> length s < n \<Longrightarrow>
    (\<exists>toks st'. lex_rounds n lx e s st = Inr (toks, st') \<and> stack_ok st') \<or> lex_rounds n lx e s st = Inl StackFull"
proof (induction n arbitrary: s st)
  case (Suc n)
  from lex_round_ok [OF Suc.prems(1,2)] show ?case
  proof (elim disjE exE conjE)
    fix tok t st'
    assume r: "lex_round lx e s st = Inr (tok, t, st')" "stack_ok st'" "s \<noteq> [] \<longrightarrow> length t < length s"
      "s = [] \<longrightarrow> t = []"
    show ?thesis
    proof (cases "t = []")
      case False
      with r Suc.prems(3) have "length t < n" by auto
      from Suc.IH [OF r(2) _ this] False r(1) show ?thesis by fastforce
    qed (use r in simp)
  qed simp
qed simp

text \<open>On every line with a good stack, enough fuel gives tokens, or the stack is full.\<close>

lemma lex_line_ok:
  assumes "stack_ok st" "length s < n"
  shows "(\<exists>toks st'. lex_line n lx s st = Inr (toks, st') \<and> stack_ok st' \<and> concat (map fst toks) = s) \<or>
    lex_line n lx s st = Inl StackFull"
  using lex_rounds_ok [OF assms(1) _ assms(2), of "s = []"] lex_rounds_text
  unfolding lex_line_def by blast

end

end
