(* ===== verification/Wgsl.thy ===== *)
theory Wgsl
  imports Monarch Declarations JsString
begin

text \<open>
  The language definition of WGSL shaders, \<open>wgsl.js\<close>: the words of its tables, cut out of text blocks
  by \<open>r\<close>, and the rules of its tokenizer as an instance of \<open>Monarch\<close>. Identifiers may have the letters
  of Latin 1, the characters of the model.
\<close>

section \<open>The words of a text\<close>

text \<open>
  \<open>r\<close>: the text split at \<open>\t+|\r+|\n+| +\<close>, a run of one kind of white space at a time, and then a loop that
  keeps the pieces that are not empty.
\<close>

definition is_sep :: "char \<Rightarrow> bool" where
  "is_sep c = (c = CHR 0x09 \<or> c = CHR 0x0D \<or> c = CHR 0x0A \<or> c = CHR '' '')"

function split_runs :: "string \<Rightarrow> string list" where
  "split_runs [] = [[]]"
| "split_runs (c # s) = (if is_sep c then [] # split_runs (dropWhile (\<lambda>x. x = c) s)
     else (case split_runs s of [] \<Rightarrow> [[c]] | w # ws \<Rightarrow> (c # w) # ws))"
  by pat_completeness auto
termination
  by (relation "measure length") (auto simp: le_imp_less_Suc length_dropWhile_le)

fun push_words :: "string list \<Rightarrow> string list \<Rightarrow> string list" where
  "push_words [] e = e"
| "push_words (w # ws) e = push_words ws (if length w > 0 then e @ [w] else e)"

definition words_of :: "string \<Rightarrow> string list" where
  "words_of t = push_words (split_runs t) []"

text \<open>A block of lines in back ticks: every line has an indentation, and so may the last, empty one.\<close>

definition block :: "string \<Rightarrow> string \<Rightarrow> string list \<Rightarrow> string" where
  "block indent end ls = CHR 0x0A # concat (map (\<lambda>l. indent @ l @ [CHR 0x0A]) ls) @ end"

definition tabs :: "nat \<Rightarrow> string" where
  "tabs n = replicate n (CHR 0x09)"

section \<open>The tables\<close>

definition keyword_lines :: "string list" where
  "keyword_lines = [
    ''alias'', ''break'', ''case'', ''const'', ''const_assert'', ''continue'', ''continuing'',
    ''default'', ''diagnostic'', ''discard'', ''else'', ''enable'', ''fn'', ''for'', ''if'', ''let'',
    ''loop'', ''override'', ''requires'', ''return'', ''struct'', ''switch'', ''var'', ''while'']"

definition reserved_lines :: "string list" where
  "reserved_lines = [
    ''NULL'', ''Self'', ''abstract'', ''active'', ''alignas'', ''alignof'', ''as'', ''asm'',
    ''asm_fragment'', ''async'', ''attribute'', ''auto'', ''await'', ''become'', ''binding_array'',
    ''cast'', ''catch'', ''class'', ''co_await'', ''co_return'', ''co_yield'', ''coherent'',
    ''column_major'', ''common'', ''compile'', ''compile_fragment'', ''concept'', ''const_cast'',
    ''consteval'', ''constexpr'', ''constinit'', ''crate'', ''debugger'', ''decltype'', ''delete'',
    ''demote'', ''demote_to_helper'', ''do'', ''dynamic_cast'', ''enum'', ''explicit'', ''export'',
    ''extends'', ''extern'', ''external'', ''fallthrough'', ''filter'', ''final'', ''finally'',
    ''friend'', ''from'', ''fxgroup'', ''get'', ''goto'', ''groupshared'', ''highp'', ''impl'',
    ''implements'', ''import'', ''inline'', ''instanceof'', ''interface'', ''layout'', ''lowp'',
    ''macro'', ''macro_rules'', ''match'', ''mediump'', ''meta'', ''mod'', ''module'', ''move'',
    ''mut'', ''mutable'', ''namespace'', ''new'', ''nil'', ''noexcept'', ''noinline'',
    ''nointerpolation'', ''noperspective'', ''null'', ''nullptr'', ''of'', ''operator'', ''package'',
    ''packoffset'', ''partition'', ''pass'', ''patch'', ''pixelfragment'', ''precise'', ''precision'',
    ''premerge'', ''priv'', ''protected'', ''pub'', ''public'', ''readonly'', ''ref'', ''regardless'',
    ''register'', ''reinterpret_cast'', ''require'', ''resource'', ''restrict'', ''self'', ''set'',
    ''shared'', ''sizeof'', ''smooth'', ''snorm'', ''static'', ''static_assert'', ''static_cast'',
    ''std'', ''subroutine'', ''super'', ''target'', ''template'', ''this'', ''thread_local'', ''throw'',
    ''trait'', ''try'', ''type'', ''typedef'', ''typeid'', ''typename'', ''typeof'', ''union'',
    ''unless'', ''unorm'', ''unsafe'', ''unsized'', ''use'', ''using'', ''varying'', ''virtual'',
    ''volatile'', ''wgsl'', ''where'', ''with'', ''writeonly'', ''yield'']"

definition enum_lines :: "string list" where
  "enum_lines = [
    ''read write read_write'', ''function private workgroup uniform storage'',
    ''perspective linear flat'', ''center centroid sample'',
    ''vertex_index instance_index position front_facing frag_depth'',
    CHR 0x09 # ''local_invocation_id local_invocation_index'',
    CHR 0x09 # ''global_invocation_id workgroup_id num_workgroups'', CHR 0x09 # ''sample_index sample_mask'',
    ''rgba8unorm'',
    ''rgba8snorm'', ''rgba8uint'', ''rgba8sint'', ''rgba16uint'', ''rgba16sint'', ''rgba16float'',
    ''r32uint'', ''r32sint'', ''r32float'', ''rg32uint'', ''rg32sint'', ''rg32float'', ''rgba32uint'',
    ''rgba32sint'', ''rgba32float'', ''bgra8unorm'']"

definition type_lines :: "string list" where
  "type_lines = [
    ''bool'', ''f16'', ''f32'', ''i32'', ''sampler sampler_comparison'', ''texture_depth_2d'',
    ''texture_depth_2d_array'', ''texture_depth_cube'', ''texture_depth_cube_array'',
    ''texture_depth_multisampled_2d'', ''texture_external'', ''texture_external'', ''u32'']"

definition generator_lines :: "string list" where
  "generator_lines = [
    ''array'', ''atomic'', ''mat2x2'', ''mat2x3'', ''mat2x4'', ''mat3x2'', ''mat3x3'', ''mat3x4'',
    ''mat4x2'', ''mat4x3'', ''mat4x4'', ''ptr'', ''texture_1d'', ''texture_2d'', ''texture_2d_array'',
    ''texture_3d'', ''texture_cube'', ''texture_cube_array'', ''texture_multisampled_2d'',
    ''texture_storage_1d'', ''texture_storage_2d'', ''texture_storage_2d_array'',
    ''texture_storage_3d'', ''vec2'', ''vec3'', ''vec4'']"

definition alias_lines :: "string list" where
  "alias_lines = [
    ''vec2i vec3i vec4i'', ''vec2u vec3u vec4u'', ''vec2f vec3f vec4f'', ''vec2h vec3h vec4h'',
    ''mat2x2f mat2x3f mat2x4f'', ''mat3x2f mat3x3f mat3x4f'', ''mat4x2f mat4x3f mat4x4f'',
    ''mat2x2h mat2x3h mat2x4h'', ''mat3x2h mat3x3h mat3x4h'', ''mat4x2h mat4x3h mat4x4h'']"

definition intrinsic_lines :: "string list" where
  "intrinsic_lines = [
    ''bitcast all any select arrayLength abs acos acosh asin asinh atan atanh atan2'',
    ''ceil clamp cos cosh countLeadingZeros countOneBits countTrailingZeros cross'',
    ''degrees determinant distance dot exp exp2 extractBits faceForward firstLeadingBit'',
    ''firstTrailingBit floor fma fract frexp inverseBits inverseSqrt ldexp length'',
    ''log log2 max min mix modf normalize pow quantizeToF16 radians reflect refract'',
    ''reverseBits round saturate sign sin sinh smoothstep sqrt step tan tanh transpose'',
    ''trunc dpdx dpdxCoarse dpdxFine dpdy dpdyCoarse dpdyFine fwidth fwidthCoarse fwidthFine'',
    ''textureDimensions textureGather textureGatherCompare textureLoad textureNumLayers'',
    ''textureNumLevels textureNumSamples textureSample textureSampleBias textureSampleCompare'',
    ''textureSampleCompareLevel textureSampleGrad textureSampleLevel textureSampleBaseClampToEdge'',
    ''textureStore atomicLoad atomicStore atomicAdd atomicSub atomicMax atomicMin'',
    ''atomicAnd atomicOr atomicXor atomicExchange atomicCompareExchangeWeak pack4x8snorm'',
    ''pack4x8unorm pack2x16snorm pack2x16unorm pack2x16float unpack4x8snorm unpack4x8unorm'',
    ''unpack2x16snorm unpack2x16unorm unpack2x16float storageBarrier workgroupBarrier'',
    ''workgroupUniformLoad'']"

definition operator_lines :: "string list" where
  "operator_lines = [
    ''&'', ''&&'', ''->'', ''/'', ''='', ''=='', ''!='', ''>'', ''>='', ''<'', ''<='', ''%'', ''-'',
    ''--'', ''+'', ''++'', ''|'', ''||'', ''*'', ''<<'', ''>>'', ''+='', ''-='', ''*='', ''/='', ''%='',
    ''&='', ''|='', ''^='', ''>>='', ''<<='']"


definition atoms :: "string list" where
  "atoms = words_of ''true false''"

definition wgsl_keywords :: "string list" where
  "wgsl_keywords = words_of (block (tabs 3 @ ''  '') (tabs 3 @ ''  '') keyword_lines)"

definition reserved :: "string list" where
  "reserved = words_of (block (tabs 3 @ ''  '') (tabs 3 @ ''  '') reserved_lines)"

definition predeclared_enums :: "string list" where
  "predeclared_enums = words_of (block (tabs 2) [] enum_lines)"

definition predeclared_types :: "string list" where
  "predeclared_types = words_of (block (tabs 2) (tabs 2) type_lines)"

definition predeclared_type_generators :: "string list" where
  "predeclared_type_generators = words_of (block (tabs 2) (tabs 2) generator_lines)"

definition predeclared_type_aliases :: "string list" where
  "predeclared_type_aliases = words_of (block (tabs 2) (tabs 2) alias_lines)"

definition predeclared_intrinsics :: "string list" where
  "predeclared_intrinsics = words_of (block ''  '' [] intrinsic_lines)"

definition operators :: "string list" where
  "operators = words_of (block (tabs 5 @ '' '') (tabs 5 @ '' '') operator_lines)"

section \<open>The rules\<close>

definition code :: "char \<Rightarrow> nat" where
  "code c = of_char c"

definition in_range :: "char \<Rightarrow> char \<Rightarrow> char \<Rightarrow> bool" where
  "in_range a b c = (code a \<le> code c \<and> code c \<le> code b)"

definition digit :: "char \<Rightarrow> bool" where
  "digit = in_range (CHR ''0'') (CHR ''9'')"

definition nonzero :: "char \<Rightarrow> bool" where
  "nonzero = in_range (CHR ''1'') (CHR ''9'')"

definition hex_digit :: "char \<Rightarrow> bool" where
  "hex_digit c = (digit c \<or> in_range (CHR ''a'') (CHR ''f'') c \<or> in_range (CHR ''A'') (CHR ''F'') c)"

definition one_of :: "string \<Rightarrow> char \<Rightarrow> bool" where
  "one_of cs c = (c \<in> set cs)"

text \<open>\<open>\p{XID_Start}\<close>, \<open>\p{XID_Continue}\<close>, \<open>\w\<close> and \<open>\s\<close> below 256.\<close>

definition xid_start :: "char \<Rightarrow> bool" where
  "xid_start c = (in_range (CHR ''a'') (CHR ''z'') c \<or> in_range (CHR ''A'') (CHR ''Z'') c \<or>
     code c \<in> {0xAA, 0xB5, 0xBA} \<or> code c \<ge> 0xC0 \<and> code c \<notin> {0xD7, 0xF7})"

definition xid_continue :: "char \<Rightarrow> bool" where
  "xid_continue c = (xid_start c \<or> digit c \<or> c = CHR ''_'' \<or> code c = 0xB7)"

definition word_char :: "char \<Rightarrow> bool" where
  "word_char c = (in_range (CHR ''a'') (CHR ''z'') c \<or> in_range (CHR ''A'') (CHR ''Z'') c \<or> digit c \<or> c = CHR ''_'')"

definition white :: "char \<Rightarrow> bool" where
  "white c = (9 \<le> code c \<and> code c \<le> 13 \<or> code c = 32 \<or> code c = 160)"

definition not_newline :: "char \<Rightarrow> bool" where
  "not_newline c = (code c \<noteq> 10 \<and> code c \<noteq> 13)"

definition directive_regex :: regex where
  "directive_regex = Alt (Lit ''enable'') (Alt (Lit ''requires'') (Lit ''diagnostic''))"

definition ident_start :: "char \<Rightarrow> bool" where
  "ident_start c = (c = CHR ''_'' \<or> xid_start c)"

definition ident_regex :: regex where
  "ident_regex = Seq (Cls ident_start) (Many xid_continue)"

definition symbols :: regex where
  "symbols = Plus (one_of ''!%&*+-./:;<=>^|_~,'')"

definition exponent :: "string \<Rightarrow> regex" where
  "exponent es = Seq (Cls (one_of es)) (Seq (Opt (Cls (one_of ''+-''))) (Plus digit))"

definition plain :: "regex \<Rightarrow> action \<Rightarrow> rule_item" where
  "plain r a = Rule \<lparr>rule_regex = r, rule_action = a, rule_next = Stay\<rparr>"

definition commentOrSpace_rules :: "rule_item list" where
  "commentOrSpace_rules =
     [plain (Plus white) (Token ''white''),
      Rule \<lparr>rule_regex = Lit ''/*'', rule_action = Token ''comment'', rule_next = Enter ''blockComment''\<rparr>,
      plain (Seq (Lit ''//'') (Seq (Many not_newline) Eol)) (Token ''comment'')]"

definition blockComment_rules :: "rule_item list" where
  "blockComment_rules =
     [plain (Plus (\<lambda>c. \<not> one_of ''/*'' c)) (Token ''comment''),
      Rule \<lparr>rule_regex = Lit ''/*'', rule_action = Token ''comment'', rule_next = Push\<rparr>,
      Rule \<lparr>rule_regex = Lit ''*/'', rule_action = Token ''comment'', rule_next = Pop\<rparr>,
      plain (Cls (one_of ''/*'')) (Token ''comment'')]"

definition attribute_rules :: "rule_item list" where
  "attribute_rules =
     [Include ''commentOrSpace'',
      Rule \<lparr>rule_regex = Plus word_char, rule_action = Token ''annotation'', rule_next = Pop\<rparr>]"

definition directive_rules :: "rule_item list" where
  "directive_rules =
     [Include ''commentOrSpace'',
      plain (Cls (one_of ''()'')) Brackets,
      plain (Lit '','') (Token ''delimiter''),
      plain ident_regex (Token ''meta.content''),
      Rule \<lparr>rule_regex = Lit '';'', rule_action = Token ''delimiter'', rule_next = Pop\<rparr>]"

definition numbers_rules :: "rule_item list" where
  "numbers_rules =
     (let float = Token ''number.float''; hex = Token ''number.hex''; number = Token ''number'';
          suffix = Opt (Cls (one_of ''fh'')); e = exponent ''eE'';
          x = Seq (Lit ''0'') (Cls (one_of ''xX''));
          p = Seq (exponent ''pP'') (Opt (Cls (one_of ''fh''))); iu = Opt (Cls (one_of ''iu''))
      in [plain (Seq (Lit ''0'') (Cls (one_of ''fh''))) float,
          plain (Seq (Cls nonzero) (Seq (Many digit) (Cls (one_of ''fh'')))) float,
          plain (Seq (Many digit) (Seq (Lit ''.'') (Seq (Plus digit) (Seq (Opt e) suffix)))) float,
          plain (Seq (Plus digit) (Seq (Lit ''.'') (Seq (Many digit) (Seq (Opt e) suffix)))) float,
          plain (Seq (Plus digit) (Seq e suffix)) float,
          plain (Seq x (Seq (Many hex_digit) (Seq (Lit ''.'') (Seq (Plus hex_digit) (Opt p))))) hex,
          plain (Seq x (Seq (Plus hex_digit) (Seq (Lit ''.'') (Seq (Many hex_digit) (Opt p))))) hex,
          plain (Seq x (Seq (Plus hex_digit) p)) hex,
          plain (Seq x (Seq (Plus hex_digit) iu)) hex,
          plain (Seq (Cls nonzero) (Seq (Many digit) iu)) number,
          plain (Seq (Lit ''0'') iu) number])"

definition predefined :: string where
  "predefined = ''variable.predefined''"

definition ident_cases :: action where
  "ident_cases = Cases [(atoms, predefined), (wgsl_keywords, ''keyword''), (reserved, ''invalid''),
     (predeclared_enums, predefined), (predeclared_types, predefined),
     (predeclared_type_generators, predefined), (predeclared_type_aliases, predefined),
     (predeclared_intrinsics, predefined)] ''identifier''"

definition root_rules :: "rule_item list" where
  "root_rules =
     [Rule \<lparr>rule_regex = directive_regex, rule_action = Token ''keyword'', rule_next = Enter ''directive''\<rparr>,
      plain ident_regex ident_cases,
      Include ''commentOrSpace'',
      Include ''numbers'',
      plain (Cls (one_of ''{}()[]'')) Brackets,
      Rule \<lparr>rule_regex = Lit ''@'', rule_action = Token ''annotation'', rule_next = Enter ''attribute''\<rparr>,
      plain symbols (Cases [(operators, ''operator'')] ''delimiter''),
      plain (Cls not_newline) (Token ''invalid'')]"

definition wgsl :: lexer where
  "wgsl = \<lparr>states = [(''root'', root_rules), (''commentOrSpace'', commentOrSpace_rules),
       (''blockComment'', blockComment_rules), (''attribute'', attribute_rules),
       (''directive'', directive_rules), (''numbers'', numbers_rules)],
     default_token = ''invalid'', token_postfix = ''.wgsl'', brackets = default_brackets, max_stack = 100\<rparr>"


section \<open>What \<open>r\<close> gives\<close>

lemma push_words_eq: "push_words ws e = e @ filter (\<lambda>w. w \<noteq> []) ws"
  by (induction ws e rule: push_words.induct) auto

lemma split_runs_head: "\<exists>ws. split_runs s = takeWhile (\<lambda>c. \<not> is_sep c) s # ws"
  by (induction s rule: split_runs.induct) (auto split: list.split)

lemma words_of_simps:
  "words_of [] = []"
  "is_sep c \<Longrightarrow> words_of (c # s) = words_of (dropWhile (\<lambda>x. x = c) s)"
  "\<not> is_sep c \<Longrightarrow> words_of (c # s) = (case split_runs s of [] \<Rightarrow> [[c]] | w # ws \<Rightarrow> (c # w) # filter (\<lambda>w. w \<noteq> []) ws)"
  by (simp_all add: words_of_def push_words_eq split: list.split)

lemma words_of_sep: "is_sep c \<Longrightarrow> words_of (c # s) = words_of s"
proof (induction s)
  case (Cons d s)
  then show ?case by (cases "d = c") (simp_all add: words_of_simps(2))
qed (simp add: words_of_simps)

text \<open>One word at a time.\<close>

lemma words_of_word:
  "words_of s = (let w = takeWhile (\<lambda>c. \<not> is_sep c) s; rest = dropWhile (\<lambda>c. \<not> is_sep c) s
     in if w = [] then words_of rest else w # words_of rest)"
proof (induction s)
  case (Cons c s)
  show ?case
  proof (cases "is_sep c")
    case False
    obtain ws where ws: "split_runs s = takeWhile (\<lambda>c. \<not> is_sep c) s # ws" using split_runs_head by blast
    then have "words_of s = (let w = takeWhile (\<lambda>c. \<not> is_sep c) s in if w = [] then [] else [w]) @
        filter (\<lambda>w. w \<noteq> []) ws"
      by (simp add: words_of_def push_words_eq Let_def)
    with Cons have "words_of (dropWhile (\<lambda>c. \<not> is_sep c) s) = filter (\<lambda>w. w \<noteq> []) ws"
      by (simp add: Let_def split: if_splits)
    with False ws show ?thesis by (simp add: words_of_simps(3) Let_def)
  qed (simp add: Let_def)
qed (simp add: words_of_simps)

lemma words_of_append: "is_sep c \<Longrightarrow> words_of (s @ c # t) = words_of s @ words_of t"
proof (induction "length s" arbitrary: s rule: less_induct)
  case less
  define w rest where "w = takeWhile (\<lambda>c. \<not> is_sep c) s" and "rest = dropWhile (\<lambda>c. \<not> is_sep c) s"
  have s: "s = w @ rest" by (simp add: w_def rest_def)
  have w: "\<forall>x \<in> set w. \<not> is_sep x" by (auto simp: w_def dest: set_takeWhileD)
  from words_of_word [of s] have ws: "words_of s = (if w = [] then words_of rest else w # words_of rest)"
    by (simp only: Let_def w_def rest_def)
  have split: "words_of (s @ c # t) = (if w = [] then words_of u else w # words_of u)"
    if "takeWhile (\<lambda>c. \<not> is_sep c) (s @ c # t) = w" "dropWhile (\<lambda>c. \<not> is_sep c) (s @ c # t) = u" for u
    using words_of_word [of "s @ c # t"] unfolding that Let_def .
  show ?case
  proof (cases rest)
    case Nil
    with s w less.prems have "takeWhile (\<lambda>c. \<not> is_sep c) (s @ c # t) = w"
      "dropWhile (\<lambda>c. \<not> is_sep c) (s @ c # t) = c # t"
      by (simp_all add: takeWhile_append dropWhile_append)
    from split [OF this] ws Nil words_of_sep [OF less.prems] show ?thesis by (simp add: words_of_simps(1))
  next
    case (Cons d rest')
    then have d: "is_sep d" unfolding rest_def by (metis hd_dropWhile list.distinct(1) list.sel(1))
    have "s @ c # t = w @ d # (rest' @ c # t)" unfolding s Cons by simp
    with w d have "takeWhile (\<lambda>c. \<not> is_sep c) (s @ c # t) = w"
      "dropWhile (\<lambda>c. \<not> is_sep c) (s @ c # t) = d # (rest' @ c # t)"
      by (simp_all add: takeWhile_append dropWhile_append)
    note split = split [OF this]
    have "length rest' < length s" unfolding s Cons by simp
    from less.hyps [OF this less.prems] split ws Cons words_of_sep [OF d] show ?thesis by simp
  qed
qed

lemma words_of_seps: "list_all is_sep s \<Longrightarrow> words_of s = []"
  by (induction s) (simp_all add: words_of_simps(1) words_of_sep)

lemma words_of_indent: "list_all is_sep i \<Longrightarrow> words_of (i @ s) = words_of s"
  by (induction i) (simp_all add: words_of_sep)

lemma words_of_block:
  assumes "list_all is_sep indent" "list_all is_sep end'"
  shows "words_of (block indent end' ls) = concat (map words_of ls)"
proof -
  have "words_of (concat (map (\<lambda>l. indent @ l @ [CHR 0x0A]) ls) @ end') = concat (map words_of ls)"
  proof (induction ls)
    case (Cons l ls)
    then show ?case
      using words_of_append [of "CHR 0x0A" "l"] words_of_indent [OF assms(1)] by (simp add: is_sep_def)
  qed (simp add: words_of_seps [OF assms(2)])
  then show ?thesis unfolding block_def by (simp add: words_of_sep is_sep_def)
qed

definition wordlike :: "string \<Rightarrow> bool" where
  "wordlike w = (w \<noteq> [] \<and> list_all (\<lambda>c. \<not> is_sep c) w)"

lemma words_of_wordlike: "wordlike w \<Longrightarrow> words_of w = [w]"
  using words_of_word [of w]
  by (simp add: wordlike_def list_all_iff takeWhile_eq_all_conv [THEN iffD2] dropWhile_eq_Nil_conv [THEN iffD2]
      words_of_simps Let_def)

lemma words_of_all: "w \<in> set (words_of s) \<Longrightarrow> wordlike w"
proof (induction "length s" arbitrary: s rule: less_induct)
  case less
  show ?case
  proof (cases s)
    case (Cons c s')
    show ?thesis
    proof (cases "is_sep c")
      case False
      define v rest where "v = takeWhile (\<lambda>c. \<not> is_sep c) s" and "rest = dropWhile (\<lambda>c. \<not> is_sep c) s"
      have "length rest < length s" using False Cons by (simp add: rest_def le_imp_less_Suc length_dropWhile_le)
      moreover have "wordlike v" using False Cons by (auto simp: v_def wordlike_def list_all_iff dest: set_takeWhileD)
      ultimately show ?thesis
        using less words_of_word [of s] by (auto simp: Let_def v_def rest_def split: if_splits)
    qed (use less Cons words_of_sep in force)
  qed (use less in \<open>simp add: words_of_simps\<close>)
qed


text \<open>
  A table is read back as it was written: a block of words, one per line, however indented, gives these
  words; and whatever the text, \<open>r\<close> gives words only, without white space and never empty.
\<close>

theorem table_words:
  assumes "list_all wordlike ws" "list_all is_sep indent" "list_all is_sep end'"
  shows "words_of (block indent end' ws) = ws \<and> list_all wordlike (words_of s)"
proof -
  have "concat (map words_of ws) = ws"
    using assms(1) by (induction ws) (simp_all add: words_of_wordlike)
  with words_of_block [OF assms(2,3)] words_of_all show ?thesis by (auto simp: list_all_iff)
qed

lemma lines_wordlike: "list_all wordlike keyword_lines" "list_all wordlike reserved_lines"
  "list_all wordlike generator_lines" "list_all wordlike operator_lines"
  unfolding keyword_lines_def reserved_lines_def generator_lines_def operator_lines_def
  by (simp_all add: wordlike_def is_sep_def)

lemma indents: "list_all is_sep (tabs n)" "list_all is_sep (tabs n @ ''  '')" "list_all is_sep (tabs n @ '' '')"
  by (simp_all add: tabs_def is_sep_def list_all_iff)

lemma words_of_lines: "list_all wordlike ws \<Longrightarrow> list_all is_sep indent \<Longrightarrow> list_all is_sep end' \<Longrightarrow>
    words_of (block indent end' ws) = ws"
  using words_of_block [of indent end' ws] by (induction ws) (simp_all add: words_of_wordlike words_of_block)

theorem table_words_witness: "words_of (block (tabs 3 @ ''  '') (tabs 3 @ ''  '') keyword_lines) = keyword_lines"
  using table_words [OF lines_wordlike(1) indents(2) indents(2)] by blast

lemma table_lines: "wgsl_keywords = keyword_lines" "reserved = reserved_lines"
  "predeclared_type_generators = generator_lines" "operators = operator_lines"
  unfolding wgsl_keywords_def reserved_def predeclared_type_generators_def operators_def
  by (simp_all only: words_of_lines [OF lines_wordlike(1) indents(2) indents(2)]
      words_of_lines [OF lines_wordlike(2) indents(2) indents(2)]
      words_of_lines [OF lines_wordlike(3) indents(1) indents(1)]
      words_of_lines [OF lines_wordlike(4) indents(3) indents(3)])

section \<open>The tokenizer always returns\<close>

text \<open>A regular expression every match of which uses up text.\<close>

fun consumes :: "regex \<Rightarrow> bool" where
  "consumes (Cls p) = True"
| "consumes (Many p) = False"
| "consumes (Seq r q) = (consumes r \<or> consumes q)"
| "consumes (Alt r q) = (consumes r \<and> consumes q)"
| "consumes (Opt r) = False"
| "consumes Eol = False"

lemma rests_le: "t \<in> set (rests r s) \<Longrightarrow> length t \<le> length s"
  by (rule suffix_length_le [OF rests_suffix])

lemma consumes_less: "consumes r \<Longrightarrow> t \<in> set (rests r s) \<Longrightarrow> length t < length s"
proof (induction r arbitrary: s t)
  case (Seq r q)
  from Seq.prems obtain u where u: "u \<in> set (rests r s)" "t \<in> set (rests q u)" by auto
  show ?case
  proof (cases "consumes r")
    case True
    with Seq.IH(1) u rests_le [OF u(2)] show ?thesis by fastforce
  next
    case False
    with Seq.prems Seq.IH(2) u rests_le [OF u(1)] show ?thesis by fastforce
  qed
next
  case (Cls p)
  then show ?case by (cases s) (auto split: if_splits)
qed (auto split: if_splits)

lemma consumes_Lit: "w \<noteq> [] \<Longrightarrow> consumes (Lit w)"
  by (cases "butlast w") (simp_all add: Lit_def)

lemmas rule_defs = commentOrSpace_rules_def blockComment_rules_def attribute_rules_def directive_rules_def
  numbers_rules_def root_rules_def plain_def Let_def

text \<open>What the rules of a state must do, for the whole table at once.\<close>

definition rule_ok :: "string \<Rightarrow> rule \<Rightarrow> bool" where
  "rule_ok n r = (consumes (rule_regex r) \<and>
     (case rule_next r of Enter m \<Rightarrow> m \<in> {''blockComment'', ''attribute'', ''directive''}
      | Stay \<Rightarrow> True | _ \<Rightarrow> n \<noteq> ''root'') \<and>
     (rule_action r = Brackets \<longrightarrow> rule_regex r \<in> {Cls (one_of ''()''), Cls (one_of ''{}()[]'')}))"

lemma wgsl_compiled:
  assumes "n \<in> {''root'', ''blockComment'', ''attribute'', ''directive''}"
  shows "\<exists>rs. compiled wgsl n = Some rs \<and> list_all (rule_ok n) rs"
proof -
  have "compiled wgsl n \<noteq> None \<and> list_all (rule_ok n) (the (compiled wgsl n))"
    using assms by (elim insertE emptyE; hypsubst)
      (simp_all add: compiled_def wgsl_def rule_defs rule_ok_def consumes_Lit Plus_def directive_regex_def
        ident_regex_def symbols_def exponent_def ident_cases_def)
  then show ?thesis by auto
qed

lemma match_Cls: "match_at (Cls p) s = Some (x, t) \<Longrightarrow> \<exists>c. x = [c] \<and> p c \<and> s = c # t"
  by (cases s) (auto simp: match_at_def split: if_splits)

lemma wgsl_brackets: "one_of ''{}()[]'' c \<Longrightarrow> bracket_token wgsl [c] \<noteq> None"
  by (auto simp: one_of_def bracket_token_def wgsl_def default_brackets_def)

lemma rule_ok_of:
  assumes "n \<in> {''root'', ''blockComment'', ''attribute'', ''directive''}" "compiled wgsl n = Some rs" "r \<in> set rs"
  shows "rule_ok n r"
  using wgsl_compiled [OF assms(1)] assms(2,3) by (auto simp: list_all_iff)

interpretation wgsl: productive_lexer wgsl "''root''" "{''root'', ''blockComment'', ''attribute'', ''directive''}"
proof unfold_locales
  fix n assume n: "n \<in> {''root'', ''blockComment'', ''attribute'', ''directive''}"
  then show "\<exists>rs. compiled wgsl n = Some rs" using wgsl_compiled by blast
  fix rs r assume r: "compiled wgsl n = Some rs" "r \<in> set rs"
  note ok = rule_ok_of [OF n r]
  show "t \<in> set (rests (rule_regex r) s) \<Longrightarrow> length t < length s" for t s
    using ok consumes_less [of "rule_regex r" t s] by (simp add: rule_ok_def)
  show "rule_next r = Enter m \<Longrightarrow> m \<in> {''root'', ''blockComment'', ''attribute'', ''directive''} - {''root''}" for m
    using ok by (auto simp: rule_ok_def)
  show "bracket_token wgsl x \<noteq> None"
    if "rule_action r = Brackets" "match_at (rule_regex r) s = Some (x, t)" for s x t
  proof -
    from ok that(1) have "rule_regex r = Cls (one_of ''()'') \<or> rule_regex r = Cls (one_of ''{}()[]'')"
      by (simp add: rule_ok_def)
    with that(2) match_Cls obtain c where "x = [c]" "one_of ''()'' c \<or> one_of ''{}()[]'' c" by metis
    then show ?thesis using wgsl_brackets [of c] by (auto simp: one_of_def)
  qed
next
  fix rs r assume "compiled wgsl ''root'' = Some rs" "r \<in> set rs"
  then show "rule_next r \<noteq> Pop \<and> rule_next r \<noteq> Push"
    using rule_ok_of [of "''root''" rs r] by (auto simp: rule_ok_def)
qed simp

text \<open>
  C40. Every line is tokenized, whatever the states it starts in, with a round per character at most: the
  tokens are the line cut into pieces, and the stack stays well formed (the start state at the bottom
  and only there). The only error is a stack of more than a hundred states, from comments nested in
  each other.
\<close>

theorem wgsl_tokenizes:
  assumes "wgsl.stack_ok st" "length s < n"
  shows "(\<exists>toks st'. lex_line n wgsl s st = Inr (toks, st') \<and> wgsl.stack_ok st' \<and> concat (map fst toks) = s) \<or>
    lex_line n wgsl s st = Inl StackFull"
  by (rule wgsl.lex_line_ok [OF assms])

lemma root_stack: "wgsl.stack_ok [''root'']"
  by (simp add: wgsl.stack_ok_def)

theorem wgsl_tokenizes_witness:
  "lex_line 8 wgsl ''let a;'' [''root''] \<noteq> Inl NoProgress"
  using wgsl_tokenizes [OF root_stack, of "''let a;''" 8] by auto


section \<open>Matching words and runs\<close>

lemma many_hd: "\<exists>ts. many p s = dropWhile p s # ts"
  by (induction p s rule: many.induct) auto

lemma rests_Lit: "w \<noteq> [] \<Longrightarrow> rests (Lit w) s = (if prefix w s then [drop (length w) s] else [])"
proof (induction w arbitrary: s)
  case (Cons c w)
  show ?case
  proof (cases "w = []")
    case True
    then show ?thesis by (cases s) (auto simp: Lit_def)
  next
    case False
    then have "Lit (c # w) = Seq (Cls (\<lambda>x. x = c)) (Lit w)" by (simp add: Lit_def)
    with Cons.IH [OF False] show ?thesis by (cases s) auto
  qed
qed simp

lemma match_Lit: "w \<noteq> [] \<Longrightarrow> match_at (Lit w) s = (if prefix w s then Some (w, drop (length w) s) else None)"
  by (auto simp: match_at_def rests_Lit prefix_def)

lemma match_run: "p c \<Longrightarrow> match_at (Seq (Cls p) (Many q)) (c # s) = Some (c # takeWhile q s, dropWhile q s)"
proof -
  assume "p c"
  obtain ts where "many q s = dropWhile q s # ts" using many_hd by blast
  then have "match_at (Seq (Cls p) (Many q)) (c # s) =
      Some (take (length (c # s) - length (dropWhile q s)) (c # s), dropWhile q s)"
    using \<open>p c\<close> by (simp add: match_at_def)
  moreover have "c # s = (c # takeWhile q s) @ dropWhile q s" by simp
  ultimately show ?thesis by (metis append_eq_conv_conj diff_add_inverse2 length_append)
qed

lemma match_run_None: "s = [] \<or> \<not> p (hd s) \<Longrightarrow> match_at (Seq (Cls p) r) s = None"
  by (cases s) (auto simp: match_at_def)

section \<open>Comments nest, up to a depth\<close>

lemma compiled_comment: "compiled wgsl ''blockComment'' = Some
    [\<lparr>rule_regex = Plus (\<lambda>c. \<not> one_of ''/*'' c), rule_action = Token ''comment'', rule_next = Stay\<rparr>,
     \<lparr>rule_regex = Lit ''/*'', rule_action = Token ''comment'', rule_next = Push\<rparr>,
     \<lparr>rule_regex = Lit ''*/'', rule_action = Token ''comment'', rule_next = Pop\<rparr>,
     \<lparr>rule_regex = Cls (one_of ''/*''), rule_action = Token ''comment'', rule_next = Stay\<rparr>]"
  by (simp add: compiled_def wgsl_def rule_defs)

lemma wgsl_fields [simp]: "max_stack wgsl = 100" "token_postfix wgsl = ''.wgsl''"
  by (simp_all add: wgsl_def)

lemma open_round: "lex_round wgsl e (''/*'' @ s) (''blockComment'' # st) =
    (if length st \<ge> 99 then Inl StackFull
     else Inr (Some (''/*'', ''comment.wgsl''), s, ''blockComment'' # ''blockComment'' # st))"
  by (simp add: lex_round_def compiled_comment pick_def Plus_def match_run_None match_Lit one_of_def
      next_stack_def type_of_token_def)

lemma close_round: "lex_round wgsl e (''*/'' @ s) (''blockComment'' # n # st) =
    Inr (Some (''*/'', ''comment.wgsl''), s, n # st)"
  by (simp add: lex_round_def compiled_comment pick_def Plus_def match_run_None match_Lit one_of_def
      next_stack_def type_of_token_def)

lemma compiled_root: "\<exists>rs. compiled wgsl ''root'' = Some
    (\<lparr>rule_regex = directive_regex, rule_action = Token ''keyword'', rule_next = Enter ''directive''\<rparr> #
     \<lparr>rule_regex = ident_regex, rule_action = ident_cases, rule_next = Stay\<rparr> #
     \<lparr>rule_regex = Plus white, rule_action = Token ''white'', rule_next = Stay\<rparr> #
     \<lparr>rule_regex = Lit ''/*'', rule_action = Token ''comment'', rule_next = Enter ''blockComment''\<rparr> # rs)"
  by (simp add: compiled_def wgsl_def rule_defs)

lemma match_directive: "match_at directive_regex s =
    (if prefix ''enable'' s then Some (''enable'', drop 6 s)
     else if prefix ''requires'' s then Some (''requires'', drop 8 s)
     else if prefix ''diagnostic'' s then Some (''diagnostic'', drop 10 s) else None)"
  by (auto simp: directive_regex_def match_at_def rests_Lit prefix_def)

lemma enter_defined: "compiled wgsl ''blockComment'' \<noteq> None" "compiled wgsl ''directive'' \<noteq> None"
  using wgsl_compiled [of "''blockComment''"] wgsl_compiled [of "''directive''"] by auto

lemma first_open_round: "lex_round wgsl e (''/*'' @ s) [''root''] =
    Inr (Some (''/*'', ''comment.wgsl''), s, [''blockComment'', ''root''])"
proof -
  obtain rs where "compiled wgsl ''root'' = Some
    (\<lparr>rule_regex = directive_regex, rule_action = Token ''keyword'', rule_next = Enter ''directive''\<rparr> #
     \<lparr>rule_regex = ident_regex, rule_action = ident_cases, rule_next = Stay\<rparr> #
     \<lparr>rule_regex = Plus white, rule_action = Token ''white'', rule_next = Stay\<rparr> #
     \<lparr>rule_regex = Lit ''/*'', rule_action = Token ''comment'', rule_next = Enter ''blockComment''\<rparr> # rs)"
    using compiled_root by blast
  then show ?thesis using enter_defined
    by (simp add: lex_round_def pick_def Plus_def match_run_None match_Lit match_directive ident_regex_def
      ident_start_def xid_start_def white_def in_range_def code_def next_stack_def type_of_token_def)
qed


definition openers :: "nat \<Rightarrow> string" where
  "openers k = concat (replicate k ''/*'')"

definition closers :: "nat \<Rightarrow> string" where
  "closers k = concat (replicate k ''*/'')"

definition comment_tokens :: "nat \<Rightarrow> string \<Rightarrow> (string \<times> string) list" where
  "comment_tokens k w = replicate k (w, ''comment.wgsl'')"

lemma brackets_Nil: "openers k = [] \<longleftrightarrow> k = 0" "closers k = [] \<longleftrightarrow> k = 0"
  by (cases k; simp add: openers_def closers_def)+

lemma openers_rounds:
  "length st + k \<le> 99 \<Longrightarrow> s \<noteq> [] \<Longrightarrow>
    lex_rounds (k + n) wgsl e (openers k @ s) (''blockComment'' # st) =
    (case lex_rounds n wgsl e s (replicate k ''blockComment'' @ ''blockComment'' # st) of
       Inl err \<Rightarrow> Inl err
     | Inr (toks, st') \<Rightarrow> Inr (comment_tokens k ''/*'' @ toks, st'))"
proof (induction k arbitrary: st)
  case 0
  then show ?case by (simp add: openers_def comment_tokens_def split: sum.split)
next
  case (Suc k)
  have "lex_rounds (Suc (k + n)) wgsl e (''/*'' @ openers k @ s) (''blockComment'' # st) =
     (case lex_rounds (k + n) wgsl e (openers k @ s) (''blockComment'' # ''blockComment'' # st) of
        Inl err \<Rightarrow> Inl err
      | Inr (toks, st'') \<Rightarrow> Inr ((''/*'', ''comment.wgsl'') # toks, st''))"
    using Suc.prems by (intro lex_rounds_step) (simp_all add: open_round [simplified] brackets_Nil)
  then show ?case
    using Suc.IH [of "''blockComment'' # st"] Suc.prems
    by (simp add: openers_def comment_tokens_def replicate_app_Cons_same split: sum.split)
qed

lemma closers_rounds:
  "lex_rounds (Suc k + n) wgsl e (closers (Suc k)) (replicate (Suc k) ''blockComment'' @ m # st) =
    Inr (comment_tokens (Suc k) ''*/'', m # st)"
proof (induction k)
  case 0
  then show ?case
    using close_round [of e "[]" m st] by (simp add: closers_def comment_tokens_def)
next
  case (Suc k)
  have "closers (Suc (Suc k)) = ''*/'' @ closers (Suc k)" by (simp add: closers_def)
  moreover have "replicate (Suc (Suc k)) ''blockComment'' @ m # st =
      ''blockComment'' # ''blockComment'' # replicate k ''blockComment'' @ m # st" by simp
  ultimately have "lex_rounds (Suc (Suc k + n)) wgsl e (closers (Suc (Suc k)))
      (replicate (Suc (Suc k)) ''blockComment'' @ m # st) =
    (case lex_rounds (Suc k + n) wgsl e (closers (Suc k)) (replicate (Suc k) ''blockComment'' @ m # st) of
       Inl err \<Rightarrow> Inl err
     | Inr (toks, st'') \<Rightarrow> Inr ((''*/'', ''comment.wgsl'') # toks, st''))"
    by (intro lex_rounds_step) (simp_all add: close_round [simplified] brackets_Nil)
  then show ?case unfolding Suc.IH by (simp add: comment_tokens_def)
qed

lemma openers_full:
  "length st \<le> 99 \<Longrightarrow> 99 < length st + k \<Longrightarrow> k \<le> n \<Longrightarrow>
    lex_rounds n wgsl e (openers k @ s) (''blockComment'' # st) = Inl StackFull"
proof (induction k arbitrary: st n)
  case (Suc k)
  then obtain m where n: "n = Suc m" "k \<le> m" by (cases n) auto
  have o: "openers (Suc k) @ s = ''/*'' @ openers k @ s" by (simp add: openers_def)
  show ?case
  proof (cases "length st = 99")
    case True
    then show ?thesis unfolding n o by (intro lex_rounds_error) (simp add: open_round [simplified])
  next
    case False
    with Suc.prems have "length (''blockComment'' # st) \<le> 99" "99 < length (''blockComment'' # st) + k" by auto
    note ih = Suc.IH [OF this n(2)]
    have "lex_rounds (Suc m) wgsl e (''/*'' @ openers k @ s) (''blockComment'' # st) =
      (case lex_rounds m wgsl e (openers k @ s) (''blockComment'' # ''blockComment'' # st) of
         Inl err \<Rightarrow> Inl err
       | Inr (toks, st'') \<Rightarrow> Inr ((''/*'', ''comment.wgsl'') # toks, st''))"
      using False Suc.prems by (intro lex_rounds_step) (auto simp: open_round [simplified] brackets_Nil)
    then show ?thesis unfolding n o ih by simp
  qed
qed simp

lemma first_open_line: "s \<noteq> [] \<Longrightarrow> lex_line (Suc m) wgsl (''/*'' @ s) [''root''] =
    (case lex_rounds m wgsl False s [''blockComment'', ''root''] of
       Inl err \<Rightarrow> Inl err
     | Inr (toks, st'') \<Rightarrow> Inr ((''/*'', ''comment.wgsl'') # toks, st''))"
  using lex_rounds_step [OF first_open_round [of False s], of m]
  unfolding lex_line_def by (simp del: lex_rounds.simps)

text \<open>
  Comments nest: \<open>k\<close> openings and as many closings, on one line, are a comment from which the tokenizer
  returns to code, for up to 99 levels. One opening more fills the stack of states: the line is an
  error, which \<open>maxStack\<close> does not spare an ordinary comment of a hundred openings either.
\<close>

theorem comments_nest:
  "lex_line (k + (k + n)) wgsl (openers k @ closers k) [''root''] =
     (if 0 < k \<and> k \<le> 99 then Inr (comment_tokens k ''/*'' @ comment_tokens k ''*/'', [''root''])
      else if k = 0 then lex_line n wgsl [] [''root''] else Inl StackFull)"
proof (cases k)
  case 0
  then show ?thesis by (simp add: openers_def closers_def)
next
  case (Suc j)
  have first: "lex_line (k + (k + n)) wgsl (openers k @ closers k) [''root''] =
     (case lex_rounds (j + (k + n)) wgsl False (openers j @ closers k) [''blockComment'', ''root''] of
        Inl err \<Rightarrow> Inl err
      | Inr (toks, st'') \<Rightarrow> Inr ((''/*'', ''comment.wgsl'') # toks, st''))"
    using first_open_line [of "openers j @ closers k" "j + (k + n)"] by (simp add: Suc openers_def brackets_Nil)
  show ?thesis
  proof (cases "k \<le> 99")
    case True
    then have "length [''root''] + j \<le> 99" "closers k \<noteq> []" by (simp_all add: Suc brackets_Nil)
    from openers_rounds [OF this, of "k + n" False] closers_rounds [of j n False "''root''" "[]"] True
    show ?thesis unfolding first
      by (simp add: Suc replicate_app_Cons_same comment_tokens_def)
  next
    case False
    then have "length [''root''] \<le> 99" "99 < length [''root''] + j" "j \<le> j + (k + n)" by (simp_all add: Suc)
    from openers_full [OF this] False show ?thesis unfolding first by simp
  qed
qed


section \<open>Identifiers\<close>

definition directive_word :: "string \<Rightarrow> bool" where
  "directive_word p = (p \<in> {''enable'', ''requires'', ''diagnostic''})"

definition ident_type :: "string \<Rightarrow> string" where
  "ident_type w =
     (if w \<in> set atoms then ''variable.predefined.wgsl''
      else if w \<in> set wgsl_keywords then ''keyword.wgsl''
      else if w \<in> set reserved then ''invalid.wgsl''
      else if w \<in> set predeclared_enums \<union> set predeclared_types \<union> set predeclared_type_generators \<union>
        set predeclared_type_aliases \<union> set predeclared_intrinsics then ''variable.predefined.wgsl''
      else ''identifier.wgsl'')"

lemma ident_cases_type: "type_of_token wgsl ident_cases w = Inr (ident_type w)"
  by (simp add: type_of_token_def ident_cases_def ident_type_def predefined_def)

lemma ident_round:
  assumes "ident_start c" "\<forall>p. directive_word p \<longrightarrow> \<not> prefix p (c # s)"
  shows "lex_round wgsl e (c # s) [''root''] = Inr
    (Some (c # takeWhile xid_continue s, ident_type (c # takeWhile xid_continue s)),
     dropWhile xid_continue s, [''root''])"
proof -
  obtain rs where "compiled wgsl ''root'' = Some
    (\<lparr>rule_regex = directive_regex, rule_action = Token ''keyword'', rule_next = Enter ''directive''\<rparr> #
     \<lparr>rule_regex = ident_regex, rule_action = ident_cases, rule_next = Stay\<rparr> #
     \<lparr>rule_regex = Plus white, rule_action = Token ''white'', rule_next = Stay\<rparr> #
     \<lparr>rule_regex = Lit ''/*'', rule_action = Token ''comment'', rule_next = Enter ''blockComment''\<rparr> # rs)"
    using compiled_root by blast
  moreover have "match_at directive_regex (c # s) = None"
    using assms(2) unfolding match_directive directive_word_def by auto
  moreover have "match_at ident_regex (c # s) = Some (c # takeWhile xid_continue s, dropWhile xid_continue s)"
    unfolding ident_regex_def by (rule match_run [where p = ident_start, OF assms(1)])
  ultimately show ?thesis
    by (simp add: lex_round_def pick_def next_stack_def ident_cases_type)
qed

text \<open>
  A name in code is one token, as long as it goes on, and its class follows the tables: a keyword, a
  reserved word (invalid), a predeclared name or an identifier. Words that no table has are identifiers.
\<close>

theorem identifiers:
  assumes "ident_start c" "list_all xid_continue s" "t = [] \<or> \<not> xid_continue (hd t)"
    and "\<forall>p. directive_word p \<longrightarrow> \<not> prefix p (c # s @ t)"
  shows "lex_round wgsl e (c # s @ t) [''root''] = Inr (Some (c # s, ident_type (c # s)), t, [''root''])"
proof -
  have "takeWhile xid_continue (s @ t) = s" "dropWhile xid_continue (s @ t) = t"
    using assms(2,3) by (cases t; simp add: takeWhile_append dropWhile_append list_all_iff)+
  with ident_round [OF assms(1,4)] show ?thesis by simp
qed

lemma xid_letters: "in_range (CHR ''a'') (CHR ''z'') c \<Longrightarrow> ident_start c \<and> xid_continue c"
  by (simp add: ident_start_def xid_continue_def xid_start_def)

lemma atoms_eq: "atoms = [''true'', ''false'']"
  using words_of_append [of "CHR '' ''" "''true''" "''false''"]
  by (simp add: atoms_def words_of_wordlike wordlike_def is_sep_def)

lemma in_keywords: "''fn'' \<in> set wgsl_keywords" "''fn'' \<notin> set atoms"
  unfolding table_lines keyword_lines_def atoms_eq by simp_all

theorem identifiers_witness:
  "lex_round wgsl False ''fn main()'' [''root''] = Inr (Some (''fn'', ''keyword.wgsl''), '' main()'', [''root''])"
proof -
  have "ident_start (CHR ''f'')" "list_all xid_continue ''n''" "\<not> xid_continue (CHR '' '')"
    by (simp_all add: ident_start_def xid_continue_def xid_start_def in_range_def code_def digit_def)
  from identifiers [OF this(1,2), of "'' main()''" False] this(3) show ?thesis
    using in_keywords by (simp add: directive_word_def ident_type_def)
qed

section \<open>Directives\<close>

lemma directive_round:
  assumes "directive_word p"
  shows "lex_round wgsl e (p @ u) [''root''] = Inr (Some (p, ''keyword.wgsl''), u, [''directive'', ''root''])"
proof -
  obtain rs where rs: "compiled wgsl ''root'' = Some
    (\<lparr>rule_regex = directive_regex, rule_action = Token ''keyword'', rule_next = Enter ''directive''\<rparr> # rs)"
    using compiled_root by blast
  have "match_at directive_regex (p @ u) = Some (p, u)"
    using assms unfolding directive_word_def match_directive by auto
  moreover have "p \<noteq> []" using assms by (auto simp: directive_word_def)
  ultimately show ?thesis using rs enter_defined
    by (simp add: lex_round_def pick_def next_stack_def type_of_token_def)
qed

lemma compiled_directive: "\<exists>qs. compiled wgsl ''directive'' = Some
    ([\<lparr>rule_regex = Plus white, rule_action = Token ''white'', rule_next = Stay\<rparr>,
      \<lparr>rule_regex = Lit ''/*'', rule_action = Token ''comment'', rule_next = Enter ''blockComment''\<rparr>,
      \<lparr>rule_regex = Seq (Lit ''//'') (Seq (Many not_newline) Eol), rule_action = Token ''comment'', rule_next = Stay\<rparr>,
      \<lparr>rule_regex = Cls (one_of ''()''), rule_action = Brackets, rule_next = Stay\<rparr>,
      \<lparr>rule_regex = Lit '','', rule_action = Token ''delimiter'', rule_next = Stay\<rparr>,
      \<lparr>rule_regex = ident_regex, rule_action = Token ''meta.content'', rule_next = Stay\<rparr>] @ qs)"
  by (simp add: compiled_def wgsl_def rule_defs)

lemma ident_start_not: "ident_start c \<Longrightarrow> \<not> white c \<and> c \<noteq> CHR ''/'' \<and> c \<noteq> CHR ''('' \<and> c \<noteq> CHR '')'' \<and> c \<noteq> CHR '',''"
  by (auto simp: ident_start_def xid_start_def white_def in_range_def code_def)

lemma content_round:
  assumes "ident_start c" "list_all xid_continue s"
  shows "lex_round wgsl e (c # s) (''directive'' # st) = Inr (Some (c # s, ''meta.content.wgsl''), [], ''directive'' # st)"
proof -
  note c = ident_start_not [OF assms(1)]
  have "takeWhile xid_continue s = s" "dropWhile xid_continue s = []"
    using assms(2) by (simp_all add: takeWhile_eq_all_conv dropWhile_eq_Nil_conv list_all_iff)
  then have i: "match_at ident_regex (c # s) = Some (c # s, [])"
    using match_run [where p = ident_start and q = xid_continue and s = s, OF assms(1)] by (simp add: ident_regex_def)
  have n: "match_at (Plus white) (c # s) = None" "match_at (Lit ''/*'') (c # s) = None"
    "match_at (Seq (Lit ''//'') (Seq (Many not_newline) Eol)) (c # s) = None"
    "match_at (Cls (one_of ''()'')) (c # s) = None" "match_at (Lit '','') (c # s) = None"
    using c c [THEN conjunct2, THEN conjunct1, symmetric] by (auto simp: Plus_def match_run_None match_Lit match_at_def rests_Lit one_of_def)
  obtain qs where "compiled wgsl ''directive'' = Some
    ([\<lparr>rule_regex = Plus white, rule_action = Token ''white'', rule_next = Stay\<rparr>,
      \<lparr>rule_regex = Lit ''/*'', rule_action = Token ''comment'', rule_next = Enter ''blockComment''\<rparr>,
      \<lparr>rule_regex = Seq (Lit ''//'') (Seq (Many not_newline) Eol), rule_action = Token ''comment'', rule_next = Stay\<rparr>,
      \<lparr>rule_regex = Cls (one_of ''()''), rule_action = Brackets, rule_next = Stay\<rparr>,
      \<lparr>rule_regex = Lit '','', rule_action = Token ''delimiter'', rule_next = Stay\<rparr>,
      \<lparr>rule_regex = ident_regex, rule_action = Token ''meta.content'', rule_next = Stay\<rparr>] @ qs)"
    using compiled_directive by blast
  then show ?thesis by (simp add: lex_round_def pick_def n i next_stack_def type_of_token_def)
qed

text \<open>
  A name that only begins like a directive is taken for one: \<open>enabled\<close> is cut into the keyword \<open>enable\<close>
  and the text of a directive, and the tokenizer is left in the state of directives at the end of the
  line, where the next lines are not code until a semicolon. The first rule lacks a word boundary.
\<close>

theorem directive_splits_names:
  assumes "directive_word p" "ident_start c" "list_all xid_continue s"
  shows "lex_line (Suc (Suc n)) wgsl (p @ c # s) [''root''] =
    Inr ([(p, ''keyword.wgsl''), (c # s, ''meta.content.wgsl'')], [''directive'', ''root''])"
  using lex_rounds_step [OF directive_round [OF assms(1), of False "c # s"], of "Suc n"]
    lex_rounds_last [OF content_round [OF assms(2,3), of False "[''root'']"], of n]
  by (simp add: lex_line_def del: lex_rounds.simps)

theorem directive_splits_names_witness:
  "lex_line 8 wgsl ''enabled'' [''root''] =
    Inr ([(''enable'', ''keyword.wgsl''), (''d'', ''meta.content.wgsl'')], [''directive'', ''root''])"
proof -
  have "ident_start (CHR ''d'')" by (simp add: ident_start_def xid_start_def in_range_def code_def)
  from directive_splits_names [of "''enable''", OF _ this, of "[]" 6] show ?thesis
    by (simp add: directive_word_def del: lex_rounds.simps)
qed

section \<open>Keywords, reserved words and type generators\<close>

definition keyed :: "string list \<Rightarrow> (string \<times> unit) list" where
  "keyed = map (\<lambda>w. (w, ()))"

lemma tables_in_order: "in_order (keyed keyword_lines)" "in_order (keyed reserved_lines)"
    "in_order (keyed generator_lines)"
  unfolding keyed_def keyword_lines_def reserved_lines_def generator_lines_def list.map
  by (simp_all cong: in_order_head)

lemma tables_common: "common (keyed keyword_lines) (keyed reserved_lines) = []"
    "common (keyed keyword_lines) (keyed generator_lines) = []"
    "common (keyed reserved_lines) (keyed generator_lines) = []"
  unfolding keyed_def keyword_lines_def reserved_lines_def generator_lines_def list.map
  by (simp_all cong: common_head)

lemma keyed_keys: "fst ` set (keyed ws) = set ws" "map fst (keyed ws) = ws"
  by (simp_all add: keyed_def comp_def image_image)

text \<open>No word has two classes: keywords, reserved words and type generators are listed once, in one table.\<close>

theorem word_classes:
  "distinct (wgsl_keywords @ reserved @ predeclared_type_generators)"
  using tables_in_order [THEN in_order_distinct] tables_in_order [THEN common_set, OF tables_in_order(2)]
    tables_in_order(1) [THEN common_set, OF tables_in_order(3)] tables_in_order(2) [THEN common_set, OF tables_in_order(3)]
  by (auto simp: table_lines keyed_keys tables_common)

end
