(* ===== verification/TextDocument.thy ===== *)
theory TextDocument
  imports Prelude "HOL-Library.Multiset" "HOL-Library.Product_Lexorder"
begin

text \<open>
  The text documents of the language services of Monaco
  (\<open>monaco/vs/language/html/htmlWorker.js\<close>, lines 8 to 10; the same two classes are in
  \<open>jsonWorker.js\<close> and \<open>cssWorker.js\<close>): the table of the offsets at which lines begin, the search
  in it for the position of an offset, the way back, the incremental update that patches text and
  table together, and the two functions that apply a list of edits to a text. The minified names
  \<open>dt\<close>, \<open>De\<close>, \<open>rn\<close>, \<open>an\<close>, \<open>pt\<close>, \<open>Nn\<close> are those of the source. Offsets, lines and characters are
  integers.
\<close>

section \<open>Where lines begin\<close>

text \<open>A text is the list of its UTF-16 code units; \<open>utf16\<close> is for literals.\<close>

type_synonym code_units = "nat list"

definition utf16 :: "string \<Rightarrow> code_units" where
  "utf16 s = map of_char s"

abbreviation CR :: nat where "CR \<equiv> 13"
abbreviation LF :: nat where "LF \<equiv> 10"

text \<open>
  The loop of \<open>rn\<close>: behind each line feed, carriage return, or pair of both, a line begins. The
  first argument is the offset of the text that is left.
\<close>

fun eols :: "int \<Rightarrow> code_units \<Rightarrow> int list" where
  "eols p [] = []"
| "eols p (c # cs) =
     (if c = CR \<or> c = LF
      then (if c = CR \<and> cs \<noteq> [] \<and> hd cs = LF then (p + 2) # eols (p + 2) (tl cs)
            else (p + 1) # eols (p + 1) cs)
      else eols (p + 1) cs)"

definition rn :: "code_units \<Rightarrow> bool \<Rightarrow> int \<Rightarrow> int list" where
  "rn t n p = (if n then [p] else []) @ eols p t"

text \<open>
  \<open>getLineOffsets\<close> of the class \<open>dt\<close>: a flag says that a line begins at the next character.
\<close>

fun dt_loop :: "int \<Rightarrow> bool \<Rightarrow> code_units \<Rightarrow> int list \<times> bool" where
  "dt_loop e a [] = ([], a)"
| "dt_loop e a (c # cs) =
     (let pair = (c = CR \<and> cs \<noteq> [] \<and> hd cs = LF);
          (ns, z) = dt_loop (if pair then e + 2 else e + 1) (c = CR \<or> c = LF)
                      (if pair then tl cs else cs)
      in ((if a then [e] else []) @ ns, z))"

definition dt_getLineOffsets :: "code_units \<Rightarrow> int list" where
  "dt_getLineOffsets s = (let (n, a) = dt_loop 0 True s
     in if a \<and> length s > 0 then n @ [int (length s)] else n)"

lemma eols_no_break [simp]: "CR \<notin> set s \<Longrightarrow> LF \<notin> set s \<Longrightarrow> eols p s = []"
  by (induction s arbitrary: p) auto

lemma eols_shift: "eols (p + h) s = map (\<lambda>x. x + h) (eols p s)"
proof (induction p s rule: eols.induct)
  case (2 p c cs)
  have e: "p + h + 1 = p + 1 + h" "p + h + 2 = p + 2 + h" by simp_all
  show ?case
    by (cases "c = CR \<or> c = LF"; cases "c = CR \<and> cs \<noteq> [] \<and> hd cs = LF")
      (use 2 in \<open>auto simp only: eols.simps e if_True if_False list.map split: if_splits\<close>)
qed simp

lemma eols_bounds: "x \<in> set (eols p s) \<Longrightarrow> p < x \<and> x \<le> p + int (length s)"
proof (induction p s rule: eols.induct)
  case (2 p c cs)
  show ?case
  proof (cases "c = CR \<and> cs \<noteq> [] \<and> hd cs = LF")
    case True
    then obtain ds where "cs = LF # ds" by (cases cs) auto
    then show ?thesis using 2 True by auto
  next
    case False
    then show ?thesis using 2 by (auto split: if_splits)
  qed
qed simp

lemma sorted_eols: "sorted_wrt (<) (eols p s)"
  by (induction p s rule: eols.induct) (auto dest: eols_bounds)

text \<open>A carriage return and a line feed that meet where two texts are put together.\<close>

definition apart :: "code_units \<Rightarrow> code_units \<Rightarrow> bool" where
  "apart s t = (\<not> (s \<noteq> [] \<and> t \<noteq> [] \<and> last s = CR \<and> hd t = LF))"

lemma apart_simps [simp]: "apart [] t" "apart s []"
  by (simp_all add: apart_def)

lemma eols_append:
  "apart s t \<Longrightarrow> eols p (s @ t) = eols p s @ eols (p + int (length s)) t"
proof (induction p s rule: eols.induct)
  case (2 p c cs)
  have ap: "apart cs t" "apart (tl cs) t"
    using 2(4) by (cases cs; auto simp: apart_def split: if_splits)+
  show ?case
  proof (cases "c = CR \<and> cs \<noteq> [] \<and> hd cs = LF")
    case True
    then obtain ds where "cs = LF # ds" by (cases cs) auto
    then show ?thesis using 2(1) True ap by (auto simp: algebra_simps)
  next
    case False
    have "\<not> (c = CR \<and> cs @ t \<noteq> [] \<and> hd (cs @ t) = LF)"
      using False 2(4) by (cases cs) (auto simp: apart_def)
    then show ?thesis using 2(2,3) False ap
      by (auto simp: algebra_simps simp del: append_is_Nil_conv)
  qed
qed simp

lemma dt_loop_eols:
  "dt_loop e a s = (ns, z) \<Longrightarrow>
   ns @ (if z then [e + int (length s)] else []) = (if a then [e] else []) @ eols e s"
proof (induction e a s arbitrary: ns z rule: dt_loop.induct)
  case (2 e a c cs)
  let ?pair = "c = CR \<and> cs \<noteq> [] \<and> hd cs = LF"
  obtain ms where m: "dt_loop (if ?pair then e + 2 else e + 1) (c = CR \<or> c = LF)
      (if ?pair then tl cs else cs) = (ms, z)" and ns: "ns = (if a then [e] else []) @ ms"
    using 2(2) by (auto simp: Let_def split: prod.splits)
  have len: "(if ?pair then e + 2 else e + 1) + int (length (if ?pair then tl cs else cs))
      = e + int (length (c # cs))" by (cases cs) auto
  show ?case
    using 2(1) [OF refl m] unfolding len ns by (cases ?pair) auto
qed simp


lemma dt_getLineOffsets_rn: "dt_getLineOffsets s = (if s = [] then [] else rn s True 0)"
proof -
  obtain n a where "dt_loop 0 True s = (n, a)" by (cases "dt_loop 0 True s")
  with dt_loop_eols [OF this] show ?thesis
    by (cases a) (auto simp: dt_getLineOffsets_def rn_def)
qed

section \<open>Positions and offsets\<close>

record position =
  line :: int
  character :: int

record text_range =
  range_start :: position
  range_end :: position

text \<open>
  The search of \<open>positionAt\<close>: \<open>a\<close> and \<open>e\<close> bound the part of the table that is left. The offset of
  the first line is 0 in every table, so that the search ends behind at least one entry.
\<close>

function bsearch :: "int list \<Rightarrow> int \<Rightarrow> nat \<Rightarrow> nat \<Rightarrow> nat" where
  "bsearch ls n a e =
     (if a < e
      then (let u = (a + e) div 2 in
            if ls ! u > n then bsearch ls n a u else bsearch ls n (u + 1) e)
      else a)"
  by pat_completeness auto
termination by (relation "measure (\<lambda>(ls, n, a, e). e - a)") auto

declare bsearch.simps [simp del]

definition position_in :: "int list \<Rightarrow> int \<Rightarrow> int \<Rightarrow> position" where
  "position_in ls len n =
     (let k = max (min n len) 0 in
      if ls = [] then \<lparr>line = 0, character = k\<rparr>
      else let r = bsearch ls k 0 (length ls) - 1
           in \<lparr>line = int r, character = k - ls ! r\<rparr>)"

definition offset_in :: "int list \<Rightarrow> int \<Rightarrow> position \<Rightarrow> int" where
  "offset_in ls len p =
     (if line p \<ge> int (length ls) then len
      else if line p < 0 then 0
      else let a = ls ! nat (line p);
               e = (if line p + 1 < int (length ls) then ls ! nat (line p + 1) else len)
           in max (min (a + character p) e) a)"

text \<open>The search returns the number of lines that begin at or before the offset.\<close>

lemma bsearch_between:
  assumes "a \<le> e" "e \<le> length ls" "sorted ls"
    and "list_all (\<lambda>x. x \<le> n) (take a ls)" "list_all (\<lambda>x. n < x) (drop e ls)"
  shows "bsearch ls n a e = length (takeWhile (\<lambda>x. x \<le> n) ls)"
  using assms
proof (induction ls n a e rule: bsearch.induct)
  case (1 ls n a e)
  show ?case
  proof (cases "a < e")
    case True
    let ?u = "(a + e) div 2"
    have u: "a \<le> ?u" "?u < e" "?u < length ls" using True 1(4) by auto
    show ?thesis
    proof (cases "ls ! ?u > n")
      case True
      have "x > n" if x: "x \<in> set (drop ?u ls)" for x
      proof -
        obtain i where "i < length ls - ?u" "x = drop ?u ls ! i"
          using x by (auto simp: in_set_conv_nth)
        then obtain j where "x = ls ! (?u + j)" "?u + j < length ls"
          using u by (auto simp: less_diff_conv add.commute)
        then show ?thesis using True sorted_nth_mono [OF 1(5), of ?u "?u + j"] by auto
      qed
      then have "list_all (\<lambda>x. n < x) (drop ?u ls)" by (simp add: list_all_iff)
      then show ?thesis
        using 1(1) [OF \<open>a < e\<close> refl True] u 1(5,6) \<open>a < e\<close> True
        by (subst bsearch.simps) (simp add: Let_def)
    next
      case False
      have "x \<le> n" if x: "x \<in> set (take (?u + 1) ls)" for x
      proof -
        obtain j where "x = ls ! j" "j \<le> ?u"
          using x u by (auto simp: in_set_conv_nth)
        then show ?thesis using False sorted_nth_mono [OF 1(5), of j ?u] u by auto
      qed
      then have "list_all (\<lambda>x. x \<le> n) (take (?u + 1) ls)" by (simp add: list_all_iff)
      then show ?thesis
        using 1(2) [OF \<open>a < e\<close> refl False] u 1(4,5,7) \<open>a < e\<close> False
        by (subst bsearch.simps) (simp add: Let_def)
    qed
  next
    case False
    then have "a = e" using 1(3) by simp
    then have "takeWhile (\<lambda>x. x \<le> n) (take a ls @ drop a ls) = take a ls"
      using 1(6,7) by (cases "drop a ls") (auto simp: list_all_iff takeWhile_append)
    then show ?thesis using False \<open>a = e\<close> 1(4) by (subst bsearch.simps) simp
  qed
qed

lemma bsearch_count:
  "sorted ls \<Longrightarrow> bsearch ls n 0 (length ls) = length (takeWhile (\<lambda>x. x \<le> n) ls)"
  by (rule bsearch_between) simp_all

lemma rn_sorted: "sorted (rn s True 0)" "sorted_wrt (<) (rn s True 0)"
proof -
  show s: "sorted_wrt (<) (rn s True 0)"
    by (auto simp: rn_def sorted_eols dest: eols_bounds)
  show "sorted (rn s True 0)" by (rule strict_sorted_imp_sorted [OF s])
qed

text \<open>What the two functions say of each other, for any table that begins at 0 and is ordered.\<close>

lemma bsearch_line:
  fixes ls :: "int list"
  assumes "sorted_wrt (<) ls" "ls \<noteq> []" "hd ls \<le> k" and m: "m = bsearch ls k 0 (length ls)"
  shows "m > 0" "ls ! (m - 1) \<le> k" "m \<le> length ls" "m < length ls \<Longrightarrow> k < ls ! m"
proof -
  let ?t = "takeWhile (\<lambda>x. x \<le> k) ls"
  have m: "m = length ?t"
    unfolding m by (rule bsearch_count) (rule strict_sorted_imp_sorted [OF assms(1)])
  have "?t \<noteq> []" using assms(2,3) by (cases ls) auto
  then show "m > 0" using m by simp
  then have "?t ! (m - 1) \<in> set ?t" using m by simp
  moreover have "?t ! (m - 1) = ls ! (m - 1)" using m \<open>m > 0\<close> by (simp add: takeWhile_nth)
  ultimately show "ls ! (m - 1) \<le> k" by (metis set_takeWhileD)
  show "m \<le> length ls" by (simp add: m length_takeWhile_le)
  show "k < ls ! m" if "m < length ls"
    using nth_length_takeWhile [of "\<lambda>x. x \<le> k" ls] that by (simp add: m)
qed

lemma offset_of_position:
  assumes "sorted_wrt (<) ls" "ls \<noteq> []" "hd ls = 0" "list_all (\<lambda>x. x \<le> len) ls"
  shows "offset_in ls len (position_in ls len n) = max (min n len) 0"
proof -
  define k where "k = max (min n len) 0"
  define r where "r = bsearch ls k 0 (length ls) - 1"
  have len: "0 \<le> len" using assms(2-4) by (cases ls) auto
  have k: "hd ls \<le> k" "k \<le> len" using len by (simp_all add: assms(3) k_def)
  note b = bsearch_line [OF assms(1,2) k(1) refl]
  have r: "r < length ls" "ls ! r \<le> k" using b(1-3) by (auto simp: r_def)
  have next_line: "k < ls ! (r + 1)" if "r + 1 < length ls"
    using b(1,4) that by (simp add: r_def)
  have p: "position_in ls len n = \<lparr>line = int r, character = k - ls ! r\<rparr>"
    using assms(2) by (simp add: position_in_def Let_def k_def r_def)
  have "nat (int r + 1) = r + 1" by simp
  then show ?thesis
    unfolding p using r next_line k(2) unfolding k_def [symmetric]
    by (cases "r + 1 < length ls") (simp_all add: offset_in_def Let_def)
qed

section \<open>Documents\<close>

record text_document =
  uri :: string
  languageId :: string
  version :: int
  content :: code_units
  lineOffsets :: "int list option"   \<comment> \<open>\<open>None\<close> is \<open>undefined\<close>: not computed yet\<close>

definition create :: "string \<Rightarrow> string \<Rightarrow> int \<Rightarrow> code_units \<Rightarrow> text_document" where
  "create u l v s = \<lparr>uri = u, languageId = l, version = v, content = s, lineOffsets = None\<rparr>"

definition getLineOffsets :: "text_document \<Rightarrow> int list \<times> text_document" where
  "getLineOffsets d = (case lineOffsets d of
       None \<Rightarrow> (let ls = rn (content d) True 0 in (ls, d\<lparr>lineOffsets := Some ls\<rparr>))
     | Some ls \<Rightarrow> (ls, d))"

definition positionAt :: "int \<Rightarrow> text_document \<Rightarrow> position \<times> text_document" where
  "positionAt n d = (let (ls, d') = getLineOffsets d
     in (position_in ls (int (length (content d))) n, d'))"

definition offsetAt :: "position \<Rightarrow> text_document \<Rightarrow> int \<times> text_document" where
  "offsetAt p d = (let (ls, d') = getLineOffsets d
     in (offset_in ls (int (length (content d))) p, d'))"

definition lineCount :: "text_document \<Rightarrow> nat \<times> text_document" where
  "lineCount d = (let (ls, d') = getLineOffsets d in (length ls, d'))"

text \<open>\<open>substring\<close> puts its two positions in order and cuts them to the text.\<close>

definition substring :: "code_units \<Rightarrow> int \<Rightarrow> int \<Rightarrow> code_units" where
  "substring s i j = (let a = nat (min i j); b = nat (max i j) in take (b - a) (drop a s))"

definition getText :: "text_range option \<Rightarrow> text_document \<Rightarrow> code_units \<times> text_document" where
  "getText rg d = (case rg of
       None \<Rightarrow> (content d, d)
     | Some g \<Rightarrow>
         let (i, d1) = offsetAt (range_start g) d; (j, d2) = offsetAt (range_end g) d1
         in (substring (content d) i j, d2))"

text \<open>The operations of \<open>dt\<close> are those of \<open>De\<close> on the table of \<open>dt\<close>, which is empty for an empty text.\<close>

definition dt_positionAt :: "int \<Rightarrow> code_units \<Rightarrow> position" where
  "dt_positionAt n s = position_in (dt_getLineOffsets s) (int (length s)) n"

definition dt_offsetAt :: "position \<Rightarrow> code_units \<Rightarrow> int" where
  "dt_offsetAt p s = offset_in (dt_getLineOffsets s) (int (length s)) p"

definition dt_lineCount :: "code_units \<Rightarrow> nat" where
  "dt_lineCount s = length (dt_getLineOffsets s)"

section \<open>Incremental updates\<close>

text \<open>\<open>an\<close> puts the ends of a range in order.\<close>

definition an :: "text_range \<Rightarrow> text_range" where
  "an g = (let n = range_start g; e = range_end g in
     if line n > line e \<or> line n = line e \<and> character n > character e
     then \<lparr>range_start = e, range_end = n\<rparr> else g)"

text \<open>A change is any value; what the tests of its type ask for is kept.\<close>

datatype range_length = NoLength | LengthNumber int | LengthOther

record text_change =
  new_text :: "code_units option"         \<comment> \<open>\<open>None\<close>: not a string\<close>
  new_range :: "text_range option"    \<comment> \<open>\<open>None\<close>: \<open>undefined\<close>\<close>
  rangeLength :: range_length

definition isIncremental :: "text_change \<Rightarrow> bool" where
  "isIncremental a = (new_text a \<noteq> None \<and> new_range a \<noteq> None \<and> rangeLength a \<noteq> LengthOther)"

definition isFull :: "text_change \<Rightarrow> bool" where
  "isFull a = (new_text a \<noteq> None \<and> new_range a = None \<and> rangeLength a = NoLength)"

datatype fault =
    UnknownChange   \<comment> \<open>\<open>Error("Unknown change event received")\<close>\<close>
  | SparseTable     \<comment> \<open>the table got entries beyond its end; the model stops there\<close>

text \<open>The loop that overwrites entries. Writing just behind the last entry makes the array longer.\<close>

fun overwrite :: "int list \<Rightarrow> nat \<Rightarrow> int list \<Rightarrow> int list option" where
  "overwrite s k [] = Some s"
| "overwrite s k (x # xs) =
     (if k < length s then overwrite (s[k := x]) (k + 1) xs
      else if k = length s then overwrite (s @ [x]) (k + 1) xs
      else None)"

definition splice :: "int list \<Rightarrow> nat \<Rightarrow> nat \<Rightarrow> int list \<Rightarrow> int list" where
  "splice s k n xs = take k s @ xs @ drop (k + n) s"

text \<open>The lines \<open>c + 1\<close> to \<open>i\<close> give way to the lines of the new text.\<close>

definition patch :: "int list \<Rightarrow> nat \<Rightarrow> nat \<Rightarrow> int list \<Rightarrow> int list option" where
  "patch s c i l =
     (if i - c = length l then overwrite s (c + 1) l
      else if length l < 10000 then Some (splice s (c + 1) (i - c) l)
      else Some (take (c + 1) s @ l @ drop (i + 1) s))"

definition shift_from :: "nat \<Rightarrow> int \<Rightarrow> int list \<Rightarrow> int list" where
  "shift_from k h s = (if h \<noteq> 0 then take k s @ map (\<lambda>x. x + h) (drop k s) else s)"

definition update_range :: "text_range \<Rightarrow> code_units \<Rightarrow> text_document \<Rightarrow> fault option \<times> text_document" where
  "update_range g t d0 =
     (let e = an g;
          (r, d1) = offsetAt (range_start e) d0;
          (u, d2) = offsetAt (range_end e) d1;
          d3 = d2\<lparr>content := substring (content d2) 0 r @ t
                    @ substring (content d2) u (int (length (content d2)))\<rparr>;
          c = nat (max (line (range_start e)) 0);
          i = nat (max (line (range_end e)) 0);
          l = rn t False r;
          h = int (length t) - (u - r)
      in case Option.bind (lineOffsets d3) (\<lambda>s. patch s c i l) of
           None \<Rightarrow> (Some SparseTable, d3)
         | Some s \<Rightarrow> (None, d3\<lparr>lineOffsets := Some (shift_from (c + 1 + length l) h s)\<rparr>))"

definition update_one :: "text_change option \<Rightarrow> text_document \<Rightarrow> fault option \<times> text_document" where
  "update_one a d = (case a of
       None \<Rightarrow> (Some UnknownChange, d)
     | Some b \<Rightarrow>
         (case (new_text b, new_range b) of
            (Some t, Some g) \<Rightarrow>
              if isIncremental b then update_range g t d else (Some UnknownChange, d)
          | (Some t, None) \<Rightarrow>
              if isFull b then (None, d\<lparr>content := t, lineOffsets := None\<rparr>)
              else (Some UnknownChange, d)
          | (None, _) \<Rightarrow> (Some UnknownChange, d)))"

text \<open>An error leaves the changes before it in place, and the version as it was.\<close>

fun update :: "text_change option list \<Rightarrow> int \<Rightarrow> text_document \<Rightarrow> fault option \<times> text_document" where
  "update [] v d = (None, d\<lparr>version := v\<rparr>)"
| "update (a # as) v d = (case update_one a d of
       (None, d') \<Rightarrow> update as v d'
     | (Some f, d') \<Rightarrow> (Some f, d'))"

section \<open>The table is that of the text\<close>

text \<open>The abstraction: a document is its text, and a cached table is the one \<open>rn\<close> computes.\<close>

definition table_ok :: "text_document \<Rightarrow> bool" where
  "table_ok d = (case lineOffsets d of None \<Rightarrow> True | Some ls \<Rightarrow> ls = rn (content d) True 0)"

lemma getLineOffsets_ok:
  "table_ok d \<Longrightarrow>
   getLineOffsets d = (rn (content d) True 0, d\<lparr>lineOffsets := Some (rn (content d) True 0)\<rparr>)"
  by (auto simp: table_ok_def getLineOffsets_def Let_def split: option.splits)

lemma rn_facts:
  "rn s True 0 \<noteq> []" "hd (rn s True 0) = 0"
  "list_all (\<lambda>x. x \<le> int (length s)) (rn s True 0)"
  "list_all (\<lambda>x. 0 \<le> x) (rn s True 0)"
  by (auto simp: rn_def list_all_iff dest: eols_bounds)

lemma clamp_bounds:
  fixes a b :: int
  shows "0 \<le> a \<Longrightarrow> a \<le> n \<Longrightarrow> b \<le> n \<Longrightarrow> 0 \<le> max (min x b) a \<and> max (min x b) a \<le> n"
  by (auto simp: max_def min_def)

lemma offset_in_bounds:
  assumes "list_all (\<lambda>x. 0 \<le> x \<and> x \<le> len) ls" "0 \<le> len"
  shows "0 \<le> offset_in ls len p" "offset_in ls len p \<le> len"
proof -
  have "0 \<le> ls ! k \<and> ls ! k \<le> len" if "k < length ls" for k
    using assms(1) that by (simp add: list_all_length)
  then have at: "0 \<le> ls ! k" "ls ! k \<le> len" if "k < length ls" for k
    using that by auto
  have "0 \<le> offset_in ls len p \<and> offset_in ls len p \<le> len"
  proof (cases "0 \<le> line p \<and> line p < int (length ls)")
    case True
    then have "nat (line p) < length ls" by linarith
    moreover have "nat (line p + 1) < length ls" if "line p + 1 < int (length ls)"
      using that True by linarith
    ultimately show ?thesis
      using True at [of "nat (line p)"] at [of "nat (line p + 1)"] assms(2)
      by (cases "line p + 1 < int (length ls)")
        (simp_all add: offset_in_def Let_def clamp_bounds)
  qed (use assms(2) in \<open>auto simp: offset_in_def\<close>)
  then show "0 \<le> offset_in ls len p" "offset_in ls len p \<le> len" by simp_all
qed

text \<open>
  The table is cut where a line is cut: an offset on line \<open>k\<close> that does not tear a pair of
  carriage return and line feed apart has \<open>k\<close> line ends before it.
\<close>

lemma table_cut:
  assumes "k < length (rn s True 0)" "rn s True 0 ! k \<le> x" "0 \<le> x" "x \<le> int (length s)"
    and "k + 1 < length (rn s True 0) \<Longrightarrow> x < rn s True 0 ! (k + 1)"
    and "apart (take (nat x) s) (drop (nat x) s)"
  shows "eols 0 (take (nat x) s) = take k (eols 0 s)"
    and "eols x (drop (nat x) s) = drop k (eols 0 s)"
proof -
  let ?A = "eols 0 (take (nat x) s)" and ?B = "eols x (drop (nat x) s)"
  have "int (length (take (nat x) s)) = x" using assms(3,4) by simp
  with eols_append [OF assms(6), of 0] have E: "eols 0 s = ?A @ ?B" by simp
  have ls: "rn s True 0 = 0 # eols 0 s" by (simp add: rn_def)
  have A: "y \<le> x" if "y \<in> set ?A" for y
    using eols_bounds [OF that] assms(3,4) by simp
  have B: "x < y" if "y \<in> set ?B" for y
    using eols_bounds [OF that] by simp
  have "k \<le> length ?A"
  proof (rule ccontr)
    assume k: "\<not> k \<le> length ?A"
    then have "rn s True 0 ! k = ?B ! (k - 1 - length ?A)" "k - 1 - length ?A < length ?B"
      using assms(1) E by (auto simp: ls nth_Cons' nth_append)
    then have "rn s True 0 ! k \<in> set ?B" by (metis nth_mem)
    with B assms(2) show False by fastforce
  qed
  moreover have "\<not> k < length ?A"
  proof
    assume k: "k < length ?A"
    then have "rn s True 0 ! (k + 1) \<in> set ?A" "k + 1 < length (rn s True 0)"
      using E by (auto simp: ls nth_append)
    with A assms(5) show False by fastforce
  qed
  ultimately have "k = length ?A" by simp
  then show "?A = take k (eols 0 s)" "?B = drop k (eols 0 s)" using E by simp_all
qed

text \<open>Overwriting in range is a splice.\<close>

lemma overwrite_in_range:
  "k + length l \<le> length s \<Longrightarrow> overwrite s k l = Some (take k s @ l @ drop (k + length l) s)"
proof (induction l arbitrary: s k)
  case (Cons x xs)
  then show ?case by (simp add: take_Suc_conv_app_nth)
qed simp

lemma patch_in_range:
  assumes "c \<le> i" "i < length s"
  shows "patch s c i l = Some (take (c + 1) s @ l @ drop (i + 1) s)"
proof (cases "i - c = length l")
  case True
  then have "i + 1 = c + 1 + length l" using assms(1) by simp
  then show ?thesis
    using overwrite_in_range [of "c + 1" l s] assms(2) True by (simp add: patch_def)
qed (use assms in \<open>simp add: patch_def splice_def\<close>)

text \<open>
  A position that is on the text: its line is there, its character does not reach the next line,
  and it is not between a carriage return and its line feed.
\<close>

definition on_text :: "code_units \<Rightarrow> position \<Rightarrow> bool" where
  "on_text s p = (let ls = rn s True 0; x = offset_in ls (int (length s)) p in
     0 \<le> line p \<and> line p < int (length ls) \<and> 0 \<le> character p
     \<and> x = ls ! nat (line p) + character p
     \<and> (if line p + 1 < int (length ls) then x < ls ! nat (line p + 1) else True)
     \<and> apart (take (nat x) s) (drop (nat x) s))"

text \<open>The text after a change of a range, and when the table can follow it.\<close>

definition spliced :: "text_range \<Rightarrow> code_units \<Rightarrow> code_units \<Rightarrow> code_units" where
  "spliced g t s = (let e = an g; ls = rn s True 0;
       r = offset_in ls (int (length s)) (range_start e);
       u = offset_in ls (int (length s)) (range_end e)
     in take (nat r) s @ t @ drop (nat u) s)"

definition range_fits :: "text_range \<Rightarrow> code_units \<Rightarrow> code_units \<Rightarrow> bool" where
  "range_fits g t s = (let e = an g; ls = rn s True 0;
       r = offset_in ls (int (length s)) (range_start e);
       u = offset_in ls (int (length s)) (range_end e)
     in on_text s (range_start e) \<and> on_text s (range_end e)
        \<and> apart (take (nat r) s) (t @ drop (nat u) s) \<and> apart t (drop (nat u) s))"

lemma an_ordered:
  "line (range_start (an g)) \<le> line (range_end (an g))"
  "line (range_start (an g)) = line (range_end (an g)) \<Longrightarrow>
   character (range_start (an g)) \<le> character (range_end (an g))"
  by (auto simp: an_def Let_def)

lemma offset_bounds:
  "0 \<le> offset_in (rn s True 0) (int (length s)) p"
  "offset_in (rn s True 0) (int (length s)) p \<le> int (length s)"
  using rn_facts(3,4) [of s] by (auto intro!: offset_in_bounds simp: list_all_iff)

lemma on_text_cut:
  assumes "on_text s p" and x: "x = offset_in (rn s True 0) (int (length s)) p"
  shows "eols 0 (take (nat x) s) = take (nat (line p)) (eols 0 s)"
    and "eols x (drop (nat x) s) = drop (nat (line p)) (eols 0 s)"
    and "nat (line p) < length (rn s True 0)"
proof -
  let ?ls = "rn s True 0"
  have o: "0 \<le> line p" "line p < int (length ?ls)" "0 \<le> character p"
      "x = ?ls ! nat (line p) + character p" "apart (take (nat x) s) (drop (nat x) s)"
      "line p + 1 < int (length ?ls) \<Longrightarrow> x < ?ls ! nat (line p + 1)"
    using assms by (auto simp: on_text_def Let_def)
  show l: "nat (line p) < length ?ls" using o(1,2) by linarith
  have n: "x < ?ls ! (nat (line p) + 1)" if "nat (line p) + 1 < length ?ls"
    using o(6) that o(1) by (simp add: nat_add_distrib)
  have "?ls ! nat (line p) \<le> x" using o(3,4) by simp
  note cut = table_cut [OF l this _ _ n o(5)]
  show "eols 0 (take (nat x) s) = take (nat (line p)) (eols 0 s)"
    and "eols x (drop (nat x) s) = drop (nat (line p)) (eols 0 s)"
    using cut offset_bounds [of s p] by (simp_all add: x)
qed

text \<open>The patched table is the table of the new text.\<close>

lemma patched_table:
  fixes s t :: code_units and g e :: text_range and r u :: int and c i :: nat and ls l :: "int list"
  assumes fits: "range_fits g t s"
  defines "ls \<equiv> rn s True 0" and "e \<equiv> an g"
  defines "r \<equiv> offset_in ls (int (length s)) (range_start e)"
    and "u \<equiv> offset_in ls (int (length s)) (range_end e)"
    and "c \<equiv> nat (line (range_start e))" and "i \<equiv> nat (line (range_end e))"
    and "l \<equiv> rn t False r"
  shows "Option.bind (Some ls) (\<lambda>s. patch s c i l) = Some (take (c + 1) ls @ l @ drop (i + 1) ls)"
    and "shift_from (c + 1 + length l) (int (length t) - (u - r))
           (take (c + 1) ls @ l @ drop (i + 1) ls) = rn (spliced g t s) True 0"
proof -
  have on: "on_text s (range_start e)" "on_text s (range_end e)"
    and ap: "apart (take (nat r) s) (t @ drop (nat u) s)" "apart t (drop (nat u) s)"
    using fits by (auto simp: range_fits_def Let_def r_def u_def ls_def e_def)
  note c1 = on_text_cut [OF on(1) meta_eq_to_obj_eq [OF r_def [unfolded ls_def]]]
  note c2 = on_text_cut [OF on(2) meta_eq_to_obj_eq [OF u_def [unfolded ls_def]]]
  have "c \<le> i" using an_ordered(1) [of g] by (simp add: c_def i_def e_def nat_mono)
  moreover have "i < length ls" using c2(3) by (simp add: i_def ls_def)
  ultimately show "Option.bind (Some ls) (\<lambda>s. patch s c i l)
      = Some (take (c + 1) ls @ l @ drop (i + 1) ls)"
    by (simp add: patch_in_range)
  let ?h = "int (length t) - (u - r)"
  have r: "int (length (take (nat r) s)) = r"
    using offset_bounds [of s "range_start e"] by (simp add: r_def ls_def)
  have sp: "spliced g t s = take (nat r) s @ t @ drop (nat u) s"
    by (simp add: spliced_def Let_def r_def u_def ls_def e_def)
  have sum: "r + int (length t) = u + ?h" by simp
  have "rn (spliced g t s) True 0
      = 0 # eols 0 (take (nat r) s) @ eols r t @ eols (u + ?h) (drop (nat u) s)"
    unfolding sp eols_append [OF ap(1)] eols_append [OF ap(2)] rn_def
    by (simp only: r sum add_0_left if_True append_Cons append_Nil)
  also have "\<dots> = 0 # take c (eols 0 s) @ l @ map (\<lambda>x. x + ?h) (drop i (eols 0 s))"
    unfolding eols_shift using c1(1) c2(2) by (simp add: c_def i_def l_def rn_def)
  finally have new: "rn (spliced g t s) True 0
      = 0 # take c (eols 0 s) @ l @ map (\<lambda>x. x + ?h) (drop i (eols 0 s))" .
  have "c < length ls" using c1(3) by (simp add: c_def ls_def)
  then have "length (take c (eols 0 s)) = c" by (simp add: ls_def rn_def)
  then show "shift_from (c + 1 + length l) ?h (take (c + 1) ls @ l @ drop (i + 1) ls)
      = rn (spliced g t s) True 0"
    unfolding new by (simp add: shift_from_def ls_def rn_def)
qed

section \<open>A document is its text\<close>

text \<open>The reference: the text alone, with every table computed anew.\<close>

definition change_text :: "text_change option \<Rightarrow> code_units \<Rightarrow> code_units option" where
  "change_text a s = (case a of
       None \<Rightarrow> None
     | Some b \<Rightarrow>
         (case (new_text b, new_range b) of
            (Some t, Some g) \<Rightarrow> if isIncremental b then Some (spliced g t s) else None
          | (Some t, None) \<Rightarrow> if isFull b then Some t else None
          | (None, _) \<Rightarrow> None))"

fun plain_update :: "text_change option list \<Rightarrow> code_units \<Rightarrow> fault option \<times> code_units" where
  "plain_update [] s = (None, s)"
| "plain_update (a # as) s = (case change_text a s of
       None \<Rightarrow> (Some UnknownChange, s)
     | Some s' \<Rightarrow> plain_update as s')"

definition change_fits :: "text_change option \<Rightarrow> code_units \<Rightarrow> bool" where
  "change_fits a s = (case a of
       None \<Rightarrow> True
     | Some b \<Rightarrow>
         (case (new_text b, new_range b) of
            (Some t, Some g) \<Rightarrow> if isIncremental b then range_fits g t s else True
          | _ \<Rightarrow> True))"

fun changes_fit :: "text_change option list \<Rightarrow> code_units \<Rightarrow> bool" where
  "changes_fit [] s = True"
| "changes_fit (a # as) s = (change_fits a s \<and>
     (case change_text a s of None \<Rightarrow> True | Some s' \<Rightarrow> changes_fit as s'))"

lemma offsetAt_ok:
  "table_ok d \<Longrightarrow> offsetAt p d =
     (offset_in (rn (content d) True 0) (int (length (content d))) p,
      d\<lparr>lineOffsets := Some (rn (content d) True 0)\<rparr>)"
  by (simp add: offsetAt_def getLineOffsets_ok)

lemma substring_cut:
  "0 \<le> r \<Longrightarrow> substring s 0 r = take (nat r) s"
  "u \<le> int (length s) \<Longrightarrow> substring s u (int (length s)) = drop (nat u) s"
  by (simp_all add: substring_def Let_def min_def max_def)

lemma update_range_ok:
  assumes ok: "table_ok d" and fits: "range_fits g t (content d)"
  shows "update_range g t d = (None, d\<lparr>content := spliced g t (content d),
           lineOffsets := Some (rn (spliced g t (content d)) True 0)\<rparr>)"
proof -
  let ?s = "content d" and ?ls = "rn (content d) True 0"
  have ok': "table_ok (d\<lparr>lineOffsets := Some ?ls\<rparr>)" by (simp add: table_ok_def)
  have lines: "0 \<le> line (range_start (an g))" "0 \<le> line (range_end (an g))"
    using fits by (auto simp: range_fits_def on_text_def Let_def)
  have cut: "substring ?s 0 (offset_in ?ls (int (length ?s)) (range_start (an g))) @ t
      @ substring ?s (offset_in ?ls (int (length ?s)) (range_end (an g))) (int (length ?s))
      = spliced g t ?s"
    using offset_bounds [of ?s] by (simp add: substring_cut spliced_def Let_def)
  note p = patched_table [OF fits]
  show ?thesis
    unfolding update_range_def Let_def offsetAt_ok [OF ok] prod.case offsetAt_ok [OF ok']
    using lines cut p by (simp add: max_def)
qed

lemma update_one_ok:
  assumes "table_ok d" "change_fits a (content d)"
  shows "(case change_text a (content d) of
       None \<Rightarrow> update_one a d = (Some UnknownChange, d)
     | Some s' \<Rightarrow> \<exists>ls. update_one a d = (None, d\<lparr>content := s', lineOffsets := ls\<rparr>)
                    \<and> table_ok (d\<lparr>content := s', lineOffsets := ls\<rparr>))"
  using assms
  by (auto simp: change_text_def change_fits_def update_one_def update_range_ok table_ok_def
      split: option.split)

text \<open>The other fields of a document stay; what is left of the changes after an error is left alone.\<close>

lemma update_follows_text:
  "table_ok d \<Longrightarrow> changes_fit cs (content d) \<Longrightarrow> update cs v d = (f, d') \<Longrightarrow>
   (f, content d') = plain_update cs (content d) \<and> table_ok d'
   \<and> version d' = (if f = None then v else version d) \<and> uri d' = uri d \<and> languageId d' = languageId d"
proof (induction cs arbitrary: d)
  case Nil
  then show ?case by (auto simp: table_ok_def split: option.splits)
next
  case (Cons a as)
  note one = update_one_ok [of d a]
  show ?case
  proof (cases "change_text a (content d)")
    case None
    then show ?thesis using one Cons.prems by auto
  next
    case (Some s')
    then obtain ls where u: "update_one a d = (None, d\<lparr>content := s', lineOffsets := ls\<rparr>)"
        "table_ok (d\<lparr>content := s', lineOffsets := ls\<rparr>)"
      using one Cons.prems by auto
    then show ?thesis using Cons.IH [OF u(2)] Cons.prems Some by auto
  qed
qed

text \<open>
  C32. An incremental update keeps the document and its table together: the text is what the changes
  make of the text alone, the cached table, if there is one, is the table of that text, and an
  unknown change stops the update without a new version. The changes must lie on the text they
  meet, and must not bring a carriage return and a line feed together.
\<close>

theorem update_refines_text:
  assumes "table_ok d" "changes_fit cs (content d)"
  shows "let (f, s) = plain_update cs (content d); (f', d') = update cs v d
     in f' = f \<and> content d' = s \<and> fst (getLineOffsets d') = rn s True 0
        \<and> version d' = (if f = None then v else version d)"
proof -
  obtain f d' where u: "update cs v d = (f, d')" by fastforce
  have p: "plain_update cs (content d) = (f, content d')" and "table_ok d'"
    and "version d' = (if f = None then v else version d)"
    using update_follows_text [OF assms u] by simp_all
  then show ?thesis unfolding u p by (simp add: getLineOffsets_ok)
qed

text \<open>Two lines, of which the end of the first and the start of the second are replaced.\<close>

definition two_lines :: text_document where
  "two_lines = snd (getLineOffsets (create ''a.html'' ''html'' 1 (utf16 ''one'' @ [CR, LF] @ utf16 ''two'')))"

definition joining :: text_change where
  "joining = \<lparr>new_text = Some (utf16 ''x'' @ [LF] @ utf16 ''y'' @ [LF]),
     new_range = Some \<lparr>range_start = \<lparr>line = 1, character = 1\<rparr>, range_end = \<lparr>line = 0, character = 2\<rparr>\<rparr>,
     rangeLength = NoLength\<rparr>"

theorem update_refines_text_witness:
  "fst (getLineOffsets (snd (update [Some joining, None] 2 two_lines))) = [0, 4, 6]
   \<and> version (snd (update [Some joining, None] 2 two_lines)) = 1"
proof -
  have p: "plain_update [Some joining, None] (content two_lines)
      = (Some UnknownChange, utf16 ''onx'' @ [LF] @ utf16 ''y'' @ [LF] @ utf16 ''wo'')"
    by code_simp
  have "table_ok two_lines" "changes_fit [Some joining, None] (content two_lines)"
    by code_simp+
  moreover have "version two_lines = 1" by code_simp
  ultimately show ?thesis
    using update_refines_text [of two_lines "[Some joining, None]" 2]
    unfolding p by (auto simp: rn_def utf16_def Let_def split: prod.splits)
qed

section \<open>Positions and offsets agree\<close>

lemma dt_offset_in:
  "offset_in (dt_getLineOffsets s) (int (length s)) p = offset_in (rn s True 0) (int (length s)) p"
  by (cases "s = []") (auto simp: dt_getLineOffsets_rn offset_in_def rn_def Let_def)

lemma dt_position_in:
  "position_in (dt_getLineOffsets s) (int (length s)) n = position_in (rn s True 0) (int (length s)) n"
proof (cases "s = []")
  case True
  then have "rn s True 0 = [0]" by (simp add: rn_def)
  moreover have "bsearch [0] 0 0 1 = 1" by (simp add: bsearch.simps Let_def)
  ultimately show ?thesis using True
    by (simp add: dt_getLineOffsets_rn position_in_def Let_def min_def max_def)
qed (simp add: dt_getLineOffsets_rn)

lemma takeWhile_sorted:
  fixes k :: int
  shows "sorted xs \<Longrightarrow> takeWhile (\<lambda>x. x \<le> k) xs = filter (\<lambda>x. x \<le> k) xs"
proof (induction xs)
  case (Cons a xs)
  then have "filter (\<lambda>x. x \<le> k) xs = []" if "\<not> a \<le> k"
    using that by (auto simp: filter_empty_conv)
  with Cons show ?case by auto
qed simp

lemma position_line:
  "line (position_in (rn s True 0) (int (length s)) n) =
   int (length (filter (\<lambda>x. x \<le> max (min n (int (length s))) 0) (eols 0 s)))"
proof -
  let ?ls = "rn s True 0" and ?k = "max (min n (int (length s))) 0"
  have "takeWhile (\<lambda>x. x \<le> ?k) ?ls = filter (\<lambda>x. x \<le> ?k) ?ls"
    by (rule takeWhile_sorted) (rule rn_sorted(1))
  then have "bsearch ?ls ?k 0 (length ?ls) = length (filter (\<lambda>x. x \<le> ?k) ?ls)"
    by (simp add: bsearch_count rn_sorted)
  moreover have "0 \<le> ?k" by simp
  ultimately show ?thesis
    by (simp add: position_in_def Let_def rn_def)
qed

text \<open>
  C33. The position of an offset leads back to the offset, cut to the text. Its line is the number of
  line ends up to there, a pair of carriage return and line feed counted once, so it is a line of
  the document. Both classes of documents give the same position and the same offset, although the
  older one has no line for an empty text.
\<close>

theorem offset_roundtrip:
  assumes "table_ok d"
  shows "let (p, d1) = positionAt n d; (k, d2) = offsetAt p d1; (m, d3) = lineCount d2
     in k = max (min n (int (length (content d)))) 0
        \<and> line p = int (length (filter (\<lambda>x. x \<le> k) (rn (content d) False 0)))
        \<and> line p < int m \<and> 0 \<le> character p
        \<and> content d3 = content d \<and> table_ok d3
        \<and> dt_positionAt n (content d) = p \<and> dt_offsetAt p (content d) = k
        \<and> dt_lineCount (content d) = (if content d = [] then 0 else m)"
proof -
  let ?s = "content d" and ?ls = "rn (content d) True 0" and ?n = "int (length (content d))"
  let ?p = "position_in ?ls ?n n" and ?k = "max (min n (int (length (content d)))) 0"
  have k: "offset_in ?ls ?n ?p = ?k"
    by (rule offset_of_position) (use rn_facts rn_sorted in auto)
  have ok: "table_ok (d\<lparr>lineOffsets := Some ?ls\<rparr>)" by (simp add: table_ok_def)
  have "length (filter (\<lambda>x. x \<le> ?k) (eols 0 ?s)) < length ?ls"
    by (simp add: rn_def le_imp_less_Suc)
  moreover have "0 \<le> character ?p"
  proof -
    have "hd ?ls \<le> ?k" by (simp add: rn_facts)
    from bsearch_line(2) [OF rn_sorted(2) rn_facts(1) this refl] show ?thesis
      by (simp add: position_in_def Let_def rn_facts)
  qed
  moreover have "dt_positionAt n ?s = ?p" "dt_offsetAt ?p ?s = ?k"
    by (simp_all only: dt_positionAt_def dt_position_in dt_offsetAt_def dt_offset_in k)
  moreover have "dt_lineCount ?s = (if ?s = [] then 0 else length ?ls)"
    by (simp add: dt_lineCount_def dt_getLineOffsets_rn)
  moreover have "rn ?s False 0 = eols 0 ?s" by (simp add: rn_def)
  ultimately show ?thesis
    using k ok by (simp add: positionAt_def offsetAt_def lineCount_def getLineOffsets_ok [OF assms]
      getLineOffsets_ok [OF ok] position_line)
qed

theorem offset_roundtrip_witness:
  "let (p, d1) = positionAt 7 two_lines; (k, d2) = offsetAt p d1; (m, d3) = lineCount d2
   in k = 7 \<and> m = 2 \<and> p = \<lparr>line = 1, character = 2\<rparr> \<and> dt_positionAt 7 (content two_lines) = p"
proof -
  have "table_ok two_lines" and "length (content two_lines) = 8" by code_simp+
  moreover have "fst (positionAt 7 two_lines) = \<lparr>line = 1, character = 2\<rparr>"
    "fst (lineCount (snd (offsetAt (fst (positionAt 7 two_lines)) (snd (positionAt 7 two_lines))))) = 2"
    by code_simp+
  ultimately show ?thesis
    using offset_roundtrip [of two_lines 7] by (auto simp: Let_def split: prod.splits)
qed

section \<open>Applying a list of edits\<close>

record text_edit =
  edit_range :: text_range
  newText :: code_units

definition Nn :: "text_edit \<Rightarrow> text_edit" where
  "Nn e = e\<lparr>edit_range := an (edit_range e)\<rparr>"

text \<open>\<open>pt\<close>: a merge sort with a comparison that returns a number.\<close>

fun merge_by :: "('a \<Rightarrow> 'a \<Rightarrow> int) \<Rightarrow> 'a list \<Rightarrow> 'a list \<Rightarrow> 'a list" where
  "merge_by n (x # xs) (y # ys) =
     (if n x y \<le> 0 then x # merge_by n xs (y # ys) else y # merge_by n (x # xs) ys)"
| "merge_by n xs [] = xs"
| "merge_by n [] ys = ys"

fun pt :: "('a \<Rightarrow> 'a \<Rightarrow> int) \<Rightarrow> 'a list \<Rightarrow> 'a list" where
  "pt n xs = (if length xs \<le> 1 then xs
     else merge_by n (pt n (take (length xs div 2) xs)) (pt n (drop (length xs div 2) xs)))"

declare pt.simps [simp del]

definition compare_start :: "text_edit \<Rightarrow> text_edit \<Rightarrow> int" where
  "compare_start l h =
     (let p = line (range_start (edit_range l)) - line (range_start (edit_range h))
      in if p = 0 then character (range_start (edit_range l)) - character (range_start (edit_range h))
         else p)"

text \<open>
  \<open>ve.applyEdits\<close> goes from the first edit to the last and collects the parts of the new text;
  \<open>None\<close> is \<open>Error("Overlapping edit")\<close>.
\<close>

fun weave :: "code_units \<Rightarrow> text_edit list \<Rightarrow> int \<Rightarrow> code_units \<Rightarrow> text_document \<Rightarrow> code_units option \<times> text_document" where
  "weave u [] i s d = (Some (s @ drop (nat i) u), d)"
| "weave u (l # ls) i s d =
     (let (h, d1) = offsetAt (range_start (edit_range l)) d in
      if h < i then (None, d1)
      else let s' = (if h > i then s @ substring u i h else s) @ newText l;
               (e, d2) = offsetAt (range_end (edit_range l)) d1
           in weave u ls e s' d2)"

definition applyEdits :: "text_edit list \<Rightarrow> text_document \<Rightarrow> code_units option \<times> text_document" where
  "applyEdits es d = (let (u, d1) = getText None d
     in weave u (pt compare_start (map Nn es)) 0 [] d1)"

text \<open>\<open>nn.applyEdits\<close> goes from the last edit to the first and cuts the text each time.\<close>

fun cut_back :: "code_units \<Rightarrow> text_edit list \<Rightarrow> int \<Rightarrow> code_units \<Rightarrow> code_units option" where
  "cut_back r [] s c = Some c"
| "cut_back r (h # hs) s c =
     (let p = dt_offsetAt (range_start (edit_range h)) r; m = dt_offsetAt (range_end (edit_range h)) r
      in if m \<le> s then cut_back r hs p (substring c 0 p @ newText h @ substring c m (int (length c)))
         else None)"

definition nn_applyEdits :: "text_edit list \<Rightarrow> code_units \<Rightarrow> code_units option" where
  "nn_applyEdits es r = cut_back r (rev (pt compare_start es)) (int (length r)) r"

subsection \<open>The sort\<close>

definition start_key :: "text_edit \<Rightarrow> int \<times> int" where
  "start_key e = (line (range_start (edit_range e)), character (range_start (edit_range e)))"

lemma compare_start_key: "compare_start l h \<le> 0 \<longleftrightarrow> start_key l \<le> start_key h"
  by (auto simp: compare_start_def start_key_def Let_def less_eq_prod_def)

lemma mset_merge_by: "mset (merge_by n xs ys) = mset xs + mset ys"
  by (induction n xs ys rule: merge_by.induct) auto

lemma pt_unfold: "1 < length xs \<Longrightarrow>
    pt n xs = merge_by n (pt n (take (length xs div 2) xs)) (pt n (drop (length xs div 2) xs))"
  by (subst pt.simps) simp

lemma pt_short: "length xs \<le> 1 \<Longrightarrow> pt n xs = xs"
  by (subst pt.simps) simp

lemma mset_pt: "mset (pt n xs) = mset xs"
proof (induction n xs rule: pt.induct)
  case (1 n xs)
  show ?case
  proof (cases "length xs \<le> 1")
    case False
    then have "mset (pt n xs) = mset (take (length xs div 2) xs) + mset (drop (length xs div 2) xs)"
      using 1 by (simp add: pt_unfold mset_merge_by)
    then show ?thesis by (metis append_take_drop_id mset_append)
  qed (simp add: pt_short)
qed

lemma merge_by_sorted:
  fixes f :: "'a \<Rightarrow> 'b::linorder"
  shows "(\<And>x y. n x y \<le> 0 \<longleftrightarrow> f x \<le> f y) \<Longrightarrow> sorted (map f xs) \<Longrightarrow> sorted (map f ys) \<Longrightarrow>
    sorted (map f (merge_by n xs ys))"
proof (induction n xs ys rule: merge_by.induct)
  case (1 n x xs y ys)
  have s: "set (merge_by n xs zs) = set xs \<union> set zs" for xs zs :: "'a list"
    by (metis mset_merge_by set_mset_mset set_mset_union)
  show ?case
  proof (cases "f x \<le> f y")
    case True
    then have "n x y \<le> 0" using 1(3) by simp
    then show ?thesis using 1(1) [OF _ 1(3)] 1(4,5) True by (auto simp: s)
  next
    case False
    then have "\<not> n x y \<le> 0" using 1(3) by simp
    then show ?thesis using 1(2) [OF _ 1(3)] 1(4,5) False by (auto simp: s)
  qed
qed simp_all

lemma merge_by_stable:
  fixes f :: "'a \<Rightarrow> 'b::linorder"
  shows "(\<And>x y. n x y \<le> 0 \<longleftrightarrow> f x \<le> f y) \<Longrightarrow> sorted (map f xs) \<Longrightarrow>
    filter (\<lambda>x. k = f x) (merge_by n xs ys) = filter (\<lambda>x. k = f x) xs @ filter (\<lambda>x. k = f x) ys"
proof (induction n xs ys rule: merge_by.induct)
  case (1 n x xs y ys)
  show ?case
  proof (cases "f x \<le> f y")
    case True
    then have "n x y \<le> 0" using 1(3) by simp
    then show ?thesis using 1(1) [OF _ 1(3)] 1(4) by auto
  next
    case False
    then have "\<not> n x y \<le> 0" using 1(3) by simp
    moreover have "filter (\<lambda>z. f y = f z) (x # xs) = []"
      using False 1(4) by (auto simp: filter_empty_conv)
    ultimately show ?thesis using 1(2) [OF _ 1(3)] 1(4) by auto
  qed
qed simp_all

lemma pt_sort_key:
  fixes f :: "'a \<Rightarrow> 'b::linorder"
  assumes "\<And>x y. n x y \<le> 0 \<longleftrightarrow> f x \<le> f y"
  shows "pt n xs = sort_key f xs"
proof -
  have "sorted (map f (pt n xs)) \<and> (\<forall>k. filter (\<lambda>x. k = f x) (pt n xs) = filter (\<lambda>x. k = f x) xs)"
  proof (induction "length xs" arbitrary: xs rule: less_induct)
    case less
    let ?a = "take (length xs div 2) xs" and ?b = "drop (length xs div 2) xs"
    show ?case
    proof (cases "length xs \<le> 1")
      case True
      then show ?thesis by (cases xs) (auto simp: pt_short)
    next
      case False
      then have "length ?a < length xs" "length ?b < length xs" by auto
      note ih = less [OF this(1)] less [OF this(2)]
      have "sorted (map f (merge_by n (pt n ?a) (pt n ?b)))"
        using merge_by_sorted [of n f, OF assms] ih by blast
      moreover have "filter (\<lambda>x. k = f x) (merge_by n (pt n ?a) (pt n ?b))
          = filter (\<lambda>x. k = f x) (?a @ ?b)" for k
        using merge_by_stable [of n f, OF assms] ih by (simp del: append_take_drop_id)
      ultimately show ?thesis using False by (simp add: pt_unfold)
    qed
  qed
  then show ?thesis
    by (intro properties_for_sort_key [symmetric]) (auto simp: mset_pt)
qed

subsection \<open>Both functions make the edits one after the other, the last first\<close>

text \<open>The offsets of an edit in the text that is edited, and the edit at these offsets.\<close>

definition from_offset :: "code_units \<Rightarrow> text_edit \<Rightarrow> int" where
  "from_offset s e = offset_in (rn s True 0) (int (length s)) (range_start (edit_range e))"

definition to_offset :: "code_units \<Rightarrow> text_edit \<Rightarrow> int" where
  "to_offset s e = offset_in (rn s True 0) (int (length s)) (range_end (edit_range e))"

definition edit_at :: "code_units \<Rightarrow> text_edit \<Rightarrow> code_units \<Rightarrow> code_units" where
  "edit_at s e c = take (nat (from_offset s e)) c @ newText e @ drop (nat (to_offset s e)) c"

abbreviation apart_edits :: "code_units \<Rightarrow> text_edit list \<Rightarrow> bool" where
  "apart_edits s es \<equiv> successively (\<lambda>a b. to_offset s a \<le> from_offset s b) es"

lemma offset_nonneg: "0 \<le> from_offset s e" "0 \<le> to_offset s e"
    "to_offset s e \<le> int (length s)" "from_offset s e \<le> int (length s)"
  by (simp_all add: from_offset_def to_offset_def offset_bounds)

lemma cut_back_edits:
  "cut_back r (rev es) s c =
     (if apart_edits r es \<and> (es = [] \<or> to_offset r (last es) \<le> s)
      then Some (foldr (edit_at r) es c) else None)"
proof (induction es arbitrary: s c rule: rev_induct)
  case (snoc x xs)
  have "substring c (to_offset r x) (int (length c)) = drop (nat (to_offset r x)) c"
    using offset_nonneg(2) [of r x]
    by (cases "to_offset r x \<le> int (length c)")
      (simp_all add: substring_cut(2), simp add: substring_def Let_def)
  then show ?case
    using snoc offset_nonneg(1) [of r x]
    by (auto simp: successively_append_iff edit_at_def [of r x] substring_cut(1) dt_offsetAt_def
        dt_offset_in Let_def simp flip: from_offset_def to_offset_def)
qed simp

text \<open>A range whose ends are in order has its offsets in order.\<close>

lemma offset_mono:
  assumes "line p \<le> line q" "line p = line q \<Longrightarrow> character p \<le> character q"
  shows "offset_in (rn s True 0) (int (length s)) p \<le> offset_in (rn s True 0) (int (length s)) q"
proof -
  let ?ls = "rn s True 0" and ?n = "int (length s)"
  have le_len: "?ls ! k \<le> ?n" if "k < length ?ls" for k
    using rn_facts(3) [of s] that by (simp add: list_all_length)
  have mono: "?ls ! j \<le> ?ls ! k" if "j \<le> k" "k < length ?ls" for j k
    using sorted_nth_mono [OF rn_sorted(1) that] .
  consider "line q \<ge> int (length ?ls)" | "line p < 0" | "line p = line q"
    | "0 \<le> line p" "line p < line q" "line q < int (length ?ls)"
    using assms(1) by linarith
  then show ?thesis
  proof cases
    case 1
    then have "offset_in ?ls ?n q = ?n" by (simp add: offset_in_def)
    then show ?thesis using offset_bounds(2) [of s p] by simp
  next
    case 2
    then have "offset_in ?ls ?n p = 0" by (simp add: offset_in_def)
    then show ?thesis using offset_bounds(1) [of s q] by simp
  next
    case 3
    have "max (min (a + character p) b) a \<le> max (min (a + character q) b) a" for a b :: int
      using assms(2) 3 by (auto simp: max_def min_def)
    then show ?thesis using 3 by (auto simp: offset_in_def Let_def)
  next
    case 4
    have "offset_in ?ls ?n p \<le> ?ls ! nat (line p + 1)"
      using 4 mono [of "nat (line p)" "nat (line p + 1)"]
      by (auto simp: offset_in_def Let_def)
    also have "\<dots> \<le> ?ls ! nat (line q)" using 4 by (intro mono) auto
    also have "\<dots> \<le> offset_in ?ls ?n q" using 4 by (auto simp: offset_in_def Let_def)
    finally show ?thesis .
  qed
qed

lemma offsets_ordered: "from_offset s (Nn e) \<le> to_offset s (Nn e)"
  unfolding from_offset_def to_offset_def Nn_def
  by (rule offset_mono) (simp_all add: an_ordered)

lemma edits_keep_front:
  assumes "apart_edits s es" "list_all (\<lambda>e. from_offset s e \<le> to_offset s e) es"
    and "es \<noteq> [] \<Longrightarrow> i \<le> from_offset s (hd es)" "i \<le> int (length s)"
  shows "take (nat i) (foldr (edit_at s) es s) = take (nat i) s"
    and "i \<le> int (length (foldr (edit_at s) es s))"
proof -
  have "take (nat i) (foldr (edit_at s) es s) = take (nat i) s
      \<and> i \<le> int (length (foldr (edit_at s) es s))"
    using assms
  proof (induction es arbitrary: i)
    case (Cons e es)
    let ?c = "foldr (edit_at s) es s"
    have i: "i \<le> from_offset s e" "from_offset s e \<le> to_offset s e" using Cons.prems by simp_all
    have "es \<noteq> [] \<Longrightarrow> to_offset s e \<le> from_offset s (hd es)"
      using Cons.prems(1) by (cases es) auto
    then have "take (nat (to_offset s e)) ?c = take (nat (to_offset s e)) s"
      and len: "to_offset s e \<le> int (length ?c)"
      using Cons.IH [of "to_offset s e"] Cons.prems(1,2) offset_nonneg(3) [of s e]
      by (cases es; simp)+
    then have "take (nat i) ?c = take (nat i) s"
      using i by (metis min.absorb1 nat_mono order_trans take_take)
    moreover have "nat i \<le> length ?c" "nat i \<le> nat (from_offset s e)" using i len by auto
    ultimately show ?case
      using i len by (auto simp: edit_at_def [of s e ?c] min_def)
  qed simp
  then show "take (nat i) (foldr (edit_at s) es s) = take (nat i) s"
    and "i \<le> int (length (foldr (edit_at s) es s))" by simp_all
qed

lemma weave_edits:
  "table_ok d \<Longrightarrow> content d = s \<Longrightarrow> list_all (\<lambda>e. from_offset s e \<le> to_offset s e) es \<Longrightarrow> 0 \<le> i \<Longrightarrow>
   fst (weave s es i acc d) =
     (if apart_edits s es \<and> (es = [] \<or> i \<le> from_offset s (hd es))
      then Some (acc @ drop (nat i) (foldr (edit_at s) es s)) else None)"
proof (induction es arbitrary: i acc d)
  case (Cons e es)
  let ?h = "from_offset s e" and ?m = "to_offset s e" and ?c = "foldr (edit_at s) es s"
  let ?d = "d\<lparr>lineOffsets := Some (rn s True 0)\<rparr>"
  have ok: "table_ok ?d" using Cons.prems(2) by (simp add: table_ok_def)
  have o: "offsetAt (range_start (edit_range e)) d = (?h, ?d)"
      "offsetAt (range_end (edit_range e)) ?d = (?m, ?d)"
    using offsetAt_ok [OF Cons.prems(1)] offsetAt_ok [OF ok] Cons.prems(2)
    by (simp_all add: from_offset_def to_offset_def)
  have apart_iff: "apart_edits s (e # es) \<longleftrightarrow>
      apart_edits s es \<and> (es = [] \<or> ?m \<le> from_offset s (hd es))"
    by (cases es) auto
  show ?case
  proof (cases "?h < i")
    case True
    then show ?thesis by (simp add: o)
  next
    case False
    have sub: "(if ?h > i then acc @ substring s i ?h else acc) = acc @ drop (nat i) (take (nat ?h) s)"
      using False Cons.prems(4) by (auto simp: substring_def Let_def drop_take)
    have step: "fst (weave s (e # es) i acc d)
        = fst (weave s es ?m ((acc @ drop (nat i) (take (nat ?h) s)) @ newText e) ?d)"
      using False by (simp add: o sub)
    have "fst (weave s es ?m ((acc @ drop (nat i) (take (nat ?h) s)) @ newText e) ?d)
        = (if apart_edits s (e # es)
           then Some ((acc @ drop (nat i) (take (nat ?h) s)) @ newText e @ drop (nat ?m) ?c) else None)"
      using Cons.IH [OF ok, of ?m] Cons.prems(2,3) apart_iff offset_nonneg(2) [of s e] by simp
    moreover have "drop (nat i) (edit_at s e ?c)
        = drop (nat i) (take (nat ?h) s) @ newText e @ drop (nat ?m) ?c"
      if a: "apart_edits s (e # es)"
    proof -
      have m: "es \<noteq> [] \<Longrightarrow> ?m \<le> from_offset s (hd es)" "apart_edits s es"
        using a by (cases es; simp)+
      have h: "?h \<le> ?m" using Cons.prems(3) by simp
      have hd: "es \<noteq> [] \<Longrightarrow> ?h \<le> from_offset s (hd es)" by (rule order_trans [OF h m(1)])
      have f: "take (nat ?h) ?c = take (nat ?h) s" "?h \<le> int (length ?c)"
        using edits_keep_front [OF m(2) _ hd] Cons.prems(3) offset_nonneg(4) [of s e] by simp_all
      have "nat i \<le> length (take (nat ?h) s)"
        using False offset_nonneg(4) [of s e] by simp
      then show ?thesis by (simp add: edit_at_def [of s e ?c] f(1))
    qed
    ultimately show ?thesis using False unfolding step by simp
  qed
qed simp

lemma applyEdits_edits:
  assumes "table_ok d"
  shows "let s = content d; xs = sort_key start_key (map Nn es)
     in fst (applyEdits es d) = (if apart_edits s xs then Some (foldr (edit_at s) xs s) else None)"
proof -
  let ?s = "content d" and ?xs = "sort_key start_key (map Nn es)"
  have pt: "pt compare_start (map Nn es) = ?xs"
    by (rule pt_sort_key) (rule compare_start_key)
  have ord: "list_all (\<lambda>e. from_offset ?s e \<le> to_offset ?s e) ?xs"
    by (auto simp: list_all_iff offsets_ordered)
  show ?thesis
    using weave_edits [OF assms refl ord order_refl] offset_nonneg(1)
    by (simp add: applyEdits_def getText_def pt Let_def)
qed

text \<open>Edits that are in order already, and do not overlap.\<close>

lemma applyEdits_in_order:
  assumes "table_ok d" "map Nn xs = xs" "sort_key start_key xs = xs" "apart_edits (content d) xs"
  shows "fst (applyEdits xs d) = Some (foldr (edit_at (content d)) xs (content d))"
  using applyEdits_edits [OF assms(1), of xs] assms(2-4) by (simp add: Let_def)

text \<open>
  C34. The two functions that apply edits agree, one going forward through the text, the other
  backward: the result is that of making the edits one after the other, the last first, in the
  order of their starts, edits that start together in the order they are given; and both report an
  error exactly when an edit ends behind the start of the next. The older function expects ranges
  in order, the newer one orders them.
\<close>

theorem edits_agree:
  assumes "table_ok d"
  shows "let s = content d; xs = sort_key start_key (map Nn es)
     in fst (applyEdits es d) = (if apart_edits s xs then Some (foldr (edit_at s) xs s) else None)
        \<and> nn_applyEdits (map Nn es) s = fst (applyEdits es d)"
proof -
  have pt: "pt compare_start (map Nn es) = sort_key start_key (map Nn es)"
    by (rule pt_sort_key) (rule compare_start_key)
  show ?thesis
    using applyEdits_edits [OF assms, of es] offset_nonneg(3)
    by (simp add: nn_applyEdits_def pt cut_back_edits Let_def)
qed

definition an_edit :: "int \<Rightarrow> int \<Rightarrow> int \<Rightarrow> code_units \<Rightarrow> text_edit" where
  "an_edit k a b t = \<lparr>edit_range = \<lparr>range_start = \<lparr>line = k, character = a\<rparr>,
     range_end = \<lparr>line = k, character = b\<rparr>\<rparr>, newText = t\<rparr>"

theorem edits_agree_witness:
  "fst (applyEdits [an_edit 1 2 1 (utf16 ''W''), an_edit 0 3 3 (utf16 ''!''), an_edit 0 3 3 (utf16 ''?'')] two_lines)
     = Some (utf16 ''one!?'' @ [CR, LF] @ utf16 ''tWo'')
   \<and> nn_applyEdits [an_edit 0 0 2 (utf16 ''a''), an_edit 0 1 3 (utf16 ''b'')] (content two_lines) = None"
proof -
  have t: "table_ok two_lines" by code_simp
  have "fst (applyEdits [an_edit 1 2 1 (utf16 ''W''), an_edit 0 3 3 (utf16 ''!''), an_edit 0 3 3 (utf16 ''?'')] two_lines)
     = Some (utf16 ''one!?'' @ [CR, LF] @ utf16 ''tWo'')" by code_simp
  moreover have "map Nn [an_edit 0 0 2 (utf16 ''a''), an_edit 0 1 3 (utf16 ''b'')]
      = [an_edit 0 0 2 (utf16 ''a''), an_edit 0 1 3 (utf16 ''b'')]"
    "fst (applyEdits [an_edit 0 0 2 (utf16 ''a''), an_edit 0 1 3 (utf16 ''b'')] two_lines) = None"
    by code_simp+
  ultimately show ?thesis
    using edits_agree [OF t, of "[an_edit 0 0 2 (utf16 ''a''), an_edit 0 1 3 (utf16 ''b'')]"] by (simp add: Let_def)
qed

section \<open>Where the table goes wrong\<close>

text \<open>
  Outside what \<open>changes_fit\<close> asks for, the table and the text part: when a position lies behind the
  end of its line, which the protocol reads as the end of the line, and when a change brings a
  carriage return before a line feed. A change behind the last line leaves the table with holes.
\<close>

theorem table_goes_wrong:
  "let d = snd (getLineOffsets (create [] [] 1 (utf16 ''a'' @ [LF] @ utf16 ''b'')));
       at = (\<lambda>k j t. Some \<lparr>new_text = Some t, new_range = Some (edit_range (an_edit k j j [])),
               rangeLength = NoLength\<rparr>);
       e = snd (update [at 0 99 (utf16 ''x'')] 2 d); f = snd (update [at 0 1 [CR]] 2 d)
   in content e = utf16 ''a'' @ [LF] @ utf16 ''xb'' \<and> lineOffsets e = Some [0, 3] \<and> rn (content e) True 0 = [0, 2]
      \<and> content f = utf16 ''a'' @ [CR, LF] @ utf16 ''b'' \<and> lineOffsets f = Some [0, 2, 3]
      \<and> rn (content f) True 0 = [0, 3]
      \<and> fst (update [Some \<lparr>new_text = Some [LF],
             new_range = Some \<lparr>range_start = \<lparr>line = 5, character = 0\<rparr>,
               range_end = \<lparr>line = 6, character = 0\<rparr>\<rparr>, rangeLength = NoLength\<rparr>] 2 d)
          = Some SparseTable"
  by code_simp

end
