(* ===== verification/JsonScanner.thy ===== *)
theory JsonScanner
  imports TextDocument
begin

text \<open>
  The scanner of the JSON language service (\<open>monaco/vs/language/json/jsonWorker.js\<close>, lines 8 to 10,
  function \<open>Se\<close>, and the enumerations of line 22): a text is cut into tokens, white space and
  comments among them, and errors are noted with the token. The minified names of the inner
  functions stand beside the definitions; the names here are those of the interface the scanner
  returns. Texts are lists of UTF-16 code units, so that every escape has its value.
\<close>

section \<open>Tokens, errors, characters\<close>

datatype syntax_kind =
    OpenBraceToken | CloseBraceToken | OpenBracketToken | CloseBracketToken | CommaToken
  | ColonToken | NullKeyword | TrueKeyword | FalseKeyword | StringLiteral | NumericLiteral
  | LineCommentTrivia | BlockCommentTrivia | LineBreakTrivia | Trivia | Unknown | EOF

datatype scan_error =
    NoScanError | UnexpectedEndOfComment | UnexpectedEndOfString | UnexpectedEndOfNumber
  | InvalidUnicode | InvalidEscapeCharacter | InvalidCharacter

definition isWhiteSpace :: "nat \<Rightarrow> bool" where   \<comment> \<open>\<open>ut\<close>\<close>
  "isWhiteSpace c = (c = 32 \<or> c = 9)"

definition isLineBreak :: "nat \<Rightarrow> bool" where   \<comment> \<open>\<open>Ie\<close>\<close>
  "isLineBreak c = (c = LF \<or> c = CR)"

definition isDigit :: "nat \<Rightarrow> bool" where   \<comment> \<open>\<open>Ae\<close>\<close>
  "isDigit c = (48 \<le> c \<and> c \<le> 57)"

definition isUnknownContentCharacter :: "nat \<Rightarrow> bool" where   \<comment> \<open>\<open>k\<close>\<close>
  "isUnknownContentCharacter c =
     (if isWhiteSpace c \<or> isLineBreak c then False
      else c \<notin> {125, 93, 123, 91, 34, 58, 44, 47})"

text \<open>\<open>charCodeAt\<close> is \<open>NaN\<close> behind the text; no comparison with it holds.\<close>

definition char_is :: "(nat \<Rightarrow> bool) \<Rightarrow> code_units \<Rightarrow> nat \<Rightarrow> bool" where
  "char_is P e n = (n < length e \<and> P (e ! n))"

definition slice :: "code_units \<Rightarrow> nat \<Rightarrow> nat \<Rightarrow> code_units" where
  "slice e i j = take (j - i) (drop i e)"

text \<open>The loops \<open>for (; n < r && P(e.charCodeAt(n));) n++\<close>.\<close>

definition skip :: "(nat \<Rightarrow> bool) \<Rightarrow> code_units \<Rightarrow> nat \<Rightarrow> nat" where
  "skip P e n = n + length (takeWhile P (drop n e))"

section \<open>Numbers and strings\<close>

definition hex_digit :: "nat \<Rightarrow> nat option" where
  "hex_digit c = (if 48 \<le> c \<and> c \<le> 57 then Some (c - 48)
     else if 65 \<le> c \<and> c \<le> 70 then Some (c - 65 + 10)
     else if 97 \<le> c \<and> c \<le> 102 then Some (c - 97 + 10) else None)"

text \<open>\<open>d\<close>: at most \<open>k\<close> hexadecimal digits; \<open>None\<close> is -1, when there are fewer.\<close>

fun scanHexDigits :: "code_units \<Rightarrow> nat \<Rightarrow> nat \<Rightarrow> nat \<Rightarrow> nat option \<times> nat" where
  "scanHexDigits e n 0 v = (Some v, n)"
| "scanHexDigits e n (Suc k) v =
     (case (if n < length e then hex_digit (e ! n) else None) of
        Some h \<Rightarrow> scanHexDigits e (n + 1) k (v * 16 + h)
      | None \<Rightarrow> (None, n))"

text \<open>\<open>p\<close>: the value, the position behind the number, and the error.\<close>

definition scanNumber :: "code_units \<Rightarrow> nat \<Rightarrow> code_units \<times> nat \<times> scan_error" where
  "scanNumber e g =
     (let n1 = (if char_is (\<lambda>c. c = 48) e g then g + 1 else skip isDigit e (g + 1)) in
      if char_is (\<lambda>c. c = 46) e n1 \<and> \<not> char_is isDigit e (n1 + 1)
      then (slice e g (n1 + 1), n1 + 1, UnexpectedEndOfNumber)
      else
        let n3 = (if char_is (\<lambda>c. c = 46) e n1 then skip isDigit e (n1 + 2) else n1) in
        if char_is (\<lambda>c. c = 69 \<or> c = 101) e n3
        then let n5 = (if char_is (\<lambda>c. c = 43 \<or> c = 45) e (n3 + 1) then n3 + 2 else n3 + 1) in
             if char_is isDigit e n5
             then let n6 = skip isDigit e (n5 + 1) in (slice e g n6, n6, NoScanError)
             else (slice e g n3, n5, UnexpectedEndOfNumber)
        else (slice e g n3, n3, NoScanError))"

definition escaped :: "nat \<Rightarrow> nat option" where
  "escaped c = (if c = 34 then Some 34 else if c = 92 then Some 92 else if c = 47 then Some 47
     else if c = 98 then Some 8 else if c = 102 then Some 12 else if c = 110 then Some LF
     else if c = 114 then Some CR else if c = 116 then Some 9 else None)"

lemma scanHexDigits_forward: "n \<le> snd (scanHexDigits e n k v)"
  by (induction k arbitrary: n v) (auto split: option.split intro: Suc_leD)

text \<open>\<open>m\<close>: \<open>g\<close> is the value so far, \<open>b\<close> (\<open>S\<close> in the code) where the part begins that is not yet in it.\<close>

function scanString :: "code_units \<Rightarrow> nat \<Rightarrow> nat \<Rightarrow> code_units \<Rightarrow> scan_error \<Rightarrow> code_units \<times> nat \<times> scan_error" where
  "scanString e n b g f =
     (if n \<ge> length e then (g @ slice e b n, n, UnexpectedEndOfString)
      else let x = e ! n in
        if x = 34 then (g @ slice e b n, n + 1, f)
        else if x = 92 then
          let g' = g @ slice e b n in
          if n + 1 \<ge> length e then (g', n + 1, UnexpectedEndOfString)
          else let c = e ! (n + 1) in
            if c = 117 then
              (case scanHexDigits e (n + 2) 4 0 of
                 (Some v, n') \<Rightarrow> scanString e n' n' (g' @ [v]) f
               | (None, n') \<Rightarrow> scanString e n' n' g' InvalidUnicode)
            else (case escaped c of
                    Some v \<Rightarrow> scanString e (n + 2) (n + 2) (g' @ [v]) f
                  | None \<Rightarrow> scanString e (n + 2) (n + 2) g' InvalidEscapeCharacter)
        else if x \<le> 31 then
          (if isLineBreak x then (g @ slice e b n, n, UnexpectedEndOfString)
           else scanString e (n + 1) b g InvalidCharacter)
        else scanString e (n + 1) b g f)"
  by pat_completeness auto
termination
proof (relation "measure (\<lambda>(e, n, b, g, f). length e - n)", goal_cases)
  case (2 e n b g f)
  then show ?case
    using scanHexDigits_forward [of "n + 2" e 4 0] by (cases "scanHexDigits e (n + 2) 4 0") auto
next
  case (3 e n b g f)
  then show ?case
    using scanHexDigits_forward [of "n + 2" e 4 0] by (cases "scanHexDigits e (n + 2) 4 0") auto
qed auto

declare scanString.simps [simp del]

section \<open>The scanner\<close>

record scanner =
  source :: code_units        \<comment> \<open>\<open>e\<close>\<close>
  pos :: nat                  \<comment> \<open>\<open>n\<close>\<close>
  tokenValue :: code_units    \<comment> \<open>\<open>i\<close>\<close>
  tokenOffset :: nat          \<comment> \<open>\<open>s\<close>\<close>
  token :: syntax_kind        \<comment> \<open>\<open>o\<close>\<close>
  lineNumber :: nat           \<comment> \<open>\<open>c\<close>\<close>
  lineStart :: nat            \<comment> \<open>\<open>a\<close>\<close>
  tokenLine :: nat            \<comment> \<open>\<open>l\<close>\<close>
  tokenLineStart :: nat       \<comment> \<open>\<open>u\<close>\<close>
  tokenError :: scan_error    \<comment> \<open>\<open>f\<close>\<close>

definition createScanner :: "code_units \<Rightarrow> scanner" where
  "createScanner e = \<lparr>source = e, pos = 0, tokenValue = [], tokenOffset = 0, token = Unknown,
     lineNumber = 0, lineStart = 0, tokenLine = 0, tokenLineStart = 0, tokenError = NoScanError\<rparr>"

definition setPosition :: "nat \<Rightarrow> scanner \<Rightarrow> scanner" where   \<comment> \<open>\<open>h\<close>\<close>
  "setPosition g st = st\<lparr>pos := g, tokenValue := [], tokenOffset := 0, token := Unknown,
     tokenError := NoScanError\<rparr>"

definition getTokenLength :: "scanner \<Rightarrow> nat" where
  "getTokenLength st = pos st - tokenOffset st"

definition getTokenStartCharacter :: "scanner \<Rightarrow> nat" where
  "getTokenStartCharacter st = tokenOffset st - tokenLineStart st"

text \<open>A token of a given kind that ends before \<open>n\<close>.\<close>

definition accept :: "nat \<Rightarrow> code_units \<Rightarrow> syntax_kind \<Rightarrow> scanner \<Rightarrow> scanner" where
  "accept n v k st = st\<lparr>pos := n, tokenValue := v, token := k\<rparr>"

text \<open>
  The loop of a block comment up to the bound \<open>x\<close>: the position behind it, whether it is closed, and
  the line and its start.
\<close>

function comment_loop :: "code_units \<Rightarrow> nat \<Rightarrow> nat \<Rightarrow> nat \<Rightarrow> nat \<Rightarrow> nat \<times> bool \<times> nat \<times> nat" where
  "comment_loop e x n c a =
     (if n < x then
        let ch = e ! n in
        if ch = 42 \<and> char_is (\<lambda>z. z = 47) e (n + 1) then (n + 2, True, c, a)
        else if isLineBreak ch then
          let n' = (if ch = CR \<and> char_is (\<lambda>z. z = LF) e (n + 1) then n + 2 else n + 1)
          in comment_loop e x n' (c + 1) n'
        else comment_loop e x (n + 1) c a
      else (n, False, c, a))"
  by pat_completeness auto
termination by (relation "measure (\<lambda>(e, x, n, c, a). x - n)") auto

declare comment_loop.simps [simp del]

text \<open>The value of a comment is cut one unit before its start (\<open>let S = n - 1\<close>).\<close>

definition scanComment :: "scanner \<Rightarrow> scanner" where
  "scanComment st =
     (let e = source st; n = pos st in
      if char_is (\<lambda>c. c = 47) e (n + 1) then
        let n' = skip (\<lambda>c. \<not> isLineBreak c) e (n + 2)
        in accept n' (slice e (n - 1) n') LineCommentTrivia st
      else if char_is (\<lambda>c. c = 42) e (n + 1) then
        let (n1, closed, c, a) = comment_loop e (length e - 1) (n + 2) (lineNumber st) (lineStart st);
            n' = (if closed then n1 else n1 + 1)
        in (accept n' (slice e (n - 1) n') BlockCommentTrivia st)
             \<lparr>lineNumber := c, lineStart := a,
              tokenError := (if closed then tokenError st else UnexpectedEndOfComment)\<rparr>
      else accept (n + 1) [e ! n] Unknown st)"

definition keyword :: "code_units \<Rightarrow> syntax_kind" where
  "keyword v = (if v = utf16 ''true'' then TrueKeyword else if v = utf16 ''false'' then FalseKeyword
     else if v = utf16 ''null'' then NullKeyword else Unknown)"

text \<open>\<open>y\<close>: the next token.\<close>

definition startToken :: "scanner \<Rightarrow> scanner" where
  "startToken st = st\<lparr>tokenValue := [], tokenError := NoScanError, tokenOffset := pos st,
     tokenLine := lineNumber st, tokenLineStart := lineStart st\<rparr>"

definition scanNext :: "scanner \<Rightarrow> scanner" where
  "scanNext st0 =
     (let e = source st0; n = pos st0; st = startToken st0
      in if n \<ge> length e then st\<lparr>tokenOffset := length e, token := EOF\<rparr>
         else let g = e ! n in
           if isWhiteSpace g then
             let n' = skip isWhiteSpace e n in accept n' (slice e n n') Trivia st
           else if isLineBreak g then
             let n' = (if g = CR \<and> char_is (\<lambda>c. c = LF) e (n + 1) then n + 2 else n + 1)
             in (accept n' (slice e n n') LineBreakTrivia st)
                  \<lparr>lineNumber := lineNumber st + 1, lineStart := n'\<rparr>
           else if g = 123 then accept (n + 1) [] OpenBraceToken st
           else if g = 125 then accept (n + 1) [] CloseBraceToken st
           else if g = 91 then accept (n + 1) [] OpenBracketToken st
           else if g = 93 then accept (n + 1) [] CloseBracketToken st
           else if g = 58 then accept (n + 1) [] ColonToken st
           else if g = 44 then accept (n + 1) [] CommaToken st
           else if g = 34 then
             let (v, n', f) = scanString e (n + 1) (n + 1) [] NoScanError
             in (accept n' v StringLiteral st)\<lparr>tokenError := f\<rparr>
           else if g = 47 then scanComment st
           else if g = 45 then
             (if \<not> char_is isDigit e (n + 1) then accept (n + 1) [45] Unknown st
              else let (v, n', f) = scanNumber e (n + 1)
                   in (accept n' (45 # v) NumericLiteral st)\<lparr>tokenError := f\<rparr>)
           else if isDigit g then
             let (v, n', f) = scanNumber e n
             in (accept n' v NumericLiteral st)\<lparr>tokenError := f\<rparr>
           else
             let n' = skip isUnknownContentCharacter e n in
             if n \<noteq> n' then accept n' (slice e n n') (keyword (slice e n n')) st
             else accept (n + 1) [g] Unknown st)"

text \<open>\<open>w\<close>: tokens that are white space, line breaks or comments are passed over.\<close>

definition is_trivia :: "syntax_kind \<Rightarrow> bool" where
  "is_trivia k = (k \<in> {LineCommentTrivia, BlockCommentTrivia, LineBreakTrivia, Trivia})"

section \<open>Every token consumes text\<close>

lemma skip_le: "n \<le> skip P e n"
  by (simp add: skip_def)

lemma skip_bounds: "n \<le> length e \<Longrightarrow> n \<le> skip P e n \<and> skip P e n \<le> length e"
  using length_takeWhile_le [of P "drop n e"] by (auto simp: skip_def)

lemma skip_first: "char_is P e n \<Longrightarrow> n < skip P e n"
  by (auto simp: skip_def char_is_def simp flip: Cons_nth_drop_Suc)

lemma skip_slice: "n \<le> length e \<Longrightarrow> slice e n (skip P e n) = takeWhile P (drop n e)"
  by (simp add: slice_def skip_def takeWhile_eq_take [symmetric])

lemma scanHexDigits_bounds: "n \<le> length e \<Longrightarrow>
    n \<le> snd (scanHexDigits e n k v) \<and> snd (scanHexDigits e n k v) \<le> length e"
  by (induction k arbitrary: n v) (auto split: option.split intro: Suc_leD)

text \<open>The end of a number, part by part.\<close>

lemma scanNumber_bounds:
  assumes "char_is isDigit e g" "scanNumber e g = (v, n, f)"
  shows "g < n \<and> n \<le> length e"
proof -
  define n1 where "n1 = (if char_is (\<lambda>c. c = 48) e g then g + 1 else skip isDigit e (g + 1))"
  define n3 where "n3 = (if char_is (\<lambda>c. c = 46) e n1 then skip isDigit e (n1 + 2) else n1)"
  define n5 where "n5 = (if char_is (\<lambda>c. c = 43 \<or> c = 45) e (n3 + 1) then n3 + 2 else n3 + 1)"
  have g: "g < length e" using assms(1) by (simp add: char_is_def)
  have n1: "g < n1" "n1 \<le> length e"
    using g skip_bounds [of "g + 1" e isDigit] skip_le [of "g + 1" isDigit e]
    by (auto simp: n1_def)
  have n3: "n1 \<le> n3" "char_is isDigit e (n1 + 1) \<or> \<not> char_is (\<lambda>c. c = 46) e n1 \<Longrightarrow> n3 \<le> length e"
    using n1 skip_bounds [of "n1 + 2" e isDigit] skip_le [of "n1 + 2" isDigit e]
    by (auto simp: n3_def char_is_def)
  have n5: "n3 < n5" "char_is (\<lambda>c. c = 69 \<or> c = 101) e n3 \<Longrightarrow> n5 \<le> length e"
    by (auto simp: n5_def char_is_def)
  have n6: "n5 < skip isDigit e (n5 + 1)"
    "char_is isDigit e n5 \<Longrightarrow> skip isDigit e (n5 + 1) \<le> length e"
    using skip_bounds [of "n5 + 1" e isDigit] skip_le [of "n5 + 1" isDigit e]
    by (auto simp: char_is_def)
  have "(v, n, f) = (if char_is (\<lambda>c. c = 46) e n1 \<and> \<not> char_is isDigit e (n1 + 1)
      then (slice e g (n1 + 1), n1 + 1, UnexpectedEndOfNumber)
      else if char_is (\<lambda>c. c = 69 \<or> c = 101) e n3
        then (if char_is isDigit e n5
              then (slice e g (skip isDigit e (n5 + 1)), skip isDigit e (n5 + 1), NoScanError)
              else (slice e g n3, n5, UnexpectedEndOfNumber))
        else (slice e g n3, n3, NoScanError))"
    unfolding assms(2) [symmetric] scanNumber_def Let_def n1_def n3_def n5_def ..
  moreover have "char_is (\<lambda>c. c = 46) e n1 \<Longrightarrow> n1 + 1 \<le> length e" by (simp add: char_is_def)
  ultimately show ?thesis using n1 n3 n5 n6 by (auto split: if_splits)
qed



lemma scanString_bounds:
  "n \<le> length e \<Longrightarrow> scanString e n b g f = (v, n', f') \<Longrightarrow> n \<le> n' \<and> n' \<le> length e"
proof (induction "length e - n" arbitrary: n b g f rule: less_induct)
  case less
  have ih: "n \<le> n' \<and> n' \<le> length e"
    if s: "scanString e k b' g' f'' = (v, n', f')" and k: "n < k \<and> k \<le> length e" for k b' g' f''
  proof -
    have "length e - k < length e - n" using k by linarith
    from less(1) [OF this _ s] k show ?thesis by simp
  qed
  note hex = scanHexDigits_bounds [of "n + 2" e 4 0]
  show ?case
    using less(3) less(2) hex
    by (subst (asm) scanString.simps)
      (auto simp: Let_def split: if_splits option.splits prod.splits; drule ih; simp)
qed

lemma comment_loop_bounds:
  "x < length e \<Longrightarrow> comment_loop e x n c a = (n', closed, c', a') \<Longrightarrow>
   n \<le> n' \<and> n' \<le> max n (length e)"
proof (induction "x - n" arbitrary: n c a rule: less_induct)
  case less
  have ih: "n \<le> n' \<and> n' \<le> max n (length e)"
    if s: "comment_loop e x k cc aa = (n', closed, c', a')"
      and k: "n < k \<and> n < x \<and> k \<le> max n (length e)" for k cc aa
  proof -
    have "x - k < x - n" using k by linarith
    from less(1) [OF this less(2) s] k show ?thesis by linarith
  qed
  show ?case
    using less(3) less(2)
    by (subst (asm) comment_loop.simps)
      (auto simp: Let_def char_is_def split: if_splits; drule ih; simp)
qed

lemma scanComment_bounds:
  assumes "pos st < length (source st)"
  shows "pos st < pos (scanComment st)" "pos (scanComment st) \<le> length (source st) + 1"
    "source (scanComment st) = source st" "token (scanComment st) \<noteq> EOF"
    "tokenError (scanComment st) \<noteq> UnexpectedEndOfComment \<Longrightarrow>
     pos (scanComment st) \<le> length (source st)"
    "tokenOffset (scanComment st) = tokenOffset st" "tokenLine (scanComment st) = tokenLine st"
    "tokenLineStart (scanComment st) = tokenLineStart st"
proof -
  let ?e = "source st" and ?n = "pos st"
  obtain n1 cl c a where l: "comment_loop ?e (length ?e - 1) (?n + 2) (lineNumber st) (lineStart st)
      = (n1, cl, c, a)" by (metis prod_cases4)
  have b: "?n + 2 \<le> n1 \<and> n1 \<le> max (?n + 2) (length ?e)"
    using comment_loop_bounds [OF _ l] assms by simp
  have k: "?n + 2 \<le> length ?e \<Longrightarrow> skip (\<lambda>c. \<not> isLineBreak c) ?e (?n + 2) \<le> length ?e"
    "?n < skip (\<lambda>c. \<not> isLineBreak c) ?e (?n + 2)"
    using skip_bounds [of "?n + 2" ?e] skip_le [of "?n + 2" "\<lambda>c. \<not> isLineBreak c" ?e]
    by (auto)
  show "pos st < pos (scanComment st)" "pos (scanComment st) \<le> length (source st) + 1"
    "source (scanComment st) = source st" "token (scanComment st) \<noteq> EOF"
    "tokenError (scanComment st) \<noteq> UnexpectedEndOfComment \<Longrightarrow>
     pos (scanComment st) \<le> length (source st)"
    "tokenOffset (scanComment st) = tokenOffset st" "tokenLine (scanComment st) = tokenLine st"
    "tokenLineStart (scanComment st) = tokenLineStart st"
    using assms b k by (auto simp: scanComment_def l [simplified] accept_def Let_def char_is_def)
qed

subsection \<open>No line ends inside\<close>

definition no_break :: "code_units \<Rightarrow> nat \<Rightarrow> nat \<Rightarrow> bool" where
  "no_break e i j = (\<forall>k. i \<le> k \<and> k < j \<longrightarrow> \<not> isLineBreak (e ! k))"

lemma no_break_empty [simp]: "j \<le> i \<Longrightarrow> no_break e i j"
  by (auto simp: no_break_def)

lemma no_break_join: "no_break e i k \<Longrightarrow> no_break e k j \<Longrightarrow> no_break e i j"
  unfolding no_break_def by (meson not_le)

lemma no_break_one [simp]: "no_break e i (Suc i) \<longleftrightarrow> \<not> isLineBreak (e ! i)"
  by (auto simp: no_break_def less_Suc_eq_le dest: le_antisym)

lemma skip_all:
  assumes "n \<le> length e" "n \<le> k" "k < skip P e n"
  shows "P (e ! k)"
proof -
  have k: "k - n < length (takeWhile P (drop n e))" using assms(2,3) by (auto simp: skip_def)
  then have "takeWhile P (drop n e) ! (k - n) \<in> set (takeWhile P (drop n e))" by (rule nth_mem)
  moreover have "takeWhile P (drop n e) ! (k - n) = e ! k"
    using k assms(1,2) by (simp add: takeWhile_nth)
  ultimately show ?thesis by (auto dest: set_takeWhileD)
qed

lemma no_break_skip:
  "n \<le> length e \<Longrightarrow> (\<And>c. P c \<Longrightarrow> \<not> isLineBreak c) \<Longrightarrow> no_break e n (skip P e n)"
  using skip_all [of n e _ P] by (simp add: no_break_def)

lemma digit_no_break: "isDigit c \<Longrightarrow> \<not> isLineBreak c"
  by (auto simp: isDigit_def isLineBreak_def)

lemma no_break_hex:
  "no_break e n (snd (scanHexDigits e n k v))"
proof (induction k arbitrary: n v)
  case (Suc k)
  show ?case
  proof (cases "if n < length e then hex_digit (e ! n) else None")
    case (Some h)
    then have "\<not> isLineBreak (e ! n)"
      by (auto simp: hex_digit_def isLineBreak_def split: if_splits)
    then show ?thesis
      using Some no_break_join [of e n "Suc n"] Suc [of "Suc n"] by auto
  qed simp
qed simp

lemma scanString_no_break:
  "n \<le> length e \<Longrightarrow> scanString e n b g f = (v, n', NoScanError) \<Longrightarrow>
   f = NoScanError \<and> no_break e n n'"
proof (induction "length e - n" arbitrary: n b g f rule: less_induct)
  case less
  have ih: "f'' = NoScanError \<and> no_break e n n'"
    if s: "scanString e k b' g' f'' = (v, n', NoScanError)"
      and k: "n < k \<and> k \<le> length e \<and> (f'' = NoScanError \<longrightarrow> no_break e n k)" for k b' g' f''
  proof -
    have "length e - k < length e - n" using k by linarith
    from less(1) [OF this _ s] k show ?thesis using no_break_join by blast
  qed
  have e: "no_break e n k"
    if "e ! n = 92" "\<not> isLineBreak (e ! Suc n)" "no_break e (Suc (Suc n)) k" for k
    using that no_break_join [of e n "Suc n" "Suc (Suc n)"] no_break_join [of e n "Suc (Suc n)" k]
    by (simp add: isLineBreak_def)
  have u: "no_break e n k" if "e ! n = 92" "e ! Suc n = 117" "no_break e (Suc (Suc n)) k" for k
    by (rule e [OF that(1) _ that(3)]) (simp add: that isLineBreak_def)
  have esc: "escaped c = Some w \<Longrightarrow> \<not> isLineBreak c" for c w
    by (auto simp: escaped_def isLineBreak_def split: if_splits)
  note hex = scanHexDigits_bounds [of "n + 2" e 4 0] no_break_hex [of e "n + 2" 4 0]
  show ?case
    using less(3) less(2) hex
    by (subst (asm) scanString.simps)
      ((auto simp: Let_def split: if_splits option.splits prod.splits; (drule ih)?),
        simp_all add: e u esc, simp_all add: isLineBreak_def)
qed

lemma scanString_error:
  "scanString e n b g f = (v, n', UnexpectedEndOfNumber) \<Longrightarrow> n \<le> length e \<Longrightarrow>
   f = UnexpectedEndOfNumber"
proof (induction "length e - n" arbitrary: n b g f rule: less_induct)
  case less
  have ih: "f'' = UnexpectedEndOfNumber"
    if s: "scanString e k b' g' f'' = (v, n', UnexpectedEndOfNumber)"
      and k: "n < k \<and> k \<le> length e" for k b' g' f''
  proof -
    have "length e - k < length e - n" using k by linarith
    from less(1) [OF this s] k show ?thesis by simp
  qed
  show ?case
    using less(2,3) scanHexDigits_bounds [of "n + 2" e 4 0]
    by (subst (asm) scanString.simps)
      (auto simp: Let_def split: if_splits option.splits prod.splits; drule ih; simp)
qed

lemma no_break_char: "char_is P e n \<Longrightarrow> (\<And>c. P c \<Longrightarrow> \<not> isLineBreak c) \<Longrightarrow> no_break e n (n + 1)"
  by (auto simp: char_is_def)

lemma scanNumber_no_break:
  assumes "char_is isDigit e g" "scanNumber e g = (v, n, f)"
  shows "no_break e g n"
proof -
  define n1 where "n1 = (if char_is (\<lambda>c. c = 48) e g then g + 1 else skip isDigit e (g + 1))"
  define n3 where "n3 = (if char_is (\<lambda>c. c = 46) e n1 then skip isDigit e (n1 + 2) else n1)"
  define n5 where "n5 = (if char_is (\<lambda>c. c = 43 \<or> c = 45) e (n3 + 1) then n3 + 2 else n3 + 1)"
  have sk: "i + 1 \<le> length e \<Longrightarrow> no_break e (i + 1) (skip isDigit e (i + 1))" for i
    by (rule no_break_skip) (auto dest: digit_no_break)
  have dg: "char_is isDigit e i \<Longrightarrow> no_break e i (i + 1)
      \<and> no_break e i (skip isDigit e (i + 1))" for i
    using no_break_char [of isDigit e i] sk [of i] no_break_join [of e i "i + 1"]
    by (auto simp: char_is_def dest: digit_no_break)
  have g: "no_break e g n1" using dg [OF assms(1)] by (simp add: n1_def)
  have dot: "char_is (\<lambda>c. c = 46) e n1 \<Longrightarrow> no_break e g (n1 + 1)"
    using no_break_join [OF g] by (auto simp: char_is_def isLineBreak_def)
  have n3: "char_is isDigit e (n1 + 1) \<or> \<not> char_is (\<lambda>c. c = 46) e n1 \<Longrightarrow> no_break e g n3"
    using g no_break_join [OF dot, of "skip isDigit e (n1 + 2)"] dg [of "n1 + 1"]
    by (auto simp: n3_def)
  have n5: "no_break e g n3 \<Longrightarrow> char_is (\<lambda>c. c = 69 \<or> c = 101) e n3 \<Longrightarrow> no_break e g n5"
    using no_break_join [of e g n3 "n3 + 1"] no_break_join [of e g "n3 + 1" "n3 + 2"]
    by (auto simp: n5_def char_is_def isLineBreak_def)
  have n6: "no_break e g n5 \<Longrightarrow> char_is isDigit e n5 \<Longrightarrow> no_break e g (skip isDigit e (n5 + 1))"
    using no_break_join [of e g n5] dg by blast
  have "n = n1 + 1 \<and> char_is (\<lambda>c. c = 46) e n1
       \<or> (char_is isDigit e (n1 + 1) \<or> \<not> char_is (\<lambda>c. c = 46) e n1) \<and>
         (n = n3 \<or> char_is (\<lambda>c. c = 69 \<or> c = 101) e n3 \<and>
           (n = n5 \<or> char_is isDigit e n5 \<and> n = skip isDigit e (n5 + 1)))"
    using assms(2) unfolding scanNumber_def Let_def n1_def [symmetric] n3_def [symmetric]
      n5_def [symmetric] by (auto split: if_splits)
  then show ?thesis using dot n3 n5 n6 by auto
qed

text \<open>
  The four kinds of steps: white space, a line end, a block comment, and a token within a line. A
  token within a line has no line end in it, if it is without errors, or a number.
\<close>

lemma scanNext_cases:
  assumes "pos st < length (source st)"
  obtains (space) n where "scanNext st = accept n (slice (source st) (pos st) n) Trivia (startToken st)"
      "isWhiteSpace (source st ! pos st)" "n = skip isWhiteSpace (source st) (pos st)"
  | (line_end) n where "scanNext st = (accept n (slice (source st) (pos st) n) LineBreakTrivia
        (startToken st))\<lparr>lineNumber := lineNumber st + 1, lineStart := n\<rparr>"
      "isLineBreak (source st ! pos st)"
      "n = (if source st ! pos st = CR \<and> char_is (\<lambda>c. c = LF) (source st) (pos st + 1)
            then pos st + 2 else pos st + 1)"
  | (block) "scanNext st = scanComment (startToken st)" "source st ! pos st = 47"
      "char_is (\<lambda>c. c = 42) (source st) (pos st + 1)"
  | (inline) n v k f where "scanNext st = (accept n v k (startToken st))\<lparr>tokenError := f\<rparr>"
      "pos st < n" "n \<le> length (source st)" "k \<notin> {EOF, Trivia, LineBreakTrivia, BlockCommentTrivia}"
      "f \<in> {NoScanError, UnexpectedEndOfNumber} \<Longrightarrow> no_break (source st) (pos st) n"
      "\<not> isWhiteSpace (source st ! pos st)" "\<not> isLineBreak (source st ! pos st)"
proof -
  let ?e = "source st" and ?n = "pos st"
  let ?one = "\<lambda>n k f. ?n < n \<and> n \<le> length ?e \<and> k \<notin> {EOF, Trivia, LineBreakTrivia, BlockCommentTrivia}
      \<and> (f \<in> {NoScanError, UnexpectedEndOfNumber} \<longrightarrow> no_break ?e ?n n)"
  note b = assms
  show thesis
  proof (cases "isWhiteSpace (?e ! ?n)")
    case True
    then show ?thesis using b by (intro space) (simp_all add: scanNext_def Let_def)
  next
    case ws: False
    show ?thesis
    proof (cases "isLineBreak (?e ! ?n)")
      case True
      then show ?thesis using b ws
        by (intro line_end) (simp_all add: scanNext_def Let_def startToken_def)
    next
      case br: False
      have thesis if "scanNext st = (accept n v k (startToken st))\<lparr>tokenError := f\<rparr>" "?one n k f"
        for n v k f
        using inline [OF that(1)] that(2) ws br by blast
      note one = this
      have plain: thesis if "scanNext st = accept n v k (startToken st)" "?one n k NoScanError" for n v k
        using one [where n = n and v = v and k = k and f = NoScanError] that
        by (simp add: accept_def startToken_def)
      have sym: thesis if "scanNext st = accept (?n + 1) v k (startToken st)"
        "k \<notin> {EOF, Trivia, LineBreakTrivia, BlockCommentTrivia}" for v k
        using plain [OF that(1)] that(2) b br by simp
      note unf = scanNext_def Let_def ws br b
      consider "?e ! ?n \<in> {123, 125, 91, 93, 58, 44}" | "?e ! ?n = 34" | "?e ! ?n = 47"
        | "?e ! ?n = 45" | "isDigit (?e ! ?n)"
        | "?e ! ?n \<notin> {123, 125, 91, 93, 58, 44, 34, 47, 45}" "\<not> isDigit (?e ! ?n)"
        by blast
      then show ?thesis
      proof cases
        case 1
        then have "scanNext st = accept (?n + 1) [] (token (scanNext st)) (startToken st)"
          "token (scanNext st) \<notin> {EOF, Trivia, LineBreakTrivia, BlockCommentTrivia}"
          using unf by (auto simp: accept_def)
        then show ?thesis by (rule sym)
      next
        case 2
        obtain v n f where s: "scanString ?e (?n + 1) (?n + 1) [] NoScanError = (v, n, f)"
          by (metis prod_cases3)
        have n: "?n + 1 \<le> n" "n \<le> length ?e" using scanString_bounds [OF _ s] b by auto
        have "f = NoScanError \<Longrightarrow> no_break ?e ?n n"
          using scanString_no_break [where n = "?n + 1" and e = ?e] s b br no_break_join [of ?e ?n "?n + 1" n] by auto
        moreover have "f \<noteq> UnexpectedEndOfNumber"
          using scanString_error [of ?e "?n + 1" "?n + 1" "[]" NoScanError v n] s b by auto
        moreover have "scanNext st = (accept n v StringLiteral (startToken st))\<lparr>tokenError := f\<rparr>"
          using 2 s unf by simp
        ultimately show ?thesis using one n by auto
      next
        case 3
        have c: "scanNext st = scanComment (startToken st)" using 3 unf by (simp add: isDigit_def)
        have st: "source (startToken st) = ?e" "pos (startToken st) = ?n" by (simp_all add: startToken_def)
        let ?k = "skip (\<lambda>c. \<not> isLineBreak c) ?e (?n + 2)"
        consider "char_is (\<lambda>c. c = 42) ?e (?n + 1)" | "char_is (\<lambda>c. c = 47) ?e (?n + 1)"
          | "\<not> char_is (\<lambda>c. c = 42) ?e (?n + 1)" "\<not> char_is (\<lambda>c. c = 47) ?e (?n + 1)" by blast
        then show ?thesis
        proof cases
          case 1
          then show ?thesis using block c 3 by blast
        next
          case s: 2
          have "no_break ?e ?n (?n + 1)" "no_break ?e (?n + 1) (?n + 2)"
            using 3 s by (auto simp: char_is_def isLineBreak_def)
          moreover have le: "?n + 2 \<le> length ?e" using s by (simp add: char_is_def)
          moreover from le have "no_break ?e (?n + 2) ?k" by (intro no_break_skip) simp_all
          ultimately have "no_break ?e ?n ?k" by (meson no_break_join)
          then have "?one ?k LineCommentTrivia NoScanError"
            using skip_bounds [OF le, of "\<lambda>c. \<not> isLineBreak c"] by auto
          moreover have "scanNext st = (accept ?k (slice ?e (?n - 1) ?k) LineCommentTrivia
              (startToken st))\<lparr>tokenError := NoScanError\<rparr>"
            using s unfolding c
            by (simp add: scanComment_def st Let_def) (simp add: accept_def startToken_def)
          ultimately show ?thesis using one by blast
        next
          case 3
          then have "scanNext st = accept (?n + 1) [?e ! ?n] Unknown (startToken st)"
            by (simp add: c scanComment_def st Let_def)
          then show ?thesis by (rule sym) simp
        qed
      next
        case 4
        show ?thesis
        proof (cases "char_is isDigit ?e (?n + 1)")
          case True
          obtain v n f where s: "scanNumber ?e (?n + 1) = (v, n, f)" by (metis prod_cases3)
          have "?one n NumericLiteral f"
            using scanNumber_bounds [OF True s] scanNumber_no_break [OF True s]
              no_break_join [of ?e ?n "?n + 1" n] br by auto
          moreover have "scanNext st
              = (accept n (45 # v) NumericLiteral (startToken st))\<lparr>tokenError := f\<rparr>"
            using 4 s unf True by simp
          ultimately show ?thesis using one by blast
        next
          case False
          then have "scanNext st = accept (?n + 1) [45] Unknown (startToken st)" using 4 unf by simp
          then show ?thesis by (rule sym) simp
        qed
      next
        case 5
        obtain v n f where s: "scanNumber ?e ?n = (v, n, f)" by (metis prod_cases3)
        have d: "char_is isDigit ?e ?n" using 5 b by (simp add: char_is_def)
        have "?one n NumericLiteral f"
          using scanNumber_bounds [OF d s] scanNumber_no_break [OF d s] by auto
        moreover have "scanNext st = (accept n v NumericLiteral (startToken st))\<lparr>tokenError := f\<rparr>"
          using 5 s unf by (auto simp: isDigit_def)
        ultimately show ?thesis using one by blast
      next
        case 6
        let ?k = "skip isUnknownContentCharacter ?e ?n"
        have "char_is isUnknownContentCharacter ?e ?n"
          using 6 b ws br by (simp add: char_is_def isUnknownContentCharacter_def)
        then have k: "?n < ?k" "?k \<le> length ?e" "no_break ?e ?n ?k"
          using skip_first skip_bounds [of ?n ?e] b
          by (auto intro!: no_break_skip simp: isUnknownContentCharacter_def)
        then have "scanNext st = accept ?k (slice ?e ?n ?k) (keyword (slice ?e ?n ?k)) (startToken st)"
          using 6 by (simp add: unf)
        then show ?thesis by (rule plain) (use k in \<open>simp add: keyword_def\<close>)
      qed
    qed
  qed
qed

subsection \<open>All tokens of a text\<close>

lemma scanNext_end: "length (source st) \<le> pos st \<Longrightarrow>
    scanNext st = (startToken st)\<lparr>tokenOffset := length (source st), token := EOF\<rparr>"
  by (simp add: scanNext_def Let_def)

lemma accept_simps [simp]:
  "pos (accept n v k st) = n" "token (accept n v k st) = k" "source (accept n v k st) = source st"
  "tokenOffset (accept n v k st) = tokenOffset st" "tokenError (accept n v k st) = tokenError st"
  "lineNumber (accept n v k st) = lineNumber st" "lineStart (accept n v k st) = lineStart st"
  "tokenLine (accept n v k st) = tokenLine st" "tokenLineStart (accept n v k st) = tokenLineStart st"
  "tokenValue (accept n v k st) = v"
  by (simp_all add: accept_def)

lemma startToken_simps [simp]:
  "pos (startToken st) = pos st" "source (startToken st) = source st"
  "tokenOffset (startToken st) = pos st" "tokenError (startToken st) = NoScanError"
  "lineNumber (startToken st) = lineNumber st" "lineStart (startToken st) = lineStart st"
  "tokenLine (startToken st) = lineNumber st" "tokenLineStart (startToken st) = lineStart st"
  by (simp_all add: startToken_def)

lemma scanNext_step:
  assumes "pos st < length (source st)"
  shows "pos st < pos (scanNext st) \<and> pos (scanNext st) \<le> length (source st) + 1
    \<and> source (scanNext st) = source st \<and> token (scanNext st) \<noteq> EOF
    \<and> tokenOffset (scanNext st) = pos st
    \<and> tokenLine (scanNext st) = lineNumber st \<and> tokenLineStart (scanNext st) = lineStart st
    \<and> (tokenError (scanNext st) \<noteq> UnexpectedEndOfComment \<longrightarrow>
       pos (scanNext st) \<le> length (source st))"
proof (rule scanNext_cases [OF assms], goal_cases space line_end block inline)
  case (space n)
  have "char_is isWhiteSpace (source st) (pos st)" using space(2) assms by (simp add: char_is_def)
  then show ?thesis
    using skip_first skip_bounds [of "pos st" "source st" isWhiteSpace] assms
    by (simp add: space(1,3))
next
  case (line_end n)
  then show ?thesis using assms by (auto simp: char_is_def)
next
  case block
  then show ?thesis using scanComment_bounds [of "startToken st"] assms by (simp add: block(1))
next
  case (inline n v k f)
  then show ?thesis by (simp add: inline(1))
qed

text \<open>The tokens up to the end of the file: the states of the scanner after each scan.\<close>

function scan_all :: "scanner \<Rightarrow> scanner list" where
  "scan_all st = (if length (source st) \<le> pos st then [scanNext st]
     else scanNext st # scan_all (scanNext st))"
  by pat_completeness auto
termination
proof (relation "measure (\<lambda>st. length (source st) - pos st)", goal_cases)
  case (2 st)
  then show ?case using scanNext_step [of st] by auto
qed simp

declare scan_all.simps [simp del]

text \<open>What a token covers of the text; the interface gives it as offset and length.\<close>

definition token_text :: "scanner \<Rightarrow> code_units" where
  "token_text st = take (getTokenLength st) (drop (tokenOffset st) (source st))"

lemma scan_all_tiles:
  "concat (map token_text (scan_all st)) = drop (pos st) (source st)
   \<and> length (scan_all st) \<le> length (source st) - pos st + 1
   \<and> map token (scan_all st) = map token (butlast (scan_all st)) @ [EOF]
   \<and> EOF \<notin> token ` set (butlast (scan_all st))
   \<and> list_all (\<lambda>t. token_text t \<noteq> []) (butlast (scan_all st))"
proof (induction st rule: scan_all.induct)
  case (1 st)
  show ?case
  proof (cases "length (source st) \<le> pos st")
    case True
    then show ?thesis by (subst (1 2 3 4 5 6) scan_all.simps)
        (simp add: scanNext_end token_text_def getTokenLength_def)
  next
    case False
    let ?s = "scanNext st"
    have s: "pos st < pos ?s" "source ?s = source st" "token ?s \<noteq> EOF" "tokenOffset ?s = pos st"
      using scanNext_step [of st] False by auto
    have t: "token_text ?s = take (pos ?s - pos st) (drop (pos st) (source st))"
      by (simp add: token_text_def getTokenLength_def s)
    have "scan_all st = ?s # scan_all ?s" using False by (subst scan_all.simps) simp
    moreover have "scan_all ?s \<noteq> []" by (subst scan_all.simps) simp
    moreover have "token_text ?s @ drop (pos ?s) (source st) = drop (pos st) (source st)"
      unfolding t using append_take_drop_id [of "pos ?s - pos st" "drop (pos st) (source st)"] s(1)
      by simp
    moreover have "token_text ?s \<noteq> []" using t s(1) False by simp
    ultimately show ?thesis using 1 [OF False] s False by auto
  qed
qed

section \<open>Lines and characters of the tokens\<close>

text \<open>The line and its start that belong to an offset that does not tear a line end apart.\<close>

definition line_at :: "code_units \<Rightarrow> nat \<Rightarrow> nat \<Rightarrow> nat \<Rightarrow> bool" where
  "line_at e n c a = (n \<le> length e \<and> apart (take n e) (drop n e)
     \<and> c = length (eols 0 (take n e)) \<and> int a = last (0 # eols 0 (take n e)))"

lemma line_at_step:
  assumes l: "line_at e n c a" and n: "n < j" "j \<le> length e" "apart (take j e) (drop j e)"
  shows "line_at e j (c + length (eols (int n) (slice e n j)))
           (nat (last (int a # eols (int n) (slice e n j))))"
proof -
  have t: "take j e = take n e @ slice e n j"
    using n(1) by (simp add: slice_def flip: take_add)
  have "slice e n j \<noteq> []" "hd (slice e n j) = hd (drop n e)"
    using n by (auto simp: slice_def hd_drop_conv_nth)
  moreover have "drop n e \<noteq> []" using n by simp
  ultimately have "apart (take n e) (slice e n j)" using l by (auto simp: line_at_def apart_def)
  then have "eols 0 (take j e) = eols 0 (take n e) @ eols (int n) (slice e n j)"
    using n unfolding t by (simp add: eols_append)
  moreover have "x \<in> set (eols (int n) (slice e n j)) \<Longrightarrow> 0 \<le> x" for x
    by (auto dest: eols_bounds)
  then have "0 \<le> last (int a # eols (int n) (slice e n j))"
    by (cases "eols (int n) (slice e n j)" rule: rev_cases) auto
  then have "int (nat (last (int a # eols (int n) (slice e n j)))) = last (int a # eols (int n) (slice e n j))"
    by (rule nat_0_le)
  moreover have "last (0 # xs @ ys) = last (last (0 # xs) # ys)" for xs ys :: "int list"
    by (cases ys) auto
  ultimately show ?thesis
    using l n unfolding line_at_def by (simp only: length_append)
qed

lemma slice_one: "n < length e \<Longrightarrow> slice e n (Suc n) = [e ! n]"
  by (simp add: slice_def flip: Cons_nth_drop_Suc)

lemma apart_next:
  "n < length e \<Longrightarrow> \<not> (e ! n = CR \<and> char_is (\<lambda>c. c = LF) e (Suc n)) \<Longrightarrow>
   apart (take (Suc n) e) (drop (Suc n) e)"
  by (auto simp: apart_def char_is_def take_Suc_conv_app_nth hd_drop_conv_nth)

lemma line_at_char: "line_at e n c a \<Longrightarrow> n < length e \<Longrightarrow> \<not> isLineBreak (e ! n) \<Longrightarrow>
    line_at e (Suc n) c a"
  using line_at_step [of e n c a "Suc n"] apart_next [of n e]
  by (simp add: slice_one isLineBreak_def)

lemma line_at_break:
  assumes "line_at e n c a" "n < length e" "isLineBreak (e ! n)"
    and "j = (if e ! n = CR \<and> char_is (\<lambda>c. c = LF) e (n + 1) then n + 2 else n + 1)"
  shows "line_at e j (c + 1) j"
proof -
  have j: "j = (if e ! n = CR \<and> char_is (\<lambda>c. c = LF) e (Suc n) then Suc (Suc n) else Suc n)"
    using assms(4) by simp
  have "line_at e j (Suc c) j"
  proof (cases "e ! n = CR \<and> char_is (\<lambda>c. c = LF) e (Suc n)")
    case True
    then have len: "Suc (Suc n) \<le> length e" by (simp add: char_is_def)
    have s: "slice e n (Suc (Suc n)) = [CR, LF]"
      using True len by (simp add: slice_def char_is_def numeral_2_eq_2 take_Suc_conv_app_nth
          flip: Cons_nth_drop_Suc)
    have "apart (take (Suc (Suc n)) e) (drop (Suc (Suc n)) e)"
      using apart_next [of "Suc n" e] True by (auto simp: char_is_def)
    moreover have "nat (int n + 2) = Suc (Suc n)" by simp
    ultimately show ?thesis
      using line_at_step [OF assms(1) _ len] True by (simp add: s j)
  next
    case False
    have "nat (int n + 1) = Suc n" by simp
    with line_at_step [OF assms(1) _ _ apart_next [OF assms(2) False]] show ?thesis
      using False assms(2,3) by (auto simp: slice_one isLineBreak_def j)
  qed
  then show ?thesis by simp
qed

lemma line_at_no_break:
  "line_at e n c a \<Longrightarrow> n \<le> j \<Longrightarrow> j \<le> length e \<Longrightarrow> no_break e n j \<Longrightarrow> line_at e j c a"
proof (induction "j - n" arbitrary: n)
  case (Suc k)
  then have n: "n < j" by simp
  have "\<not> isLineBreak (e ! n)" "no_break e (Suc n) j"
    using Suc.prems(4) n by (auto simp: no_break_def)
  then show ?case
    using Suc(1) [of "Suc n"] line_at_char [OF Suc.prems(1)] Suc.prems(3) Suc.hyps(2) n by auto
qed auto

lemma comment_loop_lines:
  "comment_loop e x n c a = (n', True, c', a') \<Longrightarrow> line_at e n c a \<Longrightarrow> x < length e \<Longrightarrow>
   line_at e n' c' a'"
proof (induction e x n c a rule: comment_loop.induct)
  case (1 e x n c a)
  let ?j = "if e ! n = CR \<and> char_is (\<lambda>z. z = LF) e (n + 1) then n + 2 else n + 1"
  show ?case
  proof (cases "n < x")
    case x: True
    then have n: "n < length e" using 1(5) by simp
    show ?thesis
    proof (cases "e ! n = 42 \<and> char_is (\<lambda>z. z = 47) e (n + 1)")
      case True
      then have "n' = n + 2" "c' = c" "a' = a"
        using 1(3) x by (simp_all add: comment_loop.simps [of e x n])
      moreover have "no_break e n (Suc (Suc n))"
        using True no_break_join [of e n "Suc n" "Suc (Suc n)"]
        by (auto simp: char_is_def isLineBreak_def)
      ultimately show ?thesis
        using line_at_no_break [OF 1(4), of "Suc (Suc n)"] True by (auto simp: char_is_def)
    next
      case no: False
      show ?thesis
      proof (cases "isLineBreak (e ! n)")
        case True
        then have "comment_loop e x ?j (c + 1) ?j = (n', True, c', a')"
          using 1(3) x no True by (subst (asm) comment_loop.simps) (auto simp: Let_def)
        then show ?thesis
          using 1(1) [OF x refl no True refl] line_at_break [OF 1(4) n True refl] 1(5) by simp
      next
        case False
        then have "comment_loop e x (n + 1) c a = (n', True, c', a')"
          using 1(3) x no False by (subst (asm) comment_loop.simps) (auto simp: Let_def)
        then show ?thesis
          using 1(2) [OF x refl no False] line_at_char [OF 1(4) n False] 1(5) by simp
      qed
    qed
  next
    case False
    then show ?thesis using 1(3) by (simp add: comment_loop.simps)
  qed
qed

abbreviation good_token :: "scanner \<Rightarrow> bool" where
  "good_token t \<equiv> tokenError t \<in> {NoScanError, UnexpectedEndOfNumber}"

lemma scanNext_lines:
  assumes l: "line_at (source st) (pos st) (lineNumber st) (lineStart st)"
    and b: "pos st < length (source st)" and g: "good_token (scanNext st)"
  shows "line_at (source st) (pos (scanNext st)) (lineNumber (scanNext st)) (lineStart (scanNext st))"
proof (rule scanNext_cases [OF b], goal_cases space line_end block inline)
  case (space n)
  have "no_break (source st) (pos st) n"
    unfolding space(3) by (rule no_break_skip) (use b in \<open>auto simp: isWhiteSpace_def isLineBreak_def\<close>)
  then show ?case
    using line_at_no_break [OF l] skip_bounds [of "pos st" "source st" isWhiteSpace] b
    by (simp add: space(1,3))
next
  case (line_end n)
  then show ?case using line_at_break [OF l b line_end(2) refl]
    by (simp add: line_end(1) flip: line_end(3))
next
  case block
  let ?e = "source st" and ?n = "pos st"
  obtain n1 cl c a where r: "comment_loop ?e (length ?e - 1) (?n + 2) (lineNumber st) (lineStart st)
      = (n1, cl, c, a)" by (metis prod_cases4)
  have s: "scanNext st = (accept (if cl then n1 else n1 + 1)
      (slice ?e (?n - 1) (if cl then n1 else n1 + 1)) BlockCommentTrivia (startToken st))
      \<lparr>lineNumber := c, lineStart := a, tokenError := (if cl then NoScanError else UnexpectedEndOfComment)\<rparr>"
    using block by (simp add: scanComment_def Let_def r [simplified] char_is_def)
  have cl using g by (simp add: s split: if_splits)
  have "no_break ?e ?n (Suc (Suc ?n))"
    using block(2,3) no_break_join [of ?e ?n "Suc ?n" "Suc (Suc ?n)"]
    by (auto simp: char_is_def isLineBreak_def)
  then have "line_at ?e (?n + 2) (lineNumber st) (lineStart st)"
    using line_at_no_break [OF l, of "?n + 2"] block(3) by (simp add: char_is_def)
  from comment_loop_lines [OF _ this] r \<open>cl\<close> b show ?case by (simp add: s)
next
  case (inline n v k f)
  then show ?case using line_at_no_break [OF l, of n] g by (simp add: inline(1))
qed

text \<open>An offset with its line has the position that the text document gives it.\<close>

lemma line_at_position:
  assumes "line_at e n c a"
  shows "position_in (rn e True 0) (int (length e)) (int n) = \<lparr>line = int c, character = int n - int a\<rparr>"
proof -
  let ?A = "eols 0 (take n e)" and ?B = "eols (int n) (drop n e)"
  have l: "n \<le> length e" "apart (take n e) (drop n e)" "c = length ?A" "int a = last (0 # ?A)"
    using assms by (simp_all add: line_at_def)
  have E: "eols 0 e = ?A @ ?B" using eols_append [OF l(2), of 0] l(1) by simp
  have "filter (\<lambda>x. x \<le> int n) ?A = ?A"
    by (rule filter_True) (use l(1) in \<open>auto dest: eols_bounds\<close>)
  moreover have "filter (\<lambda>x. x \<le> int n) ?B = []" by (auto simp: filter_empty_conv dest: eols_bounds)
  ultimately have "line (position_in (rn e True 0) (int (length e)) (int n)) = int c"
    using position_line [of e "int n"] l(1,3) by (simp add: E)
  moreover have "character (position_in (rn e True 0) (int (length e)) (int n)) =
      int n - rn e True 0 ! nat (line (position_in (rn e True 0) (int (length e)) (int n)))"
    using l(1) by (simp add: position_in_def Let_def rn_facts)
  moreover have "rn e True 0 ! c = int a"
    using l(3,4) by (cases ?A rule: rev_cases) (auto simp: rn_def E nth_append nth_Cons')
  ultimately show ?thesis by simp
qed


text \<open>The tokens up to the first one whose error may have hidden a line end.\<close>

definition before_error :: "scanner list \<Rightarrow> scanner list" where
  "before_error ts = take (length (takeWhile good_token ts) + 1) ts"

lemma before_error_Cons:
  "before_error (t # ts) = (if good_token t then t # before_error ts else [t])"
  by (simp add: before_error_def)

definition placed :: "code_units \<Rightarrow> scanner \<Rightarrow> bool" where
  "placed e t = (position_in (rn e True 0) (int (length e)) (int (tokenOffset t))
     = \<lparr>line = int (tokenLine t), character = int (getTokenStartCharacter t)\<rparr>)"

lemma line_at_start: "line_at e n c a \<Longrightarrow> a \<le> n"
proof -
  assume "line_at e n c a"
  then have "int a = last (0 # eols 0 (take n e))" by (simp add: line_at_def)
  moreover have "x \<in> set (0 # eols 0 (take n e)) \<Longrightarrow> x \<le> int n" for x
    by (auto dest: eols_bounds)
  ultimately show "a \<le> n" by (metis last_in_set list.distinct(1) of_nat_le_iff)
qed

lemma scan_all_placed:
  "line_at (source st) (pos st) (lineNumber st) (lineStart st) \<Longrightarrow>
   list_all (placed (source st)) (before_error (scan_all st))"
proof (induction st rule: scan_all.induct)
  case (1 st)
  have p: "placed (source st) (scanNext st)"
  proof (cases "length (source st) \<le> pos st")
    case True
    then have "pos st = length (source st)" using 1(2) by (simp add: line_at_def)
    then show ?thesis using line_at_position [OF 1(2)] line_at_start [OF 1(2)]
      by (simp add: scanNext_end placed_def getTokenStartCharacter_def of_nat_diff)
  next
    case False
    then show ?thesis using scanNext_step [of st] line_at_position [OF 1(2)] line_at_start [OF 1(2)]
      by (simp add: placed_def getTokenStartCharacter_def of_nat_diff)
  qed
  show ?case
  proof (cases "length (source st) \<le> pos st")
    case True
    then show ?thesis using p by (subst scan_all.simps) (simp add: before_error_Cons before_error_def)
  next
    case False
    then have b: "pos st < length (source st)" by simp
    have "scan_all st = scanNext st # scan_all (scanNext st)"
      using False by (subst scan_all.simps) simp
    then show ?thesis
      using 1(1) [OF False] scanNext_lines [OF 1(2) b] scanNext_step [OF b] p
      by (auto simp: before_error_Cons)
  qed
qed

section \<open>The tokens of a text\<close>

text \<open>
  C35. Scanning ends: the tokens cover the text without a gap, each but the last, the end of the file,
  at least one unit of it, so that there are at most as many as there are units, and one.
\<close>

theorem tokens_cover_text:
  "let ts = scan_all (createScanner e)
   in concat (map token_text ts) = e \<and> length ts \<le> length e + 1
      \<and> token (last ts) = EOF \<and> EOF \<notin> token ` set (butlast ts)
      \<and> list_all (\<lambda>t. token_text t \<noteq> []) (butlast ts)"
proof -
  let ?ts = "scan_all (createScanner e)"
  have "map token ?ts = map token (butlast ?ts) @ [EOF]"
    using scan_all_tiles [of "createScanner e"] by simp
  moreover have "?ts \<noteq> []" by (subst scan_all.simps) simp
  ultimately have "token (last ?ts) = EOF" by (metis last_map last_snoc)
  then show ?thesis
    using scan_all_tiles [of "createScanner e"] by (simp add: createScanner_def Let_def)
qed

text \<open>
  C36. The line and character that the scanner reports for a token are those of its offset in the text
  document, up to the first token with an error in a string or a comment.
\<close>

theorem tokens_placed:
  "list_all (placed e) (before_error (scan_all (createScanner e)))"
proof -
  have "line_at e 0 0 0" by (simp add: line_at_def)
  then show ?thesis using scan_all_placed [of "createScanner e"] by (simp add: createScanner_def)
qed

section \<open>Strings\<close>

text \<open>
  The strings of JSON (RFC 8259, section 7): between the quotes stand units that need no escape,
  escapes of two units, and escapes by the code of the unit.
\<close>

definition short_escapes :: "(nat \<times> nat) list" where
  "short_escapes = zip ([34, 92] @ utf16 ''/bfnrt'') [34, 92, 47, 8, 12, 10, 13, 9]"

definition hex_values :: "(nat \<times> nat) list" where
  "hex_values = zip (utf16 ''0123456789ABCDEFabcdef'') ([0..<16] @ [10..<16])"

inductive spelled :: "code_units \<Rightarrow> code_units \<Rightarrow> bool" where
  spelled_end: "spelled [] []"
| spelled_plain: "32 \<le> c \<Longrightarrow> c \<noteq> 34 \<Longrightarrow> c \<noteq> 92 \<Longrightarrow> spelled s v \<Longrightarrow> spelled (c # s) (c # v)"
| spelled_short: "map_of short_escapes k = Some c \<Longrightarrow> spelled s v \<Longrightarrow> spelled (92 # k # s) (c # v)"
| spelled_code: "map_of hex_values a = Some w \<Longrightarrow> map_of hex_values b = Some x \<Longrightarrow>
    map_of hex_values c = Some y \<Longrightarrow> map_of hex_values d = Some z \<Longrightarrow> spelled s v \<Longrightarrow>
    spelled (92 # 117 # a # b # c # d # s) ((((w * 16 + x) * 16 + y) * 16 + z) # v)"

text \<open>The tables of the grammar are those the scanner decides by.\<close>

lemma escaped_table: "escaped = map_of short_escapes"
proof
  have t: "short_escapes = [(34, 34), (92, 92), (47, 47), (98, 8), (102, 12), (110, 10), (114, 13), (116, 9)]"
    by code_simp
  show "escaped c = map_of short_escapes c" for c
    unfolding t by (simp add: escaped_def)
qed

lemma hex_digit_table: "hex_digit = map_of hex_values"
proof
  fix c :: nat
  have small: "list_all (\<lambda>c. hex_digit c = map_of hex_values c) [0..<103]" by code_simp
  show "hex_digit c = map_of hex_values c"
  proof (cases "c < 103")
    case True
    then show ?thesis using small by (simp add: list_all_iff)
  next
    case False
    moreover have "list_all (\<lambda>c. c < 103) (map fst hex_values)" by code_simp
    ultimately have "map_of hex_values c = None" by (auto simp: list_all_iff map_of_eq_None_iff)
    then show ?thesis using False by (simp add: hex_digit_def)
  qed
qed

lemma drop_Cons_nth: "drop n e = c # s \<Longrightarrow> n < length e \<and> e ! n = c \<and> drop (Suc n) e = s"
  by (metis Cons_nth_drop_Suc drop_eq_Nil2 leI list.distinct(1) list.inject)

lemma slice_snoc: "b \<le> n \<Longrightarrow> n < length e \<Longrightarrow> slice e b (Suc n) = slice e b n @ [e ! n]"
  by (simp add: slice_def Suc_diff_le take_Suc_conv_app_nth)

lemma slice_empty [simp]: "slice e n n = []"
  by (simp add: slice_def)

lemma scanString_spelled:
  "spelled s v \<Longrightarrow> b \<le> n \<Longrightarrow> drop n e = s @ 34 # r \<Longrightarrow>
   scanString e n b g f = (g @ slice e b n @ v, n + length s + 1, f)"
proof (induction arbitrary: n b g rule: spelled.induct)
  case spelled_end
  then show ?case using drop_Cons_nth [of n e 34 r] by (subst scanString.simps) simp
next
  case (spelled_plain c s v)
  have d: "n < length e" "e ! n = c" "drop (Suc n) e = s @ 34 # r"
    using drop_Cons_nth [of n e c] spelled_plain.prems(2) by auto
  have "scanString e n b g f = scanString e (Suc n) b g f"
    using d spelled_plain.hyps by (subst scanString.simps) (simp add: Let_def)
  then show ?case
    using spelled_plain.IH [of b "Suc n"] spelled_plain.prems d by (simp add: slice_snoc)
next
  case (spelled_short k c s v)
  have d: "n < length e" "e ! n = 92" "drop (Suc n) e = k # s @ 34 # r"
    using drop_Cons_nth [of n e 92] spelled_short.prems(2) by auto
  have d2: "Suc n < length e" "e ! Suc n = k" "drop (Suc (Suc n)) e = s @ 34 # r"
    using drop_Cons_nth [OF d(3)] by auto
  have "k \<noteq> 117" using spelled_short.hyps(1) by (auto simp: escaped_def simp flip: escaped_table)
  then have "scanString e n b g f = scanString e (n + 2) (n + 2) ((g @ slice e b n) @ [c]) f"
    using d d2 spelled_short.hyps(1) by (subst scanString.simps) (simp add: Let_def escaped_table)
  then show ?case using spelled_short.IH [of "n + 2" "n + 2"] d2 by simp
next
  case (spelled_code a w b' x c y d z s v)
  have d: "n < length e" "e ! n = 92" "drop (Suc n) e = 117 # a # b' # c # d # s @ 34 # r"
    using drop_Cons_nth [of n e 92] spelled_code.prems(2) by auto
  note d2 = drop_Cons_nth [OF d(3)]
  note d3 = drop_Cons_nth [OF d2 [THEN conjunct2, THEN conjunct2]]
  note d4 = drop_Cons_nth [OF d3 [THEN conjunct2, THEN conjunct2]]
  note d5 = drop_Cons_nth [OF d4 [THEN conjunct2, THEN conjunct2]]
  note d6 = drop_Cons_nth [OF d5 [THEN conjunct2, THEN conjunct2]]
  have "scanHexDigits e (n + 2) 4 0 = (Some (((w * 16 + x) * 16 + y) * 16 + z), n + 6)"
    using spelled_code.hyps(1-4) d3 d4 d5 d6 by (simp add: eval_nat_numeral hex_digit_table)
  then have "scanString e n b g f
      = scanString e (n + 6) (n + 6) ((g @ slice e b n) @ [((w * 16 + x) * 16 + y) * 16 + z]) f"
    using d d2 by (subst scanString.simps) (simp add: Let_def)
  moreover have "drop (n + 6) e = s @ 34 # r" using d6 by (simp add: eval_nat_numeral)
  ultimately show ?case using spelled_code.IH [of "n + 6" "n + 6"] by simp
qed

lemma scanHexDigits_one:
  "scanHexDigits e n (Suc k) v = (Some u, n') \<Longrightarrow>
   \<exists>a w. hex_digit a = Some w \<and> drop n e = a # drop (Suc n) e
     \<and> scanHexDigits e (Suc n) k (v * 16 + w) = (Some u, n')"
  by (auto split: option.splits if_splits simp flip: Cons_nth_drop_Suc intro!: exI [of _ "e ! n"])

lemma hex_digits_spelled:
  assumes "scanHexDigits e n 4 0 = (Some u, n')"
  obtains a b c d w x y z where "hex_digit a = Some w" "hex_digit b = Some x" "hex_digit c = Some y"
    "hex_digit d = Some z" "u = ((w * 16 + x) * 16 + y) * 16 + z" "n' = n + 4"
    "drop n e = a # b # c # d # drop (n + 4) e"
proof -
  have "scanHexDigits e n (Suc (Suc (Suc (Suc 0)))) 0 = (Some u, n')"
    using assms by (simp add: eval_nat_numeral)
  from scanHexDigits_one [OF this] obtain a w where 1: "hex_digit a = Some w"
      "drop n e = a # drop (Suc n) e"
      "scanHexDigits e (Suc n) (Suc (Suc (Suc 0))) (0 * 16 + w) = (Some u, n')" by blast
  from scanHexDigits_one [OF 1(3)] obtain b x where 2: "hex_digit b = Some x"
      "drop (Suc n) e = b # drop (Suc (Suc n)) e"
      "scanHexDigits e (Suc (Suc n)) (Suc (Suc 0)) ((0 * 16 + w) * 16 + x) = (Some u, n')" by blast
  from scanHexDigits_one [OF 2(3)] obtain c y where 3: "hex_digit c = Some y"
      "drop (Suc (Suc n)) e = c # drop (Suc (Suc (Suc n))) e"
      "scanHexDigits e (Suc (Suc (Suc n))) (Suc 0) (((0 * 16 + w) * 16 + x) * 16 + y) = (Some u, n')"
    by blast
  from scanHexDigits_one [OF 3(3)] obtain d z where 4: "hex_digit d = Some z"
      "drop (Suc (Suc (Suc n))) e = d # drop (Suc (Suc (Suc (Suc n)))) e"
      "scanHexDigits e (Suc (Suc (Suc (Suc n)))) 0 ((((0 * 16 + w) * 16 + x) * 16 + y) * 16 + z)
        = (Some u, n')" by blast
  have n4: "Suc (Suc (Suc (Suc n))) = n + 4" by simp
  show thesis
    by (rule that [OF 1(1) 2(1) 3(1) 4(1)]) (use 1(2) 2(2) 3(2) 4(2,3) n4 in auto)
qed

lemma scanString_errs:
  "n \<le> length e \<Longrightarrow> f \<noteq> NoScanError \<Longrightarrow> scanString e n b g f \<noteq> (v, n', NoScanError)"
  by (auto dest: scanString_no_break)

lemma scanString_reads_spelled:
  "scanString e n b g f = (r, n', NoScanError) \<Longrightarrow> b \<le> n \<Longrightarrow>
   \<exists>s v. spelled s v \<and> r = g @ slice e b n @ v \<and> drop n e = s @ 34 # drop n' e
     \<and> n' = n + length s + 1"
proof (induction "length e - n" arbitrary: n b g f rule: less_induct)
  case less
  let ?ex = "\<lambda>n b g. \<exists>s v. spelled s v \<and> r = g @ slice e b n @ v \<and> drop n e = s @ 34 # drop n' e
     \<and> n' = n + length s + 1"
  have n: "n < length e" using less(2) by (subst (asm) scanString.simps) (auto split: if_splits)
  have ih: "?ex k b' g'" if "scanString e k b' g' f'' = (r, n', NoScanError)" "n < k" "b' \<le> k"
    for k b' g' f''
  proof -
    have "length e - k < length e - n" using that(2) n by linarith
    from less(1) [OF this that(1,3)] show ?thesis .
  qed
  have d: "drop n e = e ! n # drop (Suc n) e" using n by (simp add: Cons_nth_drop_Suc)
  consider "e ! n = 34" | "e ! n = 92" | "e ! n \<noteq> 34" "e ! n \<noteq> 92" by blast
  then show ?case
  proof cases
    case 1
    then have "r = g @ slice e b n" "n' = Suc n"
      using less(2) n by (subst (asm) scanString.simps, simp)+
    then show ?thesis using d 1 spelled_end by force
  next
    case 2
    then have n1: "Suc n < length e"
      using less(2) n by (subst (asm) scanString.simps) (auto simp: Let_def split: if_splits)
    then have d1: "drop n e = 92 # e ! Suc n # drop (Suc (Suc n)) e"
      using d 2 by (simp add: Cons_nth_drop_Suc)
    show ?thesis
    proof (cases "e ! Suc n = 117")
      case True
      obtain o' k where h: "scanHexDigits e (n + 2) 4 0 = (o', k)" by fastforce
      have k: "n + 2 \<le> k" "k \<le> length e"
        using scanHexDigits_bounds [of "n + 2" e 4 0] n1 unfolding h by simp_all
      have "scanString e n b g f = (case o' of
            Some u \<Rightarrow> scanString e k k ((g @ slice e b n) @ [u]) f
          | None \<Rightarrow> scanString e k k (g @ slice e b n) InvalidUnicode)"
        using 2 True n n1 h by (subst scanString.simps) (simp add: Let_def split: option.split)
      then obtain u where u: "o' = Some u"
          "scanString e k k ((g @ slice e b n) @ [u]) f = (r, n', NoScanError)"
        using less(2) k(2) by (cases o') (auto simp: scanString_errs scanString_errs [THEN not_sym])
      obtain a b' c d w x y z where x: "hex_digit a = Some w" "hex_digit b' = Some x"
          "hex_digit c = Some y" "hex_digit d = Some z" "u = ((w * 16 + x) * 16 + y) * 16 + z"
          "k = n + 2 + 4" "drop (n + 2) e = a # b' # c # d # drop (n + 2 + 4) e"
        using hex_digits_spelled [OF h [unfolded u(1)]] by metis
      from ih [OF u(2)] k(1) obtain s v where "spelled s v" "r = ((g @ slice e b n) @ [u]) @ v"
        "drop k e = s @ 34 # drop n' e" "n' = k + length s + 1" by auto
      then show ?thesis using spelled_code [OF x(1-4) [unfolded hex_digit_table], of s v] d1 True x(5-7)
        by (intro exI [of _ "92 # 117 # a # b' # c # d # s"] exI [of _ "u # v"]) simp
    next
      case False
      have "scanString e n b g f = (case escaped (e ! Suc n) of
            Some u \<Rightarrow> scanString e (n + 2) (n + 2) ((g @ slice e b n) @ [u]) f
          | None \<Rightarrow> scanString e (n + 2) (n + 2) (g @ slice e b n) InvalidEscapeCharacter)"
        using 2 False n n1 by (subst scanString.simps) (simp add: Let_def split: option.split)
      then obtain u where u: "escaped (e ! Suc n) = Some u"
          "scanString e (n + 2) (n + 2) ((g @ slice e b n) @ [u]) f = (r, n', NoScanError)"
        using less(2) n1 by (cases "escaped (e ! Suc n)") (auto simp: scanString_errs scanString_errs [THEN not_sym])
      from ih [OF u(2)] obtain s v where "spelled s v" "r = ((g @ slice e b n) @ [u]) @ v"
        "drop (n + 2) e = s @ 34 # drop n' e" "n' = n + 2 + length s + 1" by auto
      then show ?thesis using spelled_short [OF u(1) [unfolded escaped_table], of s v] d1
        by (intro exI [of _ "92 # e ! Suc n # s"] exI [of _ "u # v"]) simp
    qed
  next
    case 3
    have c: "32 \<le> e ! n"
    proof (rule ccontr)
      assume "\<not> 32 \<le> e ! n"
      then have "scanString e n b g f = (if isLineBreak (e ! n) then (g @ slice e b n, n, UnexpectedEndOfString)
          else scanString e (Suc n) b g InvalidCharacter)"
        using 3 n by (subst scanString.simps) (simp add: Let_def)
      then show False using less(2) n by (auto simp: scanString_errs scanString_errs [THEN not_sym] split: if_splits)
    qed
    then have "scanString e (Suc n) b g f = (r, n', NoScanError)"
      using less(2) 3 n by (subst (asm) scanString.simps) (simp add: Let_def)
    from ih [OF this] less(3) obtain s v where "spelled s v" "r = g @ slice e b (Suc n) @ v"
      "drop (Suc n) e = s @ 34 # drop n' e" "n' = Suc n + length s + 1" by auto
    then show ?thesis using spelled_plain [OF c 3] d less(3) n
      by (intro exI [of _ "e ! n # s"] exI [of _ "e ! n # v"]) (simp add: slice_snoc)
  qed
qed

text \<open>
  C37. A token is a string without an error exactly when its text is a string of JSON between quotes,
  and then its value is the string that is spelled.
\<close>

theorem string_token:
  "token (scanNext st) = StringLiteral \<and> tokenError (scanNext st) = NoScanError
     \<and> tokenValue (scanNext st) = v \<and> pos (scanNext st) = n
   \<longleftrightarrow> n \<le> length (source st) \<and> (\<exists>s. spelled s v \<and> slice (source st) (pos st) n = 34 # s @ [34])"
  (is "?L \<longleftrightarrow> ?R")
proof
  let ?e = "source st" and ?n = "pos st"
  assume L: ?L
  have b: "?n < length ?e" using L by (cases "?n < length ?e") (auto simp: scanNext_end)
  have q: "?e ! ?n = 34"
    using L b by (auto simp: scanNext_def Let_def scanComment_def keyword_def split: if_splits prod.splits)
  then have s: "scanString ?e (?n + 1) (?n + 1) [] NoScanError = (v, n, NoScanError)"
    using L b by (auto simp: scanNext_def Let_def isWhiteSpace_def isLineBreak_def split: prod.splits)
  then obtain s where "spelled s v" "drop (?n + 1) ?e = s @ 34 # drop n ?e" "n = ?n + 1 + length s + 1"
    using scanString_reads_spelled [OF s] by auto
  moreover from this have "drop ?n ?e = (34 # s @ [34]) @ drop n ?e"
    using b q by (simp flip: Cons_nth_drop_Suc)
  moreover have "n \<le> length ?e" using scanString_bounds [OF _ s] b by simp
  ultimately show ?R by (auto simp: slice_def)
next
  let ?e = "source st" and ?n = "pos st"
  assume ?R
  then obtain s where n: "n \<le> length ?e" and s: "spelled s v" "slice ?e ?n n = 34 # s @ [34]" by auto
  have len: "n = ?n + length s + 2"
    using arg_cong [OF s(2), of length] n by (simp add: slice_def)
  have "drop ?n ?e = slice ?e ?n n @ drop n ?e"
    using len append_take_drop_id [of "n - ?n" "drop ?n ?e"] by (simp add: slice_def add.commute)
  then have d: "drop ?n ?e = 34 # s @ 34 # drop n ?e" using s(2) by simp
  note q = drop_Cons_nth [OF d]
  have "scanString ?e (?n + 1) (?n + 1) [] NoScanError = (v, n, NoScanError)"
    using scanString_spelled [OF s(1) order_refl, of "?n + 1" ?e "drop n ?e" "[]" NoScanError] q len
    by simp
  then show ?L using q by (simp add: scanNext_def Let_def isWhiteSpace_def isLineBreak_def)
qed

text \<open>
  What the scanner gets wrong: the value of a comment begins with the unit before it, an
  unterminated comment may end behind the text, and an escaped line end in a string is not counted.
\<close>

theorem scanner_slips:
  "let t = scanNext (scanNext (createScanner (utf16 ''1//x''))) in tokenValue t = utf16 ''1//x''"
  "let t = scanNext (createScanner (utf16 ''/*'')) in tokenOffset t = 0 \<and> getTokenLength t = 3"
  "let e = [34, 92, 10, 34]; t = scanNext (scanNext (createScanner e))
   in token t = EOF \<and> tokenLine t = 0 \<and> position_in (rn e True 0) 4 (int (tokenOffset t)) = \<lparr>line = 1, character = 1\<rparr>"
  by code_simp+

end
