(* ===== verification/JsonFormat.thy ===== *)
theory JsonFormat
  imports JsonScanner
begin

text \<open>
  The formatter of the JSON language service (\<open>monaco/vs/language/json/jsonWorker.js\<close>, lines 10 to 21,
  function \<open>pt\<close> with its helpers \<open>y\<close>, \<open>k\<close>, \<open>g\<close>, \<open>Oe\<close>, \<open>Or\<close>, \<open>Tr\<close>, \<open>ht\<close>, and \<open>Fe\<close> of lines 39
  and 40, which gives its edits positions in the text document). It reads the tokens of
  \<open>JsonScanner\<close> and proposes edits between them; \<open>applyEdits\<close> of \<open>TextDocument\<close> carries them out.
  The minified names stand beside the definitions.
\<close>

section \<open>Options and helpers\<close>

record format_options =
  tabSize :: nat
  insertSpaces :: bool
  keepLines :: bool
  insertFinalNewline :: bool
  eol :: code_units       \<comment> \<open>empty when not given\<close>

definition white :: "nat \<Rightarrow> bool" where
  "white c = (isWhiteSpace c \<or> isLineBreak c)"

definition repeat_text :: "code_units \<Rightarrow> int \<Rightarrow> code_units" where   \<comment> \<open>\<open>Oe\<close>\<close>
  "repeat_text s t = concat (replicate (nat t) s)"

definition tab_width :: "format_options \<Rightarrow> nat" where   \<comment> \<open>\<open>r.tabSize || 4\<close>\<close>
  "tab_width r = (if tabSize r = 0 then 4 else tabSize r)"

text \<open>\<open>Or\<close>: the width of the white space in front, in units of the tabulator.\<close>

fun indent_width :: "nat \<Rightarrow> code_units \<Rightarrow> nat" where
  "indent_width i [] = 0"
| "indent_width i (c # cs) =
     (if c = 32 then 1 + indent_width i cs else if c = 9 then i + indent_width i cs else 0)"

definition computeIndentLevel :: "code_units \<Rightarrow> format_options \<Rightarrow> nat" where
  "computeIndentLevel e r = indent_width (tab_width r) e div tab_width r"

text \<open>\<open>Tr\<close>: the first line end of the text, or that of the options.\<close>

fun getEOL :: "format_options \<Rightarrow> code_units \<Rightarrow> code_units" where
  "getEOL r [] = (if eol r = [] then [LF] else eol r)"
| "getEOL r (c # cs) =
     (if c = CR then (if cs \<noteq> [] \<and> hd cs = LF then [CR, LF] else [CR])
      else if c = LF then [LF] else getEOL r cs)"

text \<open>\<open>ht\<close>: behind the text \<open>charAt\<close> is the empty text, which \<open>indexOf\<close> finds everywhere.\<close>

definition isEOL :: "code_units \<Rightarrow> nat \<Rightarrow> bool" where
  "isEOL e t = (t \<ge> length e \<or> isLineBreak (e ! t))"

fun line_begin :: "code_units \<Rightarrow> nat \<Rightarrow> nat" where
  "line_begin e 0 = 0"
| "line_begin e (Suc s) = (if isEOL e s then Suc s else line_begin e s)"

section \<open>The state of the formatter\<close>

record format_edit =
  edit_offset :: nat
  edit_length :: int
  edit_content :: "code_units option"   \<comment> \<open>\<open>None\<close> is \<open>undefined\<close>\<close>

record format_env =
  full_text :: code_units             \<comment> \<open>\<open>e\<close>\<close>
  base :: nat                         \<comment> \<open>\<open>s\<close>: where the formatted part begins\<close>
  within :: "(nat \<times> nat) option"      \<comment> \<open>\<open>o\<close> and \<open>c\<close>, when a range is given\<close>
  settings :: format_options          \<comment> \<open>\<open>r\<close>\<close>
  line_end :: code_units              \<comment> \<open>\<open>l\<close>\<close>
  indent_unit :: code_units           \<comment> \<open>\<open>d\<close>\<close>
  start_level :: nat                  \<comment> \<open>\<open>n\<close>\<close>

record format_state =
  scan :: scanner                     \<comment> \<open>\<open>p\<close>\<close>
  breaks :: nat                       \<comment> \<open>\<open>u\<close>\<close>
  level :: int                        \<comment> \<open>\<open>f\<close>\<close>
  has_error :: bool                   \<comment> \<open>\<open>m\<close>\<close>
  edits :: "format_edit list"         \<comment> \<open>\<open>w\<close>\<close>

text \<open>
  \<open>y\<close>: line ends and the indentation. Up to a width of 200 it is taken from a table \<open>dt\<close> of 200
  entries, 0 to 199, for the three usual line ends \<open>on\<close>.
\<close>

definition newLine :: "format_env \<Rightarrow> format_state \<Rightarrow> code_units option" where
  "newLine v st =
     (let d = indent_unit v; l = line_end v; n = int (start_level v) + level st;
          x = int (length d) * n
      in if breaks st > 1 then Some (repeat_text l (int (breaks st)) @ repeat_text d n)
         else if l \<notin> {[LF], [CR], [CR, LF]} \<or> x > 200 then Some (l @ repeat_text d n)
         else if x \<le> 0 then Some l
         else if x < 200 then Some (l @ replicate (nat x) (if d = [9] then 9 else 32))
         else None)"

text \<open>\<open>k\<close>: the next token that is no white space, with the number of line ends before it.\<close>

function skip_trivia :: "bool \<Rightarrow> nat \<Rightarrow> scanner \<Rightarrow> scanner \<times> nat" where
  "skip_trivia keep u sc =
     (let sc' = scanNext sc in
      if token sc' = LineBreakTrivia then skip_trivia keep (if keep then u + 1 else 1) sc'
      else if token sc' = Trivia then skip_trivia keep u sc'
      else (sc', u))"
  by pat_completeness auto
termination
proof (relation "measure (\<lambda>(keep, u, sc). length (source sc) - pos sc)", goal_cases)
  case (2 keep u sc)
  then show ?case using scanNext_step [of sc]
    by (cases "pos sc < length (source sc)") (auto simp: scanNext_end)
next
  case (3 keep u sc)
  then show ?case using scanNext_step [of sc]
    by (cases "pos sc < length (source sc)") (auto simp: scanNext_end)
qed simp

declare skip_trivia.simps [simp del]

definition nextToken :: "format_env \<Rightarrow> format_state \<Rightarrow> format_state" where
  "nextToken v st =
     (let (sc, u) = skip_trivia (keepLines (settings v)) 0 (scan st)
      in st\<lparr>scan := sc, breaks := u,
            has_error := (token sc = Unknown \<or> tokenError sc \<noteq> NoScanError)\<rparr>)"

text \<open>\<open>g\<close>: an edit that puts a text in place of what is between two offsets.\<close>

definition addEdit :: "format_env \<Rightarrow> code_units option \<Rightarrow> nat \<Rightarrow> nat \<Rightarrow> format_state \<Rightarrow> format_state" where
  "addEdit v x t e st =
     (if \<not> has_error st
         \<and> (case within v of None \<Rightarrow> True | Some (a, b) \<Rightarrow> t < b \<and> e > a)
         \<and> Some (substring (full_text v) (int t) (int e)) \<noteq> x
      then st\<lparr>edits := edits st
             @ [\<lparr>edit_offset = t, edit_length = int e - int t, edit_content = x\<rparr>]\<rparr>
      else st)"

section \<open>What is passed over\<close>

definition is_comment :: "syntax_kind \<Rightarrow> bool" where
  "is_comment k = (k = LineCommentTrivia \<or> k = BlockCommentTrivia)"

definition token_end :: "format_env \<Rightarrow> format_state \<Rightarrow> nat" where
  "token_end v st = tokenOffset (scan st) + getTokenLength (scan st) + base v"

definition token_begin :: "format_env \<Rightarrow> format_state \<Rightarrow> nat" where
  "token_begin v st = tokenOffset (scan st) + base v"

text \<open>White space between two offsets.\<close>

definition blank :: "code_units \<Rightarrow> nat \<Rightarrow> nat \<Rightarrow> bool" where
  "blank e i j = (\<forall>k. i \<le> k \<and> k < j \<longrightarrow> white (e ! k))"

lemma blank_join: "blank e i k \<Longrightarrow> blank e k j \<Longrightarrow> blank e i j"
  unfolding blank_def by (meson not_le)

lemma blank_empty [simp]: "j \<le> i \<Longrightarrow> blank e i j"
  by (auto simp: blank_def)

lemma trivia_blank:
  assumes "pos sc < length (source sc)" "token (scanNext sc) \<in> {Trivia, LineBreakTrivia}"
  shows "blank (source sc) (pos sc) (pos (scanNext sc)) \<and> pos (scanNext sc) \<le> length (source sc)"
proof (rule scanNext_cases [OF assms(1)], goal_cases space line_end block inline)
  case (space n)
  have "blank (source sc) (pos sc) n"
    using skip_all [of "pos sc" "source sc" _ isWhiteSpace] assms(1)
    by (simp add: blank_def white_def space(3))
  then show ?case
    using skip_bounds [of "pos sc" "source sc" isWhiteSpace] assms(1)
    by (simp add: space(1)) (simp add: space(3))
next
  case (line_end n)
  have "source sc ! pos sc = CR \<and> char_is (\<lambda>c. c = LF) (source sc) (pos sc + 1) \<Longrightarrow>
      blank (source sc) (pos sc) (pos sc + 2)"
    by (auto simp: blank_def white_def isLineBreak_def char_is_def less_Suc_eq dest: le_antisym)
  moreover have "blank (source sc) (pos sc) (pos sc + 1)"
    using line_end(2) by (auto simp: blank_def white_def less_Suc_eq dest: le_antisym)
  ultimately show ?case using assms(1) by (auto simp: line_end(1,3) char_is_def)
next
  case block
  then show ?case using assms(2) by (auto simp: scanComment_def Let_def split: if_splits prod.splits)
next
  case (inline n v k f)
  then show ?case using assms(2) by simp
qed

text \<open>
  What \<open>skip_trivia\<close> passes over is white space. Unless the text is at its end, the scanner has
  moved; a scanner one unit behind the text stays there.
\<close>

lemma skip_trivia_blank:
  "skip_trivia keep u sc = (sc', u') \<Longrightarrow> pos sc \<le> length (source sc) + 1 \<Longrightarrow>
   source sc' = source sc \<and> blank (source sc) (pos sc) (tokenOffset sc')
   \<and> token sc' \<notin> {Trivia, LineBreakTrivia}
   \<and> tokenOffset sc' \<le> pos sc' \<and> tokenOffset sc' \<le> length (source sc)
   \<and> pos sc \<le> tokenOffset sc' + 1 \<and> (pos sc \<le> length (source sc) \<longrightarrow> pos sc \<le> tokenOffset sc')
   \<and> pos sc' \<le> length (source sc) + 1 \<and> pos sc \<le> pos sc'
   \<and> (if pos sc < length (source sc) then token sc' = EOF \<or> pos sc < pos sc' else token sc' = EOF)
   \<and> (pos sc' \<le> length (source sc) \<or> token sc' = EOF \<or> tokenError sc' = UnexpectedEndOfComment)"
proof (induction keep u sc rule: skip_trivia.induct)
  case (1 keep u sc)
  let ?s = "scanNext sc" and ?e = "source sc"
  show ?case
  proof (cases "pos sc < length ?e")
    case True
    note s = scanNext_step [OF True]
    show ?thesis
    proof (cases "token ?s \<in> {Trivia, LineBreakTrivia}")
      case t: True
      note b = trivia_blank [OF True t]
      obtain k where k: "skip_trivia keep k ?s = (sc', u')"
          "token ?s = LineBreakTrivia \<Longrightarrow> k = (if keep then u + 1 else 1)"
          "token ?s = Trivia \<Longrightarrow> k = u"
        using 1(3) t by (subst (asm) skip_trivia.simps) (auto simp: Let_def split: if_splits)
      show ?thesis
      proof (cases "token ?s = LineBreakTrivia")
        case br: True
        have "skip_trivia keep (if keep then u + 1 else 1) ?s = (sc', u')" using k br by simp
        from 1(1) [OF refl br this] s b show ?thesis
          using True blank_join by (auto split: if_splits)
      next
        case False
        then have tr: "token ?s = Trivia" using t by simp
        have "skip_trivia keep u ?s = (sc', u')" using k tr by simp
        from 1(2) [OF refl False tr this] s b show ?thesis
          using True blank_join by (auto split: if_splits)
      qed
    next
      case False
      then have "sc' = ?s"
        using 1(3) by (subst (asm) skip_trivia.simps) (auto simp: Let_def split: if_splits)
      then show ?thesis using s True False by auto
    qed
  next
    case False
    then have "sc' = ?s"
      using 1(3) by (subst (asm) skip_trivia.simps) (auto simp: Let_def scanNext_end split: if_splits)
    then show ?thesis using False 1(4) by (auto simp: scanNext_end)
  qed
qed

section \<open>The loop\<close>

text \<open>What is left to do; the end of the file counts less than any other token.\<close>

definition left_over :: "format_state \<Rightarrow> nat" where
  "left_over st = (length (source (scan st)) - pos (scan st))
     + (if token (scan st) = EOF then 0 else 1)"

lemma left_over_addEdit [simp]: "left_over (addEdit v x t e st) = left_over st"
  by (simp add: left_over_def addEdit_def)

lemma left_over_nextToken:
  assumes "token (scan st) \<noteq> EOF"
  shows "left_over (nextToken v st) < left_over st"
proof -
  let ?sc = "scan st"
  obtain sc u where s: "skip_trivia (keepLines (settings v)) 0 ?sc = (sc, u)" by fastforce
  show ?thesis
  proof (cases "pos ?sc < length (source ?sc)")
    case True
    then show ?thesis using skip_trivia_blank [OF s] assms
      by (auto simp: left_over_def nextToken_def s)
  next
    case False
    then have "sc = scanNext ?sc"
      using s by (subst (asm) skip_trivia.simps) (auto simp: Let_def scanNext_end)
    then show ?thesis using False assms by (simp add: left_over_def nextToken_def s scanNext_end)
  qed
qed

text \<open>
  The comments that follow a token in its line: one blank before each, and a line end due after a
  line comment. \<open>x\<close> is the end of the token or comment before, \<open>o'\<close> the text due after it, \<open>i\<close>
  says that the last one was a line comment.
\<close>

function line_comments :: "format_env \<Rightarrow> nat \<Rightarrow> code_units option \<Rightarrow> bool \<Rightarrow> format_state
    \<Rightarrow> nat \<times> code_units option \<times> bool \<times> format_state" where
  "line_comments v x o' i st =
     (if breaks st = 0 \<and> is_comment (token (scan st)) then
        let st1 = addEdit v (Some [32]) x (token_begin v st) st;
            i' = (token (scan st1) = LineCommentTrivia)
        in line_comments v (token_end v st1) (if i' then newLine v st1 else Some []) i'
             (nextToken v st1)
      else (x, o', i, st))"
  by pat_completeness auto
termination
proof (relation "measure (\<lambda>(v, x, o', i, st). left_over st)", goal_cases)
  case (2 v x o' i st)
  then have "token (scan (addEdit v (Some [32]) x (token_begin v st) st)) \<noteq> EOF"
    by (auto simp: addEdit_def is_comment_def)
  then show ?case using left_over_nextToken 2 by fastforce
qed simp

declare line_comments.simps [simp del]

text \<open>The text due before a closing bracket, whose opening bracket is \<open>k\<close>.\<close>

definition close_bracket :: "format_env \<Rightarrow> syntax_kind \<Rightarrow> syntax_kind \<Rightarrow> code_units option \<Rightarrow> format_state
    \<Rightarrow> code_units option \<times> format_state" where
  "close_bracket v k s o' st =
     (let st' = (if s \<noteq> k then st\<lparr>level := level st - 1\<rparr> else st); keep = keepLines (settings v) in
      (if keep \<and> breaks st > 0 \<or> \<not> keep \<and> s \<noteq> k then newLine v st'
       else if keep then Some [32] else o', st'))"

text \<open>The text due between the token \<open>s\<close> and a token \<open>t\<close> that closes nothing.\<close>

definition between :: "format_env \<Rightarrow> syntax_kind \<Rightarrow> syntax_kind \<Rightarrow> bool \<Rightarrow> code_units option \<Rightarrow> format_state
    \<Rightarrow> code_units option \<times> format_state" where
  "between v s t i o' st =
     (let keep = keepLines (settings v); u = breaks st;
          open' = st\<lparr>level := level st + 1\<rparr>
      in case s of
           OpenBracketToken \<Rightarrow>
             (if keep \<and> u > 0 \<or> \<not> keep then newLine v open' else Some [32], open')
         | OpenBraceToken \<Rightarrow>
             (if keep \<and> u > 0 \<or> \<not> keep then newLine v open' else Some [32], open')
         | CommaToken \<Rightarrow> (if keep \<and> u > 0 \<or> \<not> keep then newLine v st else Some [32], st)
         | LineCommentTrivia \<Rightarrow> (newLine v st, st)
         | BlockCommentTrivia \<Rightarrow>
             (if u > 0 then newLine v st else if i then o' else Some [32], st)
         | ColonToken \<Rightarrow>
             (if keep \<and> u > 0 then newLine v st else if i then o' else Some [32], st)
         | StringLiteral \<Rightarrow>
             (if keep \<and> u > 0 then newLine v st
              else if t = ColonToken \<and> \<not> i then Some [] else o', st)
         | Unknown \<Rightarrow> (o', st\<lparr>has_error := True\<rparr>)
         | EOF \<Rightarrow> (o', st)
         | Trivia \<Rightarrow> (o', st)
         | LineBreakTrivia \<Rightarrow> (o', st)
         | _ \<Rightarrow>
             (if keep \<and> u > 0 then (newLine v st, st)
              else if is_comment t \<and> \<not> i then (Some [32], st)
              else if t \<noteq> CommaToken \<and> t \<noteq> EOF then (o', st\<lparr>has_error := True\<rparr>)
              else (o', st)))"

definition format_step :: "format_env \<Rightarrow> format_state \<Rightarrow> format_state" where
  "format_step v st =
     (let s = token (scan st);
          (x, o', i, st1) = line_comments v (token_end v st) (Some []) False (nextToken v st);
          t = token (scan st1); u = breaks st1;
          (o1, st2) =
            (if t = CloseBraceToken then close_bracket v OpenBraceToken s o' st1
             else if t = CloseBracketToken then close_bracket v OpenBracketToken s o' st1
             else let (o1, st2) = between v s t i o' st1
                  in (if u > 0 \<and> is_comment t then newLine v st2 else o1, st2));
          o2 = (if t = EOF
                then (if keepLines (settings v) \<and> u > 0 then newLine v st2
                      else Some (if insertFinalNewline (settings v) then line_end v else []))
                else o1)
      in addEdit v o2 x (token_begin v st1) st2)"

lemma line_comments_scan:
  "line_comments v x o' i st = (x', o2, i', st') \<Longrightarrow> left_over st' \<le> left_over st"
proof (induction v x o' i st rule: line_comments.induct)
  case (1 v x o' i st)
  show ?case
  proof (cases "breaks st = 0 \<and> is_comment (token (scan st))")
    case True
    let ?st = "addEdit v (Some [32]) x (token_begin v st) st"
    have "left_over st' \<le> left_over (nextToken v ?st)"
      using 1 True by (subst (asm) (2) line_comments.simps) (simp add: Let_def)
    moreover have "token (scan ?st) \<noteq> EOF" using True by (auto simp: addEdit_def is_comment_def)
    ultimately show ?thesis using left_over_nextToken [of ?st v] by simp
  next
    case False
    then show ?thesis using 1(2) by (subst (asm) line_comments.simps) auto
  qed
qed

lemma separators_scan:
  "close_bracket v k s o' st = (o1, st2) \<Longrightarrow> left_over st2 = left_over st"
  "between v s t i o' st = (o1, st2) \<Longrightarrow> left_over st2 = left_over st"
  by (auto simp: close_bracket_def between_def left_over_def Let_def
      split: syntax_kind.splits if_splits)

lemma format_step_less:
  assumes "token (scan st) \<noteq> EOF"
  shows "left_over (format_step v st) < left_over st"
proof -
  obtain x o' i st1 where l: "line_comments v (token_end v st) (Some []) False (nextToken v st)
      = (x, o', i, st1)" by (metis prod_cases4)
  have "left_over (format_step v st) = left_over st1"
    using separators_scan
    by (auto simp: format_step_def l Let_def split: prod.splits)
  also have "\<dots> \<le> left_over (nextToken v st)" by (rule line_comments_scan [OF l])
  also have "\<dots> < left_over st" by (rule left_over_nextToken [OF assms])
  finally show ?thesis .
qed

function format_loop :: "format_env \<Rightarrow> format_state \<Rightarrow> format_state" where
  "format_loop v st = (if token (scan st) = EOF then st else format_loop v (format_step v st))"
  by pat_completeness auto
termination
  by (relation "measure (\<lambda>(v, st). left_over st)") (auto intro: format_step_less)

declare format_loop.simps [simp del]

text \<open>
  \<open>pt\<close>: a range, given as offset and length, is widened to whole lines, of which the first gives
  the level of indentation.
\<close>

definition format_part :: "code_units \<Rightarrow> (nat \<times> int) option \<Rightarrow> format_options
    \<Rightarrow> format_env \<times> code_units" where
  "format_part e t r =
     (let d = (if insertSpaces r then replicate (tab_width r) 32 else [9]); l = getEOL r e in
      case t of
        None \<Rightarrow> (\<lparr>full_text = e, base = 0, within = None, settings = r, line_end = l,
                   indent_unit = d, start_level = 0\<rparr>, e)
      | Some (a, n) \<Rightarrow>
          let c = nat (int a + n); s = line_begin e a;
              i = substring e (int s) (int (skip (\<lambda>c. \<not> isLineBreak c) e c))
          in (\<lparr>full_text = e, base = s, within = Some (a, c), settings = r, line_end = l,
                indent_unit = d, start_level = computeIndentLevel i r\<rparr>, i))"

definition start_state :: "code_units \<Rightarrow> format_state" where
  "start_state i = \<lparr>scan = createScanner i, breaks = 0, level = 0, has_error = False, edits = []\<rparr>"

definition first_indent :: "format_env \<Rightarrow> code_units" where
  "first_indent v = (let k = length (indent_unit v) * start_level v in
     if k < 20 \<and> insertSpaces (settings v) then replicate k 32
     else repeat_text (indent_unit v) (int (start_level v)))"

definition format_first :: "format_env \<Rightarrow> format_state \<Rightarrow> format_state" where
  "format_first v st0 =
     (let st = nextToken v st0;
          st1 = (if keepLines (settings v) \<and> breaks st > 0
                 then addEdit v (Some (repeat_text (line_end v) (int (breaks st)))) 0 0 st else st)
      in if token (scan st) \<noteq> EOF
         then addEdit v (Some (first_indent v)) (base v) (token_begin v st) st1
         else st1)"

definition format_json :: "code_units \<Rightarrow> (nat \<times> int) option \<Rightarrow> format_options \<Rightarrow> format_edit list" where
  "format_json e t r =
     (let (v, i) = format_part e t r in edits (format_loop v (format_first v (start_state i))))"

section \<open>Edits stay between the tokens\<close>

text \<open>The tokens that are not white space, as \<open>skip_trivia\<close> finds them.\<close>

definition real_tokens :: "scanner \<Rightarrow> scanner list" where
  "real_tokens sc = filter (\<lambda>t. token t \<notin> {Trivia, LineBreakTrivia}) (scan_all sc)"

lemma scan_all_unfold: "scan_all sc = scanNext sc
    # (if length (source sc) \<le> pos sc then [] else scan_all (scanNext sc))"
  by (subst scan_all.simps) simp

lemma real_tokens_skip:
  "skip_trivia keep u sc = (sc', u') \<Longrightarrow>
   real_tokens sc = sc' # (if token sc' = EOF then [] else real_tokens sc')"
proof (induction keep u sc rule: skip_trivia.induct)
  case (1 keep u sc)
  let ?s = "scanNext sc"
  show ?case
  proof (cases "token ?s \<in> {Trivia, LineBreakTrivia}")
    case True
    then have "pos sc < length (source sc)" by (cases "length (source sc) \<le> pos sc") (auto simp: scanNext_end)
    then have "real_tokens sc = real_tokens ?s"
      using True by (simp add: real_tokens_def scan_all_unfold [of sc])
    moreover have "real_tokens ?s = sc' # (if token sc' = EOF then [] else real_tokens sc')"
      using 1 True by (subst (asm) (3) skip_trivia.simps) (auto simp: Let_def split: if_splits)
    ultimately show ?thesis by simp
  next
    case False
    then have "sc' = ?s"
      using 1(3) by (subst (asm) skip_trivia.simps) (auto simp: Let_def split: if_splits)
    moreover have "token ?s = EOF \<longleftrightarrow> length (source sc) \<le> pos sc"
      using scanNext_step [of sc] by (cases "length (source sc) \<le> pos sc") (auto simp: scanNext_end)
    ultimately show ?thesis
      using False by (simp add: real_tokens_def scan_all_unfold [of sc])
  qed
qed

text \<open>Every token found from a place on begins there or later.\<close>

lemma real_tokens_after:
  "pos sc \<le> length (source sc) \<Longrightarrow> t \<in> set (real_tokens sc) \<Longrightarrow> pos sc \<le> tokenOffset t"
proof (induction sc rule: scan_all.induct)
  case (1 sc)
  show ?case
  proof (cases "length (source sc) \<le> pos sc")
    case True
    then show ?thesis using 1(2,3) by (simp add: real_tokens_def scan_all_unfold [of sc] scanNext_end)
  next
    case False
    then have b: "pos sc < length (source sc)" by simp
    note s = scanNext_step [OF b]
    have "t = scanNext sc \<or> t \<in> set (real_tokens (scanNext sc))"
      using 1(3) False by (auto simp: real_tokens_def scan_all_unfold [of sc] split: if_splits)
    then show ?thesis
    proof
      assume t: "t \<in> set (real_tokens (scanNext sc))"
      show ?thesis
      proof (cases "pos (scanNext sc) \<le> length (source (scanNext sc))")
        case True
        then show ?thesis using 1(1) [OF False True t] s by simp
      next
        case False
        then have "t = scanNext (scanNext sc)"
          using t by (simp add: real_tokens_def scan_all_unfold [of "scanNext sc"] split: if_splits)
        then show ?thesis using False b s by (simp add: scanNext_end)
      qed
    qed (use s in simp)
  qed
qed

text \<open>
  The part that is formatted: a part of the whole text, up to its end or the end of a line. The
  tokens that have been passed end at or before the current place, the others begin there or later.
\<close>

definition part_ok :: "format_env \<Rightarrow> code_units \<Rightarrow> bool" where
  "part_ok v i = ((\<forall>k < length i. base v + k < length (full_text v) \<and> full_text v ! (base v + k) = i ! k)
     \<and> (base v + length i < length (full_text v) \<longrightarrow>
        isLineBreak (full_text v ! (base v + length i))
        \<and> (case within v of None \<Rightarrow> False | Some (a, b) \<Rightarrow> b \<le> base v + length i)))"

lemma substring_white:
  assumes "\<And>k. min i j \<le> k \<Longrightarrow> k < max i j \<Longrightarrow> k < length s \<Longrightarrow> white (s ! k)"
  shows "list_all white (substring s (int i) (int j))"
  unfolding list_all_length
proof (intro allI impI)
  fix n assume n: "n < length (substring s (int i) (int j))"
  have e: "substring s (int i) (int j) = take (max i j - min i j) (drop (min i j) s)"
    by (simp add: substring_def Let_def flip: of_nat_min of_nat_max)
  then have "n < max i j - min i j" "n < length s - min i j" using n by auto
  then have "white (s ! (min i j + n))" "min i j \<le> length s" by (intro assms, auto)
  then show "white (substring s (int i) (int j) ! n)"
    using \<open>n < max i j - min i j\<close> unfolding e by (simp add: nth_drop)
qed

lemma gap_white:
  assumes p: "part_ok v i" and s: "skip_trivia keep u sc = (sc', u')"
    and sc: "source sc = i" "pos sc \<le> length i + 1"
  shows "list_all white (substring (full_text v) (int (pos sc + base v)) (int (tokenOffset sc' + base v)))"
proof (rule substring_white)
  fix k assume k: "min (pos sc + base v) (tokenOffset sc' + base v) \<le> k"
    "k < max (pos sc + base v) (tokenOffset sc' + base v)" "k < length (full_text v)"
  have b: "blank i (pos sc) (tokenOffset sc')" "tokenOffset sc' \<le> length i"
    "pos sc \<le> length i \<Longrightarrow> pos sc \<le> tokenOffset sc'" "pos sc \<le> tokenOffset sc' + 1"
    using skip_trivia_blank [OF s] sc by auto
  show "white (full_text v ! k)"
  proof (cases "pos sc \<le> tokenOffset sc'")
    case True
    then have "pos sc \<le> k - base v \<and> k - base v < tokenOffset sc' \<and> k = base v + (k - base v)"
      using k by auto
    then show ?thesis using p b(1,2) by (metis blank_def order_less_le_trans part_ok_def)
  next
    case False
    then have "\<not> pos sc \<le> length i" using b(3) by blast
    then have "pos sc = length i + 1" "tokenOffset sc' = length i" using b(2,4) sc(2) by linarith+
    then have "k = base v + length i" using k by auto
    then show ?thesis using p k(3) by (simp add: part_ok_def white_def)
  qed
qed


text \<open>
  An edit is harmless when it puts white space in place of white space, and does not touch a token.
  The edits of a list do not overlap; offsets behind the text count as its end.
\<close>

definition edit_upto :: "format_edit \<Rightarrow> nat" where
  "edit_upto ed = nat (int (edit_offset ed) + edit_length ed)"

definition harmless :: "format_env \<Rightarrow> scanner list \<Rightarrow> format_edit \<Rightarrow> bool" where
  "harmless v ts ed =
     (0 \<le> int (edit_offset ed) + edit_length ed
      \<and> list_all white (substring (full_text v) (int (edit_offset ed)) (int (edit_upto ed)))
      \<and> (case edit_content ed of None \<Rightarrow> True | Some x \<Rightarrow> list_all white x)
      \<and> list_all (\<lambda>t. pos t + base v \<le> edit_offset ed \<or> edit_upto ed \<le> tokenOffset t + base v) ts)"

definition in_order :: "nat \<Rightarrow> format_edit list \<Rightarrow> bool" where
  "in_order len es =
     (successively (\<lambda>a b. min (edit_upto a) len \<le> min (edit_offset b) len) es
      \<and> list_all (\<lambda>e. min (edit_offset e) len \<le> min (edit_upto e) len) es)"

definition edits_ok :: "format_env \<Rightarrow> scanner list \<Rightarrow> nat \<Rightarrow> format_edit list \<Rightarrow> bool" where
  "edits_ok v ts x es =
     (list_all (harmless v ts) es \<and> in_order (length (full_text v)) es
      \<and> (es = [] \<or> min (edit_upto (last es)) (length (full_text v)) \<le> min x (length (full_text v))))"

lemma edits_ok_mono: "edits_ok v ts x es \<Longrightarrow> x \<le> y \<Longrightarrow> edits_ok v ts y es"
  by (auto simp: edits_ok_def)

lemma edits_ok_snoc:
  assumes "edits_ok v ts x es" "harmless v ts ed" "x \<le> edit_offset ed" "edit_upto ed \<le> y"
    and "min (edit_offset ed) (length (full_text v)) \<le> min (edit_upto ed) (length (full_text v))"
  shows "edits_ok v ts y (es @ [ed])"
proof -
  let ?n = "length (full_text v)"
  have "es \<noteq> [] \<Longrightarrow> min (edit_upto (last es)) ?n \<le> min (edit_offset ed) ?n"
    using assms(1,3) by (auto simp: edits_ok_def)
  then show ?thesis using assms
    by (auto simp: edits_ok_def in_order_def successively_append_iff)
qed

text \<open>\<open>st\<close> has just read the token behind the place of \<open>sc\<close>.\<close>

definition after :: "scanner list \<Rightarrow> code_units \<Rightarrow> scanner \<Rightarrow> format_state \<Rightarrow> bool" where
  "after ts i sc st = (source sc = i \<and> pos sc \<le> length i + 1
     \<and> (\<exists>keep u u'. skip_trivia keep u sc = (scan st, u'))
     \<and> (\<exists>xs. ts = xs @ real_tokens sc \<and> list_all (\<lambda>t. pos t \<le> pos sc) xs))"

lemma after_facts:
  assumes "after ts i sc st"
  shows "tokenOffset (scan st) \<le> pos (scan st)" "pos sc \<le> pos (scan st)"
    "source (scan st) = i" "pos (scan st) \<le> length i + 1"
    "list_all (\<lambda>t. pos t \<le> pos sc \<or> tokenOffset (scan st) \<le> tokenOffset t) ts"
proof -
  obtain keep u u' xs where s: "skip_trivia keep u sc = (scan st, u')"
    and sc: "source sc = i" "pos sc \<le> length i + 1"
    and ts: "ts = xs @ real_tokens sc" "list_all (\<lambda>t. pos t \<le> pos sc) xs"
    using assms by (auto simp: after_def)
  note b = skip_trivia_blank [OF s] sc
  show f: "tokenOffset (scan st) \<le> pos (scan st)" "pos sc \<le> pos (scan st)"
    "source (scan st) = i" "pos (scan st) \<le> length i + 1" using b by auto
  have "tokenOffset (scan st) \<le> tokenOffset t" if t: "t \<in> set (real_tokens sc)" for t
  proof (cases "t = scan st")
    case False
    then have r: "t \<in> set (real_tokens (scan st))"
      using t real_tokens_skip [OF s] by (auto split: if_splits)
    show ?thesis
    proof (cases "pos (scan st) \<le> length i")
      case True
      then show ?thesis using real_tokens_after [of "scan st" t] r f by auto
    next
      case False
      then have "t = scanNext (scan st)" using r f(3)
        by (simp add: real_tokens_def scan_all_unfold [of "scan st"] split: if_splits)
      then show ?thesis using False f(3) b by (simp add: scanNext_end)
    qed
  qed simp
  then show "list_all (\<lambda>t. pos t \<le> pos sc \<or> tokenOffset (scan st) \<le> tokenOffset t) ts"
    using ts by (auto simp: list_all_iff)
qed

lemma token_end_pos: "after ts i sc st \<Longrightarrow> token_end v st = pos (scan st) + base v"
  using after_facts(1) [of ts i sc st] by (simp add: token_end_def getTokenLength_def)

lemma after_next:
  assumes "after ts i sc st" "token (scan st) \<noteq> EOF" "scan st' = scan st"
  shows "after ts i (scan st) (nextToken v st')"
proof -
  obtain keep u u' xs where s: "skip_trivia keep u sc = (scan st, u')"
    and ts: "ts = xs @ real_tokens sc" "list_all (\<lambda>t. pos t \<le> pos sc) xs"
    using assms(1) by (auto simp: after_def)
  have "ts = (xs @ [scan st]) @ real_tokens (scan st)"
    using ts(1) real_tokens_skip [OF s] assms(2) by simp
  moreover have "list_all (\<lambda>t. pos t \<le> pos (scan st)) (xs @ [scan st])"
    using ts(2) after_facts(2) [OF assms(1)] by (auto simp: list_all_iff)
  moreover obtain sc2 u2 where n: "skip_trivia (keepLines (settings v)) 0 (scan st) = (sc2, u2)"
    by fastforce
  moreover have "scan (nextToken v st') = sc2" using n assms(3) by (simp add: nextToken_def)
  ultimately show ?thesis using after_facts(3,4) [OF assms(1)] unfolding after_def by blast
qed

abbreviation white_text :: "code_units option \<Rightarrow> bool" where
  "white_text x \<equiv> (case x of None \<Rightarrow> True | Some y \<Rightarrow> list_all white y)"

lemma edit_between:
  assumes a: "after ts i sc st" and p: "part_ok v i" and w: "white_text x"
    and e: "edits_ok v ts (pos sc + base v) (edits st2)"
  shows "edits_ok v ts (pos (scan st) + base v)
           (edits (addEdit v x (pos sc + base v) (token_begin v st) st2))"
proof -
  obtain keep u u' where s: "skip_trivia keep u sc = (scan st, u')"
    and sc: "source sc = i" "pos sc \<le> length i + 1"
    using a by (auto simp: after_def)
  note f = after_facts [OF a]
  let ?t = "pos sc + base v" and ?e = "token_begin v st" and ?n = "length (full_text v)"
  let ?ed = "\<lparr>edit_offset = ?t, edit_length = int ?e - int ?t, edit_content = x\<rparr>"
  have upto: "edit_upto ?ed = ?e" by (simp add: edit_upto_def)
  have "list_all (\<lambda>t. pos t + base v \<le> ?t \<or> ?e \<le> tokenOffset t + base v) ts"
    using f(5) by (auto simp: list_all_iff token_begin_def)
  moreover have "list_all white (substring (full_text v) (int ?t) (int ?e))"
    using gap_white [OF p s sc] by (simp add: token_begin_def)
  ultimately have h: "harmless v ts ?ed"
    unfolding harmless_def upto using w by simp
  have b: "pos sc \<le> length i \<Longrightarrow> pos sc \<le> tokenOffset (scan st)" "tokenOffset (scan st) \<le> length i"
    "pos sc \<le> tokenOffset (scan st) + 1"
    using skip_trivia_blank [OF s] sc by auto
  have o: "min ?t ?n \<le> min ?e ?n"
    if "case within v of None \<Rightarrow> True | Some (a, b) \<Rightarrow> ?t < b \<and> ?e > a"
  proof (cases "pos sc \<le> length i")
    case True
    then show ?thesis using b by (auto simp: token_begin_def)
  next
    case False
    then have t: "?t = base v + length i + 1" "?e = base v + length i"
      using b sc(2) by (auto simp: token_begin_def)
    have "\<not> base v + length i < ?n" using p that t by (auto simp: part_ok_def split: option.splits)
    then show ?thesis using t by simp
  qed
  have "?e \<le> pos (scan st) + base v" using f(1) by (simp add: token_begin_def)
  then have "edits_ok v ts (pos (scan st) + base v) (edits st2 @ [?ed])"
    if "case within v of None \<Rightarrow> True | Some (a, b) \<Rightarrow> ?t < b \<and> ?e > a"
    using edits_ok_snoc [OF e h] o [OF that] by (simp only: upto format_edit.select_convs order_refl)
  moreover have "edits_ok v ts (pos (scan st) + base v) (edits st2)"
    using edits_ok_mono [OF e] f(2) by simp
  ultimately show ?thesis by (simp add: addEdit_def)
qed


lemma nextToken_edits [simp]: "edits (nextToken v st) = edits st"
  by (simp add: nextToken_def split: prod.split)

lemma addEdit_scan [simp]: "scan (addEdit v x t e st) = scan st"
  by (simp add: addEdit_def)

lemma list_all_repeat: "list_all P s \<Longrightarrow> list_all P (repeat_text s t)"
  by (auto simp: repeat_text_def list_all_iff)

definition white_env :: "format_env \<Rightarrow> bool" where
  "white_env v = (list_all white (line_end v) \<and> list_all white (indent_unit v))"

lemma newLine_white: "white_env v \<Longrightarrow> white_text (newLine v st)"
  by (auto simp: newLine_def white_env_def Let_def list_all_repeat white_def isWhiteSpace_def
      list_all_iff repeat_text_def)

lemma separators_white:
  assumes "white_env v" "white_text o'"
  shows "close_bracket v k s o' st = (o1, st2) \<Longrightarrow> white_text o1 \<and> scan st2 = scan st \<and> edits st2 = edits st"
    and "between v s t b o' st = (o1, st2) \<Longrightarrow> white_text o1 \<and> scan st2 = scan st \<and> edits st2 = edits st"
proof -
  have sp: "white_text (Some [32])" "white_text (Some [])"
    by (simp_all add: white_def isWhiteSpace_def)
  show "close_bracket v k s o' st = (o1, st2) \<Longrightarrow> white_text o1 \<and> scan st2 = scan st \<and> edits st2 = edits st"
    using assms newLine_white sp by (auto simp: close_bracket_def Let_def split: if_splits)
  show "between v s t b o' st = (o1, st2) \<Longrightarrow> white_text o1 \<and> scan st2 = scan st \<and> edits st2 = edits st"
    using assms newLine_white sp
    by (auto simp: between_def Let_def split: syntax_kind.splits if_splits)
qed

lemma line_comments_ok:
  assumes "part_ok v i" "white_env v"
  shows "line_comments v x o' b st = (x', o2, b', st') \<Longrightarrow> after ts i sc st \<Longrightarrow> x = pos sc + base v \<Longrightarrow>
    edits_ok v ts x (edits st) \<Longrightarrow> white_text o' \<Longrightarrow>
    \<exists>sc'. after ts i sc' st' \<and> x' = pos sc' + base v \<and> edits_ok v ts x' (edits st') \<and> white_text o2"
  using assms
proof (induction v x o' b st arbitrary: sc rule: line_comments.induct)
  case (1 v x o' b st)
  show ?case
  proof (cases "breaks st = 0 \<and> is_comment (token (scan st))")
    case True
    let ?s = "addEdit v (Some [32]) x (token_begin v st) st"
    have a: "after ts i (scan st) (nextToken v ?s)"
      by (rule after_next [OF 1(3)]) (use True in \<open>auto simp: is_comment_def\<close>)
    have x: "token_end v ?s = pos (scan st) + base v"
      using token_end_pos [of ts i sc ?s v] 1(3) by (simp add: after_def)
    have e: "edits_ok v ts (token_end v ?s) (edits (nextToken v ?s))"
      using edit_between [OF 1(3) 1(7), of "Some [32]" st] 1(4)
      unfolding x using 1(5) by (simp add: white_def isWhiteSpace_def)
    have w: "white_text (if token (scan ?s) = LineCommentTrivia then newLine v ?s else Some [])"
      using newLine_white [OF 1(8)] by simp
    have "line_comments v (token_end v ?s)
        (if token (scan ?s) = LineCommentTrivia then newLine v ?s else Some [])
        (token (scan ?s) = LineCommentTrivia) (nextToken v ?s) = (x', o2, b', st')"
      using 1(2) True by (subst (asm) line_comments.simps) (simp add: Let_def)
    from 1(1) [OF True refl refl this a x e w 1(7,8)] show ?thesis .
  next
    case False
    then have "x' = x" "o2 = o'" "st' = st"
      using 1(2) by (subst (asm) line_comments.simps, auto)+
    then show ?thesis using 1(3-6) by blast
  qed
qed

lemma format_step_ok:
  assumes p: "part_ok v i" "white_env v"
    and a: "after ts i sc st" and n: "token (scan st) \<noteq> EOF"
    and e: "edits_ok v ts (pos (scan st) + base v) (edits st)"
  shows "\<exists>sc'. after ts i sc' (format_step v st)
    \<and> edits_ok v ts (pos (scan (format_step v st)) + base v) (edits (format_step v st))"
proof -
  obtain x o' b st1 where c: "line_comments v (token_end v st) (Some []) False (nextToken v st)
      = (x, o', b, st1)" by (metis prod_cases4)
  have "after ts i (scan st) (nextToken v st)" by (rule after_next [OF a n refl])
  from line_comments_ok [OF p c this token_end_pos [OF a]] e
  obtain sc' where s: "after ts i sc' st1" "x = pos sc' + base v" "edits_ok v ts x (edits st1)"
      "white_text o'"
    by (auto simp: token_end_pos [OF a])
  obtain o2 st2 where st2: "format_step v st = addEdit v o2 x (token_begin v st1) st2"
      "white_text o2" "scan st2 = scan st1" "edits st2 = edits st1"
  proof -
    let ?s = "token (scan st)" and ?t = "token (scan st1)" and ?u = "breaks st1"
    obtain o1 st2 where m: "(if ?t = CloseBraceToken then close_bracket v OpenBraceToken ?s o' st1
             else if ?t = CloseBracketToken then close_bracket v OpenBracketToken ?s o' st1
             else let (o1, st2) = between v ?s ?t b o' st1
                  in (if ?u > 0 \<and> is_comment ?t then newLine v st2 else o1, st2)) = (o1, st2)"
      by fastforce
    then have "white_text o1 \<and> scan st2 = scan st1 \<and> edits st2 = edits st1"
      using separators_white [OF p(2) s(4)] newLine_white [OF p(2)]
      by (auto split: if_splits prod.splits)
    moreover have "white_text (if ?t = EOF
        then (if keepLines (settings v) \<and> ?u > 0 then newLine v st2
              else Some (if insertFinalNewline (settings v) then line_end v else [])) else o1)"
      using calculation newLine_white [OF p(2)] p(2) by (simp add: white_env_def)
    ultimately show thesis
      using that [of "if ?t = EOF
        then (if keepLines (settings v) \<and> ?u > 0 then newLine v st2
              else Some (if insertFinalNewline (settings v) then line_end v else [])) else o1" st2] m
      by (simp add: format_step_def c Let_def)
  qed
  have "after ts i sc' (format_step v st)" using s(1) st2 by (simp add: after_def)
  moreover have "edits_ok v ts (pos (scan st1) + base v) (edits (format_step v st))"
    using edit_between [OF s(1) p(1) st2(2), of st2] s(2,3) st2 by simp
  ultimately show ?thesis using st2 by auto
qed


lemma format_loop_ok:
  assumes "part_ok v i" "white_env v"
  shows "after ts i sc st \<Longrightarrow> edits_ok v ts (pos (scan st) + base v) (edits st) \<Longrightarrow>
    \<exists>x. edits_ok v ts x (edits (format_loop v st))"
  using assms
proof (induction v st arbitrary: sc rule: format_loop.induct)
  case (1 v st)
  show ?case
  proof (cases "token (scan st) = EOF")
    case True
    then show ?thesis using 1(3) by (subst format_loop.simps) auto
  next
    case False
    from format_step_ok [OF 1(4,5,2) False 1(3)] obtain sc' where
      "after ts i sc' (format_step v st)"
      "edits_ok v ts (pos (scan (format_step v st)) + base v) (edits (format_step v st))" by blast
    from 1(1) [OF False this 1(4,5)] show ?thesis using False by (subst format_loop.simps) simp
  qed
qed

lemma format_first_ok:
  assumes p: "part_ok v i" "white_env v" and ts: "ts = real_tokens (createScanner i)"
  shows "\<exists>sc. after ts i sc (format_first v (start_state i))
    \<and> edits_ok v ts (pos (scan (format_first v (start_state i))) + base v)
        (edits (format_first v (start_state i)))"
proof -
  let ?sc = "createScanner i" and ?st = "nextToken v (start_state i)"
  obtain sc2 u2 where n: "skip_trivia (keepLines (settings v)) 0 ?sc = (sc2, u2)" by fastforce
  have a: "after ts i ?sc ?st"
  proof -
    have "skip_trivia (keepLines (settings v)) 0 ?sc = (scan ?st, u2)"
      using n by (simp add: start_state_def nextToken_def)
    then have "\<exists>keep u u'. skip_trivia keep u ?sc = (scan ?st, u')" by blast
    moreover have "ts = [] @ real_tokens ?sc \<and> list_all (\<lambda>t. pos t \<le> pos ?sc) []" by (simp add: ts)
    ultimately show ?thesis unfolding after_def by (auto simp: createScanner_def)
  qed
  define st1 where "st1 = (if keepLines (settings v) \<and> breaks ?st > 0
      then addEdit v (Some (repeat_text (line_end v) (int (breaks ?st)))) 0 0 ?st else ?st)"
  have e0: "edits ?st = []" by (simp add: start_state_def)
  have "list_all white (replicate k 32)" for k
    by (simp add: list_all_iff white_def isWhiteSpace_def)
  then have w: "list_all white (repeat_text (line_end v) k)" "list_all white (first_indent v)" for k
    using p(2) by (simp_all add: white_env_def list_all_repeat first_indent_def Let_def)
  let ?ed = "\<lparr>edit_offset = 0, edit_length = 0, edit_content =
      Some (repeat_text (line_end v) (int (breaks ?st)))\<rparr>"
  have nil: "edits_ok v ts 0 []" by (simp add: edits_ok_def in_order_def)
  have "harmless v ts ?ed"
    using w(1) [of "int (breaks ?st)"] by (simp add: harmless_def edit_upto_def substring_def list_all_iff)
  from edits_ok_snoc [OF nil this, of "base v"] have one: "edits_ok v ts (base v) [?ed]"
    by (simp add: edit_upto_def)
  have "edits st1 = [] \<or> edits st1 = [?ed]"
    by (simp add: st1_def addEdit_def start_state_def)
  then have "edits_ok v ts (base v) (edits st1)"
    using one edits_ok_mono [OF nil, of "base v"] by auto
  then have e1: "edits_ok v ts (pos ?sc + base v) (edits st1)" by (simp add: createScanner_def)
  have s1: "scan st1 = scan ?st" by (simp add: st1_def)
  let ?f = "format_first v (start_state i)"
  have f: "?f = (if token (scan ?st) \<noteq> EOF
      then addEdit v (Some (first_indent v)) (pos ?sc + base v) (token_begin v ?st) st1 else st1)"
    by (simp add: format_first_def Let_def st1_def createScanner_def)
  have "edits_ok v ts (pos (scan ?st) + base v)
      (edits (addEdit v (Some (first_indent v)) (pos ?sc + base v) (token_begin v ?st) st1))"
    by (rule edit_between [OF a p(1) _ e1]) (simp add: w)
  moreover have "edits_ok v ts (pos (scan ?st) + base v) (edits st1)"
    using edits_ok_mono [OF e1] after_facts(2) [OF a] by simp
  ultimately have "edits_ok v ts (pos (scan ?st) + base v) (edits ?f)" by (simp add: f)
  moreover have "scan ?f = scan ?st" by (simp add: f s1)
  ultimately show ?thesis using a by (auto simp: after_def)
qed

lemma line_begin_le: "line_begin e a \<le> a"
  by (induction a) auto

lemma format_part_ok:
  assumes "format_part e t r = (v, i)" "case t of None \<Rightarrow> True | Some (a, n) \<Rightarrow> 0 \<le> n"
  shows "part_ok v i \<and> full_text v = e"
proof (cases t)
  case None
  then show ?thesis using assms(1) by (auto simp: format_part_def part_ok_def)
next
  case (Some z)
  obtain a n where z: "z = (a, n)" by fastforce
  let ?c = "nat (int a + n)" and ?s = "line_begin e a"
  let ?x = "skip (\<lambda>c. \<not> isLineBreak c) e ?c"
  have le: "?s \<le> a" "a \<le> ?c" "?c \<le> ?x"
    using assms(2) Some z line_begin_le skip_le by (auto simp: nat_le_iff le_nat_iff)
  then have sx: "?s \<le> ?x" by linarith
  have i: "i = take (?x - ?s) (drop ?s e)"
    using assms(1) sx by (auto simp: Some z format_part_def Let_def substring_def)
  have v: "base v = ?s" "full_text v = e" "within v = Some (a, ?c)"
    using assms(1) by (auto simp: Some z format_part_def Let_def)
  have "isLineBreak (e ! ?x)" if "?x < length e"
  proof -
    have c: "?c < length e" using that le by linarith
    have "length (takeWhile (\<lambda>c. \<not> isLineBreak c) (drop ?c e)) < length (drop ?c e)"
      using that by (auto simp: skip_def)
    from nth_length_takeWhile [OF this] show ?thesis using c by (simp add: skip_def)
  qed
  moreover have "?s + length i < length e \<Longrightarrow> ?s + length i = ?x" using i sx by auto
  ultimately have "?s + length i < length e \<Longrightarrow> isLineBreak (e ! (?s + length i)) \<and> ?c \<le> ?s + length i"
    using le(3) by metis
  moreover have "k < length i \<Longrightarrow> ?s + k < length e \<and> e ! (?s + k) = i ! k" for k
    by (auto simp: i)
  ultimately show ?thesis unfolding part_ok_def v by auto
qed

lemma format_part_white:
  "format_part e t r = (v, i) \<Longrightarrow> list_all white (eol r) \<Longrightarrow> white_env v"
proof -
  have "list_all white (eol r) \<Longrightarrow> list_all white (getEOL r e)"
    by (induction r e rule: getEOL.induct) (auto simp: white_def isLineBreak_def)
  then show "format_part e t r = (v, i) \<Longrightarrow> list_all white (eol r) \<Longrightarrow> white_env v"
    by (auto simp: format_part_def white_env_def Let_def white_def isWhiteSpace_def list_all_iff
        split: option.splits if_splits)
qed

lemma format_json_ok:
  assumes "list_all white (eol r)" "case t of None \<Rightarrow> True | Some (a, n) \<Rightarrow> 0 \<le> n"
    and vi: "format_part e t r = (v, i)"
  shows "list_all (harmless v (real_tokens (createScanner i))) (format_json e t r)
    \<and> in_order (length e) (format_json e t r)"
proof -
  note p = format_part_ok [OF vi assms(2), THEN conjunct1] format_part_white [OF vi assms(1)]
  let ?ts = "real_tokens (createScanner i)"
  obtain sc where "after ?ts i sc (format_first v (start_state i))"
    "edits_ok v ?ts (pos (scan (format_first v (start_state i))) + base v)
        (edits (format_first v (start_state i)))"
    using format_first_ok [OF p refl] by blast
  from format_loop_ok [OF p this] show ?thesis
    using format_part_ok [OF vi assms(2)] by (auto simp: vi format_json_def edits_ok_def)
qed

text \<open>
  C38. Formatting proposes harmless edits only: each puts white space in place of white space and stays
  clear of every token and comment of the part that is formatted, so that strings and comments
  keep the white space in them; and the edits come in the order of the text and do not overlap.
\<close>

theorem format_harmless:
  assumes "list_all white (eol r)" "case t of None \<Rightarrow> True | Some (a, n) \<Rightarrow> 0 \<le> n"
  shows "let (v, i) = format_part e t r; es = format_json e t r
     in list_all (harmless v (real_tokens (createScanner i))) es \<and> in_order (length e) es"
  using format_json_ok [OF assms] by (cases "format_part e t r") (simp add: Let_def)

text \<open>An object with a comment, a list and white space in a string.\<close>

definition sample_options :: format_options where
  "sample_options = \<lparr>tabSize = 2, insertSpaces = True, keepLines = False,
     insertFinalNewline = True, eol = []\<rparr>"

definition sample :: code_units where
  "sample = utf16 ''{'' @ [34] @ utf16 ''a  b'' @ [34] @ utf16 '':[1,  2 ]/* c */}''"

theorem format_harmless_witness:
  "map edit_offset (format_json sample None sample_options) = [1, 8, 9, 11, 14, 16, 23, 24]
   \<and> in_order 24 (format_json sample None sample_options)"
proof -
  have "map edit_offset (format_json sample None sample_options) = [1, 8, 9, 11, 14, 16, 23, 24]"
    "length sample = 24"
    by code_simp+
  then show ?thesis
    using format_harmless [of sample_options None sample]
    by (simp add: sample_options_def Let_def split: prod.splits)
qed

section \<open>Formatting a document\<close>

text \<open>
  \<open>Fe\<close>: the range and the edits go through positions of the document; its table of lines is
  computed at the first use. An edit without a text (\<open>undefined\<close>) is \<open>None\<close>.
\<close>

fun place_edits :: "format_edit list \<Rightarrow> text_document \<Rightarrow> text_edit option list \<times> text_document" where
  "place_edits [] d = ([], d)"
| "place_edits (ed # es) d =
     (let (p, d1) = positionAt (int (edit_offset ed)) d;
          (q, d2) = positionAt (int (edit_offset ed) + edit_length ed) d1;
          (xs, d3) = place_edits es d2
      in (map_option (\<lambda>x. \<lparr>edit_range = \<lparr>range_start = p, range_end = q\<rparr>, newText = x\<rparr>)
            (edit_content ed) # xs, d3))"

definition format_document :: "text_range option \<Rightarrow> format_options \<Rightarrow> text_document
    \<Rightarrow> text_edit option list \<times> text_document" where
  "format_document rg r d =
     (let (n, d1) = (case rg of
            None \<Rightarrow> (None, d)
          | Some g \<Rightarrow> let (s, d1) = offsetAt (range_start g) d; (e, d2) = offsetAt (range_end g) d1
                      in (Some (nat s, e - s), d2));
          (u, d2) = getText None d1
      in place_edits (format_json u n (r\<lparr>eol := [LF]\<rparr>)) d2)"

text \<open>
  The first line of \<open>dr\<close>, the sorting of a document: the whole document is formatted and the edits
  are applied. An edit without a text ends in a \<open>TypeError\<close>.
\<close>

datatype format_fault = OverlappingEdit | NoText

definition formatted_text :: "format_options \<Rightarrow> text_document \<Rightarrow> format_fault + code_units" where
  "formatted_text r d =
     (let (es, d1) = format_document None (r\<lparr>keepLines := False\<rparr>) d in
      if None \<in> set es then Inl NoText
      else (case fst (applyEdits (somes es) d1) of
              None \<Rightarrow> Inl OverlappingEdit
            | Some t \<Rightarrow> Inr t))"

text \<open>Positions and back: on a document the edits have the offsets the formatter gave them.\<close>

definition placed_edit :: "code_units \<Rightarrow> format_edit \<Rightarrow> text_edit option" where
  "placed_edit s ed =
     (let at = position_in (rn s True 0) (int (length s)) in
      map_option (\<lambda>x. \<lparr>edit_range = \<lparr>range_start = at (int (edit_offset ed)),
                                        range_end = at (int (edit_offset ed) + edit_length ed)\<rparr>,
                            newText = x\<rparr>) (edit_content ed))"

lemma positionAt_ok:
  "table_ok d \<Longrightarrow> positionAt n d =
     (position_in (rn (content d) True 0) (int (length (content d))) n,
      d\<lparr>lineOffsets := Some (rn (content d) True 0)\<rparr>)"
  by (simp add: positionAt_def getLineOffsets_ok)

lemma place_edits_ok:
  "table_ok d \<Longrightarrow> \<exists>d'. place_edits es d = (map (placed_edit (content d)) es, d')
     \<and> table_ok d' \<and> content d' = content d"
proof (induction es arbitrary: d)
  case (Cons ed es)
  let ?d = "d\<lparr>lineOffsets := Some (rn (content d) True 0)\<rparr>"
  have ok: "table_ok ?d" by (simp add: table_ok_def)
  obtain d' where "place_edits es ?d = (map (placed_edit (content d)) es, d')" "table_ok d'"
      "content d' = content d" using Cons.IH [OF ok] by auto
  then show ?case
    by (simp add: positionAt_ok [OF Cons.prems] positionAt_ok [OF ok] placed_edit_def Let_def)
qed auto

lemma offset_position:
  "offset_in (rn s True 0) (int (length s)) (position_in (rn s True 0) (int (length s)) n)
   = max (min n (int (length s))) 0"
  by (rule offset_of_position) (use rn_facts rn_sorted in auto)

lemma length_filter_mono:
  "(\<And>x. P x \<Longrightarrow> Q x) \<Longrightarrow> length (filter P xs) \<le> length (filter Q xs)"
  by (induction xs) auto

abbreviation clip :: "code_units \<Rightarrow> int \<Rightarrow> int" where
  "clip s k \<equiv> max (min k (int (length s))) 0"

lemma position_mono:
  assumes "clip s m \<le> clip s n"
  shows "line (position_in (rn s True 0) (int (length s)) m)
           \<le> line (position_in (rn s True 0) (int (length s)) n)"
    and "line (position_in (rn s True 0) (int (length s)) m)
           = line (position_in (rn s True 0) (int (length s)) n) \<Longrightarrow>
         character (position_in (rn s True 0) (int (length s)) m)
           \<le> character (position_in (rn s True 0) (int (length s)) n)"
proof -
  let ?at = "position_in (rn s True 0) (int (length s))"
  show "line (?at m) \<le> line (?at n)"
    unfolding position_line using assms
    by (auto intro!: length_filter_mono intro: order_trans)
  have "character (?at k) = clip s k - rn s True 0 ! nat (line (?at k))" for k
    by (simp add: position_in_def Let_def rn_facts)
  then show "line (?at m) = line (?at n) \<Longrightarrow> character (?at m) \<le> character (?at n)"
    using assms by simp
qed

text \<open>What the edits of the formatter are in the document.\<close>

lemma placed_facts:
  assumes te: "placed_edit s ed = Some te" and h: "harmless v ts ed" and v: "full_text v = s"
    and o: "min (edit_offset ed) (length s) \<le> min (edit_upto ed) (length s)"
  shows "from_offset s te = int (min (edit_offset ed) (length s))"
    and "to_offset s te = int (min (edit_upto ed) (length s))"
    and "Nn te = te"
    and "start_key te = (let p = position_in (rn s True 0) (int (length s)) (int (edit_offset ed))
                         in (line p, character p))"
    and "list_all white (newText te)"
    and "list_all white (drop (nat (from_offset s te)) (take (nat (to_offset s te)) s))"
proof -
  let ?at = "position_in (rn s True 0) (int (length s))"
  have u: "int (edit_offset ed) + edit_length ed = int (edit_upto ed)"
    using h by (simp add: harmless_def edit_upto_def)
  obtain x where x: "edit_content ed = Some x" and
    t: "te = \<lparr>edit_range = \<lparr>range_start = ?at (int (edit_offset ed)),
      range_end = ?at (int (edit_upto ed))\<rparr>, newText = x\<rparr>"
    using te u by (auto simp: placed_edit_def Let_def)
  show f: "from_offset s te = int (min (edit_offset ed) (length s))"
    by (simp add: from_offset_def t offset_position)
  show g: "to_offset s te = int (min (edit_upto ed) (length s))"
    by (simp add: to_offset_def t offset_position)
  have c: "clip s (int (edit_offset ed)) \<le> clip s (int (edit_upto ed))" using o by simp
  show "Nn te = te"
    using position_mono [OF c] by (auto simp: Nn_def an_def t Let_def)
  show "start_key te = (let p = ?at (int (edit_offset ed)) in (line p, character p))"
    by (simp add: start_key_def t Let_def)
  show "list_all white (newText te)" using h by (simp add: harmless_def t x)
  have w: "list_all white (substring s (int (edit_offset ed)) (int (edit_upto ed)))"
    using h by (simp add: harmless_def v)
  show "list_all white (drop (nat (from_offset s te)) (take (nat (to_offset s te)) s))"
  proof (cases "edit_offset ed \<le> edit_upto ed")
    case True
    then have "substring s (int (edit_offset ed)) (int (edit_upto ed))
        = drop (edit_offset ed) (take (edit_upto ed) s)"
      by (simp add: substring_def Let_def drop_take)
    moreover have "drop (min (edit_offset ed) (length s)) (take (min (edit_upto ed) (length s)) s)
        = drop (edit_offset ed) (take (edit_upto ed) s)"
      by (cases "edit_offset ed \<le> length s") (auto simp: min_def)
    ultimately show ?thesis using w f g by simp
  next
    case False
    then have "min (edit_offset ed) (length s) = min (edit_upto ed) (length s)" using o by auto
    then show ?thesis using f g by simp
  qed
qed

lemma white_edits:
  assumes "apart_edits s es" "list_all (\<lambda>e. from_offset s e \<le> to_offset s e) es"
    and "list_all (\<lambda>e. list_all white (newText e)
      \<and> list_all white (drop (nat (from_offset s e)) (take (nat (to_offset s e)) s))) es"
  shows "filter (\<lambda>c. \<not> white c) (foldr (edit_at s) es s) = filter (\<lambda>c. \<not> white c) s"
  using assms
proof (induction es)
  case (Cons e es)
  let ?c = "foldr (edit_at s) es s" and ?a = "nat (from_offset s e)" and ?b = "nat (to_offset s e)"
  have ab: "?a \<le> ?b" using Cons.prems(2) by (simp add: nat_mono)
  have ap: "apart_edits s es" "es \<noteq> [] \<Longrightarrow> to_offset s e \<le> from_offset s (hd es)"
    using Cons.prems(1) by (cases es; simp)+
  have t: "take ?b ?c = take ?b s"
    using edits_keep_front(1) [OF ap(1) _ ap(2)] Cons.prems(2) offset_nonneg(3) [of s e] by simp
  have no: "list_all white xs \<Longrightarrow> filter (\<lambda>c. \<not> white c) xs = []" for xs
    by (simp add: list_all_iff filter_empty_conv)
  have "?c = take ?a ?c @ drop ?a (take ?b ?c) @ drop ?b ?c"
    using ab by (metis append_assoc append_take_drop_id min.absorb1 take_take)
  then have "filter (\<lambda>c. \<not> white c) ?c
      = filter (\<lambda>c. \<not> white c) (take ?a ?c) @ filter (\<lambda>c. \<not> white c) (drop ?a (take ?b ?c))
        @ filter (\<lambda>c. \<not> white c) (drop ?b ?c)"
    by (metis filter_append)
  moreover have "filter (\<lambda>c. \<not> white c) (drop ?a (take ?b ?c)) = []"
    unfolding t by (rule no) (use Cons.prems(3) in simp)
  moreover have "filter (\<lambda>c. \<not> white c) (newText e) = []"
    by (rule no) (use Cons.prems(3) in simp)
  moreover have "filter (\<lambda>c. \<not> white c) ?c = filter (\<lambda>c. \<not> white c) s"
    using Cons.IH ap(1) Cons.prems(2,3) by simp
  ultimately show ?case by (simp add: edit_at_def [of s e ?c])
qed simp


lemma placed_edits:
  assumes "list_all (harmless v ts) es" "in_order (length s) es" "full_text v = s"
    and no: "None \<notin> set (map (placed_edit s) es)"
  defines "xs \<equiv> somes (map (placed_edit s) es)"
  shows "map Nn xs = xs \<and> sorted (map start_key xs) \<and> apart_edits s xs
    \<and> list_all (\<lambda>e. from_offset s e \<le> to_offset s e) xs
    \<and> list_all (\<lambda>e. list_all white (newText e)
        \<and> list_all white (drop (nat (from_offset s e)) (take (nat (to_offset s e)) s))) xs"
  using assms(1,2) no unfolding xs_def
proof (induction es)
  case (Cons ed es)
  obtain te where te: "placed_edit s ed = Some te" using Cons.prems(3) by (cases "placed_edit s ed") auto
  have o: "min (edit_offset ed) (length s) \<le> min (edit_upto ed) (length s)"
    and h: "harmless v ts ed" using Cons.prems(1,2) by (simp_all add: in_order_def)
  note f = placed_facts [OF te h assms(3) o]
  have rest: "list_all (harmless v ts) es" "in_order (length s) es"
    "None \<notin> set (map (placed_edit s) es)"
    using Cons.prems by (auto simp: in_order_def successively_Cons)
  note ih = Cons.IH [OF rest]
  show ?case
  proof (cases es)
    case Nil
    then show ?thesis using te f o by simp
  next
    case E: (Cons ed2 es2)
    obtain te2 where te2: "placed_edit s ed2 = Some te2"
      using rest(3) E by (cases "placed_edit s ed2") auto
    have o2: "min (edit_offset ed2) (length s) \<le> min (edit_upto ed2) (length s)"
      and h2: "harmless v ts ed2" using rest(1,2) by (simp_all add: in_order_def E)
    note f2 = placed_facts [OF te2 h2 assms(3) o2]
    have step: "min (edit_upto ed) (length s) \<le> min (edit_offset ed2) (length s)"
      using Cons.prems(2) by (simp add: in_order_def E)
    have "clip s (int (edit_offset ed)) \<le> clip s (int (edit_offset ed2))"
      using o step by auto
    from position_mono [OF this] have k: "start_key te \<le> start_key te2"
      unfolding f(4) f2(4) by (auto simp: less_eq_prod_def Let_def order_less_le)
    define ys where "ys = somes (map (placed_edit s) es2)"
    have ys: "somes (map (placed_edit s) es) = te2 # ys" by (simp add: E te2 ys_def)
    have "sorted (map start_key (te # te2 # ys))"
      using ih k unfolding ys by auto
    moreover have "apart_edits s (te # te2 # ys)"
      using ih step f(2) f2(1) unfolding ys by simp
    ultimately show ?thesis using ih f o unfolding ys by (simp add: te ys)
  qed
qed simp

text \<open>
  C39. Formatting a document and applying the edits changes white space only: the edits never overlap
  once they are positions of the document, and all other units of the text stay, in their order.
  The only way to fail is an edit without a text, at an indentation of 200.
\<close>

theorem formatting_keeps_text:
  assumes "table_ok d"
  shows "case formatted_text r d of
      Inr t \<Rightarrow> filter (\<lambda>c. \<not> white c) t = filter (\<lambda>c. \<not> white c) (content d)
    | Inl f \<Rightarrow> f = NoText"
proof -
  let ?s = "content d" and ?r = "r\<lparr>keepLines := False, eol := [LF]\<rparr>"
  let ?es = "format_json ?s None ?r"
  obtain v i where vi: "format_part ?s None ?r = (v, i)" by fastforce
  have "list_all white (eol ?r)" by (simp add: white_def isLineBreak_def)
  then have h: "list_all (harmless v (real_tokens (createScanner i))) ?es" "in_order (length ?s) ?es"
    using format_json_ok [of ?r None ?s, OF _ _ vi] by simp_all
  have v: "full_text v = ?s" using format_part_ok [OF vi] by simp
  obtain d' where p: "place_edits ?es d = (map (placed_edit ?s) ?es, d')" "table_ok d'" "content d' = ?s"
    using place_edits_ok [OF assms] by blast
  have f: "format_document None (r\<lparr>keepLines := False\<rparr>) d = (map (placed_edit ?s) ?es, d')"
    using p(1) by (simp add: format_document_def getText_def)
  show ?thesis
  proof (cases "None \<in> set (map (placed_edit ?s) ?es)")
    case True
    then show ?thesis using f by (simp add: formatted_text_def)
  next
    case False
    let ?xs = "somes (map (placed_edit ?s) ?es)"
    note x = placed_edits [OF h v False]
    have k: "sort_key start_key ?xs = ?xs" using x by (simp add: sort_key_id_if_sorted)
    have "fst (applyEdits ?xs d') = Some (foldr (edit_at ?s) ?xs ?s)"
      using applyEdits_in_order [OF p(2), of ?xs] x k p(3) by simp
    moreover have "filter (\<lambda>c. \<not> white c) (foldr (edit_at ?s) ?xs ?s) = filter (\<lambda>c. \<not> white c) ?s"
      by (rule white_edits) (use x in blast)+
    ultimately show ?thesis using f False by (simp add: formatted_text_def)
  qed
qed


theorem formatting_keeps_text_witness:
  "formatted_text sample_options (create [] [] 1 (utf16 ''[1,2 ]'')) =
     Inr (utf16 ''['' @ [LF] @ utf16 ''  1,'' @ [LF] @ utf16 ''  2'' @ [LF] @ utf16 '']'' @ [LF])
   \<and> filter (\<lambda>c. \<not> white c)
       (utf16 ''['' @ [LF] @ utf16 ''  1,'' @ [LF] @ utf16 ''  2'' @ [LF] @ utf16 '']'' @ [LF])
     = utf16 ''[1,2]''"
proof -
  let ?d = "create [] [] 1 (utf16 ''[1,2 ]'')"
  have f: "formatted_text sample_options ?d =
     Inr (utf16 ''['' @ [LF] @ utf16 ''  1,'' @ [LF] @ utf16 ''  2'' @ [LF] @ utf16 '']'' @ [LF])"
    by code_simp
  have "table_ok ?d" "filter (\<lambda>c. \<not> white c) (content ?d) = utf16 ''[1,2]''" by code_simp+
  with f formatting_keeps_text [of ?d sample_options] show ?thesis by simp
qed

text \<open>
  At an indentation of exactly 200 the table of line ends is read behind its end, so that the edit
  has no text, and applying it fails.
\<close>

theorem indentation_200:
  "let v = \<lparr>full_text = [], base = 0, within = None, settings = sample_options, line_end = [LF],
            indent_unit = [32, 32], start_level = 0\<rparr>;
       st = \<lparr>scan = createScanner [], breaks = 0, level = 100, has_error = False, edits = []\<rparr>
   in newLine v st = None \<and> newLine v (st\<lparr>level := 99\<rparr>) = Some (LF # replicate 198 32)
      \<and> newLine v (st\<lparr>level := 101\<rparr>) = Some (LF # replicate 202 32)"
  by code_simp

end
