(* ===== verification/Spec2Isabelle.thy ===== *)
theory Spec2Isabelle
  imports Cookies Notifications Clock HumanReadable Scoreboard HeartClicks ScoreboardTable Refresh MenuAlerts
    Shortcuts Preferences Graph Layout Widgets Debounce Dialogs Versions ToggleSwitch Coloris
    SubmitForm RowFilters ProgressBar PageHooks Collections MenuSwitches
    Generator AsyncGenerator AsyncDelegator Awaiter ClassHelpers ModuleInterop Decorators ObjectHelpers Iteration PrivateFields Disposables
    TsHost LibTags LibEvents LibWebGL Wgsl TextDocument JsonScanner JsonFormat
begin

text \<open>
  DOMjudge, a system that runs programming contests: the JavaScript of its web interface. The server (PHP, under
  \<open>src/webapp/src\<close>) renders pages for teams, jury and spectators; \<open>webapp/public/js/domjudge.js\<close> makes them live. It
  keeps the preferences of the user in cookies and in the local storage of the browser, polls the server for a new
  page and for the counters of the menus, sends desktop notifications, puts favourite teams on top of the scoreboard,
  answers keyboard shortcuts, and draws a graph of submissions. The manual has a version switcher of its own. The
  code editor, Monaco, comes with the repository in \<open>webapp/public/js/monaco\<close>; of it, the parts are modelled that have
  a logic of their own that can be read: the tokenizer rules of one language, the text documents of the language
  services with the scanner and the formatter of JSON, the helpers that the TypeScript compiler emits, the host of
  its language service and the declaration files it serves.

  \<^bold>\<open>Shared ground.\<close> \<open>Prelude\<close>: values and exceptions of JavaScript, lemmas on lists, and two interfaces for machines
  driven by events (\<open>event_system\<close>: an invariant kept by all steps holds in all reachable states; \<open>simulation\<close>: every
  run of the code is a run of its specification). \<open>JsString\<close>: the string functions of the language that the code
  calls, with \<open>escape\<close>, \<open>parseInt\<close> and JSON texts. \<open>Browser\<close>: what the code can do to the browser (cookies, storage,
  notifications, commands to jQuery) as a record that is passed on.

  \<^bold>\<open>Components of domjudge.js\<close>, one theory each, with the functions of the same names:
  \<^item> \<open>Cookies\<close> (\<open>setCookie\<close>, \<open>getCookie\<close>): a value read is the one last written.
  \<^item> \<open>Notifications\<close> (\<open>enableNotifications\<close>, \<open>sendNotification\<close>, \<open>enableKeys\<close> and their counterparts): a tag is notified
    at most once; the interface \<open>ledger\<close> states this for any list of things sent that is kept in a cookie.
  \<^item> \<open>Scoreboard\<close> (\<open>getScoreboards\<close>, \<open>getHeart\<close>, \<open>toggle\<close>, \<open>initFavouriteTeams\<close>, \<open>copyRow\<close>) and \<open>HeartClicks\<close>, which puts the
    two halves together. \<open>ScoreboardTable\<close> (\<open>templates/partials/scoreboard_table.html.twig\<close>) has the tables that the
    server writes: on these, with ranking on, the favourites are on top in the order of the board, and a click on
    a heart, in the copy or in the board, switches the team of its row; with ranking off the code raises an exception.
  \<^item> \<open>Refresh\<close> (\<open>enableRefresh\<close>, \<open>disableRefresh\<close>, \<open>toggleRefresh\<close>, \<open>processAjaxResponse\<close>): the timers and requests in
    flight as a step relation; an exception leaves the effects before it. As long as switching off does not meet
    a request in flight, the code refines a poller of one chain; without that, any number of chains go on polling
    while refreshing is off, however the page is left alone.
  \<^item> \<open>MenuAlerts\<close> (\<open>updateMenuAlerts\<close> with its eight updates, \<open>updateClarifications\<close>): the menus follow the answer of the
    server, and no tag is notified twice; events are data of their own (\<open>menu_event\<close>), with the tag that stands for
    each, and all balloons have to share one.
  \<^item> \<open>Shortcuts\<close> (\<open>initializeKeyboardShortcuts\<close>): the handlers of key sequences replace the main handler and put it back.
  \<^item> \<open>Graph\<close> (\<open>createSubmissionGraph\<close>): the buckets of the time axis, on exact rationals; the counts equal a reference that
    counts the submissions between the coordinates of each bucket and the next.
  \<^item> \<open>Clock\<close>, \<open>HumanReadable\<close> (interface \<open>unit_table\<close>), \<open>Preferences\<close>, \<open>Layout\<close>, \<open>Widgets\<close>, \<open>Dialogs\<close>: \<open>updateClock\<close>,
    \<open>humanReadableTimeDiff\<close> and \<open>humanReadableBytes\<close>, the themes of the editor, the fitting of names and badges, the
    small controls, and the dialogs. \<open>Versions\<close> is \<open>doc/manual/_static/js/versionswitcher.js\<close>.

  \<^bold>\<open>Plugins that the pages load\<close> (\<open>webapp/public/js/\<close>, minified):
  \<^item> \<open>Debounce\<close> (\<open>jquery.debounce.min.js\<close>: \<open>debounce\<close>, \<open>throttle\<close>) over timed events, with its one use, the preview of
    clarifications in \<open>domjudge.js\<close>: after a pause in typing the preview is asked for once, with the last text.
  \<^item> \<open>ToggleSwitch\<close> (\<open>bootstrap-toggle.min.js\<close>): the methods of the plugin and its handlers; the switch shows what the
    checkbox under it says, and a click counts once.
  \<^item> \<open>Coloris\<close> (\<open>coloris.min.js\<close>): conversions of colors, opening, picking and closing the picker; what it writes is a
    color, and one session makes at most one \<open>change\<close>. Its numbers are exact rationals.

  \<^bold>\<open>Scripts in the templates\<close> (\<open>webapp/templates/\<close>):
  \<^item> \<open>MenuSwitches\<close> (\<open>jury/base.html.twig\<close>, \<open>team/base.html.twig\<close>): the entries of the menu that switch notifications and
    shortcuts, with the functions of \<open>Notifications\<close>: on every page they show what the cookies and \<open>Shortcuts\<close> do.
  \<^item> \<open>SubmitForm\<close> (\<open>team/partials/submit_scripts.html.twig\<close> and the tables of languages it includes, the language of a
    printout, the list of the files selected): a file that is chosen selects language, problem and entry point.
  \<^item> \<open>RowFilters\<close> (\<open>jury/balloons.html.twig\<close>, \<open>jury/external_contest.html.twig\<close>): the interface \<open>row_filter\<close> holds what both
    pages promise of their filters, their cookie and the hook they give to \<open>Refresh\<close>.
  \<^item> \<open>PageHooks\<close> (\<open>team/index.html.twig\<close>, both \<open>scoreboard.html.twig\<close>): the hooks that run around an answer of \<open>Refresh\<close>;
    the effects that \<open>processAjaxResponse\<close> leaves are carried out on the page.
  \<^item> \<open>ProgressBar\<close> and \<open>Collections\<close> (\<open>jury/jury_macros.twig\<close>, with \<open>config.html.twig\<close> and \<open>language_form.html.twig\<close>):
    reading an answer in the pieces the network cuts it into; adding and deleting rows of forms, whose fields
    must not share a name.

  \<^bold>\<open>Helpers emitted by the TypeScript compiler\<close> (\<open>monaco/vs/language/typescript/tsWorker.js\<close>, lines 33 to 313):
  \<^item> \<open>Generator\<close> (\<open>__generator\<close>): the loop around a body that jumps between labels, with its \<open>try\<close> regions. Errors,
    returns and jumps unwind to the region a reference says; a \<open>finally\<close> block runs once however it is left.
    The loop is a partial function: a body may never give control back.
  \<^item> \<open>Awaiter\<close> (\<open>__awaiter\<close>) composes it to async functions, \<open>AsyncGenerator\<close> (\<open>__asyncGenerator\<close>) serves a queue of requests;
    the reference server takes all requests and all outcomes of promises in order. \<open>AsyncDelegator\<close> (\<open>__asyncDelegator\<close>,
    \<open>__asyncValues\<close>) compares \<open>yield*\<close> over the helper with that of the language.
  \<^item> \<open>ClassHelpers\<close> (\<open>__extends\<close>, \<open>__makeTemplateObject\<close>, \<open>__propKey\<close>, \<open>__setFunctionName\<close>): objects with prototypes in a heap;
    looking for a prototype takes at most one step more than there are objects, since chains have no cycle.
  \<^item> \<open>ModuleInterop\<close> (\<open>__createBinding\<close>, \<open>__importStar\<close>, \<open>__importDefault\<close>, \<open>__exportStar\<close>): objects with property descriptors in a
    heap; re-exported names are live bindings.
  \<^item> \<open>Decorators\<close> (\<open>__decorate\<close>, \<open>__esDecorate\<close>, \<open>__runInitializers\<close>, \<open>__metadata\<close>, \<open>__param\<close>), \<open>ObjectHelpers\<close> (\<open>__assign\<close>, \<open>__rest\<close>), \<open>Iteration\<close>
    (\<open>__values\<close>, \<open>__read\<close>, \<open>__spreadArray\<close>), \<open>PrivateFields\<close> (\<open>__classPrivateFieldGet\<close>, \<open>Set\<close>, \<open>In\<close>), \<open>Disposables\<close>
    (\<open>__addDisposableResource\<close>, \<open>__disposeResources\<close>).

  \<^bold>\<open>Documents and JSON in the editor\<close> (\<open>monaco/vs/language/html/htmlWorker.js\<close>, lines 8 to 10, and
  \<open>monaco/vs/language/json/jsonWorker.js\<close>, lines 8 to 22, 39 and 40), on lists of UTF-16 code units:
  \<^item> \<open>TextDocument\<close>: both classes of documents with their tables of lines. A change patches text and table together;
    where its positions are in the text and no pair of carriage return and line feed is made or cut, the outcome is
    what computing the table anew gives, and outside of that \<open>table_goes_wrong\<close> shows how they part. The two
    functions that apply lists of edits agree.
  \<^item> \<open>JsonScanner\<close>: tokens with their offsets, lines and errors. Every step consumes text until the end, so the length
    of the text bounds the number of tokens; their lines are those of \<open>TextDocument\<close>.
  \<^item> \<open>JsonFormat\<close>: the formatter over the scanner. It only proposes white space for white space, between tokens, in
    order; carried out by \<open>applyEdits\<close> through positions of the document, all other characters of the text stay. Its
    loop consumes a token in each round, so that fuel of the length of the text and one is enough. Its table of line
    ends has 200 entries (\<open>indentation_200\<close>).

  \<^bold>\<open>The rest of the editor.\<close> \<open>TsHost\<close>: the host of the language service (line 51312) and the table of libraries; following
  the references between libraries ends after at most 14 levels, the rank of the deepest library being 13.
  \<open>Declarations\<close> reads declarations as data; \<open>LibTags\<close>, \<open>LibEvents\<close> and \<open>LibWebGL\<close> hold element types, event types and
  WebGL constants of \<open>lib.dom.d.ts\<close>, with their order of names checked so that large tables are compared in one pass.
  \<open>Monarch\<close>: the loop of the tokenizer (\<open>editor.main.js\<close>, lines 120 and 623), with an interface \<open>productive_lexer\<close>: when
  every rule consumes text or leaves the state, as many rounds as the interface computes from the length of
  the line are enough; \<open>Wgsl\<close> (\<open>basic-languages/wgsl/wgsl.js\<close>) is an instance.

  \<^bold>\<open>Numbers.\<close> JavaScript numbers are integers or rationals here; the code computes with amounts far below \<open>2 ^ 53\<close>, where
  integer arithmetic in doubles is exact; rounding of quotients in doubles is not modelled, nor is code whose
  outcome rests on it (the axis of the run times in \<open>jury/partials/submission_graph.html.twig\<close>, with steps of 0.2).

  \<^bold>\<open>Not modelled.\<close> The drawing of the graph (nv.d3), the layout engine, jQuery and Bootstrap beyond the calls recorded in
  \<open>Browser\<close>; of the TypeScript compiler everything but the helpers it emits and the host, for it is minified to
  lines of several hundred thousand characters, as are the core of Monaco and its other languages; of the language
  services of HTML, CSS and JSON what goes beyond documents, scanner and formatter; the methods in the declaration
  files; in the templates, the scripts that only configure charts or show and hide fields; in the
  plugins, placing and sizes in pixels; the server and the judging backend, which are not JavaScript.
\<close>

end
